(* ===== verification/Citadel_Prelude.thy ===== *)
theory Citadel_Prelude
  imports Main "HOL-Library.Word"
begin

text \<open>
  Shared vocabulary of the development.

  \<^item> Rust's \<^verbatim>\<open>u8\<close>, \<^verbatim>\<open>u16\<close>, \<^verbatim>\<open>u32\<close>, \<^verbatim>\<open>u64\<close> are words of their width; \<^verbatim>\<open>usize\<close> is a
    \<open>nat\<close> (the code's target is 64 bit), with the bound written out where the code checks it.
  \<^item> \<^verbatim>\<open>&[u8]\<close>, \<^verbatim>\<open>Vec<u8>\<close> and \<^verbatim>\<open>[u8; N]\<close> are lists of bytes; the length of an array is a
    hypothesis of the lemmas that need it.
  \<^item> \<^verbatim>\<open>&str\<close> and \<^verbatim>\<open>String\<close> are HOL strings, one \<open>char\<close> per UTF-8 byte, so
    \<open>as_bytes\<close> is the character-wise conversion.
  \<^item> \<^verbatim>\<open>Result<T, E>\<close> is \<open>E + T\<close>: \<open>Inl\<close> the error, \<open>Inr\<close> the value.

  The lemmas are about big-endian integers, slices of a byte string, association lists (the
  model of a hash map whose iteration order is not specified) and a generic codec interface,
  the locale \<open>codec\<close>, that the wire formats interpret.
\<close>

section \<open>Types\<close>

type_synonym byte = "8 word"
type_synonym bytes = "byte list"
type_synonym u16 = "16 word"
type_synonym u32 = "32 word"
type_synonym u64 = "64 word"
type_synonym u128 = "128 word"

datatype decryption_error = DecryptionError
datatype encoding_error = EncodingError

named_theorems wire_consts \<open>the numeric constants of the wire formats\<close>
named_theorems lifecycle_simps \<open>the key life-cycle tables\<close>
named_theorems byte_simps \<open>lengths and slices of byte strings\<close>

definition as_bytes :: "string \<Rightarrow> bytes" where
  "as_bytes s = map of_char s"

definition slice :: "nat \<Rightarrow> nat \<Rightarrow> 'a list \<Rightarrow> 'a list" where
  "slice a b xs = take (b - a) (drop a xs)"

definition starts_with :: "'a list \<Rightarrow> 'a list \<Rightarrow> bool" where
  "starts_with xs p = (take (length p) xs = p)"

section \<open>Results\<close>

text \<open>\<open>and_then\<close> is Rust's \<^verbatim>\<open>?\<close> (and \<^verbatim>\<open>Result::and_then\<close>); \<open>to_array\<close> is \<^verbatim>\<open>try_into\<close> from a slice to an
  array of \<open>n\<close> elements, with the error the code maps the failure to.\<close>

fun and_then :: "'e + 'a \<Rightarrow> ('a \<Rightarrow> 'e + 'b) \<Rightarrow> 'e + 'b" where
  "and_then (Inl e) f = Inl e"
| "and_then (Inr x) f = f x"

fun map_err :: "('e \<Rightarrow> 'f) \<Rightarrow> 'e + 'a \<Rightarrow> 'f + 'a" where
  "map_err g (Inl e) = Inl (g e)"
| "map_err g (Inr x) = Inr x"

fun ok_or :: "'a option \<Rightarrow> 'e \<Rightarrow> 'e + 'a" where
  "ok_or None e = Inl e"
| "ok_or (Some x) e = Inr x"

fun is_ok :: "'e + 'a \<Rightarrow> bool" where
  "is_ok (Inl e) = False"
| "is_ok (Inr x) = True"

definition to_array :: "nat \<Rightarrow> 'e \<Rightarrow> 'a list \<Rightarrow> 'e + 'a list" where
  "to_array n e xs = (if length xs = n then Inr xs else Inl e)"

section \<open>Machine arithmetic\<close>

definition usize_checked_add :: "nat \<Rightarrow> nat \<Rightarrow> nat option" where
  "usize_checked_add a b = (if a + b < 2 ^ 64 then Some (a + b) else None)"

definition checked_succ :: "'a::len word \<Rightarrow> 'a word option" where
  "checked_succ w = (if unat w + 1 < 2 ^ LENGTH('a) then Some (w + 1) else None)"

definition saturating_sub :: "'a::len word \<Rightarrow> 'a word \<Rightarrow> 'a word" where
  "saturating_sub a b = (if a < b then 0 else a - b)"

section \<open>Big-endian integers\<close>

fun be_bytes :: "nat \<Rightarrow> nat \<Rightarrow> bytes" where
  "be_bytes 0 v = []"
| "be_bytes (Suc n) v = be_bytes n (v div 256) @ [word_of_nat (v mod 256)]"

definition be_nat :: "bytes \<Rightarrow> nat" where
  "be_nat bs = foldl (\<lambda>acc b. acc * 256 + unat b) 0 bs"

definition u16_be :: "u16 \<Rightarrow> bytes" where
  "u16_be w = be_bytes 2 (unat w)"

definition u32_be :: "u32 \<Rightarrow> bytes" where
  "u32_be w = be_bytes 4 (unat w)"

definition u64_be :: "u64 \<Rightarrow> bytes" where
  "u64_be w = be_bytes 8 (unat w)"

definition be_u16 :: "bytes \<Rightarrow> u16" where
  "be_u16 bs = word_of_nat (be_nat bs)"

definition be_u32 :: "bytes \<Rightarrow> u32" where
  "be_u32 bs = word_of_nat (be_nat bs)"

definition be_u64 :: "bytes \<Rightarrow> u64" where
  "be_u64 bs = word_of_nat (be_nat bs)"

section \<open>Decimal printing\<close>

text \<open>\<^verbatim>\<open>format!("{}", n)\<close> of an unsigned integer.\<close>

fun show_nat :: "nat \<Rightarrow> string" where
  "show_nat n = (if n < 10 then [char_of (48 + n)] else show_nat (n div 10) @ [char_of (48 + n mod 10)])"

declare show_nat.simps [simp del]

text \<open>\<^verbatim>\<open>format!("{:?}", s)\<close> of a string in which no character needs escaping.\<close>

definition debug_str :: "string \<Rightarrow> string" where
  "debug_str s = [CHR 0x22] @ s @ [CHR 0x22]"

text \<open>Quoted text, the two UTF-8 symbols the messages use, and \<^verbatim>\<open>slice::join\<close>.\<close>

definition quoted :: "string \<Rightarrow> string" where
  "quoted s = [CHR 0x27] @ s @ [CHR 0x27]"

definition em_dash :: string where "em_dash = [CHR 0xE2, CHR 0x80, CHR 0x94]"
definition right_arrow :: string where "right_arrow = [CHR 0xE2, CHR 0x86, CHR 0x92]"

fun join :: "string \<Rightarrow> string list \<Rightarrow> string" where
  "join sep [] = []"
| "join sep [x] = x"
| "join sep (x # y # ys) = x @ sep @ join sep (y # ys)"

section \<open>Association lists as hash maps\<close>

text \<open>\<open>al_put\<close> replaces in place, as \<^verbatim>\<open>HashMap::insert\<close> on an occupied entry; a new key goes to
  the end. The list order stands for the (unspecified) iteration order.\<close>

fun al_put :: "'k \<Rightarrow> 'v \<Rightarrow> ('k \<times> 'v) list \<Rightarrow> ('k \<times> 'v) list" where
  "al_put k v [] = [(k, v)]"
| "al_put k v ((k', v') # kvs) = (if k = k' then (k, v) # kvs else (k', v') # al_put k v kvs)"

definition al_del :: "'k \<Rightarrow> ('k \<times> 'v) list \<Rightarrow> ('k \<times> 'v) list" where
  "al_del k kvs = filter (\<lambda>kv. fst kv \<noteq> k) kvs"

definition al_retain :: "('v \<Rightarrow> bool) \<Rightarrow> ('k \<times> 'v) list \<Rightarrow> ('k \<times> 'v) list" where
  "al_retain P kvs = filter (\<lambda>kv. P (snd kv)) kvs"

abbreviation al_keys :: "('k \<times> 'v) list \<Rightarrow> 'k list" where
  "al_keys kvs \<equiv> map fst kvs"

section \<open>Lemmas on results\<close>

lemma and_then_eq_Inr [simp]: "and_then r f = Inr y \<longleftrightarrow> (\<exists>x. r = Inr x \<and> f x = Inr y)"
  by (cases r) auto

lemma and_then_assoc: "and_then (and_then r f) g = and_then r (\<lambda>x. and_then (f x) g)"
  by (cases r) auto

lemma and_then_eq_Inl: "and_then r f = Inl e \<longleftrightarrow> r = Inl e \<or> (\<exists>x. r = Inr x \<and> f x = Inl e)"
  by (cases r) auto

lemma map_err_eq_Inr [simp]: "map_err g r = Inr x \<longleftrightarrow> r = Inr x"
  by (cases r) auto

lemma ok_or_eq_Inr [simp]: "ok_or r e = Inr x \<longleftrightarrow> r = Some x"
  by (cases r) auto

lemma to_array_eq_Inr [simp]: "to_array n e xs = Inr ys \<longleftrightarrow> length xs = n \<and> ys = xs"
  by (auto simp: to_array_def)

lemma is_ok_iff: "is_ok r \<longleftrightarrow> (\<exists>x. r = Inr x)"
  by (cases r) auto

lemma if_Inl_eq_Inr [simp]: "(if b then Inl e else r) = Inr x \<longleftrightarrow> \<not> b \<and> r = Inr x"
  by auto

lemma ex_Inl_iff: "(\<exists>e. r = Inl e) \<longleftrightarrow> (\<forall>x. r \<noteq> Inr x)"
  by (cases r) auto

section \<open>Lemmas on byte strings\<close>

lemma unat_bound: "unat (w :: 'a::len word) < 2 ^ LENGTH('a)"
  by (rule unsigned_less)

lemma length_as_bytes [simp, byte_simps]: "length (as_bytes s) = length s"
  by (simp add: as_bytes_def)

lemma as_bytes_append [simp]: "as_bytes (s @ t) = as_bytes s @ as_bytes t"
  by (simp add: as_bytes_def)

lemma of_char_byte_inj: "(of_char c :: byte) = of_char d \<longleftrightarrow> c = d"
proof
  assume eq: "(of_char c :: byte) = of_char d"
  have c: "unat (of_char c :: byte) = of_char c" for c
  proof -
    have "(of_char c :: byte) = word_of_nat (of_char c)"
      by (simp add: of_nat_of_char)
    moreover have "of_char c < (256::nat)"
      using range_nat_of_char by (metis atLeastLessThan_iff rangeI)
    ultimately show ?thesis
      by (simp add: unat_of_nat)
  qed
  have "(of_char c :: nat) = of_char d"
    using arg_cong [where f = unat, OF eq] by (simp only: c)
  then show "c = d" by simp
qed simp

lemma as_bytes_inj [simp]: "as_bytes s = as_bytes t \<longleftrightarrow> s = t"
  unfolding as_bytes_def
  by (rule inj_map_eq_map) (auto simp: inj_def of_char_byte_inj)

text \<open>The inverse of \<open>as_bytes\<close>.\<close>

definition chars_of :: "bytes \<Rightarrow> string" where
  "chars_of b = map (\<lambda>w. char_of (unat w)) b"

lemma as_bytes_chars_of [simp]: "as_bytes (chars_of b) = b"
proof -
  have "(of_char (char_of (unat w) :: char) :: byte) = w" for w :: byte
  proof -
    have "(of_char (char_of (unat w) :: char) :: byte) = word_of_nat (of_char (char_of (unat w) :: char))"
      by (simp only: of_nat_of_char)
    also have "\<dots> = w" using unat_bound [of w] by (simp add: of_char_of)
    finally show ?thesis .
  qed
  then show ?thesis by (simp add: as_bytes_def chars_of_def comp_def)
qed

lemma inj_chars_of: "inj chars_of"
  by (metis as_bytes_chars_of injI)

lemma starts_with_Nil: "starts_with xs []"
  by (simp add: starts_with_def)

lemma starts_with_Cons: "starts_with xs (p # ps) \<longleftrightarrow> (\<exists>ys. xs = p # ys \<and> starts_with ys ps)"
  by (cases xs) (auto simp: starts_with_def)

lemmas starts_with_simps = starts_with_Nil starts_with_Cons

lemma starts_with_append [simp]: "starts_with (p @ s) p"
  by (simp add: starts_with_def)

lemma length_slice [byte_simps]: "b \<le> length xs \<Longrightarrow> length (slice a b xs) = b - a"
  by (simp add: slice_def)

lemma slice_append_left [byte_simps]: "b \<le> length xs \<Longrightarrow> slice a b (xs @ ys) = slice a b xs"
  by (simp add: slice_def)

lemma slice_append_right:
  "length xs \<le> a \<Longrightarrow> slice a b (xs @ ys) = slice (a - length xs) (b - length xs) ys"
  by (simp add: slice_def)

lemma take_slice: "a \<le> b \<Longrightarrow> take a xs @ slice a b xs = take b xs"
  by (metis slice_def le_add_diff_inverse take_add)

lemma slice_drop: "a \<le> b \<Longrightarrow> slice a b xs @ drop b xs = drop a xs"
  by (metis slice_def append_take_drop_id drop_drop le_add_diff_inverse2)

lemma slice_slice: "a \<le> b \<Longrightarrow> b \<le> c \<Longrightarrow> slice a b xs @ slice b c xs = slice a c xs"
proof -
  assume "a \<le> b" "b \<le> c"
  then have "take (b - a) (drop a xs) @ take (c - b) (drop (b - a) (drop a xs)) =
      take (b - a + (c - b)) (drop a xs)"
    by (simp only: take_add)
  with \<open>a \<le> b\<close> \<open>b \<le> c\<close> show ?thesis by (simp add: slice_def)
qed

lemma slice_take: "b \<le> n \<Longrightarrow> slice a b (take n xs) = slice a b xs"
  by (simp add: slice_def drop_take min_absorb1)

lemma nth_slice: "a + i < b \<Longrightarrow> b \<le> length xs \<Longrightarrow> slice a b xs ! i = xs ! (a + i)"
  by (simp add: slice_def)

lemma slice_two: "Suc a < length xs \<Longrightarrow> slice a (a + 2) xs = [xs ! a, xs ! Suc a]"
  by (rule nth_equalityI) (auto simp: slice_def less_Suc_eq numeral_2_eq_2)

lemma slice_one: "a < length xs \<Longrightarrow> slice a (Suc a) xs = [xs ! a]"
  by (simp add: slice_def take_Suc_conv_app_nth)

lemma take_map_nth: "n \<le> length xs \<Longrightarrow> take n xs = map (nth xs) [0..<n]"
  by (rule nth_equalityI) simp_all

lemma take_extend:
  "m \<le> n \<Longrightarrow> n \<le> length xs \<Longrightarrow> take n xs = take m xs @ map (nth xs) [m..<n]"
  by (rule nth_equalityI) (auto simp: nth_append)

lemma word_eq_of_unat: "unat (w :: 'a::len word) = n \<Longrightarrow> w = word_of_nat n"
  by auto

section \<open>Lemmas on big-endian integers\<close>

lemma length_be_bytes [simp, byte_simps]: "length (be_bytes n v) = n"
  by (induction n arbitrary: v) auto

lemma be_bytes_two: "be_bytes 2 v = [word_of_nat (v div 256 mod 256), word_of_nat (v mod 256)]"
  by (simp add: numeral_2_eq_2)

lemma be_nat_append_one: "be_nat (bs @ [b]) = be_nat bs * 256 + unat b"
  by (simp add: be_nat_def)

lemma be_nat_Nil [simp]: "be_nat [] = 0"
  by (simp add: be_nat_def)

lemma be_nat_be_bytes: "be_nat (be_bytes n v) = v mod 256 ^ n"
proof (induction n arbitrary: v)
  case (Suc n)
  have "v mod 256 ^ Suc n = 256 * (v div 256 mod 256 ^ n) + v mod 256"
    using mod_mult2_eq [of v 256 "256 ^ n"] by simp
  then show ?case by (simp add: be_nat_append_one Suc.IH unat_of_nat)
qed simp

lemma be_bytes_be_nat: "be_bytes (length bs) (be_nat bs) = bs"
proof (induction bs rule: rev_induct)
  case (snoc b bs)
  have lt: "unat b < 256" using unat_bound [of b] by simp
  then have "(be_nat bs * 256 + unat b) div 256 = be_nat bs"
    and "(be_nat bs * 256 + unat b) mod 256 = unat b" by simp_all
  with snoc show ?case by (simp add: be_nat_append_one)
qed simp

lemma be_bytes_inj: "v < 256 ^ n \<Longrightarrow> w < 256 ^ n \<Longrightarrow> be_bytes n v = be_bytes n w \<longleftrightarrow> v = w"
  by (metis be_nat_be_bytes mod_less)

lemma be_nat_less: "be_nat bs < 256 ^ length bs"
  by (metis be_bytes_be_nat be_nat_be_bytes mod_less_divisor zero_less_numeral zero_less_power)

lemma length_u16_be [simp, byte_simps]: "length (u16_be w) = 2"
  by (simp add: u16_be_def)

lemma length_u32_be [simp, byte_simps]: "length (u32_be w) = 4"
  by (simp add: u32_be_def)

lemma length_u64_be [simp, byte_simps]: "length (u64_be w) = 8"
  by (simp add: u64_be_def)

lemma be_u16_u16_be [simp]: "be_u16 (u16_be w) = w"
  using unat_bound [of w] by (simp add: be_u16_def u16_be_def be_nat_be_bytes)

lemma be_u32_u32_be [simp]: "be_u32 (u32_be w) = w"
  using unat_bound [of w] by (simp add: be_u32_def u32_be_def be_nat_be_bytes)

lemma be_u64_u64_be [simp]: "be_u64 (u64_be w) = w"
  using unat_bound [of w] by (simp add: be_u64_def u64_be_def be_nat_be_bytes)

lemma unat_be_u16: "length bs = 2 \<Longrightarrow> unat (be_u16 bs) = be_nat bs"
  using be_nat_less [of bs] by (simp add: be_u16_def unat_of_nat)

lemma unat_be_u32: "length bs = 4 \<Longrightarrow> unat (be_u32 bs) = be_nat bs"
  using be_nat_less [of bs] by (simp add: be_u32_def unat_of_nat)

lemma unat_be_u64: "length bs = 8 \<Longrightarrow> unat (be_u64 bs) = be_nat bs"
  using be_nat_less [of bs] by (simp add: be_u64_def unat_of_nat)

lemma u16_be_be_u16: "length bs = 2 \<Longrightarrow> u16_be (be_u16 bs) = bs"
  using be_bytes_be_nat [of bs] by (simp add: u16_be_def unat_be_u16)

lemma u32_be_be_u32: "length bs = 4 \<Longrightarrow> u32_be (be_u32 bs) = bs"
  using be_bytes_be_nat [of bs] by (simp add: u32_be_def unat_be_u32)

lemma u64_be_be_u64: "length bs = 8 \<Longrightarrow> u64_be (be_u64 bs) = bs"
  using be_bytes_be_nat [of bs] by (simp add: u64_be_def unat_be_u64)

lemma be_u16_eq_iff:
  "n < 2 ^ 16 \<Longrightarrow> unat (be_u16 [x, y]) = n \<longleftrightarrow> [x, y] = u16_be (word_of_nat n)"
proof
  assume "unat (be_u16 [x, y]) = n"
  then have "u16_be (be_u16 [x, y]) = u16_be (word_of_nat n)" by (metis word_eq_of_unat)
  then show "[x, y] = u16_be (word_of_nat n)" by (simp add: u16_be_be_u16)
next
  assume n: "n < 2 ^ 16" and "[x, y] = u16_be (word_of_nat n)"
  then have "be_u16 [x, y] = word_of_nat n" by (metis be_u16_u16_be)
  with n show "unat (be_u16 [x, y]) = n" by (simp add: unat_of_nat)
qed

lemma be_u64_eq_iff:
  "n < 2 ^ 64 \<Longrightarrow> length bs = 8 \<Longrightarrow> unat (be_u64 bs) = n \<longleftrightarrow> bs = u64_be (word_of_nat n)"
proof
  assume "unat (be_u64 bs) = n" and l: "length bs = 8"
  then have "u64_be (be_u64 bs) = u64_be (word_of_nat n)" by (metis word_eq_of_unat)
  with l show "bs = u64_be (word_of_nat n)" by (simp add: u64_be_be_u64)
next
  assume n: "n < 2 ^ 64" and "bs = u64_be (word_of_nat n)"
  then have "be_u64 bs = word_of_nat n" by (metis be_u64_u64_be)
  with n show "unat (be_u64 bs) = n" by (simp add: unat_of_nat)
qed

lemma u32_be_inj [simp]: "u32_be v = u32_be w \<longleftrightarrow> v = w"
  by (metis be_u32_u32_be)

lemma u64_be_inj [simp]: "u64_be v = u64_be w \<longleftrightarrow> v = w"
  by (metis be_u64_u64_be)

text \<open>A field preceded by its length parses in one way.\<close>

lemma length_prefix_inj:
  assumes "length a < 256 ^ n" "length b < 256 ^ n"
    and "be_bytes n (length a) @ a @ r = be_bytes n (length b) @ b @ s"
  shows "a = b \<and> r = s"
proof -
  from assms(3) have "be_bytes n (length a) = be_bytes n (length b)" and ab: "a @ r = b @ s" by auto
  with assms(1,2) have "length a = length b" by (simp add: be_bytes_inj)
  with ab show ?thesis by simp
qed

lemma u16_prefix_inj:
  "length a < 2 ^ 16 \<Longrightarrow> length b < 2 ^ 16 \<Longrightarrow>
   u16_be (word_of_nat (length a)) @ a @ r = u16_be (word_of_nat (length b)) @ b @ s \<Longrightarrow> a = b \<and> r = s"
  by (rule length_prefix_inj [of a 2 b r s]) (simp_all add: u16_be_def unat_of_nat)

lemma u32_prefix_inj:
  "length a < 2 ^ 32 \<Longrightarrow> length b < 2 ^ 32 \<Longrightarrow>
   u32_be (word_of_nat (length a)) @ a @ r = u32_be (word_of_nat (length b)) @ b @ s \<Longrightarrow> a = b \<and> r = s"
  by (rule length_prefix_inj [of a 4 b r s]) (simp_all add: u32_be_def unat_of_nat)

lemma checked_succ_Some: "checked_succ w = Some v \<Longrightarrow> unat v = unat w + 1"
  by (auto simp: checked_succ_def unat_word_ariths split: if_splits)

section \<open>Lemmas on association lists\<close>

lemma map_of_al_put [simp]: "map_of (al_put k v kvs) = (map_of kvs)(k \<mapsto> v)"
  by (induction kvs) (auto simp: fun_eq_iff)

lemma set_al_keys_put [simp]: "set (al_keys (al_put k v kvs)) = insert k (set (al_keys kvs))"
  by (induction k v kvs rule: al_put.induct) auto

lemma distinct_al_put [simp]: "distinct (al_keys kvs) \<Longrightarrow> distinct (al_keys (al_put k v kvs))"
proof (induction kvs)
  case (Cons kv kvs)
  obtain k' v' where kv: "kv = (k', v')" by (cases kv)
  have "set (al_keys (al_put k v kvs)) = insert k (set (al_keys kvs))" by (rule set_al_keys_put)
  with Cons kv show ?case by auto
qed simp

lemma set_al_put:
  "distinct (al_keys kvs) \<Longrightarrow> set (al_put k v kvs) = insert (k, v) {kv \<in> set kvs. fst kv \<noteq> k}"
proof (induction kvs)
  case (Cons kv kvs)
  then show ?case by (cases kv) (auto simp: rev_image_eqI)
qed simp

lemma map_of_al_del [simp]: "map_of (al_del k kvs) = (map_of kvs)(k := None)"
  by (induction kvs) (auto simp: al_del_def fun_eq_iff)

lemma distinct_al_del [simp]: "distinct (al_keys kvs) \<Longrightarrow> distinct (al_keys (al_del k kvs))"
  by (simp add: al_del_def distinct_map_filter)

lemma distinct_al_retain [simp]: "distinct (al_keys kvs) \<Longrightarrow> distinct (al_keys (al_retain P kvs))"
  by (simp add: al_retain_def distinct_map_filter)

lemma map_of_al_retain:
  "distinct (al_keys kvs) \<Longrightarrow>
   map_of (al_retain P kvs) k =
     (case map_of kvs k of None \<Rightarrow> None | Some v \<Rightarrow> if P v then Some v else None)"
proof (induction kvs)
  case (Cons kv kvs)
  obtain k' v' where kv: "kv = (k', v')" by (cases kv)
  show ?case
  proof (cases "k = k'")
    case True
    with Cons.prems kv have "map_of kvs k = None" by (auto simp: map_of_eq_None_iff)
    with Cons kv True show ?thesis by (auto simp: al_retain_def)
  next
    case False
    with Cons kv show ?thesis by (auto simp: al_retain_def)
  qed
qed (simp add: al_retain_def)

lemma al_retain_put_new: "P v \<Longrightarrow> map_of (al_retain P (al_put k v kvs)) k = Some v"
  by (induction kvs) (auto simp: al_retain_def)

section \<open>A byte codec\<close>

text \<open>
  What the code promises of every framing it defines: a message that encodes is decoded to
  itself, and a byte string that decodes is the encoding of what it decodes to. The second law is
  what makes a format canonical: there is no second byte string for the same message.
  \<open>valid\<close> carries what Rust's types say of a message (array lengths, fixed fields).
\<close>

locale codec =
  fixes valid :: "'m \<Rightarrow> bool"
    and encode :: "'m \<Rightarrow> 'e + bytes"
    and decode :: "bytes \<Rightarrow> 'd + 'm"
  assumes decode_of_encode: "valid m \<Longrightarrow> encode m = Inr bs \<Longrightarrow> decode bs = Inr m"
    and valid_of_decode: "decode bs = Inr m \<Longrightarrow> valid m"
    and encode_of_decode: "decode bs = Inr m \<Longrightarrow> encode m = Inr bs"
begin

lemma accepted_iff: "decode bs = Inr m \<longleftrightarrow> valid m \<and> encode m = Inr bs"
  using decode_of_encode encode_of_decode valid_of_decode by blast

lemma encode_unambiguous:
  "valid m \<Longrightarrow> valid m' \<Longrightarrow> encode m = Inr bs \<Longrightarrow> encode m' = Inr bs \<Longrightarrow> m = m'"
  using decode_of_encode [of m bs] decode_of_encode [of m' bs] by simp

lemma decode_not_malleable: "decode bs = Inr m \<Longrightarrow> decode bs' = Inr m \<Longrightarrow> bs = bs'"
  using encode_of_decode [of bs m] encode_of_decode [of bs' m] by simp

lemma rejects_iff: "(\<exists>e. decode bs = Inl e) \<longleftrightarrow> (\<forall>m. valid m \<longrightarrow> encode m \<noteq> Inr bs)"
  by (auto simp: ex_Inl_iff accepted_iff)

end

end
