(* ===== verification/Wire.thy ===== *)
theory Wire
  imports Citadel_Prelude
begin

text \<open>
  \<^verbatim>\<open>citadel-envelope/src/wire.rs\<close>: the suite table, the v1 envelope codec and the header of the v2
  stream. The v1 codec is an interpretation of the interface \<open>codec\<close> of the prelude. The
  function \<^verbatim>\<open>envelope_nonce\<close> of the same file needs the CTD2 decoder and is in \<open>Wire_V2\<close>.
\<close>

section \<open>Constants\<close>

definition PROTOCOL_ID :: bytes where [wire_consts]: "PROTOCOL_ID = as_bytes ''citadel-env-v1''"
definition PROTOCOL_VERSION :: byte where [wire_consts]: "PROTOCOL_VERSION = 0x01"
definition SUITE_KEM_HYBRID_X25519_MLKEM768 :: byte where
  [wire_consts]: "SUITE_KEM_HYBRID_X25519_MLKEM768 = 0xA3"
definition SUITE_AEAD_AES256GCM :: byte where [wire_consts]: "SUITE_AEAD_AES256GCM = 0xB1"
definition SUITE_KEM_HYBRID_P384_MLKEM1024 :: byte where
  [wire_consts]: "SUITE_KEM_HYBRID_P384_MLKEM1024 = 0xA4"
definition SUITE_KEM_RESERVED_X25519_MLKEM1024 :: byte where
  [wire_consts]: "SUITE_KEM_RESERVED_X25519_MLKEM1024 = 0xA5"
definition SUITE_KEM_RESERVED_PURE_MLKEM1024 :: byte where
  [wire_consts]: "SUITE_KEM_RESERVED_PURE_MLKEM1024 = 0xA6"
definition FLAGS_V1 :: byte where [wire_consts]: "FLAGS_V1 = 0x00"

definition X25519_KEY_BYTES :: nat where [wire_consts]: "X25519_KEY_BYTES = 32"
definition MLKEM_CIPHERTEXT_BYTES :: nat where [wire_consts]: "MLKEM_CIPHERTEXT_BYTES = 1088"
definition MLKEM_PUBLIC_KEY_BYTES :: nat where [wire_consts]: "MLKEM_PUBLIC_KEY_BYTES = 1184"
definition MLKEM_SECRET_KEY_BYTES :: nat where [wire_consts]: "MLKEM_SECRET_KEY_BYTES = 2400"
definition KEM_CIPHERTEXT_BYTES :: nat where
  [wire_consts]: "KEM_CIPHERTEXT_BYTES = X25519_KEY_BYTES + MLKEM_CIPHERTEXT_BYTES"
definition KEM_PUBLIC_KEY_BYTES :: nat where
  [wire_consts]: "KEM_PUBLIC_KEY_BYTES = X25519_KEY_BYTES + MLKEM_PUBLIC_KEY_BYTES"
definition KEM_SECRET_KEY_BYTES :: nat where
  [wire_consts]: "KEM_SECRET_KEY_BYTES = X25519_KEY_BYTES + MLKEM_SECRET_KEY_BYTES"
definition SHARED_SECRET_BYTES :: nat where [wire_consts]: "SHARED_SECRET_BYTES = 32"
definition NONCE_BYTES :: nat where [wire_consts]: "NONCE_BYTES = 12"
definition AEAD_TAG_BYTES :: nat where [wire_consts]: "AEAD_TAG_BYTES = 16"
definition AES_KEY_BYTES :: nat where [wire_consts]: "AES_KEY_BYTES = 32"
definition HEADER_BYTES :: nat where "HEADER_BYTES = 1 + 1 + 1 + 1 + 2"
definition MIN_CIPHERTEXT_BYTES :: nat where
  [wire_consts]: "MIN_CIPHERTEXT_BYTES =
     HEADER_BYTES + KEM_CIPHERTEXT_BYTES + NONCE_BYTES + AEAD_TAG_BYTES"
definition NONCE_OFFSET :: nat where
  [wire_consts]: "NONCE_OFFSET = HEADER_BYTES + KEM_CIPHERTEXT_BYTES"
definition AEAD_CT_OFFSET :: nat where
  [wire_consts]: "AEAD_CT_OFFSET = NONCE_OFFSET + NONCE_BYTES"

definition STREAM_VERSION :: byte where [wire_consts]: "STREAM_VERSION = 0x02"
definition FLAGS_STREAM :: byte where [wire_consts]: "FLAGS_STREAM = 0x01"
definition STREAM_HEADER_BYTES :: nat where
  [wire_consts]: "STREAM_HEADER_BYTES = HEADER_BYTES + KEM_CIPHERTEXT_BYTES"
definition STREAM_CHUNK_HEADER_BYTES :: nat where
  "STREAM_CHUNK_HEADER_BYTES = 4 + 1 + NONCE_BYTES"
definition STREAM_MIN_CHUNK_BYTES :: nat where
  [wire_consts]: "STREAM_MIN_CHUNK_BYTES = STREAM_CHUNK_HEADER_BYTES + AEAD_TAG_BYTES"

lemma HEADER_BYTES_eq [wire_consts]: "HEADER_BYTES = 6"
  by (simp add: HEADER_BYTES_def)

lemma STREAM_CHUNK_HEADER_BYTES_eq [wire_consts]: "STREAM_CHUNK_HEADER_BYTES = 17"
  by (simp add: STREAM_CHUNK_HEADER_BYTES_def wire_consts)

section \<open>The suite table\<close>

record SuiteParams =
  suite_kem :: byte
  kem_ciphertext_bytes :: nat
  kem_public_key_bytes :: nat
  kem_secret_key_bytes :: nat

definition SUITE_TABLE :: "SuiteParams list" where
  "SUITE_TABLE =
    [\<lparr> suite_kem = SUITE_KEM_HYBRID_X25519_MLKEM768,
       kem_ciphertext_bytes = KEM_CIPHERTEXT_BYTES,
       kem_public_key_bytes = KEM_PUBLIC_KEY_BYTES,
       kem_secret_key_bytes = KEM_SECRET_KEY_BYTES \<rparr>,
     \<lparr> suite_kem = SUITE_KEM_HYBRID_P384_MLKEM1024,
       kem_ciphertext_bytes = 1665,
       kem_public_key_bytes = 1665,
       kem_secret_key_bytes = 112 \<rparr>]"

text \<open>The two \<^verbatim>\<open>while\<close> loops over the table, as recursion over its rows.\<close>

fun find_suite :: "SuiteParams list \<Rightarrow> byte \<Rightarrow> SuiteParams option" where
  "find_suite [] b = None"
| "find_suite (row # rows) b = (if suite_kem row = b then Some row else find_suite rows b)"

definition suite_params :: "byte \<Rightarrow> SuiteParams option" where
  "suite_params b = find_suite SUITE_TABLE b"

fun min_kem_loop :: "SuiteParams list \<Rightarrow> nat \<Rightarrow> nat" where
  "min_kem_loop [] m = m"
| "min_kem_loop (row # rows) m =
     min_kem_loop rows (if kem_ciphertext_bytes row < m then kem_ciphertext_bytes row else m)"

definition min_kem_ciphertext_bytes :: nat where
  "min_kem_ciphertext_bytes = min_kem_loop SUITE_TABLE (2 ^ 64 - 1)"

definition MIN_KEM_CIPHERTEXT_BYTES :: nat where
  "MIN_KEM_CIPHERTEXT_BYTES = min_kem_ciphertext_bytes"

section \<open>The v1 envelope\<close>

record WireComponents =
  wc_version :: byte
  wc_suite_kem :: byte
  wc_suite_aead :: byte
  wc_flags :: byte
  wc_kem_ct_len :: u16
  wc_kem_ciphertext :: bytes
  wc_nonce :: bytes
  wc_aead_ciphertext :: bytes

definition check_v1_suites :: "WireComponents \<Rightarrow> decryption_error + unit" where
  "check_v1_suites c =
    (if wc_suite_kem c \<noteq> SUITE_KEM_HYBRID_X25519_MLKEM768 \<or> wc_suite_aead c \<noteq> SUITE_AEAD_AES256GCM
     then Inl DecryptionError else Inr ())"

definition decode_wire_raw :: "bytes \<Rightarrow> decryption_error + WireComponents" where
  "decode_wire_raw data =
    (if length data < MIN_CIPHERTEXT_BYTES then Inl DecryptionError else
     let version = data ! 0;
         suite_kem = data ! 1;
         suite_aead = data ! 2;
         flags = data ! 3;
         kem_ct_len = be_u16 [data ! 4, data ! 5]
     in if version \<noteq> PROTOCOL_VERSION then Inl DecryptionError else
        if flags \<noteq> FLAGS_V1 then Inl DecryptionError else
        if unat kem_ct_len \<noteq> KEM_CIPHERTEXT_BYTES then Inl DecryptionError else
        let kem_start = HEADER_BYTES;
            kem_end = kem_start + KEM_CIPHERTEXT_BYTES;
            nonce_start = kem_end;
            nonce_end = nonce_start + NONCE_BYTES
        in and_then (to_array KEM_CIPHERTEXT_BYTES DecryptionError (slice kem_start kem_end data))
           (\<lambda>kem_ciphertext.
            and_then (to_array NONCE_BYTES DecryptionError (slice nonce_start nonce_end data))
            (\<lambda>nonce.
             let aead_ciphertext = drop nonce_end data
             in if length aead_ciphertext < AEAD_TAG_BYTES then Inl DecryptionError else
                Inr \<lparr> wc_version = version, wc_suite_kem = suite_kem, wc_suite_aead = suite_aead,
                      wc_flags = flags, wc_kem_ct_len = kem_ct_len,
                      wc_kem_ciphertext = kem_ciphertext, wc_nonce = nonce,
                      wc_aead_ciphertext = aead_ciphertext \<rparr>)))"

definition decode_wire :: "bytes \<Rightarrow> decryption_error + WireComponents" where
  "decode_wire data =
    and_then (decode_wire_raw data) (\<lambda>c. and_then (check_v1_suites c) (\<lambda>_. Inr c))"

definition encode_wire :: "bytes \<Rightarrow> bytes \<Rightarrow> bytes \<Rightarrow> encoding_error + bytes" where
  "encode_wire kem_ct nonce aead_ct =
    (if length kem_ct \<noteq> KEM_CIPHERTEXT_BYTES then Inl EncodingError else
     if length aead_ct < AEAD_TAG_BYTES then Inl EncodingError else
     Inr ([PROTOCOL_VERSION] @ [SUITE_KEM_HYBRID_X25519_MLKEM768] @ [SUITE_AEAD_AES256GCM] @
          [FLAGS_V1] @ u16_be (word_of_nat KEM_CIPHERTEXT_BYTES) @ kem_ct @ nonce @ aead_ct))"

section \<open>The v2 stream header\<close>

record StreamHeader =
  sh_version :: byte
  sh_suite_kem :: byte
  sh_suite_aead :: byte
  sh_flags :: byte
  sh_kem_ciphertext :: bytes

definition encode_stream_header :: "bytes \<Rightarrow> encoding_error + bytes" where
  "encode_stream_header kem_ct =
    (if length kem_ct \<noteq> KEM_CIPHERTEXT_BYTES then Inl EncodingError else
     Inr ([STREAM_VERSION] @ [SUITE_KEM_HYBRID_X25519_MLKEM768] @ [SUITE_AEAD_AES256GCM] @
          [FLAGS_STREAM] @ u16_be (word_of_nat KEM_CIPHERTEXT_BYTES) @ kem_ct))"

definition decode_stream_header :: "bytes \<Rightarrow> decryption_error + StreamHeader" where
  "decode_stream_header data =
    (if length data < STREAM_HEADER_BYTES then Inl DecryptionError else
     let version = data ! 0;
         suite_kem = data ! 1;
         suite_aead = data ! 2;
         flags = data ! 3;
         kem_ct_len = be_u16 [data ! 4, data ! 5]
     in if version \<noteq> STREAM_VERSION then Inl DecryptionError else
        if suite_kem \<noteq> SUITE_KEM_HYBRID_X25519_MLKEM768 \<or> suite_aead \<noteq> SUITE_AEAD_AES256GCM
        then Inl DecryptionError else
        if flags \<noteq> FLAGS_STREAM then Inl DecryptionError else
        if unat kem_ct_len \<noteq> KEM_CIPHERTEXT_BYTES then Inl DecryptionError else
        and_then (to_array KEM_CIPHERTEXT_BYTES DecryptionError
                    (slice HEADER_BYTES STREAM_HEADER_BYTES data))
        (\<lambda>kem_ciphertext.
          Inr \<lparr> sh_version = version, sh_suite_kem = suite_kem, sh_suite_aead = suite_aead,
                sh_flags = flags, sh_kem_ciphertext = kem_ciphertext \<rparr>))"

section \<open>Lemmas on the suite table\<close>

lemma suite_params_eq_Some:
  "suite_params b = Some p \<longleftrightarrow> p \<in> set SUITE_TABLE \<and> suite_kem p = b"
  by (auto simp: suite_params_def SUITE_TABLE_def wire_consts)

lemma suite_params_sizes:
  "suite_params b = Some p \<Longrightarrow> kem_ciphertext_bytes p < 2 ^ 16 \<and> suite_kem p = b"
  by (auto simp: suite_params_eq_Some SUITE_TABLE_def wire_consts)

lemma min_kem_loop_le:
  "min_kem_loop rows m \<le> m" "row \<in> set rows \<Longrightarrow> min_kem_loop rows m \<le> kem_ciphertext_bytes row"
proof (induction rows arbitrary: m)
  case (Cons r rows)
  { case 1 show ?case
      by simp (meson Cons.IH(1) le_trans less_imp_le) }
  { case 2 then show ?case
      using Cons.IH(1) [of "if kem_ciphertext_bytes r < m then kem_ciphertext_bytes r else m"]
      by (auto intro: Cons.IH(2) dest: le_trans split: if_splits) }
qed simp_all

lemma MIN_KEM_CIPHERTEXT_BYTES_le:
  "suite_params b = Some p \<Longrightarrow> MIN_KEM_CIPHERTEXT_BYTES \<le> kem_ciphertext_bytes p"
  by (auto simp: suite_params_eq_Some MIN_KEM_CIPHERTEXT_BYTES_def min_kem_ciphertext_bytes_def
      intro: min_kem_loop_le)

lemma MIN_KEM_CIPHERTEXT_BYTES_eq: "MIN_KEM_CIPHERTEXT_BYTES = 1120"
  by (simp add: MIN_KEM_CIPHERTEXT_BYTES_def min_kem_ciphertext_bytes_def SUITE_TABLE_def wire_consts)

section \<open>The v1 codec\<close>

definition valid_v1 :: "WireComponents \<Rightarrow> bool" where
  "valid_v1 c \<longleftrightarrow>
     wc_version c = PROTOCOL_VERSION \<and> wc_suite_kem c = SUITE_KEM_HYBRID_X25519_MLKEM768 \<and>
     wc_suite_aead c = SUITE_AEAD_AES256GCM \<and> wc_flags c = FLAGS_V1 \<and>
     wc_kem_ct_len c = word_of_nat KEM_CIPHERTEXT_BYTES \<and> length (wc_nonce c) = NONCE_BYTES"

definition encode_components :: "WireComponents \<Rightarrow> encoding_error + bytes" where
  "encode_components c = encode_wire (wc_kem_ciphertext c) (wc_nonce c) (wc_aead_ciphertext c)"

lemma u16_be_1120: "u16_be (word_of_nat KEM_CIPHERTEXT_BYTES) = [4, 96]"
  by (simp add: u16_be_def wire_consts be_bytes_two)

lemmas u16_be_1120' = u16_be_1120 [unfolded wire_consts, simplified]

lemma be_u16_1120: "unat (be_u16 [a, b]) = KEM_CIPHERTEXT_BYTES \<longleftrightarrow> a = 4 \<and> b = 96"
proof
  assume "unat (be_u16 [a, b]) = KEM_CIPHERTEXT_BYTES"
  then have "be_u16 [a, b] = word_of_nat KEM_CIPHERTEXT_BYTES" by (rule word_eq_of_unat)
  then have "u16_be (be_u16 [a, b]) = [4, 96]" by (simp add: u16_be_1120)
  then show "a = 4 \<and> b = 96" by (simp add: u16_be_be_u16)
next
  assume "a = 4 \<and> b = 96"
  then show "unat (be_u16 [a, b]) = KEM_CIPHERTEXT_BYTES"
    by (simp add: unat_be_u16 be_nat_def wire_consts)
qed

lemma encode_wire_eq_Inr:
  "encode_wire k n a = Inr bs \<longleftrightarrow>
     length k = 1120 \<and> 16 \<le> length a \<and> bs = [1, 0xA3, 0xB1, 0, 4, 96] @ k @ n @ a"
  by (auto simp: encode_wire_def u16_be_1120' wire_consts)

lemma slices_of_concat:
  assumes "length h = 6" "length k = 1120" "length n = 12"
  shows "slice 6 1126 (h @ k @ n @ a) = k" "slice 1126 1138 (h @ k @ n @ a) = n"
    "drop 1138 (h @ k @ n @ a) = a"
  using assms by (simp_all add: slice_def)

lemma concat_of_slices:
  assumes "1138 \<le> length xs"
  shows "take 6 xs @ slice 6 1126 xs @ slice 1126 1138 xs @ drop 1138 xs = xs"
  by (simp add: slice_drop)

lemma decode_wire_eq_Inr:
  "decode_wire data = Inr c \<longleftrightarrow>
     1154 \<le> length data \<and> take 6 data = [1, 0xA3, 0xB1, 0, 4, 96] \<and>
     c = \<lparr> wc_version = 1, wc_suite_kem = 0xA3, wc_suite_aead = 0xB1, wc_flags = 0,
           wc_kem_ct_len = 1120, wc_kem_ciphertext = slice 6 1126 data,
           wc_nonce = slice 1126 1138 data, wc_aead_ciphertext = drop 1138 data \<rparr>"
proof -
  have t: "take 6 data = [data ! 0, data ! 1, data ! 2, data ! 3, data ! 4, data ! 5]"
    if "6 \<le> length data"
    using that by (simp add: take_map_nth upt_rec) (simp add: numeral_eq_Suc)
  have w: "be_u16 [4, 96] = 1120" by (simp add: be_u16_def be_nat_def)
  show ?thesis
  proof (cases "1154 \<le> length data")
    case True
    then have "length (slice 6 1126 data) = 1120" "length (slice 1126 1138 data) = 12"
      by (simp_all add: length_slice)
    with True t w show ?thesis
      by (auto simp: decode_wire_def decode_wire_raw_def check_v1_suites_def Let_def
          be_u16_1120 [unfolded wire_consts, simplified] wire_consts)
  qed (simp add: decode_wire_def decode_wire_raw_def wire_consts)
qed

interpretation v1: codec valid_v1 encode_components decode_wire
proof
  fix m bs assume v: "valid_v1 m" and e: "encode_components m = Inr bs"
  let ?k = "wc_kem_ciphertext m" and ?n = "wc_nonce m" and ?a = "wc_aead_ciphertext m"
  from e have k: "length ?k = 1120" and a: "16 \<le> length ?a"
    and bs: "bs = [1, 0xA3, 0xB1, 0, 4, 96] @ ?k @ ?n @ ?a"
    by (simp_all add: encode_components_def encode_wire_eq_Inr)
  from v have n: "length ?n = 12" by (simp add: valid_v1_def wire_consts)
  from v have "m = \<lparr> wc_version = 1, wc_suite_kem = 0xA3, wc_suite_aead = 0xB1, wc_flags = 0,
      wc_kem_ct_len = 1120, wc_kem_ciphertext = ?k, wc_nonce = ?n, wc_aead_ciphertext = ?a \<rparr>"
    by (simp add: valid_v1_def wire_consts)
  with k n a bs slices_of_concat [of "[1, 0xA3, 0xB1, 0, 4, 96]" ?k ?n ?a]
  show "decode_wire bs = Inr m" by (simp add: decode_wire_eq_Inr)
next
  fix m bs assume "decode_wire bs = Inr m"
  then show "valid_v1 m" by (auto simp: decode_wire_eq_Inr valid_v1_def wire_consts length_slice)
next
  fix m bs assume "decode_wire bs = Inr m"
  then have l: "1154 \<le> length bs" and h: "take 6 bs = [1, 0xA3, 0xB1, 0, 4, 96]"
    and m: "wc_kem_ciphertext m = slice 6 1126 bs" "wc_nonce m = slice 1126 1138 bs"
      "wc_aead_ciphertext m = drop 1138 bs"
    by (simp_all add: decode_wire_eq_Inr)
  have "bs = [1, 0xA3, 0xB1, 0, 4, 96] @ slice 6 1126 bs @ slice 1126 1138 bs @ drop 1138 bs"
    using concat_of_slices [of bs] l unfolding h by simp
  with l m show "encode_components m = Inr bs"
    by (simp add: encode_components_def encode_wire_eq_Inr length_slice)
qed

section \<open>Properties\<close>

text \<open>C24: the v1 wire format is canonical. \<open>decode_wire\<close> accepts a byte string and returns the
  components \<open>c\<close> exactly when \<open>c\<close> carries the fixed version, suites, flags and length and a 12-byte
  nonce, and \<open>encode_wire\<close> of its three fields gives back that very byte string.\<close>

theorem v1_wire_canonical:
  "decode_wire bs = Inr c \<longleftrightarrow>
     wc_version c = PROTOCOL_VERSION \<and> wc_suite_kem c = SUITE_KEM_HYBRID_X25519_MLKEM768 \<and>
     wc_suite_aead c = SUITE_AEAD_AES256GCM \<and> wc_flags c = FLAGS_V1 \<and>
     wc_kem_ct_len c = word_of_nat KEM_CIPHERTEXT_BYTES \<and> length (wc_nonce c) = NONCE_BYTES \<and>
     encode_wire (wc_kem_ciphertext c) (wc_nonce c) (wc_aead_ciphertext c) = Inr bs"
  using v1.accepted_iff [of bs c] by (simp add: valid_v1_def encode_components_def)

text \<open>Membership in the suite table is what "supported" means. Exactly the two implemented suites
  resolve, the reserved identifiers 0xA5 and 0xA6 do not, and the bound used before the suite byte is
  read is the least KEM ciphertext size of the table, attained by a supported suite.\<close>

lemma suite_table_closed:
  "(suite_params b \<noteq> None \<longleftrightarrow>
      b = SUITE_KEM_HYBRID_X25519_MLKEM768 \<or> b = SUITE_KEM_HYBRID_P384_MLKEM1024) \<and>
   suite_params SUITE_KEM_RESERVED_X25519_MLKEM1024 = None \<and>
   suite_params SUITE_KEM_RESERVED_PURE_MLKEM1024 = None \<and>
   list_all (\<lambda>s. MIN_KEM_CIPHERTEXT_BYTES \<le> kem_ciphertext_bytes s) SUITE_TABLE \<and>
   list_ex (\<lambda>s. MIN_KEM_CIPHERTEXT_BYTES = kem_ciphertext_bytes s) SUITE_TABLE"
  by (simp add: suite_params_def SUITE_TABLE_def MIN_KEM_CIPHERTEXT_BYTES_eq wire_consts)

end
