(* ===== verification/Crypto_Ext.thy ===== *)
theory Crypto_Ext
  imports Wire
begin

text \<open>
  The cryptographic code that is not part of the repository (\<^verbatim>\<open>aes-gcm\<close>, \<^verbatim>\<open>sha2\<close>, \<^verbatim>\<open>sha3\<close>, \<^verbatim>\<open>hkdf\<close>,
  \<^verbatim>\<open>hmac\<close>, \<^verbatim>\<open>x25519-dalek\<close>, \<^verbatim>\<open>ml-kem\<close>, \<^verbatim>\<open>p384\<close>), as a record of functions that every definition
  using them takes as an argument, and what the code relies on as the predicates \<open>crypto_ok\<close>
  and \<open>prims_ok\<close>. They state functional behaviour only (a sealed message opens, key agreement
  agrees, output lengths), never secrecy or collision resistance: where a result depends on a
  collision, the collision is a disjunct of the statement. \<open>toy_crypto\<close> and \<open>toy_prims\<close> are
  concrete functions that satisfy the predicates.

  \<open>aead_seal\<close>, \<open>aead_open\<close>, \<open>nonce_gen\<close> are \<^verbatim>\<open>citadel-envelope/src/aead.rs\<close>, the \<open>backend_\<close>
  functions the default back end of \<^verbatim>\<open>backend.rs\<close>.
\<close>

section \<open>Symmetric primitives\<close>

record crypto =
  sha256_digest :: "bytes \<Rightarrow> bytes"
  sha3_256_digest :: "bytes \<Rightarrow> bytes"
  hkdf_expand :: "bytes option \<Rightarrow> bytes \<Rightarrow> bytes \<Rightarrow> nat \<Rightarrow> bytes option"
  hmac_sha256 :: "bytes \<Rightarrow> bytes \<Rightarrow> bytes"
  gcm_encrypt :: "bytes \<Rightarrow> bytes \<Rightarrow> bytes \<Rightarrow> bytes \<Rightarrow> bytes option"
  gcm_decrypt :: "bytes \<Rightarrow> bytes \<Rightarrow> bytes \<Rightarrow> bytes \<Rightarrow> bytes option"

text \<open>\<open>gcm_encrypt\<close> is \<^verbatim>\<open>Aes256Gcm::new_from_slice\<close> (which refuses a key that is not 32 bytes)
  followed by \<^verbatim>\<open>encrypt\<close>; \<open>hkdf_expand salt ikm info n\<close> extracts and expands to \<open>n\<close> bytes.\<close>

definition crypto_ok :: "crypto \<Rightarrow> bool" where
  "crypto_ok X \<longleftrightarrow>
     (\<forall>m. length (sha256_digest X m) = 32) \<and>
     (\<forall>m. length (sha3_256_digest X m) = 32) \<and>
     (\<forall>k m. length (hmac_sha256 X k m) = 32) \<and>
     (\<forall>salt ikm info n okm. hkdf_expand X salt ikm info n = Some okm \<longrightarrow> length okm = n) \<and>
     (\<forall>salt ikm info n. n \<le> 255 * 32 \<longrightarrow> hkdf_expand X salt ikm info n \<noteq> None) \<and>
     (\<forall>k n p a. length k = 32 \<longrightarrow> length n = 12 \<longrightarrow> length p < 2 ^ 36 \<longrightarrow> length a < 2 ^ 36 \<longrightarrow>
        gcm_encrypt X k n p a \<noteq> None) \<and>
     (\<forall>k n p a c. gcm_encrypt X k n p a = Some c \<longrightarrow>
        length c = length p + 16 \<and> gcm_decrypt X k n c a = Some p) \<and>
     (\<forall>k n p a c. gcm_decrypt X k n c a = Some p \<longrightarrow> gcm_encrypt X k n p a = Some c)"

lemma gcm_decrypt_encrypt:
  "crypto_ok X \<Longrightarrow> gcm_encrypt X k n p a = Some c \<Longrightarrow> gcm_decrypt X k n c a = Some p"
  unfolding crypto_ok_def by blast

lemma gcm_encrypt_decrypt:
  "crypto_ok X \<Longrightarrow> gcm_decrypt X k n c a = Some p \<Longrightarrow> gcm_encrypt X k n p a = Some c"
  unfolding crypto_ok_def by blast

lemma gcm_encrypt_length:
  "crypto_ok X \<Longrightarrow> gcm_encrypt X k n p a = Some c \<Longrightarrow> length c = length p + 16"
  unfolding crypto_ok_def by blast

lemma gcm_encrypt_total:
  "crypto_ok X \<Longrightarrow> length k = 32 \<Longrightarrow> length n = 12 \<Longrightarrow> length p < 2 ^ 36 \<Longrightarrow> length a < 2 ^ 36 \<Longrightarrow>
   \<exists>c. gcm_encrypt X k n p a = Some c"
  unfolding crypto_ok_def by blast

lemma digest_lengths:
  "crypto_ok X \<Longrightarrow> length (sha256_digest X m) = 32" "crypto_ok X \<Longrightarrow> length (sha3_256_digest X m) = 32"
  "crypto_ok X \<Longrightarrow> length (hmac_sha256 X k m) = 32"
  by (auto simp: crypto_ok_def)

lemma hkdf_lengths:
  "crypto_ok X \<Longrightarrow> hkdf_expand X salt ikm info n = Some okm \<Longrightarrow> length okm = n"
  "crypto_ok X \<Longrightarrow> n \<le> 255 * 32 \<Longrightarrow> \<exists>okm. hkdf_expand X salt ikm info n = Some okm"
  by (auto simp: crypto_ok_def)

lemmas crypto_laws = gcm_decrypt_encrypt gcm_encrypt_length digest_lengths hkdf_lengths

definition nonce_gen :: "bytes option \<Rightarrow> encoding_error + bytes" where
  "nonce_gen getrandom = ok_or getrandom EncodingError"

definition aead_seal :: "crypto \<Rightarrow> bytes \<Rightarrow> bytes \<Rightarrow> bytes \<Rightarrow> bytes \<Rightarrow> encoding_error + bytes" where
  "aead_seal X key nonce plaintext aad = ok_or (gcm_encrypt X key nonce plaintext aad) EncodingError"

definition aead_open :: "crypto \<Rightarrow> bytes \<Rightarrow> bytes \<Rightarrow> bytes \<Rightarrow> bytes \<Rightarrow> decryption_error + bytes" where
  "aead_open X key nonce ciphertext aad =
     ok_or (gcm_decrypt X key nonce ciphertext aad) DecryptionError"

section \<open>The default back end\<close>

definition backend_sha256 :: "crypto \<Rightarrow> bytes \<Rightarrow> bytes" where
  "backend_sha256 X data = sha256_digest X data"

definition backend_sha3_256 :: "crypto \<Rightarrow> bytes \<Rightarrow> bytes" where
  "backend_sha3_256 X data = sha3_256_digest X data"

definition backend_hkdf_sha256 ::
  "crypto \<Rightarrow> bytes option \<Rightarrow> bytes \<Rightarrow> bytes \<Rightarrow> nat \<Rightarrow> encoding_error + bytes" where
  "backend_hkdf_sha256 X salt ikm info okm_len = ok_or (hkdf_expand X salt ikm info okm_len) EncodingError"

text \<open>The nonce comes from the operating system: \<open>rnd\<close> is what \<^verbatim>\<open>getrandom\<close> returned.\<close>

definition backend_aead_seal ::
  "crypto \<Rightarrow> bytes option \<Rightarrow> bytes \<Rightarrow> bytes \<Rightarrow> bytes \<Rightarrow> encoding_error + (bytes \<times> bytes)" where
  "backend_aead_seal X rnd key plaintext aad =
    and_then (nonce_gen rnd) (\<lambda>nonce.
    and_then (aead_seal X key nonce plaintext aad) (\<lambda>ct. Inr (nonce, ct)))"

definition backend_aead_open ::
  "crypto \<Rightarrow> bytes \<Rightarrow> bytes \<Rightarrow> bytes \<Rightarrow> bytes \<Rightarrow> decryption_error + bytes" where
  "backend_aead_open X key nonce ciphertext aad = aead_open X key nonce ciphertext aad"

section \<open>Asymmetric primitives\<close>

text \<open>
  A Curve25519 or P-384 value and an ML-KEM key stand for themselves as byte strings: a
  \<^verbatim>\<open>StaticSecret\<close> and an X25519 public key are their 32 bytes, an ML-KEM encapsulation key its
  encoding, a P-384 public key whatever \<open>p384_from_sec1_bytes\<close> returns for it. Random draws are
  arguments: \<open>kem_rand\<close> is the ephemeral secret of the classical arm, whether a fallible draw of it
  failed, and the ML-KEM message. (A generator that panics ends the process and is not modelled.)
\<close>

record kem_rand =
  eph_draw :: bytes
  eph_failed :: bool
  mlkem_m :: bytes

record prims =
  x25519_public :: "bytes \<Rightarrow> bytes"
  x25519_dh :: "bytes \<Rightarrow> bytes \<Rightarrow> bytes"
  was_contributory :: "bytes \<Rightarrow> bool"
  mlkem768_generate :: "bytes \<Rightarrow> bytes"
  mlkem768_ek_valid :: "bytes \<Rightarrow> bool"
  mlkem768_dk_of_expanded :: "bytes \<Rightarrow> bytes option"
  mlkem768_dk_to_expanded :: "bytes \<Rightarrow> bytes"
  mlkem768_ek_of :: "bytes \<Rightarrow> bytes"
  mlkem768_encaps :: "bytes \<Rightarrow> bytes \<Rightarrow> bytes \<times> bytes"
  mlkem768_decaps :: "bytes \<Rightarrow> bytes \<Rightarrow> bytes"
  p384_generate :: "bytes \<Rightarrow> bytes"
  p384_from_sec1_bytes :: "bytes \<Rightarrow> bytes option"
  p384_to_sec1_uncompressed :: "bytes \<Rightarrow> bytes"
  p384_sk_from_slice :: "bytes \<Rightarrow> bytes option"
  p384_sk_to_bytes :: "bytes \<Rightarrow> bytes"
  p384_public :: "bytes \<Rightarrow> bytes"
  p384_dh :: "bytes \<Rightarrow> bytes \<Rightarrow> bytes"
  mlkem1024_from_seed :: "bytes \<Rightarrow> bytes"
  mlkem1024_ek_valid :: "bytes \<Rightarrow> bool"
  mlkem1024_ek_of :: "bytes \<Rightarrow> bytes"
  mlkem1024_encaps :: "bytes \<Rightarrow> bytes \<Rightarrow> bytes \<times> bytes"
  mlkem1024_decaps :: "bytes \<Rightarrow> bytes \<Rightarrow> bytes"

text \<open>What the code relies on of the curves and of ML-KEM. Decapsulation returns the encapsulated secret for every key and every coin: ML-KEM
  itself fails with negligible probability, which is left out.\<close>

definition prims_ok :: "prims \<Rightarrow> bool" where
  "prims_ok P \<longleftrightarrow>
     (\<forall>s. length (x25519_public P s) = 32) \<and>
     (\<forall>s p. length (x25519_dh P s p) = 32) \<and>
     (\<forall>s t. x25519_dh P s (x25519_public P t) = x25519_dh P t (x25519_public P s)) \<and>
     (\<forall>dk. length (mlkem768_ek_of P dk) = 1184 \<and> mlkem768_ek_valid P (mlkem768_ek_of P dk)) \<and>
     (\<forall>b dk. mlkem768_dk_of_expanded P b = Some dk \<longrightarrow> mlkem768_dk_to_expanded P dk = b) \<and>
     (\<forall>r. mlkem768_dk_of_expanded P (mlkem768_dk_to_expanded P (mlkem768_generate P r)) =
        Some (mlkem768_generate P r)) \<and>
     (\<forall>dk. length (mlkem768_dk_to_expanded P dk) = 2400) \<and>
     (\<forall>dk m ct ss. mlkem768_encaps P (mlkem768_ek_of P dk) m = (ct, ss) \<longrightarrow>
        length ct = 1088 \<and> length ss = 32 \<and> mlkem768_decaps P dk ct = ss) \<and>
     (\<forall>b q. p384_from_sec1_bytes P b = Some q \<longrightarrow> hd b = 4 \<longrightarrow> p384_to_sec1_uncompressed P q = b) \<and>
     (\<forall>s. length (p384_to_sec1_uncompressed P (p384_public P s)) = 97 \<and>
        hd (p384_to_sec1_uncompressed P (p384_public P s)) = 4 \<and>
        p384_from_sec1_bytes P (p384_to_sec1_uncompressed P (p384_public P s)) = Some (p384_public P s)) \<and>
     (\<forall>s t. p384_dh P s (p384_public P t) = p384_dh P t (p384_public P s)) \<and>
     (\<forall>b s. p384_sk_from_slice P b = Some s \<longrightarrow> p384_sk_to_bytes P s = b) \<and>
     (\<forall>r. length (p384_sk_to_bytes P (p384_generate P r)) = 48 \<and>
        p384_sk_from_slice P (p384_sk_to_bytes P (p384_generate P r)) = Some (p384_generate P r)) \<and>
     (\<forall>dk. length (mlkem1024_ek_of P dk) = 1568 \<and> mlkem1024_ek_valid P (mlkem1024_ek_of P dk)) \<and>
     (\<forall>dk m ct ss. mlkem1024_encaps P (mlkem1024_ek_of P dk) m = (ct, ss) \<longrightarrow>
        length ct = 1568 \<and> mlkem1024_decaps P dk ct = ss)"

section \<open>Instances\<close>

definition pad_to :: "nat \<Rightarrow> bytes \<Rightarrow> bytes" where
  "pad_to n b = take n (b @ replicate n 0)"

definition toy_tag :: "bytes \<Rightarrow> bytes \<Rightarrow> bytes \<Rightarrow> bytes \<Rightarrow> bytes" where
  "toy_tag k n p a = be_bytes 16 (be_nat k + be_nat n + be_nat p + be_nat a)"

definition toy_crypto :: crypto where
  "toy_crypto =
    \<lparr> sha256_digest = \<lambda>m. be_bytes 32 (be_nat m + length m),
      sha3_256_digest = \<lambda>m. be_bytes 32 (be_nat m + length m),
      hkdf_expand = \<lambda>salt ikm info n. if n \<le> 255 * 32 then Some (be_bytes n (be_nat ikm + be_nat info)) else None,
      hmac_sha256 = \<lambda>k m. be_bytes 32 (be_nat k + be_nat m),
      gcm_encrypt = \<lambda>k n p a. Some (p @ toy_tag k n p a),
      gcm_decrypt = \<lambda>k n c a.
        if 16 \<le> length c \<and> drop (length c - 16) c = toy_tag k n (take (length c - 16) c) a
        then Some (take (length c - 16) c) else None \<rparr>"

definition toy_prims :: prims where
  "toy_prims =
    \<lparr> x25519_public = pad_to 32,
      x25519_dh = \<lambda>s p. be_bytes 32 (be_nat (pad_to 32 s) + be_nat p),
      was_contributory = \<lambda>ss. length ss = 32,
      mlkem768_generate = pad_to 2400,
      mlkem768_ek_valid = \<lambda>_. True,
      mlkem768_dk_of_expanded = \<lambda>b. if length b = 2400 then Some b else None,
      mlkem768_dk_to_expanded = pad_to 2400,
      mlkem768_ek_of = pad_to 1184,
      mlkem768_encaps = \<lambda>ek m. (pad_to 1088 m, pad_to 32 m),
      mlkem768_decaps = \<lambda>dk ct. take 32 ct,
      p384_generate = pad_to 48,
      p384_from_sec1_bytes = \<lambda>b. if length b = 97 \<and> hd b = 4 then Some b else None,
      p384_to_sec1_uncompressed = \<lambda>q. q,
      p384_sk_from_slice = \<lambda>b. if length b = 48 then Some b else None,
      p384_sk_to_bytes = \<lambda>s. s,
      p384_public = \<lambda>s. 4 # pad_to 96 s,
      p384_dh = \<lambda>s p. be_bytes 48 (be_nat (pad_to 96 s) + be_nat (tl p)),
      mlkem1024_from_seed = \<lambda>s. s,
      mlkem1024_ek_valid = \<lambda>_. True,
      mlkem1024_ek_of = pad_to 1568,
      mlkem1024_encaps = \<lambda>ek m. (pad_to 1568 m, pad_to 32 m),
      mlkem1024_decaps = \<lambda>dk ct. take 32 ct \<rparr>"

lemma length_pad_to [simp]: "length (pad_to n b) = n"
  by (simp add: pad_to_def)

lemma take_pad_to: "m \<le> n \<Longrightarrow> take m (pad_to n b) = pad_to m b"
  by (simp add: pad_to_def min_absorb1)

lemma toy_crypto_ok: "crypto_ok toy_crypto"
proof -
  have len: "length (toy_tag k n p a) = 16" for k n p a by (simp add: toy_tag_def)
  have "c = take (length c - 16) c @ toy_tag k n p a" if "16 \<le> length c"
    and "drop (length c - 16) c = toy_tag k n p a" for c k n p a
    using that by (metis append_take_drop_id)
  with len show ?thesis
    by (auto simp: crypto_ok_def toy_crypto_def split: if_splits)
qed

lemma pad_to_id: "length b = n \<Longrightarrow> pad_to n b = b"
  by (simp add: pad_to_def)

lemma toy_prims_ok: "prims_ok toy_prims"
  by (auto simp: prims_ok_def toy_prims_def take_pad_to add.commute pad_to_id split: if_splits)

end
