(* ===== verification/Kem.thy ===== *)
theory Kem
  imports Crypto_Ext
begin

text \<open>
  \<^verbatim>\<open>citadel-envelope/src/kem.rs\<close> and \<^verbatim>\<open>kem_p384.rs\<close>: the two hybrid key-encapsulation suites, their
  key types and key serialization, and the \<^verbatim>\<open>KemProvider\<close> trait of \<^verbatim>\<open>backend.rs\<close> as a record of
  functions. \<open>kem_ok\<close> is the contract the trait's documentation states; both providers are shown to
  meet it when the primitives meet \<open>prims_ok\<close>.
\<close>

section \<open>The provider trait\<close>

record ('pk, 'sk) kem_provider =
  SUITE_KEM :: byte
  K_CIPHERTEXT_BYTES :: nat
  K_PUBLIC_KEY_BYTES :: nat
  K_SECRET_KEY_BYTES :: nat
  kem_keygen :: "bytes \<times> bytes \<Rightarrow> 'pk \<times> 'sk"
  encapsulate :: "'pk \<Rightarrow> kem_rand \<Rightarrow> encoding_error + (bytes \<times> bytes)"
  decapsulate :: "'sk \<Rightarrow> bytes \<Rightarrow> decryption_error + bytes"
  public_key_bytes :: "'pk \<Rightarrow> bytes"
  public_key_of :: "'sk \<Rightarrow> 'pk"

definition kem_ok :: "('pk, 'sk) kem_provider \<Rightarrow> bool" where
  "kem_ok K \<longleftrightarrow>
     (\<exists>s. suite_params (SUITE_KEM K) = Some s \<and> kem_ciphertext_bytes s = K_CIPHERTEXT_BYTES K) \<and>
     (\<forall>sk r ss ct. encapsulate K (public_key_of K sk) r = Inr (ss, ct) \<longrightarrow>
        length ct = K_CIPHERTEXT_BYTES K \<and> decapsulate K sk ct = Inr ss) \<and>
     (\<forall>sk ct. length ct \<noteq> K_CIPHERTEXT_BYTES K \<longrightarrow> decapsulate K sk ct = Inl DecryptionError) \<and>
     (\<forall>r. fst (kem_keygen K r) = public_key_of K (snd (kem_keygen K r)))"

section \<open>X25519 + ML-KEM-768\<close>

record PublicKey =
  pk_x25519 :: bytes
  pk_mlkem_bytes :: bytes

record SecretKey =
  sk_x25519 :: bytes
  sk_mlkem :: bytes

definition PublicKey_from_parts_mlkem :: "bytes \<Rightarrow> bytes \<Rightarrow> PublicKey" where
  "PublicKey_from_parts_mlkem x25519 mlkem_pk = \<lparr> pk_x25519 = x25519, pk_mlkem_bytes = mlkem_pk \<rparr>"

definition PublicKey_to_bytes :: "PublicKey \<Rightarrow> bytes" where
  "PublicKey_to_bytes pk = pk_x25519 pk @ pk_mlkem_bytes pk"

definition PublicKey_from_bytes :: "prims \<Rightarrow> bytes \<Rightarrow> decryption_error + PublicKey" where
  "PublicKey_from_bytes P bs =
    (if length bs \<noteq> KEM_PUBLIC_KEY_BYTES then Inl DecryptionError else
     and_then (to_array X25519_KEY_BYTES DecryptionError (take X25519_KEY_BYTES bs)) (\<lambda>x25519.
     let mlkem_bytes = drop X25519_KEY_BYTES bs in
     if \<not> mlkem768_ek_valid P mlkem_bytes then Inl DecryptionError else
     Inr \<lparr> pk_x25519 = x25519, pk_mlkem_bytes = mlkem_bytes \<rparr>))"

definition SecretKey_from_parts_mlkem :: "bytes \<Rightarrow> bytes \<Rightarrow> SecretKey" where
  "SecretKey_from_parts_mlkem x25519 mlkem = \<lparr> sk_x25519 = x25519, sk_mlkem = mlkem \<rparr>"

definition SecretKey_to_bytes :: "prims \<Rightarrow> SecretKey \<Rightarrow> bytes" where
  "SecretKey_to_bytes P sk = sk_x25519 sk @ mlkem768_dk_to_expanded P (sk_mlkem sk)"

definition SecretKey_from_bytes :: "prims \<Rightarrow> bytes \<Rightarrow> decryption_error + SecretKey" where
  "SecretKey_from_bytes P bs =
    (if length bs \<noteq> KEM_SECRET_KEY_BYTES then Inl DecryptionError else
     let x25519 = take X25519_KEY_BYTES bs;
         mlkem_bytes = drop X25519_KEY_BYTES bs
     in and_then (ok_or (mlkem768_dk_of_expanded P mlkem_bytes) DecryptionError) (\<lambda>mlkem.
        Inr \<lparr> sk_x25519 = x25519, sk_mlkem = mlkem \<rparr>))"

definition SecretKey_public_key :: "prims \<Rightarrow> SecretKey \<Rightarrow> PublicKey" where
  "SecretKey_public_key P sk =
     PublicKey_from_parts_mlkem (x25519_public P (sk_x25519 sk)) (mlkem768_ek_of P (sk_mlkem sk))"

definition hybrid_keygen :: "prims \<Rightarrow> bytes \<times> bytes \<Rightarrow> PublicKey \<times> SecretKey" where
  "hybrid_keygen P r =
    (let x25519_sk = fst r;
         x25519_pk = x25519_public P x25519_sk;
         mlkem_sk = mlkem768_generate P (snd r);
         mlkem_pk = mlkem768_ek_of P mlkem_sk
     in (PublicKey_from_parts_mlkem x25519_pk mlkem_pk, SecretKey_from_parts_mlkem x25519_sk mlkem_sk))"

definition hybrid_encapsulate ::
  "prims \<Rightarrow> PublicKey \<Rightarrow> kem_rand \<Rightarrow> encoding_error + (bytes \<times> bytes)" where
  "hybrid_encapsulate P pk r =
    (let x25519_eph = eph_draw r;
         x25519_eph_pk = x25519_public P x25519_eph;
         x25519_ss = x25519_dh P x25519_eph (pk_x25519 pk)
     in if \<not> was_contributory P x25519_ss then Inl EncodingError else
        let (mlkem_ct, mlkem_ss) = mlkem768_encaps P (pk_mlkem_bytes pk) (mlkem_m r);
            combined_ss = x25519_ss @ mlkem_ss;
            kem_ct = x25519_eph_pk @ mlkem_ct
        in Inr (combined_ss, kem_ct))"

definition hybrid_decapsulate :: "prims \<Rightarrow> SecretKey \<Rightarrow> bytes \<Rightarrow> decryption_error + bytes" where
  "hybrid_decapsulate P sk ct =
    (if length ct \<noteq> KEM_CIPHERTEXT_BYTES then Inl DecryptionError else
     and_then (to_array X25519_KEY_BYTES DecryptionError (take X25519_KEY_BYTES ct)) (\<lambda>x25519_epk.
     and_then (to_array 1088 DecryptionError (drop X25519_KEY_BYTES ct)) (\<lambda>mlkem_ct.
     let x25519_ss = x25519_dh P (sk_x25519 sk) x25519_epk
     in if \<not> was_contributory P x25519_ss then Inl DecryptionError else
        let mlkem_ss = mlkem768_decaps P (sk_mlkem sk) mlkem_ct
        in Inr (x25519_ss @ mlkem_ss))))"

definition HybridX25519MlKem768Provider :: "prims \<Rightarrow> (PublicKey, SecretKey) kem_provider" where
  "HybridX25519MlKem768Provider P =
    \<lparr> SUITE_KEM = SUITE_KEM_HYBRID_X25519_MLKEM768,
      K_CIPHERTEXT_BYTES = KEM_CIPHERTEXT_BYTES,
      K_PUBLIC_KEY_BYTES = X25519_KEY_BYTES + MLKEM_PUBLIC_KEY_BYTES,
      K_SECRET_KEY_BYTES = X25519_KEY_BYTES + MLKEM_SECRET_KEY_BYTES,
      kem_keygen = hybrid_keygen P,
      encapsulate = hybrid_encapsulate P,
      decapsulate = hybrid_decapsulate P,
      public_key_bytes = PublicKey_to_bytes,
      public_key_of = SecretKey_public_key P \<rparr>"

section \<open>P-384 + ML-KEM-1024\<close>

definition P384_POINT_BYTES :: nat where [wire_consts]: "P384_POINT_BYTES = 97"
definition SEC1_TAG_UNCOMPRESSED :: byte where [wire_consts]: "SEC1_TAG_UNCOMPRESSED = 0x04"
definition P384_SCALAR_BYTES :: nat where [wire_consts]: "P384_SCALAR_BYTES = 48"
definition MLKEM1024_EK_BYTES :: nat where [wire_consts]: "MLKEM1024_EK_BYTES = 1568"
definition MLKEM1024_CT_BYTES :: nat where [wire_consts]: "MLKEM1024_CT_BYTES = 1568"
definition MLKEM_SEED_BYTES :: nat where [wire_consts]: "MLKEM_SEED_BYTES = 64"
definition P384_MLKEM1024_PUBLIC_KEY_BYTES :: nat where
  [wire_consts]: "P384_MLKEM1024_PUBLIC_KEY_BYTES = P384_POINT_BYTES + MLKEM1024_EK_BYTES"
definition P384_MLKEM1024_SECRET_KEY_BYTES :: nat where
  [wire_consts]: "P384_MLKEM1024_SECRET_KEY_BYTES = P384_SCALAR_BYTES + MLKEM_SEED_BYTES"

record P384MlKem1024PublicKey =
  pk4_p384 :: bytes
  pk4_mlkem :: bytes

record P384MlKem1024SecretKey =
  sk4_p384 :: bytes
  sk4_mlkem_seed :: bytes

definition sk4_mlkem_key :: "prims \<Rightarrow> P384MlKem1024SecretKey \<Rightarrow> bytes" where
  "sk4_mlkem_key P sk = mlkem1024_from_seed P (sk4_mlkem_seed sk)"

definition parse_p384_point :: "prims \<Rightarrow> bytes \<Rightarrow> bytes option" where
  "parse_p384_point P bs =
    (if length bs \<noteq> P384_POINT_BYTES \<or> bs ! 0 \<noteq> SEC1_TAG_UNCOMPRESSED then None
     else p384_from_sec1_bytes P bs)"

definition encode_p384_point :: "prims \<Rightarrow> bytes \<Rightarrow> bytes" where
  "encode_p384_point P pk = p384_to_sec1_uncompressed P pk"

definition PublicKey4_to_bytes :: "prims \<Rightarrow> P384MlKem1024PublicKey \<Rightarrow> bytes" where
  "PublicKey4_to_bytes P pk = encode_p384_point P (pk4_p384 pk) @ pk4_mlkem pk"

definition PublicKey4_from_bytes :: "prims \<Rightarrow> bytes \<Rightarrow> decryption_error + P384MlKem1024PublicKey" where
  "PublicKey4_from_bytes P bs =
    (if length bs \<noteq> P384_MLKEM1024_PUBLIC_KEY_BYTES then Inl DecryptionError else
     and_then (ok_or (parse_p384_point P (take P384_POINT_BYTES bs)) DecryptionError) (\<lambda>p384.
     and_then (to_array MLKEM1024_EK_BYTES DecryptionError (drop P384_POINT_BYTES bs)) (\<lambda>ek.
     if \<not> mlkem1024_ek_valid P ek then Inl DecryptionError else
     Inr \<lparr> pk4_p384 = p384, pk4_mlkem = ek \<rparr>)))"

definition SecretKey4_to_bytes :: "prims \<Rightarrow> P384MlKem1024SecretKey \<Rightarrow> bytes" where
  "SecretKey4_to_bytes P sk = p384_sk_to_bytes P (sk4_p384 sk) @ sk4_mlkem_seed sk"

definition SecretKey4_from_bytes :: "prims \<Rightarrow> bytes \<Rightarrow> decryption_error + P384MlKem1024SecretKey" where
  "SecretKey4_from_bytes P bs =
    (if length bs \<noteq> P384_MLKEM1024_SECRET_KEY_BYTES then Inl DecryptionError else
     and_then (ok_or (p384_sk_from_slice P (take P384_SCALAR_BYTES bs)) DecryptionError) (\<lambda>p384.
     Inr \<lparr> sk4_p384 = p384, sk4_mlkem_seed = drop P384_SCALAR_BYTES bs \<rparr>))"

definition p384_public_key_of :: "prims \<Rightarrow> P384MlKem1024SecretKey \<Rightarrow> P384MlKem1024PublicKey" where
  "p384_public_key_of P sk =
    \<lparr> pk4_p384 = p384_public P (sk4_p384 sk), pk4_mlkem = mlkem1024_ek_of P (sk4_mlkem_key P sk) \<rparr>"

definition p384_keygen ::
  "prims \<Rightarrow> bytes \<times> bytes \<Rightarrow> P384MlKem1024PublicKey \<times> P384MlKem1024SecretKey" where
  "p384_keygen P r =
    (let p384_sk = p384_generate P (fst r);
         p384_pk = p384_public P p384_sk;
         seed = snd r;
         mlkem_sk = mlkem1024_from_seed P seed;
         mlkem_pk = mlkem1024_ek_of P mlkem_sk
     in (\<lparr> pk4_p384 = p384_pk, pk4_mlkem = mlkem_pk \<rparr>, \<lparr> sk4_p384 = p384_sk, sk4_mlkem_seed = seed \<rparr>))"

definition p384_encapsulate ::
  "prims \<Rightarrow> P384MlKem1024PublicKey \<Rightarrow> kem_rand \<Rightarrow> encoding_error + (bytes \<times> bytes)" where
  "p384_encapsulate P pk r =
    (if eph_failed r then Inl EncodingError else
    let ephemeral = eph_draw r;
        ephemeral_pk = p384_public P ephemeral;
        p384_ss = p384_dh P ephemeral (pk4_p384 pk);
        (mlkem_ct, mlkem_ss) = mlkem1024_encaps P (pk4_mlkem pk) (mlkem_m r)
    in Inr (p384_ss @ mlkem_ss, encode_p384_point P ephemeral_pk @ mlkem_ct))"

definition p384_decapsulate :: "prims \<Rightarrow> P384MlKem1024SecretKey \<Rightarrow> bytes \<Rightarrow> decryption_error + bytes" where
  "p384_decapsulate P sk ct =
    (if length ct \<noteq> P384_POINT_BYTES + MLKEM1024_CT_BYTES then Inl DecryptionError else
     and_then (ok_or (parse_p384_point P (take P384_POINT_BYTES ct)) DecryptionError) (\<lambda>ephemeral_pk.
     and_then (to_array MLKEM1024_CT_BYTES DecryptionError (drop P384_POINT_BYTES ct)) (\<lambda>mlkem_ct.
     let p384_ss = p384_dh P (sk4_p384 sk) ephemeral_pk;
         mlkem_ss = mlkem1024_decaps P (sk4_mlkem_key P sk) mlkem_ct
     in Inr (p384_ss @ mlkem_ss))))"

definition HybridP384MlKem1024Provider ::
  "prims \<Rightarrow> (P384MlKem1024PublicKey, P384MlKem1024SecretKey) kem_provider" where
  "HybridP384MlKem1024Provider P =
    \<lparr> SUITE_KEM = SUITE_KEM_HYBRID_P384_MLKEM1024,
      K_CIPHERTEXT_BYTES = P384_POINT_BYTES + MLKEM1024_CT_BYTES,
      K_PUBLIC_KEY_BYTES = P384_POINT_BYTES + MLKEM1024_EK_BYTES,
      K_SECRET_KEY_BYTES = P384_SCALAR_BYTES + MLKEM_SEED_BYTES,
      kem_keygen = p384_keygen P,
      encapsulate = p384_encapsulate P,
      decapsulate = p384_decapsulate P,
      public_key_bytes = PublicKey4_to_bytes P,
      public_key_of = p384_public_key_of P \<rparr>"

section \<open>Lemmas\<close>

lemmas kem_defs = hybrid_keygen_def hybrid_encapsulate_def hybrid_decapsulate_def
  HybridX25519MlKem768Provider_def SecretKey_public_key_def PublicKey_from_parts_mlkem_def
  SecretKey_from_parts_mlkem_def p384_keygen_def p384_encapsulate_def p384_decapsulate_def
  HybridP384MlKem1024Provider_def p384_public_key_of_def sk4_mlkem_key_def encode_p384_point_def

lemma hybrid_decapsulate_own:
  assumes "prims_ok P" and "hybrid_encapsulate P (SecretKey_public_key P sk) r = Inr (ss, ct)"
  shows "length ct = 1120 \<and> hybrid_decapsulate P sk ct = Inr ss"
proof -
  obtain mct mss where e: "mlkem768_encaps P (mlkem768_ek_of P (sk_mlkem sk)) (mlkem_m r) = (mct, mss)"
    by (cases "mlkem768_encaps P (mlkem768_ek_of P (sk_mlkem sk)) (mlkem_m r)")
  with assms(1) have "length mct = 1088" "mlkem768_decaps P (sk_mlkem sk) mct = mss"
    by (auto simp: prims_ok_def)
  moreover have "length (x25519_public P s) = 32"
    "x25519_dh P s (x25519_public P t) = x25519_dh P t (x25519_public P s)" for s t
    using assms(1) by (auto simp: prims_ok_def)
  ultimately show ?thesis
    using assms(2) e by (auto simp: kem_defs Let_def to_array_def wire_consts split: if_splits)
qed

lemma p384_decapsulate_own:
  assumes "prims_ok P" and "p384_encapsulate P (p384_public_key_of P sk) r = Inr (ss, ct)"
  shows "length ct = 1665 \<and> p384_decapsulate P sk ct = Inr ss"
proof -
  let ?ek = "mlkem1024_ek_of P (mlkem1024_from_seed P (sk4_mlkem_seed sk))"
  obtain mct mss where e: "mlkem1024_encaps P ?ek (mlkem_m r) = (mct, mss)"
    by (cases "mlkem1024_encaps P ?ek (mlkem_m r)")
  with assms(1) have "length mct = 1568"
    "mlkem1024_decaps P (mlkem1024_from_seed P (sk4_mlkem_seed sk)) mct = mss"
    by (auto simp: prims_ok_def)
  moreover have "length (p384_to_sec1_uncompressed P (p384_public P s)) = 97"
    "p384_to_sec1_uncompressed P (p384_public P s) ! 0 = 4"
    "p384_from_sec1_bytes P (p384_to_sec1_uncompressed P (p384_public P s)) = Some (p384_public P s)"
    "p384_dh P s (p384_public P t) = p384_dh P t (p384_public P s)" for s t
    using assms(1) by (auto simp: prims_ok_def hd_conv_nth simp flip: length_greater_0_conv)
      (metis hd_conv_nth length_0_conv zero_neq_numeral)
  ultimately show ?thesis
    using assms(2) e
    by (auto simp: kem_defs parse_p384_point_def nth_append Let_def to_array_def wire_consts)
qed

lemma HybridX25519MlKem768Provider_ok: "prims_ok P \<Longrightarrow> kem_ok (HybridX25519MlKem768Provider P)"
  using hybrid_decapsulate_own [of P]
  by (simp add: kem_ok_def HybridX25519MlKem768Provider_def suite_params_eq_Some SUITE_TABLE_def wire_consts)
    (auto simp: hybrid_keygen_def SecretKey_public_key_def SecretKey_from_parts_mlkem_def
      hybrid_decapsulate_def Let_def wire_consts)

lemma HybridP384MlKem1024Provider_ok: "prims_ok P \<Longrightarrow> kem_ok (HybridP384MlKem1024Provider P)"
  using p384_decapsulate_own [of P]
  by (simp add: kem_ok_def HybridP384MlKem1024Provider_def suite_params_eq_Some SUITE_TABLE_def wire_consts)
    (auto simp: p384_keygen_def p384_public_key_of_def p384_decapsulate_def sk4_mlkem_key_def Let_def
      wire_consts)

end
