(* ===== verification/Wire_V2.thy ===== *)
theory Wire_V2
  imports Kem
begin

text \<open>
  \<^verbatim>\<open>citadel-envelope/src/wire_v2.rs\<close>, \<^verbatim>\<open>kdf.rs\<close>, the engine of \<^verbatim>\<open>lib.rs\<close> and \<^verbatim>\<open>envelope_nonce\<close> of
  \<^verbatim>\<open>wire.rs\<close>: the CTD2 envelope. The codec is characterised by the canonical layout \<open>v2_layout\<close>;
  \<open>v2_open\<close> by the deterministic sealing function \<open>v2_seal_with_material\<close>.
\<close>

section \<open>Constants\<close>

definition MAGIC :: bytes where "MAGIC = as_bytes ''CTD2''"
definition V2_VERSION :: byte where [wire_consts]: "V2_VERSION = 2"
definition V2_FLAGS :: byte where [wire_consts]: "V2_FLAGS = 0"
definition SUITE_KDF :: byte where [wire_consts]: "SUITE_KDF = 0xC1"
definition SUITE_AEAD :: byte where [wire_consts]: "SUITE_AEAD = 0xB1"
definition HEADER_LEN :: nat where [wire_consts]: "HEADER_LEN = 98"
definition TAG_LEN :: nat where [wire_consts]: "TAG_LEN = 16"
definition NONCE_LEN :: nat where [wire_consts]: "NONCE_LEN = 12"
definition HEADER_BOUND_LEN :: nat where [wire_consts]: "HEADER_BOUND_LEN = HEADER_LEN - NONCE_LEN"
definition MIN_ENVELOPE_LEN :: nat where
  [wire_consts]: "MIN_ENVELOPE_LEN = HEADER_LEN + KEM_CIPHERTEXT_BYTES + TAG_LEN"
definition MIN_ENVELOPE_LEN_ANY_SUITE :: nat where
  [wire_consts]: "MIN_ENVELOPE_LEN_ANY_SUITE = HEADER_LEN + MIN_KEM_CIPHERTEXT_BYTES + TAG_LEN"
definition MAX_PLAINTEXT_LEN :: nat where [wire_consts]: "MAX_PLAINTEXT_LEN = 64 * 1024 * 1024"
definition MAX_AAD_LEN :: nat where [wire_consts]: "MAX_AAD_LEN = 64 * 1024"
definition MAX_CONTEXT_LEN :: nat where [wire_consts]: "MAX_CONTEXT_LEN = 4 * 1024"

definition KDF_LABEL :: bytes where "KDF_LABEL = as_bytes ''citadel-envelope-v2/kdf'' @ [0]"
definition AAD_LABEL :: bytes where "AAD_LABEL = as_bytes ''citadel-envelope-v2/aad'' @ [0]"
definition EXTRACT_SALT_LABEL :: bytes where
  "EXTRACT_SALT_LABEL = as_bytes ''citadel-envelope-v2/extract-salt''"

section \<open>Codec\<close>

record Parts =
  p_header :: bytes
  p_kem_ciphertext :: bytes
  p_nonce :: bytes
  p_aead_ciphertext :: bytes
  p_recipient_key_hash :: bytes
  p_plaintext_len :: nat
  p_suite :: SuiteParams

definition push_u16 :: "bytes \<Rightarrow> nat \<Rightarrow> encoding_error + bytes" where
  "push_u16 out v = (if v < 2 ^ 16 then Inr (out @ u16_be (word_of_nat v)) else Inl EncodingError)"

definition push_u32 :: "bytes \<Rightarrow> nat \<Rightarrow> encoding_error + bytes" where
  "push_u32 out v = (if v < 2 ^ 32 then Inr (out @ u32_be (word_of_nat v)) else Inl EncodingError)"

definition public_key_hash :: "crypto \<Rightarrow> ('pk, 'sk) kem_provider \<Rightarrow> 'pk \<Rightarrow> bytes" where
  "public_key_hash X K pk = backend_sha3_256 X (public_key_bytes K pk)"

definition context_hash :: "crypto \<Rightarrow> bytes \<Rightarrow> bytes" where
  "context_hash X ctx = backend_sha3_256 X ctx"

definition encode_header ::
  "('pk, 'sk) kem_provider \<Rightarrow> nat \<Rightarrow> bytes \<Rightarrow> bytes \<Rightarrow> bytes \<Rightarrow> encoding_error + bytes" where
  "encode_header K plaintext_len recipient_hash ctx_hash nonce =
    (if plaintext_len > MAX_PLAINTEXT_LEN then Inl EncodingError else
     and_then (ok_or (suite_params (SUITE_KEM K)) EncodingError) (\<lambda>suite.
     if kem_ciphertext_bytes suite \<noteq> K_CIPHERTEXT_BYTES K then Inl EncodingError else
     if K_CIPHERTEXT_BYTES K \<ge> 2 ^ 16 then Inl EncodingError else
     Inr (MAGIC @ [V2_VERSION, V2_FLAGS, SUITE_KEM K, SUITE_KDF, SUITE_AEAD, 0] @
          u16_be (word_of_nat HEADER_LEN) @ u16_be (word_of_nat (K_CIPHERTEXT_BYTES K)) @
          u64_be (word_of_nat plaintext_len) @ recipient_hash @ ctx_hash @ nonce)))"

definition kdf_transcript :: "bytes \<Rightarrow> bytes \<Rightarrow> bytes \<Rightarrow> encoding_error + bytes" where
  "kdf_transcript header kem_ct ctx =
    (if length header < HEADER_BOUND_LEN then Inl EncodingError else
     let bound = take HEADER_BOUND_LEN header in
     and_then (push_u16 KDF_LABEL (length bound)) (\<lambda>out.
     and_then (push_u16 (out @ bound) (length kem_ct)) (\<lambda>out.
     and_then (push_u32 (out @ kem_ct) (length ctx)) (\<lambda>out.
     Inr (out @ ctx)))))"

definition associated_data :: "bytes \<Rightarrow> bytes \<Rightarrow> bytes \<Rightarrow> bytes \<Rightarrow> encoding_error + bytes" where
  "associated_data header kem_ct ctx caller_aad =
    (if length header < HEADER_BOUND_LEN then Inl EncodingError else
     let bound = take HEADER_BOUND_LEN header in
     and_then (push_u16 AAD_LABEL (length bound)) (\<lambda>out.
     and_then (push_u16 (out @ bound) (length kem_ct)) (\<lambda>out.
     and_then (push_u32 (out @ kem_ct) (length ctx)) (\<lambda>out.
     and_then (push_u32 (out @ ctx) (length caller_aad)) (\<lambda>out.
     Inr (out @ caller_aad))))))"

definition v2_derive_key :: "crypto \<Rightarrow> bytes \<Rightarrow> bytes \<Rightarrow> encoding_error + bytes" where
  "v2_derive_key X shared_secret transcript =
    (let salt = backend_sha256 X EXTRACT_SALT_LABEL
     in backend_hkdf_sha256 X (Some salt) shared_secret transcript 32)"

definition v2_encode :: "('pk, 'sk) kem_provider \<Rightarrow> bytes \<Rightarrow> bytes \<Rightarrow> bytes \<Rightarrow> encoding_error + bytes" where
  "v2_encode K header kem_ct aead_ct =
    (if length kem_ct \<noteq> K_CIPHERTEXT_BYTES K \<or> length aead_ct < TAG_LEN then Inl EncodingError
     else Inr (header @ kem_ct @ aead_ct))"

definition v2_decode :: "bytes \<Rightarrow> decryption_error + Parts" where
  "v2_decode data =
    (if length data < MIN_ENVELOPE_LEN_ANY_SUITE then Inl DecryptionError else
     if length data < HEADER_LEN then Inl DecryptionError else
     let header = take HEADER_LEN data in
     if take 4 header \<noteq> MAGIC \<or> header ! 4 \<noteq> V2_VERSION \<or> header ! 5 \<noteq> V2_FLAGS \<or>
        header ! 7 \<noteq> SUITE_KDF \<or> header ! 8 \<noteq> SUITE_AEAD \<or> header ! 9 \<noteq> 0 \<or>
        unat (be_u16 [header ! 10, header ! 11]) \<noteq> HEADER_LEN
     then Inl DecryptionError else
     and_then (ok_or (suite_params (header ! 6)) DecryptionError) (\<lambda>suite.
     if unat (be_u16 [header ! 12, header ! 13]) \<noteq> kem_ciphertext_bytes suite
     then Inl DecryptionError else
     and_then (to_array 8 DecryptionError (slice 14 22 header)) (\<lambda>enc.
     let plaintext_len = unat (be_u64 enc) in
     if plaintext_len > MAX_PLAINTEXT_LEN then Inl DecryptionError else
     and_then (ok_or
        (Option.bind (usize_checked_add HEADER_LEN (kem_ciphertext_bytes suite)) (\<lambda>n.
         Option.bind (usize_checked_add n TAG_LEN) (\<lambda>n.
         usize_checked_add n plaintext_len))) DecryptionError) (\<lambda>expected_len.
     if length data \<noteq> expected_len then Inl DecryptionError else
     let kem_start = HEADER_LEN; kem_end = kem_start + kem_ciphertext_bytes suite in
     and_then (to_array 12 DecryptionError (slice 86 98 header)) (\<lambda>nonce.
     and_then (to_array 32 DecryptionError (slice 22 54 header)) (\<lambda>recipient_key_hash.
     Inr \<lparr> p_header = header,
           p_kem_ciphertext = slice kem_start kem_end data,
           p_nonce = nonce,
           p_aead_ciphertext = drop kem_end data,
           p_recipient_key_hash = recipient_key_hash,
           p_plaintext_len = plaintext_len,
           p_suite = suite \<rparr>))))))"

section \<open>Seal and open\<close>

definition v2_seal ::
  "crypto \<Rightarrow> ('pk, 'sk) kem_provider \<Rightarrow> kem_rand \<Rightarrow> bytes option \<Rightarrow>
   'pk \<Rightarrow> bytes \<Rightarrow> bytes \<Rightarrow> bytes \<Rightarrow> encoding_error + bytes" where
  "v2_seal X K r rnd pk plaintext aad ctx =
    (if length plaintext > MAX_PLAINTEXT_LEN \<or> length aad > MAX_AAD_LEN \<or> length ctx > MAX_CONTEXT_LEN
     then Inl EncodingError else
     and_then (encapsulate K pk r) (\<lambda>(shared_secret, kem_ct).
     and_then (encode_header K (length plaintext) (public_key_hash X K pk) (context_hash X ctx)
                 (replicate NONCE_LEN 0)) (\<lambda>header.
     and_then (kdf_transcript header kem_ct ctx) (\<lambda>transcript.
     and_then (v2_derive_key X shared_secret transcript) (\<lambda>key.
     and_then (associated_data header kem_ct ctx aad) (\<lambda>bound_aad.
     and_then (backend_aead_seal X rnd key plaintext bound_aad) (\<lambda>(nonce, aead_ct).
     v2_encode K (take HEADER_BOUND_LEN header @ nonce) kem_ct aead_ct)))))))"

definition v2_seal_with_material ::
  "crypto \<Rightarrow> ('pk, 'sk) kem_provider \<Rightarrow> 'pk \<Rightarrow> bytes \<Rightarrow> bytes \<Rightarrow> bytes \<Rightarrow> bytes \<Rightarrow> bytes \<Rightarrow> bytes \<Rightarrow>
   encoding_error + bytes" where
  "v2_seal_with_material X K pk plaintext aad ctx shared_secret kem_ct nonce =
    (if length plaintext > MAX_PLAINTEXT_LEN \<or> length aad > MAX_AAD_LEN \<or> length ctx > MAX_CONTEXT_LEN
     then Inl EncodingError else
     and_then (encode_header K (length plaintext) (public_key_hash X K pk) (context_hash X ctx) nonce)
       (\<lambda>header.
     and_then (kdf_transcript header kem_ct ctx) (\<lambda>transcript.
     and_then (v2_derive_key X shared_secret transcript) (\<lambda>key.
     and_then (associated_data header kem_ct ctx aad) (\<lambda>bound_aad.
     and_then (aead_seal X key nonce plaintext bound_aad) (\<lambda>aead_ct.
     v2_encode K header kem_ct aead_ct))))))"

definition v2_open ::
  "crypto \<Rightarrow> ('pk, 'sk) kem_provider \<Rightarrow> 'sk \<Rightarrow> bytes \<Rightarrow> bytes \<Rightarrow> bytes \<Rightarrow> decryption_error + bytes" where
  "v2_open X K sk ciphertext aad ctx =
    (if length aad > MAX_AAD_LEN \<or> length ctx > MAX_CONTEXT_LEN then Inl DecryptionError else
     and_then (v2_decode ciphertext) (\<lambda>parts.
     if suite_kem (p_suite parts) \<noteq> SUITE_KEM K then Inl DecryptionError else
     and_then (to_array 32 DecryptionError (slice 54 86 (p_header parts))) (\<lambda>supplied_context_hash.
     if supplied_context_hash \<noteq> context_hash X ctx then Inl DecryptionError else
     and_then (decapsulate K sk (p_kem_ciphertext parts)) (\<lambda>shared_secret.
     and_then (map_err (\<lambda>_. DecryptionError) (kdf_transcript (p_header parts) (p_kem_ciphertext parts) ctx))
       (\<lambda>transcript.
     and_then (map_err (\<lambda>_. DecryptionError) (v2_derive_key X shared_secret transcript)) (\<lambda>key.
     and_then (map_err (\<lambda>_. DecryptionError)
                 (associated_data (p_header parts) (p_kem_ciphertext parts) ctx aad)) (\<lambda>bound_aad.
     and_then (backend_aead_open X key (p_nonce parts) (p_aead_ciphertext parts) bound_aad) (\<lambda>plaintext.
     if length plaintext \<noteq> p_plaintext_len parts then Inl DecryptionError else
     let expected_recipient = public_key_hash X K (public_key_of K sk) in
     if p_recipient_key_hash parts \<noteq> expected_recipient then Inl DecryptionError else
     Inr plaintext))))))))"

section \<open>The v1 key schedule and the engine\<close>

definition ct_hash :: "crypto \<Rightarrow> bytes \<Rightarrow> bytes" where
  "ct_hash X kem_ct = sha3_256_digest X kem_ct"

definition v1_derive_key :: "crypto \<Rightarrow> bytes \<Rightarrow> bytes \<Rightarrow> bytes \<Rightarrow> encoding_error + bytes" where
  "v1_derive_key X shared_secret h ctx =
    (let info = PROTOCOL_ID @ as_bytes ''|aes|'' @ h @ ctx
     in ok_or (hkdf_expand X None shared_secret info 32) EncodingError)"

definition engine_encrypt ::
  "crypto \<Rightarrow> ('pk, 'sk) kem_provider \<Rightarrow> kem_rand \<Rightarrow> bytes option \<Rightarrow>
   'pk \<Rightarrow> bytes \<Rightarrow> bytes \<Rightarrow> bytes \<Rightarrow> encoding_error + bytes" where
  "engine_encrypt X K r rnd pk plaintext aad ctx = v2_seal X K r rnd pk plaintext aad ctx"

definition engine_decrypt ::
  "crypto \<Rightarrow> ('pk, 'sk) kem_provider \<Rightarrow> 'sk \<Rightarrow> bytes \<Rightarrow> bytes \<Rightarrow> bytes \<Rightarrow> decryption_error + bytes" where
  "engine_decrypt X K sk ciphertext aad ctx =
    (if starts_with ciphertext MAGIC then v2_open X K sk ciphertext aad ctx else
     and_then (decode_wire ciphertext) (\<lambda>parts.
     and_then (decapsulate K sk (wc_kem_ciphertext parts)) (\<lambda>shared_secret.
     and_then (map_err (\<lambda>_. DecryptionError)
        (v1_derive_key X shared_secret (ct_hash X (wc_kem_ciphertext parts)) ctx)) (\<lambda>aes_key.
     aead_open X aes_key (wc_nonce parts) (wc_aead_ciphertext parts) aad))))"

definition encrypt_v1_compat ::
  "crypto \<Rightarrow> ('pk, 'sk) kem_provider \<Rightarrow> kem_rand \<Rightarrow> bytes option \<Rightarrow>
   'pk \<Rightarrow> bytes \<Rightarrow> bytes \<Rightarrow> bytes \<Rightarrow> encoding_error + bytes" where
  "encrypt_v1_compat X K r rnd pk plaintext aad ctx =
    and_then (encapsulate K pk r) (\<lambda>(shared_secret, kem_ct).
    and_then (v1_derive_key X shared_secret (ct_hash X kem_ct) ctx) (\<lambda>aes_key.
    and_then (nonce_gen rnd) (\<lambda>nonce.
    and_then (aead_seal X aes_key nonce plaintext aad) (\<lambda>aead_ct.
    encode_wire kem_ct nonce aead_ct))))"

definition envelope_nonce :: "bytes \<Rightarrow> decryption_error + bytes" where
  "envelope_nonce data =
    (if starts_with data MAGIC then and_then (v2_decode data) (\<lambda>p. Inr (p_nonce p))
     else and_then (decode_wire data) (\<lambda>c. Inr (wc_nonce c)))"

section \<open>The canonical layout\<close>

definition v2_header :: "SuiteParams \<Rightarrow> nat \<Rightarrow> bytes \<Rightarrow> bytes \<Rightarrow> bytes \<Rightarrow> bytes" where
  "v2_header s n rh ch nonce =
     MAGIC @ [2, 0, suite_kem s, 0xC1, 0xB1, 0] @ [0, 98] @
     u16_be (word_of_nat (kem_ciphertext_bytes s)) @ u64_be (word_of_nat n) @ rh @ ch @ nonce"

definition v2_layout :: "bytes \<Rightarrow> Parts \<Rightarrow> bool" where
  "v2_layout data p \<longleftrightarrow>
     data = p_header p @ p_kem_ciphertext p @ p_aead_ciphertext p \<and>
     p_header p = v2_header (p_suite p) (p_plaintext_len p) (p_recipient_key_hash p)
       (slice 54 86 (p_header p)) (p_nonce p) \<and>
     p_suite p \<in> set SUITE_TABLE \<and> length (p_header p) = 98 \<and>
     length (p_kem_ciphertext p) = kem_ciphertext_bytes (p_suite p) \<and>
     length (p_nonce p) = 12 \<and> length (p_recipient_key_hash p) = 32 \<and>
     p_plaintext_len p \<le> MAX_PLAINTEXT_LEN \<and>
     length (p_aead_ciphertext p) = p_plaintext_len p + 16"

lemma MAGIC_eq: "MAGIC = [67, 84, 68, 50]"
  by (simp add: MAGIC_def as_bytes_def)

lemma length_MAGIC [simp]: "length MAGIC = 4"
  by (simp add: MAGIC_eq)

lemma u16_be_98: "u16_be (word_of_nat 98) = [0, 98]"
  by (simp add: u16_be_def be_bytes_two)

lemma length_v2_header [simp]:
  "length (v2_header s n rh ch nonce) = 22 + length rh + length ch + length nonce"
  by (simp add: v2_header_def)

lemma header_split:
  assumes "length h = 98"
  shows "h = take 4 h @ [h ! 4, h ! 5, h ! 6, h ! 7, h ! 8, h ! 9] @ [h ! 10, h ! 11] @ [h ! 12, h ! 13] @
    slice 14 22 h @ slice 22 54 h @ slice 54 86 h @ slice 86 98 h"
proof -
  have "take 14 h = take 4 h @ [h ! 4, h ! 5, h ! 6, h ! 7, h ! 8, h ! 9] @ [h ! 10, h ! 11] @ [h ! 12, h ! 13]"
    using assms take_extend [of 4 14 h] by simp
  moreover have "drop 14 h = slice 14 22 h @ slice 22 54 h @ slice 54 86 h @ slice 86 98 h"
    using assms by (simp add: slice_slice) (simp add: slice_def)
  ultimately show ?thesis
    using append_take_drop_id [of 14 h] by simp
qed

lemma v2_header_fields:
  assumes h: "h = v2_header s n rh ch nonce" and l: "length rh = 32" "length ch = 32" "length nonce = 12"
  shows "take 4 h = MAGIC" "h ! 4 = 2" "h ! 5 = 0" "h ! 6 = suite_kem s" "h ! 7 = 0xC1" "h ! 8 = 0xB1"
    "h ! 9 = 0" "[h ! 10, h ! 11] = [0, 98]" "[h ! 12, h ! 13] = u16_be (word_of_nat (kem_ciphertext_bytes s))"
    "slice 14 22 h = u64_be (word_of_nat n)" "slice 22 54 h = rh" "slice 54 86 h = ch" "slice 86 98 h = nonce"
proof -
  obtain a b where ab: "u16_be (word_of_nat (kem_ciphertext_bytes s)) = [a, b]"
    by (simp add: u16_be_def be_bytes_two)
  have u: "length (u64_be (word_of_nat n)) = 8" by simp
  have h': "h = [67, 84, 68, 50, 2, 0, suite_kem s, 0xC1, 0xB1, 0, 0, 98, a, b] @
      u64_be (word_of_nat n) @ rh @ ch @ nonce"
    by (simp add: h v2_header_def ab MAGIC_eq)
  show "take 4 h = MAGIC" "h ! 4 = 2" "h ! 5 = 0" "h ! 6 = suite_kem s" "h ! 7 = 0xC1" "h ! 8 = 0xB1"
    "h ! 9 = 0" "[h ! 10, h ! 11] = [0, 98]" "[h ! 12, h ! 13] = u16_be (word_of_nat (kem_ciphertext_bytes s))"
    by (simp_all add: h' MAGIC_eq ab)
  show "slice 14 22 h = u64_be (word_of_nat n)" "slice 22 54 h = rh" "slice 54 86 h = ch" "slice 86 98 h = nonce"
    using l u unfolding h' by (simp_all add: slice_def)
qed

lemma suite_fits: "s \<in> set SUITE_TABLE \<Longrightarrow> 1120 \<le> kem_ciphertext_bytes s \<and> kem_ciphertext_bytes s < 2 ^ 16"
  by (auto simp: SUITE_TABLE_def wire_consts)

lemma header_checks_iff:
  assumes "length h = 98" "s \<in> set SUITE_TABLE" "n \<le> 67108864"
  shows "(take 4 h = MAGIC \<and> h ! 4 = 2 \<and> h ! 5 = 0 \<and> h ! 7 = 0xC1 \<and> h ! 8 = 0xB1 \<and> h ! 9 = 0 \<and>
      unat (be_u16 [h ! 10, h ! 11]) = 98 \<and> suite_kem s = h ! 6 \<and>
      unat (be_u16 [h ! 12, h ! 13]) = kem_ciphertext_bytes s \<and> unat (be_u64 (slice 14 22 h)) = n)
    \<longleftrightarrow> h = v2_header s n (slice 22 54 h) (slice 54 86 h) (slice 86 98 h)" (is "?L \<longleftrightarrow> ?R")
proof -
  have n: "unat (be_u64 (slice 14 22 h)) = n \<longleftrightarrow> slice 14 22 h = u64_be (word_of_nat n)"
    using assms by (intro be_u64_eq_iff) (simp_all add: length_slice)
  have k: "unat (be_u16 [h ! 12, h ! 13]) = kem_ciphertext_bytes s \<longleftrightarrow>
      [h ! 12, h ! 13] = u16_be (word_of_nat (kem_ciphertext_bytes s))"
    using assms suite_fits by (intro be_u16_eq_iff) blast
  have t: "unat (be_u16 [h ! 10, h ! 11]) = 98 \<longleftrightarrow> [h ! 10, h ! 11] = [0, 98]"
    unfolding u16_be_98 [symmetric] by (intro be_u16_eq_iff) simp
  show ?thesis
  proof
    assume L: ?L
    then show ?R
      by (subst header_split [OF assms(1)]) (simp add: v2_header_def n k t)
  next
    assume R: ?R
    show ?L
      unfolding n k t using v2_header_fields [OF R] assms(1) by (simp add: length_slice)
  qed
qed

lemma expected_len_eq:
  "k < 65536 \<Longrightarrow> m \<le> 67108864 \<Longrightarrow>
   Option.bind (usize_checked_add 98 k) (\<lambda>n. Option.bind (usize_checked_add n 16) (\<lambda>n. usize_checked_add n m)) =
   Some (98 + k + 16 + m)"
  by (simp add: usize_checked_add_def)

lemma v2_decode_iff: "v2_decode data = Inr p \<longleftrightarrow> v2_layout data p"
proof (cases "1234 \<le> length data")
  case False
  have "\<not> v2_layout data p"
  proof
    assume "v2_layout data p"
    then have "length data = 98 + kem_ciphertext_bytes (p_suite p) + (p_plaintext_len p + 16)"
      and "1120 \<le> kem_ciphertext_bytes (p_suite p)"
      using suite_fits by (auto simp: v2_layout_def)
    with False show False by simp
  qed
  with False show ?thesis
    by (simp add: v2_decode_def wire_consts MIN_KEM_CIPHERTEXT_BYTES_eq)
next
  case True
  define h where "h = take 98 data"
  have h: "length h = 98" using True by (simp add: h_def)
  have "v2_decode data = Inr p \<longleftrightarrow>
    (\<exists>s n. s \<in> set SUITE_TABLE \<and> n \<le> 67108864 \<and>
      h = v2_header s n (slice 22 54 h) (slice 54 86 h) (slice 86 98 h) \<and>
      length data = 98 + kem_ciphertext_bytes s + 16 + n \<and>
      p = \<lparr> p_header = h, p_kem_ciphertext = slice 98 (98 + kem_ciphertext_bytes s) data,
        p_nonce = slice 86 98 h, p_aead_ciphertext = drop (98 + kem_ciphertext_bytes s) data,
        p_recipient_key_hash = slice 22 54 h, p_plaintext_len = n, p_suite = s \<rparr>)"
  proof -
    have "v2_decode data = Inr p \<longleftrightarrow>
     (\<exists>s n. s \<in> set SUITE_TABLE \<and> n \<le> 67108864 \<and>
       (take 4 h = MAGIC \<and> h ! 4 = 2 \<and> h ! 5 = 0 \<and> h ! 7 = 0xC1 \<and> h ! 8 = 0xB1 \<and> h ! 9 = 0 \<and>
        unat (be_u16 [h ! 10, h ! 11]) = 98 \<and> suite_kem s = h ! 6 \<and>
        unat (be_u16 [h ! 12, h ! 13]) = kem_ciphertext_bytes s \<and> unat (be_u64 (slice 14 22 h)) = n) \<and>
       length data = 98 + kem_ciphertext_bytes s + 16 + n \<and>
       p = \<lparr> p_header = h, p_kem_ciphertext = slice 98 (98 + kem_ciphertext_bytes s) data,
        p_nonce = slice 86 98 h, p_aead_ciphertext = drop (98 + kem_ciphertext_bytes s) data,
        p_recipient_key_hash = slice 22 54 h, p_plaintext_len = n, p_suite = s \<rparr>)"
      using True h suite_fits
      by (auto simp: v2_decode_def Let_def h_def [symmetric] wire_consts MIN_KEM_CIPHERTEXT_BYTES_eq
          suite_params_eq_Some length_slice expected_len_eq)
    then show ?thesis using header_checks_iff [OF h] by (simp cong: conj_cong)
  qed
  also have "\<dots> \<longleftrightarrow> v2_layout data p"
  proof
    assume "v2_layout data p"
    then have d: "data = p_header p @ p_kem_ciphertext p @ p_aead_ciphertext p" and "length (p_header p) = 98"
      and "length (p_kem_ciphertext p) = kem_ciphertext_bytes (p_suite p)"
      and e: "p_header p = v2_header (p_suite p) (p_plaintext_len p) (p_recipient_key_hash p)
       (slice 54 86 (p_header p)) (p_nonce p)"
      and l: "length (p_nonce p) = 12" "length (p_recipient_key_hash p) = 32"
      by (auto simp: v2_layout_def)
    then have "h = p_header p" "slice 98 (98 + kem_ciphertext_bytes (p_suite p)) data = p_kem_ciphertext p"
      "drop (98 + kem_ciphertext_bytes (p_suite p)) data = p_aead_ciphertext p"
      by (simp_all add: h_def slice_def)
    moreover have "slice 22 54 h = p_recipient_key_hash p" "slice 86 98 h = p_nonce p"
      using v2_header_fields(11,13) [OF e] l h \<open>h = p_header p\<close> by (simp_all add: length_slice)
    ultimately show "\<exists>s n. s \<in> set SUITE_TABLE \<and> n \<le> 67108864 \<and>
      h = v2_header s n (slice 22 54 h) (slice 54 86 h) (slice 86 98 h) \<and>
      length data = 98 + kem_ciphertext_bytes s + 16 + n \<and>
      p = \<lparr> p_header = h, p_kem_ciphertext = slice 98 (98 + kem_ciphertext_bytes s) data,
        p_nonce = slice 86 98 h, p_aead_ciphertext = drop (98 + kem_ciphertext_bytes s) data,
        p_recipient_key_hash = slice 22 54 h, p_plaintext_len = n, p_suite = s \<rparr>"
      using \<open>v2_layout data p\<close>
      by (intro exI [of _ "p_suite p"] exI [of _ "p_plaintext_len p"]) (auto simp: v2_layout_def wire_consts)
  next
    assume "\<exists>s n. s \<in> set SUITE_TABLE \<and> n \<le> 67108864 \<and>
      h = v2_header s n (slice 22 54 h) (slice 54 86 h) (slice 86 98 h) \<and>
      length data = 98 + kem_ciphertext_bytes s + 16 + n \<and>
      p = \<lparr> p_header = h, p_kem_ciphertext = slice 98 (98 + kem_ciphertext_bytes s) data,
        p_nonce = slice 86 98 h, p_aead_ciphertext = drop (98 + kem_ciphertext_bytes s) data,
        p_recipient_key_hash = slice 22 54 h, p_plaintext_len = n, p_suite = s \<rparr>"
    then show "v2_layout data p"
      using h by (auto simp: v2_layout_def length_slice wire_consts slice_drop h_def)
  qed
  finally show ?thesis .
qed

section \<open>Bindings\<close>

lemma kdf_transcript_eq_Inr:
  "kdf_transcript h k c = Inr t \<longleftrightarrow> 86 \<le> length h \<and> length k < 2 ^ 16 \<and> length c < 2 ^ 32 \<and>
     t = KDF_LABEL @ u16_be (word_of_nat 86) @ take 86 h @ u16_be (word_of_nat (length k)) @ k @
         u32_be (word_of_nat (length c)) @ c"
  by (auto simp: kdf_transcript_def push_u16_def push_u32_def Let_def wire_consts split: if_splits)

lemma associated_data_eq_Inr:
  "associated_data h k c a = Inr t \<longleftrightarrow>
     86 \<le> length h \<and> length k < 2 ^ 16 \<and> length c < 2 ^ 32 \<and> length a < 2 ^ 32 \<and>
     t = AAD_LABEL @ u16_be (word_of_nat 86) @ take 86 h @ u16_be (word_of_nat (length k)) @ k @
         u32_be (word_of_nat (length c)) @ c @ u32_be (word_of_nat (length a)) @ a"
  by (auto simp: associated_data_def push_u16_def push_u32_def Let_def wire_consts split: if_splits)

lemma kdf_transcript_inj:
  assumes "kdf_transcript h k c = Inr t" "kdf_transcript h' k' c' = Inr t"
  shows "take 86 h = take 86 h' \<and> k = k' \<and> c = c'"
proof -
  from assms have l: "length k < 2 ^ 16" "length k' < 2 ^ 16" "length c < 2 ^ 32" "length c' < 2 ^ 32"
    and e: "take 86 h @ u16_be (word_of_nat (length k)) @ k @ u32_be (word_of_nat (length c)) @ c @ [] =
       take 86 h' @ u16_be (word_of_nat (length k')) @ k' @ u32_be (word_of_nat (length c')) @ c' @ []"
    and "length (take 86 h) = 86" "length (take 86 h') = 86"
    by (auto simp: kdf_transcript_eq_Inr)
  then have "take 86 h = take 86 h'"
    and e: "u16_be (word_of_nat (length k)) @ k @ u32_be (word_of_nat (length c)) @ c @ [] =
       u16_be (word_of_nat (length k')) @ k' @ u32_be (word_of_nat (length c')) @ c' @ []"
    by (metis append_eq_append_conv)+
  with u16_prefix_inj [OF l(1,2) e] u32_prefix_inj [OF l(3,4)] show ?thesis by blast
qed

lemma associated_data_inj:
  assumes "associated_data h k c a = Inr t" "associated_data h' k' c' a' = Inr t"
  shows "take 86 h = take 86 h' \<and> k = k' \<and> c = c' \<and> a = a'"
proof -
  let ?r = "\<lambda>a. u32_be (word_of_nat (length a)) @ a @ []"
  from assms have l: "length k < 2 ^ 16" "length k' < 2 ^ 16" "length c < 2 ^ 32" "length c' < 2 ^ 32"
      "length a < 2 ^ 32" "length a' < 2 ^ 32"
    and e: "take 86 h @ u16_be (word_of_nat (length k)) @ k @ u32_be (word_of_nat (length c)) @ c @ ?r a =
       take 86 h' @ u16_be (word_of_nat (length k')) @ k' @ u32_be (word_of_nat (length c')) @ c' @ ?r a'"
    and "length (take 86 h) = 86" "length (take 86 h') = 86"
    by (auto simp: associated_data_eq_Inr)
  then have "take 86 h = take 86 h'"
    and e: "u16_be (word_of_nat (length k)) @ k @ u32_be (word_of_nat (length c)) @ c @ ?r a =
       u16_be (word_of_nat (length k')) @ k' @ u32_be (word_of_nat (length c')) @ c' @ ?r a'"
    by (metis append_eq_append_conv)+
  with u16_prefix_inj [OF l(1,2) e] u32_prefix_inj [OF l(3,4), of "?r a" "?r a'"]
    u32_prefix_inj [OF l(5,6), of "[]" "[]"] show ?thesis by blast
qed

text \<open>Only the 86 bytes before the nonce reach the key and the associated data.\<close>

lemma kdf_transcript_cong: "take 86 h = take 86 h' \<Longrightarrow> 86 \<le> length h \<Longrightarrow> 86 \<le> length h' \<Longrightarrow>
    kdf_transcript h k c = kdf_transcript h' k c"
  by (simp add: kdf_transcript_def wire_consts)

lemma associated_data_cong: "take 86 h = take 86 h' \<Longrightarrow> 86 \<le> length h \<Longrightarrow> 86 \<le> length h' \<Longrightarrow>
    associated_data h k c a = associated_data h' k c a"
  by (simp add: associated_data_def wire_consts)

section \<open>Seal and open\<close>

lemma encode_header_ok:
  assumes "kem_ok K" "n \<le> MAX_PLAINTEXT_LEN"
  obtains s where "s \<in> set SUITE_TABLE" "suite_kem s = SUITE_KEM K"
    "kem_ciphertext_bytes s = K_CIPHERTEXT_BYTES K"
    "\<And>rh ch nonce. encode_header K n rh ch nonce = Inr (v2_header s n rh ch nonce)"
proof -
  from assms obtain s where s: "suite_params (SUITE_KEM K) = Some s" "kem_ciphertext_bytes s = K_CIPHERTEXT_BYTES K"
    by (auto simp: kem_ok_def)
  then have "s \<in> set SUITE_TABLE" "suite_kem s = SUITE_KEM K" by (auto simp: suite_params_eq_Some)
  moreover have "encode_header K n rh ch nonce = Inr (v2_header s n rh ch nonce)" for rh ch nonce
    using s assms suite_fits [OF \<open>s \<in> set SUITE_TABLE\<close>] \<open>suite_kem s = SUITE_KEM K\<close> u16_be_98
    by (simp add: encode_header_def v2_header_def wire_consts)
  ultimately show thesis using that s by blast
qed

lemma v2_header_nonce:
  "length rh = 32 \<Longrightarrow> length ch = 32 \<Longrightarrow> take 86 (v2_header s n rh ch nonce) @ nonce' = v2_header s n rh ch nonce'"
  by (simp add: v2_header_def)

lemma seal_eq_seal_with_material:
  assumes "kem_ok K" "crypto_ok X" and e: "encapsulate K pk r = Inr (ss, kem_ct)" and n: "rnd = Some nonce"
  shows "v2_seal X K r rnd pk pt aad ctx = v2_seal_with_material X K pk pt aad ctx ss kem_ct nonce"
proof (cases "length pt > MAX_PLAINTEXT_LEN \<or> length aad > MAX_AAD_LEN \<or> length ctx > MAX_CONTEXT_LEN")
  case True
  then show ?thesis by (auto simp: v2_seal_def v2_seal_with_material_def)
next
  case False
  let ?rh = "public_key_hash X K pk" and ?ch = "context_hash X ctx"
  have l: "length ?rh = 32" "length ?ch = 32"
    using assms(2) by (simp_all add: public_key_hash_def context_hash_def backend_sha3_256_def digest_lengths)
  from False assms(1) obtain s where
    h: "\<And>nonce. encode_header K (length pt) ?rh ?ch nonce = Inr (v2_header s (length pt) ?rh ?ch nonce)"
    by (metis encode_header_ok not_le)
  let ?z = "v2_header s (length pt) ?rh ?ch (replicate 12 0)" and ?h = "v2_header s (length pt) ?rh ?ch nonce"
  have t: "take 86 ?z = take 86 ?h" by (simp add: v2_header_def l)
  have c: "kdf_transcript ?z k c = kdf_transcript ?h k c" "associated_data ?z k c a = associated_data ?h k c a"
    for k c a using t l by (auto intro: kdf_transcript_cong associated_data_cong)
  show ?thesis
  proof (cases "kdf_transcript ?h kem_ct ctx")
    case (Inr t)
    show ?thesis
      using False l
      by (cases "v2_derive_key X ss t"; cases "associated_data ?h kem_ct ctx aad")
        (auto simp: v2_seal_def v2_seal_with_material_def e n h wire_consts c Inr backend_aead_seal_def
          nonce_gen_def aead_seal_def v2_header_nonce and_then_assoc)
  qed (use False in \<open>auto simp: v2_seal_def v2_seal_with_material_def e n h wire_consts c\<close>)
qed

text \<open>What an accepted envelope is made of, and the same for a deterministic seal.\<close>

definition v2_material ::
  "crypto \<Rightarrow> ('pk, 'sk) kem_provider \<Rightarrow> 'pk \<Rightarrow> bytes \<Rightarrow> bytes \<Rightarrow> bytes \<Rightarrow> bytes \<Rightarrow> bytes \<Rightarrow> bytes \<Rightarrow> bytes \<Rightarrow>
   bool" where
  "v2_material X K pk ct pt aad ctx ss kem_ct nonce \<longleftrightarrow>
    (\<exists>s h t key ad c.
      s \<in> set SUITE_TABLE \<and> suite_kem s = SUITE_KEM K \<and>
      h = v2_header s (length pt) (public_key_hash X K pk) (context_hash X ctx) nonce \<and>
      kdf_transcript h kem_ct ctx = Inr t \<and> v2_derive_key X ss t = Inr key \<and>
      associated_data h kem_ct ctx aad = Inr ad \<and> gcm_encrypt X key nonce pt ad = Some c \<and>
      length kem_ct = kem_ciphertext_bytes s \<and> ct = h @ kem_ct @ c \<and>
      length pt \<le> MAX_PLAINTEXT_LEN \<and> length aad \<le> MAX_AAD_LEN \<and> length ctx \<le> MAX_CONTEXT_LEN)"

lemma v2_materialI:
  assumes "s \<in> set SUITE_TABLE" "suite_kem s = SUITE_KEM K"
    "h = v2_header s (length pt) (public_key_hash X K pk) (context_hash X ctx) nonce"
    "kdf_transcript h kem_ct ctx = Inr t" "v2_derive_key X ss t = Inr key"
    "associated_data h kem_ct ctx aad = Inr ad" "gcm_encrypt X key nonce pt ad = Some c"
    "length kem_ct = kem_ciphertext_bytes s" "ct = h @ kem_ct @ c"
    "length pt \<le> MAX_PLAINTEXT_LEN" "length aad \<le> MAX_AAD_LEN" "length ctx \<le> MAX_CONTEXT_LEN"
  shows "v2_material X K pk ct pt aad ctx ss kem_ct nonce"
  unfolding v2_material_def using assms
  by (intro exI [of _ s] exI [of _ h] exI [of _ t] exI [of _ key] exI [of _ ad] exI [of _ c] conjI)

lemma SUITE_TABLE_unique: "s \<in> set SUITE_TABLE \<Longrightarrow> s' \<in> set SUITE_TABLE \<Longrightarrow> suite_kem s = suite_kem s' \<Longrightarrow> s = s'"
  by (auto simp: SUITE_TABLE_def wire_consts)

lemma seal_with_material_iff:
  assumes "kem_ok K" "crypto_ok X"
  shows "v2_seal_with_material X K pk pt aad ctx ss kem_ct nonce = Inr ct \<longleftrightarrow>
    v2_material X K pk ct pt aad ctx ss kem_ct nonce"
proof (cases "length pt \<le> MAX_PLAINTEXT_LEN")
  case True
  obtain s where s: "s \<in> set SUITE_TABLE" "suite_kem s = SUITE_KEM K" "kem_ciphertext_bytes s = K_CIPHERTEXT_BYTES K"
    and e: "\<And>rh ch nonce. encode_header K (length pt) rh ch nonce = Inr (v2_header s (length pt) rh ch nonce)"
    using encode_header_ok [OF assms(1) True] by metis
  have u: "s' = s" if "s' \<in> set SUITE_TABLE" "suite_kem s' = SUITE_KEM K" for s'
    using that s by (auto intro: SUITE_TABLE_unique)
  have c: "16 \<le> length c" if "gcm_encrypt X k n pt a = Some c" for k n a c
    using gcm_encrypt_length [OF assms(2) that] by simp
  show ?thesis
  proof
    assume "v2_seal_with_material X K pk pt aad ctx ss kem_ct nonce = Inr ct"
    then obtain t key ad c where *:
      "kdf_transcript (v2_header s (length pt) (public_key_hash X K pk) (context_hash X ctx) nonce) kem_ct ctx = Inr t"
      "v2_derive_key X ss t = Inr key"
      "associated_data (v2_header s (length pt) (public_key_hash X K pk) (context_hash X ctx) nonce) kem_ct ctx aad = Inr ad"
      "gcm_encrypt X key nonce pt ad = Some c" "length kem_ct = K_CIPHERTEXT_BYTES K"
      "ct = v2_header s (length pt) (public_key_hash X K pk) (context_hash X ctx) nonce @ kem_ct @ c"
      "length aad \<le> MAX_AAD_LEN" "length ctx \<le> MAX_CONTEXT_LEN"
      by (auto simp: v2_seal_with_material_def e aead_seal_def v2_encode_def not_less)
    show "v2_material X K pk ct pt aad ctx ss kem_ct nonce"
      by (rule v2_materialI [OF s(1,2) refl *(1-4) _ *(6) True *(7,8)]) (simp add: *(5) s(3))
  next
    assume "v2_material X K pk ct pt aad ctx ss kem_ct nonce"
    then obtain h t key ad c where
      "h = v2_header s (length pt) (public_key_hash X K pk) (context_hash X ctx) nonce"
      "kdf_transcript h kem_ct ctx = Inr t" "v2_derive_key X ss t = Inr key"
      "associated_data h kem_ct ctx aad = Inr ad" "gcm_encrypt X key nonce pt ad = Some c"
      "length kem_ct = kem_ciphertext_bytes s" "ct = h @ kem_ct @ c"
      "length aad \<le> MAX_AAD_LEN" "length ctx \<le> MAX_CONTEXT_LEN"
      unfolding v2_material_def using u by blast
    with s True c [of key nonce ad c] show "v2_seal_with_material X K pk pt aad ctx ss kem_ct nonce = Inr ct"
      by (simp add: v2_seal_with_material_def e aead_seal_def v2_encode_def TAG_LEN_def not_less)
  qed
qed (auto simp: v2_seal_with_material_def v2_material_def)

lemma v2_open_iff:
  assumes "kem_ok K" "crypto_ok X"
  shows "v2_open X K sk ct aad ctx = Inr pt \<longleftrightarrow>
    (\<exists>ss kem_ct nonce. length nonce = 12 \<and> decapsulate K sk kem_ct = Inr ss \<and>
       v2_material X K (public_key_of K sk) ct pt aad ctx ss kem_ct nonce)" (is "?L \<longleftrightarrow> ?R")
proof
  let ?rh = "public_key_hash X K (public_key_of K sk)"
  assume ?L
  then obtain p ss t key ad where l: "length aad \<le> MAX_AAD_LEN" "length ctx \<le> MAX_CONTEXT_LEN"
    and p: "v2_layout ct p" and s: "suite_kem (p_suite p) = SUITE_KEM K"
    and ch: "slice 54 86 (p_header p) = context_hash X ctx"
    and d: "decapsulate K sk (p_kem_ciphertext p) = Inr ss"
    and t: "kdf_transcript (p_header p) (p_kem_ciphertext p) ctx = Inr t" "v2_derive_key X ss t = Inr key"
    and ad: "associated_data (p_header p) (p_kem_ciphertext p) ctx aad = Inr ad"
    and o: "gcm_decrypt X key (p_nonce p) (p_aead_ciphertext p) ad = Some pt"
    and pl: "length pt = p_plaintext_len p" and rh: "p_recipient_key_hash p = ?rh"
    by (auto simp: v2_open_def v2_decode_iff backend_aead_open_def aead_open_def Let_def not_less)
  from o assms(2) have enc: "gcm_encrypt X key (p_nonce p) pt ad = Some (p_aead_ciphertext p)"
    by (rule gcm_encrypt_decrypt [rotated])
  from p have hdr: "p_header p = v2_header (p_suite p) (length pt) ?rh (context_hash X ctx) (p_nonce p)"
    unfolding v2_layout_def ch rh pl by (elim conjE)
  from p have lay: "ct = p_header p @ p_kem_ciphertext p @ p_aead_ciphertext p" "p_suite p \<in> set SUITE_TABLE"
    "length (p_kem_ciphertext p) = kem_ciphertext_bytes (p_suite p)" "length pt \<le> MAX_PLAINTEXT_LEN"
    unfolding v2_layout_def pl by auto
  have "v2_material X K (public_key_of K sk) ct pt aad ctx ss (p_kem_ciphertext p) (p_nonce p)"
    by (rule v2_materialI [OF lay(2) s hdr t ad enc lay(3) lay(1) lay(4) l])
  moreover from p have "length (p_nonce p) = 12" unfolding v2_layout_def by (elim conjE)
  ultimately show ?R using d by blast
next
  let ?rh = "public_key_hash X K (public_key_of K sk)" and ?ch = "context_hash X ctx"
  have lh: "length ?rh = 32" "length ?ch = 32"
    using assms(2) by (simp_all add: public_key_hash_def context_hash_def backend_sha3_256_def digest_lengths)
  assume ?R
  then obtain ss kem_ct nonce s h t key ad c where n: "length nonce = 12" and d: "decapsulate K sk kem_ct = Inr ss"
    and s: "s \<in> set SUITE_TABLE" "suite_kem s = SUITE_KEM K"
    and h: "h = v2_header s (length pt) ?rh ?ch nonce"
    and t: "kdf_transcript h kem_ct ctx = Inr t" "v2_derive_key X ss t = Inr key"
    and ad: "associated_data h kem_ct ctx aad = Inr ad" and c: "gcm_encrypt X key nonce pt ad = Some c"
    and k: "length kem_ct = kem_ciphertext_bytes s" and ct: "ct = h @ kem_ct @ c"
    and l: "length pt \<le> MAX_PLAINTEXT_LEN" "length aad \<le> MAX_AAD_LEN" "length ctx \<le> MAX_CONTEXT_LEN"
    unfolding v2_material_def by blast
  from c assms(2) have o: "gcm_decrypt X key nonce c ad = Some pt" and lc: "length c = length pt + 16"
    by (simp_all add: crypto_laws)
  let ?p = "\<lparr> p_header = h, p_kem_ciphertext = kem_ct, p_nonce = nonce, p_aead_ciphertext = c,
    p_recipient_key_hash = ?rh, p_plaintext_len = length pt, p_suite = s \<rparr>"
  have ch: "slice 54 86 h = ?ch" by (rule v2_header_fields(12) [OF h lh n])
  have "length h = 98" using n lh by (simp add: h)
  then have "v2_decode ct = Inr ?p"
    unfolding v2_decode_iff v2_layout_def using h ch ct k s l n lh lc by simp
  then show ?L
    using l s ch d t ad o lh
    by (simp add: v2_open_def backend_aead_open_def aead_open_def to_array_def not_less)
qed

lemma v2_open_seal:
  assumes "kem_ok K" "crypto_ok X" and nonce: "\<And>n. rnd = Some n \<Longrightarrow> length n = 12"
    and seal: "v2_seal X K r rnd (public_key_of K sk) pt aad ctx = Inr ct"
  shows "v2_open X K sk ct aad ctx = Inr pt"
proof -
  from seal obtain ss kem_ct n where e: "encapsulate K (public_key_of K sk) r = Inr (ss, kem_ct)" and n: "rnd = Some n"
    by (auto simp: v2_seal_def backend_aead_seal_def nonce_gen_def)
  then have "v2_material X K (public_key_of K sk) ct pt aad ctx ss kem_ct n"
    using seal seal_eq_seal_with_material [OF assms(1,2) e n] seal_with_material_iff [OF assms(1,2)] by simp
  moreover from e assms(1) have "decapsulate K sk kem_ct = Inr ss" by (auto simp: kem_ok_def)
  ultimately show ?thesis using v2_open_iff [OF assms(1,2)] nonce [OF n] by blast
qed

lemma v2_seal_total:
  assumes K: "kem_ok K" and X: "crypto_ok X" and n: "length nonce = 12"
    and l: "length pt \<le> MAX_PLAINTEXT_LEN" "length aad \<le> MAX_AAD_LEN" "length ctx \<le> MAX_CONTEXT_LEN"
    and e: "encapsulate K (public_key_of K sk) r = Inr (ss, kem_ct)"
  shows "\<exists>ct. v2_seal X K r (Some nonce) (public_key_of K sk) pt aad ctx = Inr ct"
proof -
  let ?rh = "public_key_hash X K (public_key_of K sk)" and ?ch = "context_hash X ctx"
  obtain s where s: "s \<in> set SUITE_TABLE" "suite_kem s = SUITE_KEM K" "kem_ciphertext_bytes s = K_CIPHERTEXT_BYTES K"
    using encode_header_ok [OF K l(1)] by metis
  have k: "length kem_ct = kem_ciphertext_bytes s" using e K s(3) by (auto simp: kem_ok_def)
  let ?h = "v2_header s (length pt) ?rh ?ch nonce"
  have h: "86 \<le> length ?h"
    using X n by (simp add: public_key_hash_def context_hash_def backend_sha3_256_def digest_lengths)
  have b: "length kem_ct < 2 ^ 16" "length ctx < 2 ^ 32" "length aad < 2 ^ 32"
    using k suite_fits [OF s(1)] l by (simp_all add: wire_consts)
  obtain t where t: "kdf_transcript ?h kem_ct ctx = Inr t" using h b by (simp add: kdf_transcript_eq_Inr)
  obtain ad where ad: "associated_data ?h kem_ct ctx aad = Inr ad" using h b by (simp add: associated_data_eq_Inr)
  then have lad: "length ad < 2 ^ 36" using b h l by (auto simp: associated_data_eq_Inr AAD_LABEL_def wire_consts)
  obtain key where key: "v2_derive_key X ss t = Inr key" and lk: "length key = 32"
    using hkdf_lengths(2) [OF X, of 32 "Some (backend_sha256 X EXTRACT_SALT_LABEL)" ss t]
      hkdf_lengths(1) [OF X]
    by (auto simp: v2_derive_key_def backend_hkdf_sha256_def)
  obtain c where c: "gcm_encrypt X key nonce pt ad = Some c"
    using gcm_encrypt_total [OF X lk n _ lad, of pt] l(1) by (auto simp: wire_consts)
  have "v2_material X K (public_key_of K sk) (?h @ kem_ct @ c) pt aad ctx ss kem_ct nonce"
    by (rule v2_materialI [OF s(1,2) refl t key ad c k refl l])
  then show ?thesis
    using seal_with_material_iff [OF K X] seal_eq_seal_with_material [OF K X e refl] by metis
qed

text \<open>A concrete envelope for the witnesses.\<close>

definition toy_kem :: "(PublicKey, SecretKey) kem_provider" where
  "toy_kem = HybridX25519MlKem768Provider toy_prims"

definition toy_sk :: SecretKey where
  "toy_sk = \<lparr> sk_x25519 = replicate 32 1, sk_mlkem = replicate 2400 1 \<rparr>"

definition toy_rand :: kem_rand where
  "toy_rand = \<lparr> eph_draw = replicate 32 2, eph_failed = False, mlkem_m = replicate 32 3 \<rparr>"

lemma toy_kem_ok: "kem_ok toy_kem"
  unfolding toy_kem_def by (rule HybridX25519MlKem768Provider_ok [OF toy_prims_ok])

lemma toy_encapsulate: "\<exists>ss kem_ct. encapsulate toy_kem pk toy_rand = Inr (ss, kem_ct)"
  by (simp add: toy_kem_def HybridX25519MlKem768Provider_def hybrid_encapsulate_def toy_prims_def Let_def)

lemma toy_sealed:
  "\<exists>ct. v2_seal toy_crypto toy_kem toy_rand (Some (replicate 12 5)) (public_key_of toy_kem toy_sk) [1, 2, 3] [7] [8] = Inr ct"
proof -
  obtain ss k where "encapsulate toy_kem (public_key_of toy_kem toy_sk) toy_rand = Inr (ss, k)"
    using toy_encapsulate by blast
  then show ?thesis by (intro v2_seal_total [OF toy_kem_ok toy_crypto_ok]) (simp_all add: wire_consts)
qed

lemma toy_envelope: "\<exists>ct. v2_open toy_crypto toy_kem toy_sk ct [7] [8] = Inr [1, 2, 3]"
  using toy_sealed v2_open_seal [OF toy_kem_ok toy_crypto_ok, of "Some (replicate 12 5)"] by fastforce

lemma encrypt_v1_compat_decrypt:
  assumes "kem_ok K" "crypto_ok X" "SUITE_KEM K = SUITE_KEM_HYBRID_X25519_MLKEM768"
    and nonce: "\<And>n. rnd = Some n \<Longrightarrow> length n = 12"
    and e: "encrypt_v1_compat X K r rnd (public_key_of K sk) pt aad ctx = Inr ct"
  shows "engine_decrypt X K sk ct aad ctx = Inr pt"
proof -
  from e obtain ss k key n c where enc: "encapsulate K (public_key_of K sk) r = Inr (ss, k)"
    and key: "v1_derive_key X ss (ct_hash X k) ctx = Inr key" and n: "rnd = Some n"
    and c: "gcm_encrypt X key n pt aad = Some c" and w: "encode_wire k n c = Inr ct"
    by (auto simp: encrypt_v1_compat_def nonce_gen_def aead_seal_def)
  from enc assms(1) have d: "decapsulate K sk k = Inr ss" by (auto simp: kem_ok_def)
  let ?m = "\<lparr> wc_version = 1, wc_suite_kem = 0xA3, wc_suite_aead = 0xB1, wc_flags = 0,
    wc_kem_ct_len = 1120, wc_kem_ciphertext = k, wc_nonce = n, wc_aead_ciphertext = c \<rparr>"
  have "valid_v1 ?m" using nonce [OF n] by (simp add: valid_v1_def wire_consts)
  moreover have "encode_components ?m = Inr ct" using w by (simp add: encode_components_def)
  ultimately have "decode_wire ct = Inr ?m" by (rule v1.decode_of_encode)
  moreover have "\<not> starts_with ct MAGIC"
    using w by (auto simp: encode_wire_eq_Inr starts_with_def MAGIC_eq)
  ultimately show ?thesis
    using d key gcm_decrypt_encrypt [OF assms(2) c] by (simp add: engine_decrypt_def aead_open_def)
qed

section \<open>Binding of the context and of the caller's associated data\<close>

definition sha3_collision :: "crypto \<Rightarrow> bytes \<Rightarrow> bytes \<Rightarrow> bool" where
  "sha3_collision X a b \<longleftrightarrow> a \<noteq> b \<and> sha3_256_digest X a = sha3_256_digest X b"

text \<open>The forgery that \<open>v2_open\<close> could be fooled by, computed from one envelope, one context and two
  associated data: under the key that \<open>sk\<close> derives for this envelope and this context, the envelope's own nonce and
  AEAD ciphertext authenticate both of the two bound associated data, and these differ.\<close>

definition envelope_key :: "crypto \<Rightarrow> ('pk, 'sk) kem_provider \<Rightarrow> 'sk \<Rightarrow> Parts \<Rightarrow> bytes \<Rightarrow> bytes option" where
  "envelope_key X K sk p ctx =
    (case (decapsulate K sk (p_kem_ciphertext p), kdf_transcript (p_header p) (p_kem_ciphertext p) ctx) of
       (Inr ss, Inr t) \<Rightarrow> (case v2_derive_key X ss t of Inr key \<Rightarrow> Some key | Inl _ \<Rightarrow> None)
     | _ \<Rightarrow> None)"

definition gcm_aad_forgery ::
  "crypto \<Rightarrow> ('pk, 'sk) kem_provider \<Rightarrow> 'sk \<Rightarrow> bytes \<Rightarrow> bytes \<Rightarrow> bytes \<Rightarrow> bytes \<Rightarrow> bool" where
  "gcm_aad_forgery X K sk ct ctx aad aad' =
    (case v2_decode ct of Inl _ \<Rightarrow> False | Inr p \<Rightarrow>
     (case (envelope_key X K sk p ctx, associated_data (p_header p) (p_kem_ciphertext p) ctx aad,
            associated_data (p_header p) (p_kem_ciphertext p) ctx aad') of
        (Some key, Inr ad, Inr ad') \<Rightarrow>
          ad \<noteq> ad' \<and> gcm_decrypt X key (p_nonce p) (p_aead_ciphertext p) ad \<noteq> None \<and>
          gcm_decrypt X key (p_nonce p) (p_aead_ciphertext p) ad' \<noteq> None
      | _ \<Rightarrow> False))"

lemma v2_open_binds:
  assumes "v2_open X K sk ct aad ctx = Inr pt" "v2_open X K sk ct aad' ctx' = Inr pt'"
  shows "aad = aad' \<and> ctx = ctx' \<and> pt = pt' \<or> sha3_collision X ctx ctx' \<or>
    ctx = ctx' \<and> gcm_aad_forgery X K sk ct ctx aad aad'"
proof (cases "ctx = ctx'")
  case False
  from assms have "context_hash X ctx = context_hash X ctx'" by (auto simp: v2_open_def)
  with False show ?thesis by (simp add: sha3_collision_def context_hash_def backend_sha3_256_def)
next
  case True
  from assms True obtain p :: Parts and ad ad' key where
    p: "v2_decode ct = Inr p" and key: "envelope_key X K sk p ctx = Some key"
    and ad: "associated_data (p_header p) (p_kem_ciphertext p) ctx aad = Inr ad"
      "associated_data (p_header p) (p_kem_ciphertext p) ctx aad' = Inr ad'"
    and o: "gcm_decrypt X key (p_nonce p) (p_aead_ciphertext p) ad = Some pt"
      "gcm_decrypt X key (p_nonce p) (p_aead_ciphertext p) ad' = Some pt'"
    by (auto simp: v2_open_def backend_aead_open_def aead_open_def envelope_key_def Let_def)
  show ?thesis
  proof (cases "ad = ad'")
    case same: True
    with ad associated_data_inj have "aad = aad'" by blast
    with o same True show ?thesis by simp
  next
    case False
    with p key ad o True show ?thesis by (simp add: gcm_aad_forgery_def)
  qed
qed

section \<open>Properties\<close>

text \<open>C18: the CTD2 decoder accepts exactly the canonical layout. A byte string decodes to \<open>p\<close> if and
  only if it is header, KEM ciphertext and AEAD ciphertext of \<open>p\<close> in this order, the 98-byte header is
  the one written for the suite, plaintext length, recipient hash, context hash and nonce of \<open>p\<close>, the
  suite is in the table and every length is the one the suite and the header declare.\<close>

theorem ctd2_decode_canonical: "v2_decode data = Inr p \<longleftrightarrow> v2_layout data p"
  by (rule v2_decode_iff)

text \<open>The key-derivation transcript and the associated data are unambiguous encodings: equal
  outputs mean equal nonce-free header prefix, KEM ciphertext, context and caller data.\<close>

lemma v2_bindings_injective:
  "(kdf_transcript h k c = Inr t \<and> kdf_transcript h' k' c' = Inr t \<longrightarrow>
      take HEADER_BOUND_LEN h = take HEADER_BOUND_LEN h' \<and> k = k' \<and> c = c') \<and>
   (associated_data h k c a = Inr d \<and> associated_data h' k' c' a' = Inr d \<longrightarrow>
      take HEADER_BOUND_LEN h = take HEADER_BOUND_LEN h' \<and> k = k' \<and> c = c' \<and> a = a')"
  using kdf_transcript_inj associated_data_inj by (simp add: wire_consts) blast

lemma v2_bindings_injective_witness:
  "kdf_transcript (replicate 98 1) [2] [3] = kdf_transcript (replicate 86 1) [2] [3] \<and>
   take HEADER_BOUND_LEN (replicate 98 (1 :: byte)) = take HEADER_BOUND_LEN (replicate 86 1)"
proof -
  have t: "kdf_transcript (replicate 98 1) [2] [3] = kdf_transcript (replicate 86 1) [2] [3]"
    by (rule kdf_transcript_cong) simp_all
  obtain x where "kdf_transcript (replicate 98 1) [2] [3] = Inr x"
    by (simp add: kdf_transcript_eq_Inr)
  with t show ?thesis
    using v2_bindings_injective [of "replicate 98 1" "[2]" "[3]" x "replicate 86 1" "[2]" "[3]"]
    by simp
qed

text \<open>C1: \<open>v2_open\<close> inverts the deterministic seal and nothing else. For a provider that meets the
  trait's contract and primitives that meet theirs, an envelope opens to \<open>pt\<close> under \<open>sk\<close>, \<open>aad\<close> and
  \<open>ctx\<close> if and only if it is the envelope \<open>seal_with_material\<close> builds for the public key of \<open>sk\<close>, the
  same \<open>pt\<close>, \<open>aad\<close> and \<open>ctx\<close>, some 12-byte nonce and some KEM ciphertext with the secret it
  decapsulates to. So every accepted envelope is well formed in every field.\<close>

theorem v2_open_iff_sealed:
  assumes "kem_ok K" "crypto_ok X"
  shows "v2_open X K sk ct aad ctx = Inr pt \<longleftrightarrow>
    (\<exists>ss kem_ct nonce. length nonce = NONCE_LEN \<and> decapsulate K sk kem_ct = Inr ss \<and>
       v2_seal_with_material X K (public_key_of K sk) pt aad ctx ss kem_ct nonce = Inr ct)"
  by (simp add: v2_open_iff [OF assms] seal_with_material_iff [OF assms] NONCE_LEN_def)

theorem v2_open_iff_sealed_witness:
  "\<exists>ct. v2_open toy_crypto toy_kem toy_sk ct [7] [8] = Inr [1, 2, 3] \<and>
    (\<exists>ss kem_ct nonce. length nonce = NONCE_LEN \<and> decapsulate toy_kem toy_sk kem_ct = Inr ss \<and>
       v2_seal_with_material toy_crypto toy_kem (public_key_of toy_kem toy_sk) [1, 2, 3] [7] [8] ss kem_ct nonce =
         Inr ct)"
  using toy_envelope v2_open_iff_sealed [OF toy_kem_ok toy_crypto_ok, of toy_sk _ "[7]" "[8]" "[1, 2, 3]"]
  by blast

text \<open>C19: an envelope is bound to its associated data and its context. If one byte string opens under
  two pairs of associated data and context, the pairs and the plaintexts are equal, unless the two
  contexts themselves are a SHA3-256 collision, or the contexts agree and the envelope itself is an AES-GCM forgery: its own AEAD
  ciphertext authenticates, under its own nonce and the one key it derives for this context, the two different bound
  associated data built from the two given ones.\<close>

theorem v2_open_binds_aad_and_context:
  assumes "v2_open X K sk ct aad ctx = Inr pt" and "v2_open X K sk ct aad' ctx' = Inr pt'"
  shows "aad = aad' \<and> ctx = ctx' \<and> pt = pt' \<or> sha3_collision X ctx ctx' \<or>
    ctx = ctx' \<and> gcm_aad_forgery X K sk ct ctx aad aad'"
  using assms by (rule v2_open_binds)

theorem v2_open_binds_aad_and_context_witness:
  "\<exists>ct. v2_open toy_crypto toy_kem toy_sk ct [7] [8] = Inr [1, 2, 3] \<and>
    ([7] = [7 :: byte] \<and> [8] = [8 :: byte] \<and> [1, 2, 3] = [1, 2, 3 :: byte] \<or>
     sha3_collision toy_crypto [8] [8] \<or>
     [8] = [8 :: byte] \<and> gcm_aad_forgery toy_crypto toy_kem toy_sk ct [8] [7] [7])"
proof -
  obtain ct where "v2_open toy_crypto toy_kem toy_sk ct [7] [8] = Inr [1, 2, 3]" using toy_envelope by blast
  with v2_open_binds_aad_and_context [OF this this] show ?thesis by blast
qed

end
