(* ===== verification/Sdk.thy ===== *)
theory Sdk
  imports Wire_V2
begin

text \<open>
  \<^verbatim>\<open>citadel-envelope/src/aad.rs\<close>, \<^verbatim>\<open>envelope.rs\<close> and \<^verbatim>\<open>sdk.rs\<close>: the builders of associated data and
  context, the two engines and the envelope facade, and \<^verbatim>\<open>inspect\<close>.
\<close>

section \<open>Locked conventions (aad.rs)\<close>

definition CONTEXT_PREFIX :: bytes where "CONTEXT_PREFIX = as_bytes ''citadel|ctx|v1|''"
definition AAD_PREFIX :: bytes where "AAD_PREFIX = as_bytes ''citadel|aad|v1''"

datatype AadTlvType = SenderId | RecipientId | Route | TimestampUnixMs | Sequence | MsgId16

fun tlv_code :: "AadTlvType \<Rightarrow> byte" where
  "tlv_code SenderId = 0x01"
| "tlv_code RecipientId = 0x02"
| "tlv_code Route = 0x03"
| "tlv_code TimestampUnixMs = 0x04"
| "tlv_code Sequence = 0x05"
| "tlv_code MsgId16 = 0x06"

definition build_context :: "string \<Rightarrow> string \<Rightarrow> bytes" where
  "build_context env purpose =
    (let env_b = take (min (length env) 65535) (as_bytes env);
         purpose_b = take (min (length purpose) 65535) (as_bytes purpose)
     in CONTEXT_PREFIX @ u16_be (word_of_nat (length env_b)) @ env_b @
        u16_be (word_of_nat (length purpose_b)) @ purpose_b)"

definition push_tlv :: "bytes \<Rightarrow> AadTlvType \<Rightarrow> bytes \<Rightarrow> encoding_error + bytes" where
  "push_tlv out t v =
    (if length v > 65535 then Inl EncodingError
     else Inr (out @ [tlv_code t] @ u16_be (word_of_nat (length v)) @ v))"

definition build_aad ::
  "string \<Rightarrow> string \<Rightarrow> string \<Rightarrow> u64 \<Rightarrow> u64 \<Rightarrow> bytes \<Rightarrow> encoding_error + bytes" where
  "build_aad sender_id recipient_id route ts_unix_ms seq msg_id =
    and_then (push_tlv AAD_PREFIX SenderId (as_bytes sender_id)) (\<lambda>out.
    and_then (push_tlv out RecipientId (as_bytes recipient_id)) (\<lambda>out.
    and_then (push_tlv out Route (as_bytes route)) (\<lambda>out.
    and_then (push_tlv out TimestampUnixMs (u64_be ts_unix_ms)) (\<lambda>out.
    and_then (push_tlv out Sequence (u64_be seq)) (\<lambda>out.
    push_tlv out MsgId16 msg_id)))))"

definition generate_msg_id :: "bytes option \<Rightarrow> encoding_error + bytes" where
  "generate_msg_id rnd = ok_or rnd EncodingError"

section \<open>Typed associated data and context (sdk.rs)\<close>

definition Aad_for_storage :: "string \<Rightarrow> string \<Rightarrow> u64 \<Rightarrow> bytes" where
  "Aad_for_storage bucket object_id version =
     as_bytes (''storage|'' @ bucket @ ''|'' @ object_id @ ''|v'' @ show_nat (unat version))"

definition Aad_for_database :: "string \<Rightarrow> string \<Rightarrow> string \<Rightarrow> bytes" where
  "Aad_for_database table row_id column = as_bytes (''db|'' @ table @ ''|'' @ row_id @ ''|'' @ column)"

definition Aad_for_backup :: "string \<Rightarrow> u64 \<Rightarrow> bytes" where
  "Aad_for_backup system timestamp_unix =
     as_bytes (''backup|'' @ system @ ''|'' @ show_nat (unat timestamp_unix))"

definition Aad_for_message :: "string \<Rightarrow> string \<Rightarrow> string \<Rightarrow> bytes" where
  "Aad_for_message sender recipient msg_id = as_bytes (''msg|'' @ sender @ ''|'' @ recipient @ ''|'' @ msg_id)"

definition Context_for_application :: "string \<Rightarrow> string \<Rightarrow> bytes" where
  "Context_for_application app_name environment = as_bytes (''app|'' @ app_name @ ''|'' @ environment)"

definition Context_for_backup :: "string \<Rightarrow> u32 \<Rightarrow> bytes" where
  "Context_for_backup system epoch =
     as_bytes (''backup|'' @ system @ ''|epoch'' @ show_nat (unat epoch))"

definition Context_for_service :: "string \<Rightarrow> string \<Rightarrow> string \<Rightarrow> bytes" where
  "Context_for_service from_s to_s protocol_version =
     as_bytes (''service|'' @ from_s @ ''|'' @ to_s @ ''|'' @ protocol_version)"

definition Context_for_secrets :: "string \<Rightarrow> string \<Rightarrow> bytes" where
  "Context_for_secrets namespace key_id = as_bytes (''secrets|'' @ namespace @ ''|'' @ key_id)"

section \<open>The engines\<close>

definition Citadel_seal ::
  "crypto \<Rightarrow> prims \<Rightarrow> kem_rand \<Rightarrow> bytes option \<Rightarrow> PublicKey \<Rightarrow> bytes \<Rightarrow> bytes \<Rightarrow> bytes \<Rightarrow>
   encoding_error + bytes" where
  "Citadel_seal X P r rnd pk plaintext aad ctx =
     engine_encrypt X (HybridX25519MlKem768Provider P) r rnd pk plaintext aad ctx"

definition Citadel_open ::
  "crypto \<Rightarrow> prims \<Rightarrow> SecretKey \<Rightarrow> bytes \<Rightarrow> bytes \<Rightarrow> bytes \<Rightarrow> decryption_error + bytes" where
  "Citadel_open X P sk ciphertext aad ctx =
     engine_decrypt X (HybridX25519MlKem768Provider P) sk ciphertext aad ctx"

definition seal_v1_compat ::
  "crypto \<Rightarrow> prims \<Rightarrow> kem_rand \<Rightarrow> bytes option \<Rightarrow> PublicKey \<Rightarrow> bytes \<Rightarrow> bytes \<Rightarrow> bytes \<Rightarrow>
   encoding_error + bytes" where
  "seal_v1_compat X P r rnd pk plaintext aad ctx =
     encrypt_v1_compat X (HybridX25519MlKem768Provider P) r rnd pk plaintext aad ctx"

definition CitadelP384_seal ::
  "crypto \<Rightarrow> prims \<Rightarrow> kem_rand \<Rightarrow> bytes option \<Rightarrow> P384MlKem1024PublicKey \<Rightarrow> bytes \<Rightarrow> bytes \<Rightarrow> bytes \<Rightarrow>
   encoding_error + bytes" where
  "CitadelP384_seal X P r rnd pk plaintext aad ctx =
     engine_encrypt X (HybridP384MlKem1024Provider P) r rnd pk plaintext aad ctx"

definition CitadelP384_open ::
  "crypto \<Rightarrow> prims \<Rightarrow> P384MlKem1024SecretKey \<Rightarrow> bytes \<Rightarrow> bytes \<Rightarrow> bytes \<Rightarrow> decryption_error + bytes" where
  "CitadelP384_open X P sk ciphertext aad ctx =
     engine_decrypt X (HybridP384MlKem1024Provider P) sk ciphertext aad ctx"

section \<open>The internal facade (envelope.rs)\<close>

definition seal_internal ::
  "crypto \<Rightarrow> prims \<Rightarrow> kem_rand \<Rightarrow> bytes option \<Rightarrow> PublicKey \<Rightarrow> bytes \<Rightarrow> string \<Rightarrow> string \<Rightarrow>
   string \<Rightarrow> string \<Rightarrow> string \<Rightarrow> u64 \<Rightarrow> u64 \<Rightarrow> bytes \<Rightarrow> encoding_error + bytes" where
  "seal_internal X P r rnd pk plaintext env purpose sender_id recipient_id route ts_unix_ms seq msg_id =
    (let ctx = build_context env purpose in
     and_then (build_aad sender_id recipient_id route ts_unix_ms seq msg_id) (\<lambda>aad_bytes.
     engine_encrypt X (HybridX25519MlKem768Provider P) r rnd pk plaintext aad_bytes ctx))"

definition open_internal ::
  "crypto \<Rightarrow> prims \<Rightarrow> SecretKey \<Rightarrow> bytes \<Rightarrow> string \<Rightarrow> string \<Rightarrow>
   string \<Rightarrow> string \<Rightarrow> string \<Rightarrow> u64 \<Rightarrow> u64 \<Rightarrow> bytes \<Rightarrow> decryption_error + bytes" where
  "open_internal X P sk ciphertext env purpose sender_id recipient_id route ts_unix_ms seq msg_id =
    (let ctx = build_context env purpose in
     and_then (map_err (\<lambda>_. DecryptionError)
       (build_aad sender_id recipient_id route ts_unix_ms seq msg_id)) (\<lambda>aad_bytes.
     engine_decrypt X (HybridX25519MlKem768Provider P) sk ciphertext aad_bytes ctx))"

section \<open>Inspection\<close>

record CiphertextInfo =
  ci_version :: byte
  ci_kem_suite :: string
  ci_aead_suite :: string
  ci_total_bytes :: nat
  ci_plaintext_bytes :: nat
  ci_streaming :: bool

definition inspect :: "bytes \<Rightarrow> decryption_error + CiphertextInfo" where
  "inspect ciphertext =
    (if starts_with ciphertext MAGIC then
       and_then (v2_decode ciphertext) (\<lambda>parts.
       let s = suite_kem (p_suite parts);
           kem_suite = (if s = SUITE_KEM_HYBRID_X25519_MLKEM768 then ''X25519+ML-KEM-768''
                        else if s = SUITE_KEM_HYBRID_P384_MLKEM1024 then ''P-384+ML-KEM-1024''
                        else ''unknown'')
       in Inr \<lparr> ci_version = V2_VERSION, ci_kem_suite = kem_suite, ci_aead_suite = ''AES-256-GCM'',
                ci_total_bytes = length ciphertext, ci_plaintext_bytes = p_plaintext_len parts,
                ci_streaming = False \<rparr>)
     else case ciphertext of [] \<Rightarrow> Inl DecryptionError
     | version_byte # _ \<Rightarrow>
       if version_byte = STREAM_VERSION then
         and_then (decode_stream_header ciphertext) (\<lambda>header.
         let kem_suite = (if sh_suite_kem header = SUITE_KEM_HYBRID_X25519_MLKEM768
                          then ''X25519+ML-KEM-768'' else ''unknown'');
             aead_suite = (if sh_suite_aead header = SUITE_AEAD_AES256GCM
                           then ''AES-256-GCM'' else ''unknown'')
         in Inr \<lparr> ci_version = sh_version header, ci_kem_suite = kem_suite, ci_aead_suite = aead_suite,
                  ci_total_bytes = length ciphertext, ci_plaintext_bytes = 0, ci_streaming = True \<rparr>)
       else
         and_then (decode_wire_raw ciphertext) (\<lambda>parts.
         let kem_suite = (if wc_suite_kem parts = SUITE_KEM_HYBRID_X25519_MLKEM768
                          then ''X25519+ML-KEM-768'' else ''unknown'');
             aead_suite = (if wc_suite_aead parts = SUITE_AEAD_AES256GCM
                           then ''AES-256-GCM'' else ''unknown'')
         in and_then (check_v1_suites parts) (\<lambda>_.
            let plaintext_bytes = length ciphertext - MIN_CIPHERTEXT_BYTES
            in Inr \<lparr> ci_version = wc_version parts, ci_kem_suite = kem_suite, ci_aead_suite = aead_suite,
                     ci_total_bytes = length ciphertext, ci_plaintext_bytes = plaintext_bytes,
                     ci_streaming = False \<rparr>)))"

section \<open>Lemmas\<close>

lemma build_context_inj:
  assumes "length env \<le> 65535" "length env' \<le> 65535" "length p \<le> 65535" "length p' \<le> 65535"
    and "build_context env p = build_context env' p'"
  shows "env = env' \<and> p = p'"
proof -
  from assms have
    "u16_be (word_of_nat (length (as_bytes env))) @ as_bytes env @
       u16_be (word_of_nat (length (as_bytes p))) @ as_bytes p @ [] =
     u16_be (word_of_nat (length (as_bytes env'))) @ as_bytes env' @
       u16_be (word_of_nat (length (as_bytes p'))) @ as_bytes p' @ []"
    by (simp add: build_context_def)
  from u16_prefix_inj [OF _ _ this] assms
  have "as_bytes env = as_bytes env'"
    and "u16_be (word_of_nat (length (as_bytes p))) @ as_bytes p @ [] =
      u16_be (word_of_nat (length (as_bytes p'))) @ as_bytes p' @ []" by simp_all
  with u16_prefix_inj [OF _ _ this(2)] assms show ?thesis by simp
qed

lemma push_tlv_eq_Inr:
  "push_tlv out t v = Inr x \<longleftrightarrow>
     length v \<le> 65535 \<and> x = out @ [tlv_code t] @ u16_be (word_of_nat (length v)) @ v"
  by (auto simp: push_tlv_def)

lemma tlv_inj:
  "length v \<le> 65535 \<Longrightarrow> length v' \<le> 65535 \<Longrightarrow>
   t # u16_be (word_of_nat (length v)) @ v @ r = t # u16_be (word_of_nat (length v')) @ v' @ r' \<Longrightarrow>
   v = v' \<and> r = r'"
  using u16_prefix_inj [of v v' r r'] by simp

lemma build_aad_eq_Inr:
  "build_aad s r rt ts q m = Inr x \<longleftrightarrow>
     length s \<le> 65535 \<and> length r \<le> 65535 \<and> length rt \<le> 65535 \<and> length m \<le> 65535 \<and>
     x = AAD_PREFIX @ 1 # u16_be (word_of_nat (length (as_bytes s))) @ as_bytes s @
       2 # u16_be (word_of_nat (length (as_bytes r))) @ as_bytes r @
       3 # u16_be (word_of_nat (length (as_bytes rt))) @ as_bytes rt @
       4 # u16_be (word_of_nat (length (u64_be ts))) @ u64_be ts @
       5 # u16_be (word_of_nat (length (u64_be q))) @ u64_be q @
       6 # u16_be (word_of_nat (length m)) @ m @ []"
  by (auto simp: build_aad_def push_tlv_eq_Inr)

lemma build_aad_inj:
  assumes "build_aad s r rt ts q m = Inr x" "build_aad s' r' rt' ts' q' m' = Inr x"
  shows "s = s' \<and> r = r' \<and> rt = rt' \<and> ts = ts' \<and> q = q' \<and> m = m'"
proof -
  from assms have "length (as_bytes s) \<le> 65535" "length (as_bytes s') \<le> 65535"
    "length (as_bytes r) \<le> 65535" "length (as_bytes r') \<le> 65535"
    "length (as_bytes rt) \<le> 65535" "length (as_bytes rt') \<le> 65535" "length m \<le> 65535" "length m' \<le> 65535"
    by (simp_all add: build_aad_eq_Inr)
  note l = this
  from assms have
    e: "1 # u16_be (word_of_nat (length (as_bytes s))) @ as_bytes s @
       2 # u16_be (word_of_nat (length (as_bytes r))) @ as_bytes r @
       3 # u16_be (word_of_nat (length (as_bytes rt))) @ as_bytes rt @
       4 # u16_be (word_of_nat (length (u64_be ts))) @ u64_be ts @
       5 # u16_be (word_of_nat (length (u64_be q))) @ u64_be q @
       6 # u16_be (word_of_nat (length m)) @ m @ [] =
      1 # u16_be (word_of_nat (length (as_bytes s'))) @ as_bytes s' @
       2 # u16_be (word_of_nat (length (as_bytes r'))) @ as_bytes r' @
       3 # u16_be (word_of_nat (length (as_bytes rt'))) @ as_bytes rt' @
       4 # u16_be (word_of_nat (length (u64_be ts'))) @ u64_be ts' @
       5 # u16_be (word_of_nat (length (u64_be q'))) @ u64_be q' @
       6 # u16_be (word_of_nat (length m')) @ m' @ []"
    by (simp only: build_aad_eq_Inr same_append_eq)
  note e1 = tlv_inj [OF l(1,2) e]
  note e2 = tlv_inj [OF l(3,4) conjunct2 [OF e1]]
  note e3 = tlv_inj [OF l(5,6) conjunct2 [OF e2]]
  note e4 = tlv_inj [OF _ _ conjunct2 [OF e3]]
  have e4': "u64_be ts = u64_be ts'" and
    r4: "5 # u16_be (word_of_nat (length (u64_be q))) @ u64_be q @ 6 # u16_be (word_of_nat (length m)) @ m @ [] =
      5 # u16_be (word_of_nat (length (u64_be q'))) @ u64_be q' @ 6 # u16_be (word_of_nat (length m')) @ m' @ []"
    using e4 by simp_all
  note e5 = tlv_inj [OF _ _ r4]
  have e5': "u64_be q = u64_be q'" and
    r5: "6 # u16_be (word_of_nat (length m)) @ m @ [] = 6 # u16_be (word_of_nat (length m')) @ m' @ []"
    using e5 by simp_all
  note e6 = tlv_inj [OF l(7,8) r5]
  show ?thesis using e1 e2 e3 e4' e5' e6 by simp
qed

lemma v2_layout_magic: "v2_layout data p \<Longrightarrow> starts_with data MAGIC"
proof -
  assume "v2_layout data p"
  then have "data = p_header p @ p_kem_ciphertext p @ p_aead_ciphertext p" "length (p_header p) = 98"
    and h: "p_header p = v2_header (p_suite p) (p_plaintext_len p) (p_recipient_key_hash p)
       (slice 54 86 (p_header p)) (p_nonce p)"
    by (auto simp: v2_layout_def)
  moreover have "take 4 (p_header p) = MAGIC" by (subst h) (simp add: v2_header_def)
  ultimately show ?thesis by (simp add: starts_with_def)
qed

lemma Citadel_open_seal:
  assumes "crypto_ok X" "prims_ok P" and n: "length nonce = 12"
    and s: "Citadel_seal X P r (Some nonce) (SecretKey_public_key P sk) pt aad ctx = Inr ct"
  shows "Citadel_open X P sk ct aad ctx = Inr pt"
proof -
  let ?K = "HybridX25519MlKem768Provider P"
  have K: "kem_ok ?K" using assms(2) by (rule HybridX25519MlKem768Provider_ok)
  have pk: "SecretKey_public_key P sk = public_key_of ?K sk" by (simp add: HybridX25519MlKem768Provider_def)
  have "v2_open X ?K sk ct aad ctx = Inr pt"
    using s n by (intro v2_open_seal [OF K assms(1), of "Some nonce" r])
      (simp_all add: Citadel_seal_def engine_encrypt_def pk)
  moreover then have "starts_with ct MAGIC"
    by (auto simp: v2_open_def v2_decode_iff dest: v2_layout_magic)
  ultimately show ?thesis by (simp add: Citadel_open_def engine_decrypt_def)
qed

lemma CitadelP384_open_seal:
  assumes "crypto_ok X" "prims_ok P" and n: "length nonce = 12"
    and s: "CitadelP384_seal X P r (Some nonce) (p384_public_key_of P sk) pt aad ctx = Inr ct"
  shows "CitadelP384_open X P sk ct aad ctx = Inr pt"
proof -
  let ?K = "HybridP384MlKem1024Provider P"
  have K: "kem_ok ?K" using assms(2) by (rule HybridP384MlKem1024Provider_ok)
  have pk: "p384_public_key_of P sk = public_key_of ?K sk" by (simp add: HybridP384MlKem1024Provider_def)
  have "v2_open X ?K sk ct aad ctx = Inr pt"
    using s n by (intro v2_open_seal [OF K assms(1), of "Some nonce" r])
      (simp_all add: CitadelP384_seal_def engine_encrypt_def pk)
  moreover then have "starts_with ct MAGIC"
    by (auto simp: v2_open_def v2_decode_iff dest: v2_layout_magic)
  ultimately show ?thesis by (simp add: CitadelP384_open_def engine_decrypt_def)
qed

lemma Citadel_seal_total:
  assumes "crypto_ok X" "prims_ok P" "length nonce = 12"
    and "length pt \<le> MAX_PLAINTEXT_LEN" "length aad \<le> MAX_AAD_LEN" "length ctx \<le> MAX_CONTEXT_LEN"
    and "hybrid_encapsulate P (SecretKey_public_key P sk) r = Inr (ss, kem_ct)"
  shows "\<exists>ct. Citadel_seal X P r (Some nonce) (SecretKey_public_key P sk) pt aad ctx = Inr ct"
proof -
  let ?K = "HybridX25519MlKem768Provider P"
  have "public_key_of ?K sk = SecretKey_public_key P sk" "encapsulate ?K = hybrid_encapsulate P"
    by (simp_all add: HybridX25519MlKem768Provider_def)
  then show ?thesis
    using v2_seal_total [OF HybridX25519MlKem768Provider_ok [OF assms(2)] assms(1,3-6), of sk r ss kem_ct] assms(7)
    by (simp add: Citadel_seal_def engine_encrypt_def)
qed

section \<open>Properties\<close>

text \<open>The X25519+ML-KEM-768 engine round-trips. With 12 random bytes for the nonce, inputs within
  the size limits and an encapsulation that succeeds, \<open>Citadel::seal\<close> returns an envelope and
  \<open>Citadel::open\<close> with the matching secret key, associated data and context returns the plaintext.\<close>

lemma citadel_seal_open:
  assumes "crypto_ok X" "prims_ok P" "length nonce = 12"
    and "length pt \<le> MAX_PLAINTEXT_LEN" "length aad \<le> MAX_AAD_LEN" "length ctx \<le> MAX_CONTEXT_LEN"
    and "hybrid_encapsulate P (SecretKey_public_key P sk) r = Inr (ss, kem_ct)"
  shows "\<exists>ct. Citadel_seal X P r (Some nonce) (SecretKey_public_key P sk) pt aad ctx = Inr ct \<and>
    Citadel_open X P sk ct aad ctx = Inr pt"
  using Citadel_seal_total [OF assms] Citadel_open_seal [OF assms(1-3)] by blast

lemma citadel_seal_open_witness:
  "\<exists>ct. Citadel_seal toy_crypto toy_prims toy_rand (Some (replicate 12 5)) (SecretKey_public_key toy_prims toy_sk)
      [1, 2, 3] [7] [8] = Inr ct \<and> Citadel_open toy_crypto toy_prims toy_sk ct [7] [8] = Inr [1, 2, 3]"
proof -
  obtain ss k where "hybrid_encapsulate toy_prims (SecretKey_public_key toy_prims toy_sk) toy_rand = Inr (ss, k)"
    using toy_encapsulate [of "SecretKey_public_key toy_prims toy_sk"]
    by (auto simp: toy_kem_def HybridX25519MlKem768Provider_def)
  then show ?thesis
    by (intro citadel_seal_open [OF toy_crypto_ok toy_prims_ok]) (simp_all add: wire_consts)
qed

text \<open>The P-384+ML-KEM-1024 engine round-trips in the same sense.\<close>

lemma citadel_p384_seal_open:
  assumes "crypto_ok X" "prims_ok P" "length nonce = 12"
    and "length pt \<le> MAX_PLAINTEXT_LEN" "length aad \<le> MAX_AAD_LEN" "length ctx \<le> MAX_CONTEXT_LEN"
    and "\<not> eph_failed r"
  shows "\<exists>ct. CitadelP384_seal X P r (Some nonce) (p384_public_key_of P sk) pt aad ctx = Inr ct \<and>
    CitadelP384_open X P sk ct aad ctx = Inr pt"
proof -
  let ?K = "HybridP384MlKem1024Provider P"
  obtain ss k where "p384_encapsulate P (p384_public_key_of P sk) r = Inr (ss, k)"
    using assms(7)
    by (cases "mlkem1024_encaps P (pk4_mlkem (p384_public_key_of P sk)) (mlkem_m r)")
      (simp add: p384_encapsulate_def Let_def)
  moreover have "public_key_of ?K sk = p384_public_key_of P sk" "encapsulate ?K = p384_encapsulate P"
    by (simp_all add: HybridP384MlKem1024Provider_def)
  ultimately have "\<exists>ct. CitadelP384_seal X P r (Some nonce) (p384_public_key_of P sk) pt aad ctx = Inr ct"
    using v2_seal_total [OF HybridP384MlKem1024Provider_ok [OF assms(2)] assms(1,3-6), of sk r ss k]
    by (simp add: CitadelP384_seal_def engine_encrypt_def)
  then show ?thesis using CitadelP384_open_seal [OF assms(1-3)] by blast
qed

lemma citadel_p384_seal_open_witness:
  "\<exists>ct. CitadelP384_seal toy_crypto toy_prims toy_rand (Some (replicate 12 5))
      (p384_public_key_of toy_prims \<lparr> sk4_p384 = replicate 48 1, sk4_mlkem_seed = replicate 64 2 \<rparr>) [1, 2, 3] [7] [8] = Inr ct \<and>
    CitadelP384_open toy_crypto toy_prims \<lparr> sk4_p384 = replicate 48 1, sk4_mlkem_seed = replicate 64 2 \<rparr> ct [7] [8] =
      Inr [1, 2, 3]"
  by (rule citadel_p384_seal_open [OF toy_crypto_ok toy_prims_ok]) (simp_all add: wire_consts toy_rand_def)

text \<open>The two suites are isolated on the wire: an envelope that the X25519+ML-KEM-768 engine
  accepts, with whatever key, is rejected by the P-384+ML-KEM-1024 engine with whatever key, when
  both are given a CTD2 envelope.\<close>

lemma suites_isolated:
  assumes "starts_with ct MAGIC" and "Citadel_open X P sk3 ct aad ctx = Inr pt"
  shows "CitadelP384_open X P sk4 ct aad' ctx' = Inl DecryptionError"
proof -
  from assms obtain p where "v2_decode ct = Inr p" "suite_kem (p_suite p) = 0xA3"
    by (auto simp: Citadel_open_def engine_decrypt_def v2_open_def HybridX25519MlKem768Provider_def wire_consts)
  with assms(1) show ?thesis
    by (simp add: CitadelP384_open_def engine_decrypt_def v2_open_def HybridP384MlKem1024Provider_def wire_consts)
qed

lemma suites_isolated_witness:
  "\<exists>ct. Citadel_open toy_crypto toy_prims toy_sk ct [7] [8] = Inr [1, 2, 3] \<and>
    CitadelP384_open toy_crypto toy_prims \<lparr> sk4_p384 = [], sk4_mlkem_seed = [] \<rparr> ct [7] [8] = Inl DecryptionError"
proof -
  obtain ct where o: "v2_open toy_crypto toy_kem toy_sk ct [7] [8] = Inr [1, 2, 3]" using toy_envelope by blast
  then have m: "starts_with ct MAGIC" by (auto simp: v2_open_def v2_decode_iff dest: v2_layout_magic)
  with o have "Citadel_open toy_crypto toy_prims toy_sk ct [7] [8] = Inr [1, 2, 3]"
    by (simp add: Citadel_open_def engine_decrypt_def toy_kem_def)
  with suites_isolated [OF m this] show ?thesis by blast
qed

text \<open>The locked builders of context and associated data are injective: labels of at most 65535
  bytes that give the same context are the same labels, and fields that give the same associated
  data are the same fields.\<close>

lemma locked_builders_injective:
  "(length env \<le> 65535 \<and> length env' \<le> 65535 \<and> length purpose \<le> 65535 \<and> length purpose' \<le> 65535 \<and>
    build_context env purpose = build_context env' purpose' \<longrightarrow> env = env' \<and> purpose = purpose') \<and>
   (build_aad s r rt ts q m = Inr x \<and> build_aad s' r' rt' ts' q' m' = Inr x \<longrightarrow>
    s = s' \<and> r = r' \<and> rt = rt' \<and> ts = ts' \<and> q = q' \<and> m = m')"
  using build_context_inj [of env env' purpose purpose']
    build_aad_inj [of s r rt ts q m x s' r' rt' ts' q' m'] by argo

lemma locked_builders_injective_witness:
  "build_context ''prod'' ''email|notify'' \<noteq> build_context ''prod|email'' ''notify''"
  using locked_builders_injective [of "''prod''" "''prod|email''" "''email|notify''" "''notify''"] by auto

text \<open>The \<^verbatim>\<open>|\<close>-delimited builders of the SDK do not have that property: two different pairs of
  application name and environment give the same context, and two different database cells the
  same associated data.\<close>

lemma sdk_builders_ambiguous:
  "Context_for_application ''a|b'' ''c'' = Context_for_application ''a'' ''b|c'' \<and>
   Aad_for_database ''users|1'' ''2'' ''ssn'' = Aad_for_database ''users'' ''1|2'' ''ssn''"
  by (simp add: Context_for_application_def Aad_for_database_def)

text \<open>\<open>inspect\<close> never reports an unknown suite: whatever it accepts has a KEM suite of the table and
  AES-256-GCM, and it reports the whole length of its input.\<close>

lemma inspect_reports_known_suites:
  assumes "inspect ct = Inr info"
  shows "ci_kem_suite info \<in> {''X25519+ML-KEM-768'', ''P-384+ML-KEM-1024''} \<and>
    ci_aead_suite info = ''AES-256-GCM'' \<and> ci_total_bytes info = length ct \<and>
    (ci_streaming info \<longleftrightarrow> \<not> starts_with ct MAGIC \<and> ct \<noteq> [] \<and> hd ct = STREAM_VERSION)"
proof (cases "starts_with ct MAGIC")
  case True
  with assms obtain p where "v2_layout ct p"
    and i: "info = \<lparr> ci_version = V2_VERSION, ci_kem_suite =
        (if suite_kem (p_suite p) = SUITE_KEM_HYBRID_X25519_MLKEM768 then ''X25519+ML-KEM-768''
         else if suite_kem (p_suite p) = SUITE_KEM_HYBRID_P384_MLKEM1024 then ''P-384+ML-KEM-1024'' else ''unknown''),
        ci_aead_suite = ''AES-256-GCM'', ci_total_bytes = length ct, ci_plaintext_bytes = p_plaintext_len p,
        ci_streaming = False \<rparr>"
    by (auto simp: inspect_def v2_decode_iff Let_def)
  then have "p_suite p \<in> set SUITE_TABLE" by (simp add: v2_layout_def)
  then show ?thesis using True by (auto simp: i SUITE_TABLE_def)
next
  case False
  with assms obtain b rest where ct: "ct = b # rest" by (cases ct) (auto simp: inspect_def)
  show ?thesis
  proof (cases "b = STREAM_VERSION")
    case True
    then show ?thesis using assms False ct
      by (auto simp: inspect_def decode_stream_header_def Let_def split: if_splits)
  next
    case b: False
    then show ?thesis using assms False ct
      by (auto simp: inspect_def check_v1_suites_def Let_def split: if_splits)
  qed
qed

text \<open>Historical v1 envelopes stay readable: what \<open>seal_v1_compat\<close> produces, the current engine
  opens to the same plaintext.\<close>

lemma v1_compat_readable:
  assumes "crypto_ok X" "prims_ok P" "length nonce = 12"
    and "seal_v1_compat X P r (Some nonce) (SecretKey_public_key P sk) pt aad ctx = Inr ct"
  shows "Citadel_open X P sk ct aad ctx = Inr pt"
  unfolding Citadel_open_def
proof (rule encrypt_v1_compat_decrypt [OF HybridX25519MlKem768Provider_ok [OF assms(2)] assms(1)])
  show "SUITE_KEM (HybridX25519MlKem768Provider P) = SUITE_KEM_HYBRID_X25519_MLKEM768"
    by (simp add: HybridX25519MlKem768Provider_def)
  show "encrypt_v1_compat X (HybridX25519MlKem768Provider P) r (Some nonce)
      (public_key_of (HybridX25519MlKem768Provider P) sk) pt aad ctx = Inr ct"
    using assms(4) by (simp add: seal_v1_compat_def HybridX25519MlKem768Provider_def)
  show "length n = 12" if "Some nonce = Some n" for n using that assms(3) by simp
qed

lemma v1_compat_readable_witness:
  "\<exists>ct. Citadel_open toy_crypto toy_prims toy_sk ct [7] [8] = Inr [1, 2, 3] \<and> \<not> starts_with ct MAGIC"
proof -
  let ?K = "HybridX25519MlKem768Provider toy_prims" and ?pk = "SecretKey_public_key toy_prims toy_sk"
  obtain ss k where e: "encapsulate ?K ?pk toy_rand = Inr (ss, k)"
    using toy_encapsulate unfolding toy_kem_def by blast
  then have "length k = 1120"
    using hybrid_decapsulate_own [OF toy_prims_ok] by (simp add: HybridX25519MlKem768Provider_def)
  moreover obtain key where "v1_derive_key toy_crypto ss (ct_hash toy_crypto k) [8] = Inr key"
    by (simp add: v1_derive_key_def toy_crypto_def Let_def)
  ultimately obtain ct where
    ct: "seal_v1_compat toy_crypto toy_prims toy_rand (Some (replicate 12 5)) ?pk [1, 2, 3] [7] [8] = Inr ct"
    and m: "\<not> starts_with ct MAGIC"
    by (simp add: seal_v1_compat_def encrypt_v1_compat_def e nonce_gen_def aead_seal_def encode_wire_def
        toy_crypto_def toy_tag_def wire_consts starts_with_def MAGIC_eq)
  with v1_compat_readable [OF toy_crypto_ok toy_prims_ok _ ct] show ?thesis by auto
qed

end
