(* ===== verification/Stream_V2.thy ===== *)
theory Stream_V2
  imports Kem Wire_V2
begin

text \<open>
  \<^verbatim>\<open>citadel-envelope/src/stream.rs\<close>: the legacy V2 stream, whose chunks carry their own nonce and whose
  position is bound by a key per chunk. As in the V3 stream an operation returns the new state with its
  result, and leaves the state alone on an error. \<open>s2_decrypt_iff\<close> says that a decryptor in the
  state of an encryptor accepts exactly what this encryptor can produce, \<open>stream_v2_accepts_iff\<close>
  extends it to a sequence of chunks.
\<close>

section \<open>Keys and associated data of a chunk\<close>

definition final_byte :: "bool \<Rightarrow> byte" where
  "final_byte is_final = (if is_final then 0x01 else 0x00)"

definition derive_chunk_key :: "crypto \<Rightarrow> bytes \<Rightarrow> u32 \<Rightarrow> bool \<Rightarrow> encoding_error + bytes" where
  "derive_chunk_key X stream_key index is_final =
    (let info = as_bytes ''citadel-stream-chunk-v2|'' @ u32_be index @ [final_byte is_final]
     in ok_or (hkdf_expand X None stream_key info 32) EncodingError)"

definition s2_chunk_aad :: "bytes \<Rightarrow> u32 \<Rightarrow> bool \<Rightarrow> bytes" where
  "s2_chunk_aad user_aad index is_final =
     as_bytes ''citadel-stream-v2|'' @ u32_be index @ [final_byte is_final] @ as_bytes ''|'' @ user_aad"

section \<open>The encryptor\<close>

record StreamEncryptor =
  se_stream_key :: bytes
  se_header :: bytes
  se_next_index :: u32
  se_finalized :: bool

definition StreamEncryptor_new ::
  "crypto \<Rightarrow> prims \<Rightarrow> kem_rand \<Rightarrow> PublicKey \<Rightarrow> bytes \<Rightarrow> encoding_error + StreamEncryptor" where
  "StreamEncryptor_new X P r pk ctx =
    and_then (encapsulate (HybridX25519MlKem768Provider P) pk r) (\<lambda>(shared_secret, kem_ct).
    and_then (v1_derive_key X shared_secret (ct_hash X kem_ct) ctx) (\<lambda>stream_key.
    and_then (encode_stream_header kem_ct) (\<lambda>header.
    Inr \<lparr> se_stream_key = stream_key, se_header = header, se_next_index = 1, se_finalized = False \<rparr>)))"

text \<open>\<open>rnd\<close> is what \<^verbatim>\<open>getrandom\<close> returned for the nonce.\<close>

definition s2_encrypt_chunk ::
  "crypto \<Rightarrow> bytes option \<Rightarrow> StreamEncryptor \<Rightarrow> bytes \<Rightarrow> bool \<Rightarrow> bytes \<Rightarrow>
   encoding_error + (StreamEncryptor \<times> bytes)" where
  "s2_encrypt_chunk X rnd enc plaintext is_final aad =
    (if se_finalized enc then Inl EncodingError else
     let index = se_next_index enc in
     and_then (derive_chunk_key X (se_stream_key enc) index is_final) (\<lambda>chunk_key.
     and_then (nonce_gen rnd) (\<lambda>nonce.
     and_then (aead_seal X chunk_key nonce plaintext (s2_chunk_aad aad index is_final)) (\<lambda>ct.
     and_then (ok_or (checked_succ (se_next_index enc)) EncodingError) (\<lambda>nxt.
     Inr (enc\<lparr> se_next_index := nxt, se_finalized := (is_final \<or> se_finalized enc) \<rparr>,
          u32_be index @ [final_byte is_final] @ nonce @ ct))))))"

definition se_chunk_count :: "StreamEncryptor \<Rightarrow> u32" where
  "se_chunk_count enc = saturating_sub (se_next_index enc) 1"

section \<open>The decryptor\<close>

record StreamDecryptor =
  sd_stream_key :: bytes
  sd_expected_index :: u32
  sd_done :: bool

definition StreamDecryptor_from_header ::
  "crypto \<Rightarrow> prims \<Rightarrow> SecretKey \<Rightarrow> bytes \<Rightarrow> bytes \<Rightarrow> decryption_error + StreamDecryptor" where
  "StreamDecryptor_from_header X P sk header ctx =
    and_then (decode_stream_header header) (\<lambda>parts.
    and_then (decapsulate (HybridX25519MlKem768Provider P) sk (sh_kem_ciphertext parts)) (\<lambda>shared_secret.
    and_then (map_err (\<lambda>_. DecryptionError)
       (v1_derive_key X shared_secret (ct_hash X (sh_kem_ciphertext parts)) ctx)) (\<lambda>stream_key.
    Inr \<lparr> sd_stream_key = stream_key, sd_expected_index = 1, sd_done = False \<rparr>)))"

definition s2_decrypt_chunk ::
  "crypto \<Rightarrow> StreamDecryptor \<Rightarrow> bytes \<Rightarrow> bytes \<Rightarrow> decryption_error + (StreamDecryptor \<times> bytes \<times> bool)" where
  "s2_decrypt_chunk X dec chunk_data aad =
    (if sd_done dec then Inl DecryptionError else
     if length chunk_data < STREAM_MIN_CHUNK_BYTES then Inl DecryptionError else
     let chunk_index = be_u32 (take 4 chunk_data) in
     and_then (if chunk_data ! 4 = 0x00 then Inr False else if chunk_data ! 4 = 0x01 then Inr True
               else Inl DecryptionError) (\<lambda>is_final.
     and_then (to_array 12 DecryptionError (slice 5 17 chunk_data)) (\<lambda>nonce.
     let aead_ct = drop 17 chunk_data in
     if chunk_index \<noteq> sd_expected_index dec then Inl DecryptionError else
     and_then (map_err (\<lambda>_. DecryptionError) (derive_chunk_key X (sd_stream_key dec) chunk_index is_final)) (\<lambda>chunk_key.
     and_then (aead_open X chunk_key nonce aead_ct (s2_chunk_aad aad chunk_index is_final)) (\<lambda>plaintext.
     and_then (ok_or (checked_succ (sd_expected_index dec)) DecryptionError) (\<lambda>nxt.
     Inr (dec\<lparr> sd_expected_index := nxt, sd_done := (is_final \<or> sd_done dec) \<rparr>, plaintext, is_final)))))))"

definition sd_chunk_count :: "StreamDecryptor \<Rightarrow> u32" where
  "sd_chunk_count dec = saturating_sub (sd_expected_index dec) 1"

section \<open>Chunk by chunk\<close>

definition s2_dec_of :: "StreamEncryptor \<Rightarrow> StreamDecryptor" where
  "s2_dec_of enc =
    \<lparr> sd_stream_key = se_stream_key enc, sd_expected_index = se_next_index enc, sd_done = se_finalized enc \<rparr>"

definition s2_frame :: "u32 \<Rightarrow> bool \<Rightarrow> bytes \<Rightarrow> bytes \<Rightarrow> bytes" where
  "s2_frame index fin nonce ct = u32_be index @ [final_byte fin] @ nonce @ ct"

lemma final_byte_eq: "final_byte fin = 0 \<longleftrightarrow> \<not> fin" "final_byte fin = 1 \<longleftrightarrow> fin"
  by (simp_all add: final_byte_def)

lemma s2_frame_parts:
  "length nonce = 12 \<Longrightarrow> take 4 (s2_frame i fin nonce ct) = u32_be i" "s2_frame i fin nonce ct ! 4 = final_byte fin"
  "length nonce = 12 \<Longrightarrow> slice 5 17 (s2_frame i fin nonce ct) = nonce"
  "length nonce = 12 \<Longrightarrow> drop 17 (s2_frame i fin nonce ct) = ct"
  "length (s2_frame i fin nonce ct) = 5 + length nonce + length ct"
  by (simp_all add: s2_frame_def nth_append slice_def)

lemma s2_frame_of_parts:
  assumes "17 \<le> length f" "be_u32 (take 4 f) = i" "f ! 4 = final_byte fin"
  shows "f = s2_frame i fin (slice 5 17 f) (drop 17 f)"
proof -
  have "f = take 4 f @ [f ! 4] @ drop 5 f"
    using assms(1) id_take_nth_drop [of 4 f] by simp
  moreover have "drop 5 f = slice 5 17 f @ drop 17 f"
    using append_take_drop_id [of 12 "drop 5 f"] by (simp add: slice_def)
  moreover have "take 4 f = u32_be i"
    using assms(1,2) u32_be_be_u32 [of "take 4 f"] by simp
  ultimately show ?thesis using assms(3) by (simp add: s2_frame_def)
qed

lemma s2_encrypt_eq_Inr:
  "s2_encrypt_chunk X (Some nonce) enc pt fin aad = Inr (enc', f) \<longleftrightarrow>
    \<not> se_finalized enc \<and>
    (\<exists>key ct nxt. derive_chunk_key X (se_stream_key enc) (se_next_index enc) fin = Inr key \<and>
       gcm_encrypt X key nonce pt (s2_chunk_aad aad (se_next_index enc) fin) = Some ct \<and>
       checked_succ (se_next_index enc) = Some nxt \<and>
       enc' = enc\<lparr> se_next_index := nxt, se_finalized := fin \<rparr> \<and> f = s2_frame (se_next_index enc) fin nonce ct)"
  by (auto simp: s2_encrypt_chunk_def Let_def aead_seal_def nonce_gen_def s2_frame_def)

lemma s2_decrypt_iff:
  assumes X: "crypto_ok X"
  shows "s2_decrypt_chunk X (s2_dec_of enc) f aad = Inr (dec', pt, fin) \<longleftrightarrow>
    (\<exists>nonce enc'. length nonce = 12 \<and> s2_encrypt_chunk X (Some nonce) enc pt fin aad = Inr (enc', f) \<and>
       dec' = s2_dec_of enc')" (is "?L \<longleftrightarrow> ?R")
proof
  let ?i = "se_next_index enc"
  assume ?L
  then obtain key nxt where d: "\<not> se_finalized enc" and l: "33 \<le> length f" and n: "length (slice 5 17 f) = 12"
    and i: "be_u32 (take 4 f) = ?i" and fin: "f ! 4 = final_byte fin"
    and k: "derive_chunk_key X (se_stream_key enc) ?i fin = Inr key"
    and o: "gcm_decrypt X key (slice 5 17 f) (drop 17 f) (s2_chunk_aad aad ?i fin) = Some pt"
    and s: "checked_succ ?i = Some nxt"
    and d': "dec' = s2_dec_of (enc\<lparr> se_next_index := nxt, se_finalized := fin \<rparr>)"
    by (auto simp: s2_decrypt_chunk_def s2_dec_of_def Let_def wire_consts aead_open_def to_array_def final_byte_def
        split: if_splits)
  have "f = s2_frame ?i fin (slice 5 17 f) (drop 17 f)"
    using l i fin by (intro s2_frame_of_parts) simp_all
  then show ?R
    unfolding s2_encrypt_eq_Inr using d n k s d' gcm_encrypt_decrypt [OF X o] by blast
next
  let ?i = "se_next_index enc"
  assume ?R
  then obtain nonce key ct nxt where n: "length nonce = 12" and d: "\<not> se_finalized enc"
    and k: "derive_chunk_key X (se_stream_key enc) ?i fin = Inr key"
    and c: "gcm_encrypt X key nonce pt (s2_chunk_aad aad ?i fin) = Some ct"
    and s: "checked_succ ?i = Some nxt" and f: "f = s2_frame ?i fin nonce ct"
    and d': "dec' = s2_dec_of (enc\<lparr> se_next_index := nxt, se_finalized := fin \<rparr>)"
    unfolding s2_encrypt_eq_Inr by blast
  from n d k s d' crypto_laws(1,2) [OF X c] show ?L
    by (cases fin) (simp_all add: s2_decrypt_chunk_def s2_dec_of_def Let_def wire_consts aead_open_def f s2_frame_parts
        to_array_def final_byte_eq)
qed

section \<open>Sequences of chunks\<close>

fun s2_encrypt_run ::
  "crypto \<Rightarrow> bytes \<Rightarrow> StreamEncryptor \<Rightarrow> (bytes \<times> bytes \<times> bool) list \<Rightarrow> encoding_error + (StreamEncryptor \<times> bytes list)" where
  "s2_encrypt_run X aad enc [] = Inr (enc, [])"
| "s2_encrypt_run X aad enc ((nonce, pt, fin) # cs) =
    and_then (s2_encrypt_chunk X (Some nonce) enc pt fin aad) (\<lambda>(enc1, f).
    and_then (s2_encrypt_run X aad enc1 cs) (\<lambda>(enc2, fs). Inr (enc2, f # fs)))"

fun s2_decrypt_run ::
  "crypto \<Rightarrow> bytes \<Rightarrow> StreamDecryptor \<Rightarrow> bytes list \<Rightarrow> decryption_error + (StreamDecryptor \<times> (bytes \<times> bool) list)" where
  "s2_decrypt_run X aad dec [] = Inr (dec, [])"
| "s2_decrypt_run X aad dec (f # fs) =
    and_then (s2_decrypt_chunk X dec f aad) (\<lambda>(dec1, out).
    and_then (s2_decrypt_run X aad dec1 fs) (\<lambda>(dec2, outs). Inr (dec2, out # outs)))"

text \<open>A decryptor accepts a sequence of chunks exactly when the encryptor in its state produces it, for
  some nonces and the chunks it returns.\<close>

lemma stream_v2_accepts_iff:
  assumes "crypto_ok X"
  shows "s2_decrypt_run X aad (s2_dec_of enc) fs = Inr (dec', outs) \<longleftrightarrow>
    (\<exists>cs enc'. (\<forall>c \<in> set cs. length (fst c) = 12) \<and> s2_encrypt_run X aad enc cs = Inr (enc', fs) \<and>
       dec' = s2_dec_of enc' \<and> outs = map snd cs)"
proof (induction fs arbitrary: enc outs)
  case Nil
  have "s2_encrypt_run X aad enc cs = Inr (enc', []) \<longleftrightarrow> cs = [] \<and> enc' = enc" for cs enc'
    by (cases cs) auto
  then show ?case by auto
next
  case (Cons f fs)
  have step: "s2_encrypt_run X aad enc cs = Inr (enc', f # fs) \<longleftrightarrow>
      (\<exists>nonce pt fin cs' enc1. cs = (nonce, pt, fin) # cs' \<and>
         s2_encrypt_chunk X (Some nonce) enc pt fin aad = Inr (enc1, f) \<and> s2_encrypt_run X aad enc1 cs' = Inr (enc', fs))"
    for cs enc' by (cases cs) auto
  have "s2_decrypt_run X aad (s2_dec_of enc) (f # fs) = Inr (dec', outs) \<longleftrightarrow>
      (\<exists>nonce enc1 pt fin outs'. length nonce = 12 \<and> s2_encrypt_chunk X (Some nonce) enc pt fin aad = Inr (enc1, f) \<and>
         s2_decrypt_run X aad (s2_dec_of enc1) fs = Inr (dec', outs') \<and> outs = (pt, fin) # outs')"
    by (auto simp: s2_decrypt_iff [OF assms]) blast
  also have "\<dots> \<longleftrightarrow> (\<exists>cs enc'. (\<forall>c \<in> set cs. length (fst c) = 12) \<and> s2_encrypt_run X aad enc cs = Inr (enc', f # fs) \<and>
       dec' = s2_dec_of enc' \<and> outs = map snd cs)"
    unfolding Cons.IH step
  proof (intro iffI; elim exE conjE)
    fix nonce enc1 pt fin outs' cs enc'
    assume "length nonce = 12" "s2_encrypt_chunk X (Some nonce) enc pt fin aad = Inr (enc1, f)"
      "\<forall>c \<in> set cs. length (fst c) = 12" "s2_encrypt_run X aad enc1 cs = Inr (enc', fs)" "dec' = s2_dec_of enc'"
      "outs' = map snd cs" "outs = (pt, fin) # outs'"
    then show "\<exists>cs enc'. (\<forall>c \<in> set cs. length (fst c) = 12) \<and>
        (\<exists>nonce pt fin cs' enc1. cs = (nonce, pt, fin) # cs' \<and>
           s2_encrypt_chunk X (Some nonce) enc pt fin aad = Inr (enc1, f) \<and> s2_encrypt_run X aad enc1 cs' = Inr (enc', fs)) \<and>
        dec' = s2_dec_of enc' \<and> outs = map snd cs"
      by (intro exI [of _ "(nonce, pt, fin) # cs"] exI [of _ enc']) auto
  qed auto
  finally show ?case .
qed

text \<open>Only the last chunk of an accepted sequence is final, and the decryptor is done exactly after a final
  chunk: a truncated stream is never complete.\<close>

lemma s2_encrypt_run_finals:
  "s2_encrypt_run X aad enc cs = Inr (enc', fs) \<Longrightarrow> cs \<noteq> [] \<Longrightarrow>
   (\<forall>c \<in> set (butlast cs). \<not> snd (snd c)) \<and> se_finalized enc' = snd (snd (last cs))"
proof (induction cs arbitrary: enc fs rule: induct_list012)
  case (3 c c' cs)
  obtain n pt fin where c: "c = (n, pt, fin)" by (cases c) auto
  obtain n' pt' fin' where c': "c' = (n', pt', fin')" by (cases c') auto
  from 3(3) obtain enc1 f fs1 where e: "s2_encrypt_chunk X (Some n) enc pt fin aad = Inr (enc1, f)"
    and r: "s2_encrypt_run X aad enc1 (c' # cs) = Inr (enc', fs1)" by (auto simp: c)
  from r have "\<not> se_finalized enc1" by (auto simp: c' s2_encrypt_eq_Inr)
  with e have "\<not> fin" by (auto simp: s2_encrypt_eq_Inr)
  with 3(2) [OF r] show ?case by (auto simp: c)
qed (auto simp: s2_encrypt_eq_Inr)

lemma stream_v2_truncation_detected:
  assumes "crypto_ok X" "s2_decrypt_run X aad (s2_dec_of enc) fs = Inr (dec', outs)" "fs \<noteq> []"
  shows "(\<forall>out \<in> set (butlast outs). \<not> snd out) \<and> sd_done dec' = snd (last outs)"
proof -
  from assms(2) obtain cs enc' where e: "s2_encrypt_run X aad enc cs = Inr (enc', fs)" "dec' = s2_dec_of enc'"
      "outs = map snd cs" unfolding stream_v2_accepts_iff [OF assms(1)] by blast
  with assms(3) have "cs \<noteq> []" by auto
  then show ?thesis
    using s2_encrypt_run_finals [OF e(1)] e(2,3) by (simp add: s2_dec_of_def last_map map_butlast [symmetric])
qed

text \<open>The header carries the stream key to the holder of the secret key.\<close>

lemma stream_v2_header_roundtrip:
  assumes "prims_ok P" "StreamEncryptor_new X P r (SecretKey_public_key P sk) ctx = Inr enc"
  shows "StreamDecryptor_from_header X P sk (se_header enc) ctx = Inr (s2_dec_of enc)"
proof -
  obtain ss ct where e: "hybrid_encapsulate P (SecretKey_public_key P sk) r = Inr (ss, ct)"
    and k: "v1_derive_key X ss (ct_hash X ct) ctx = Inr (se_stream_key enc)"
    and h: "encode_stream_header ct = Inr (se_header enc)" and z: "se_next_index enc = 1" "\<not> se_finalized enc"
    using assms(2) by (auto simp: StreamEncryptor_new_def HybridX25519MlKem768Provider_def)
  from hybrid_decapsulate_own [OF assms(1) e] have d: "length ct = 1120" "hybrid_decapsulate P sk ct = Inr ss" by auto
  have header: "se_header enc = 2 # 163 # 177 # 1 # 4 # 96 # ct"
    using h d(1) by (auto simp: encode_stream_header_def wire_consts u16_be_def be_bytes_two)
  have "\<exists>sh. decode_stream_header (se_header enc) = Inr sh \<and> sh_kem_ciphertext sh = ct"
    using d(1) by (simp add: header decode_stream_header_def Let_def wire_consts be_u16_def be_nat_def to_array_def slice_def)
  then show ?thesis
    using d(2) k z by (auto simp: StreamDecryptor_from_header_def HybridX25519MlKem768Provider_def s2_dec_of_def)
qed

end
