(* ===== verification/Stream_V3.thy ===== *)
theory Stream_V3
  imports Kem Wire_V2
begin

text \<open>
  \<^verbatim>\<open>citadel-envelope/src/stream_v3.rs\<close>: the V3 stream. The encryptor and the decryptor are state
  records; a chunk operation returns the new state with its result (on an error the state does not
  change). The central lemma, \<open>decrypt_chunk_iff\<close>, says that a decryptor in the state of an
  encryptor accepts exactly the frames that this encryptor can produce; the whole-stream results
  follow by induction over the list of frames.
\<close>

section \<open>Constants and key schedule\<close>

definition STREAM_V3_MAGIC :: bytes where "STREAM_V3_MAGIC = as_bytes ''CTDL''"
definition STREAM_V3_VERSION :: byte where [wire_consts]: "STREAM_V3_VERSION = 0x03"
definition STREAM_V3_FLAGS :: byte where [wire_consts]: "STREAM_V3_FLAGS = 0x00"
definition STREAM_V3_SUITE_KEM :: byte where
  [wire_consts]: "STREAM_V3_SUITE_KEM = SUITE_KEM_HYBRID_X25519_MLKEM768"
definition STREAM_V3_SUITE_AEAD :: byte where
  [wire_consts]: "STREAM_V3_SUITE_AEAD = SUITE_AEAD_AES256GCM"
definition STREAM_V3_HEADER_BYTES :: nat where
  "STREAM_V3_HEADER_BYTES = 4 + 1 + 1 + 1 + 1 + 16 + 2 + 1120 + 16"
definition STREAM_V3_CHUNK_HEADER_BYTES :: nat where "STREAM_V3_CHUNK_HEADER_BYTES = 8 + 1"
definition STREAM_V3_CHUNK_MIN_BYTES :: nat where
  "STREAM_V3_CHUNK_MIN_BYTES = STREAM_V3_CHUNK_HEADER_BYTES + 16"
definition STREAM_V3_FINAL_TAG_BYTES :: nat where "STREAM_V3_FINAL_TAG_BYTES = 32"

lemma v3_sizes [wire_consts]:
  "STREAM_V3_HEADER_BYTES = 1162" "STREAM_V3_CHUNK_HEADER_BYTES = 9" "STREAM_V3_CHUNK_MIN_BYTES = 25"
  by (simp_all add: STREAM_V3_HEADER_BYTES_def STREAM_V3_CHUNK_HEADER_BYTES_def STREAM_V3_CHUNK_MIN_BYTES_def)

definition derive_stream_key ::
  "crypto \<Rightarrow> bytes \<Rightarrow> bytes \<Rightarrow> bytes \<Rightarrow> bytes \<Rightarrow> encoding_error + bytes" where
  "derive_stream_key X shared_secret kem_ct stream_id ctx =
    (let h = ct_hash X kem_ct;
         extended_ctx = as_bytes ''v3:'' @ stream_id @ as_bytes ''|'' @ ctx
     in v1_derive_key X shared_secret h extended_ctx)"

definition derive_header_key :: "crypto \<Rightarrow> bytes \<Rightarrow> encoding_error + bytes" where
  "derive_header_key X stream_key =
     ok_or (hkdf_expand X None stream_key (as_bytes ''citadel-v3-header-key'') 32) EncodingError"

definition derive_final_key :: "crypto \<Rightarrow> bytes \<Rightarrow> encoding_error + bytes" where
  "derive_final_key X stream_key =
     ok_or (hkdf_expand X None stream_key (as_bytes ''citadel-v3-final-key'') 32) EncodingError"

definition derive_chunk_nonce :: "crypto \<Rightarrow> bytes \<Rightarrow> u64 \<Rightarrow> encoding_error + bytes" where
  "derive_chunk_nonce X stream_key seq =
    (let info = as_bytes ''citadel-v3-nonce|'' @ u64_be seq
     in ok_or (hkdf_expand X None stream_key info 12) EncodingError)"

definition make_chunk_aad :: "bytes \<Rightarrow> u64 \<Rightarrow> bool \<Rightarrow> bytes \<Rightarrow> bytes" where
  "make_chunk_aad stream_id seq is_final user_aad =
     as_bytes ''citadel-v3-chunk|'' @ stream_id @ u64_be seq @ [if is_final then 0x01 else 0x00] @
     as_bytes ''|'' @ user_aad"

section \<open>The encryptor\<close>

record StreamV3Encryptor =
  e_stream_key :: bytes
  e_final_key :: bytes
  e_stream_id :: bytes
  e_header :: bytes
  e_next_seq :: u64
  e_finalized :: bool

text \<open>\<open>r\<close> is the randomness of the encapsulation, \<open>sid\<close> the 16 bytes drawn for the stream id.\<close>

definition StreamV3Encryptor_new ::
  "crypto \<Rightarrow> prims \<Rightarrow> kem_rand \<Rightarrow> bytes \<Rightarrow> PublicKey \<Rightarrow> bytes \<Rightarrow> encoding_error + StreamV3Encryptor" where
  "StreamV3Encryptor_new X P r sid pk ctx =
    and_then (encapsulate (HybridX25519MlKem768Provider P) pk r) (\<lambda>(shared_secret, kem_ct).
    and_then (derive_stream_key X shared_secret kem_ct sid ctx) (\<lambda>stream_key.
    and_then (derive_header_key X stream_key) (\<lambda>header_key.
    and_then (derive_final_key X stream_key) (\<lambda>final_key.
    let pre_header = STREAM_V3_MAGIC @ [STREAM_V3_VERSION] @ [STREAM_V3_FLAGS] @ [STREAM_V3_SUITE_KEM] @
          [STREAM_V3_SUITE_AEAD] @ sid @ u16_be (word_of_nat KEM_CIPHERTEXT_BYTES) @ kem_ct
    in and_then (aead_seal X header_key (replicate 12 0) [] pre_header) (\<lambda>header_tag.
    Inr \<lparr> e_stream_key = stream_key, e_final_key = final_key, e_stream_id = sid,
          e_header = pre_header @ header_tag, e_next_seq = 0, e_finalized = False \<rparr>)))))"

definition v3_encrypt_chunk ::
  "crypto \<Rightarrow> StreamV3Encryptor \<Rightarrow> bytes \<Rightarrow> bool \<Rightarrow> bytes \<Rightarrow> encoding_error + (StreamV3Encryptor \<times> bytes)" where
  "v3_encrypt_chunk X enc plaintext is_final aad =
    (if e_finalized enc then Inl EncodingError else
     let seq = e_next_seq enc in
     and_then (derive_chunk_nonce X (e_stream_key enc) seq) (\<lambda>nonce.
     let chunk_aad = make_chunk_aad (e_stream_id enc) seq is_final aad in
     and_then (aead_seal X (e_stream_key enc) nonce plaintext chunk_aad) (\<lambda>ct.
     and_then (ok_or (checked_succ (e_next_seq enc)) EncodingError) (\<lambda>nxt.
     let enc' = enc\<lparr> e_next_seq := nxt, e_finalized := (is_final \<or> e_finalized enc) \<rparr>
     in Inr (enc', u64_be seq @ [if is_final then 0x01 else 0x00] @ ct)))))"

definition v3_final_tag :: "crypto \<Rightarrow> StreamV3Encryptor \<Rightarrow> encoding_error + bytes" where
  "v3_final_tag X enc =
    (if \<not> e_finalized enc then Inl EncodingError
     else Inr (hmac_sha256 X (e_final_key enc) (e_stream_id enc @ u64_be (e_next_seq enc))))"

section \<open>The decryptor\<close>

record StreamV3Decryptor =
  d_stream_key :: bytes
  d_final_key :: bytes
  d_stream_id :: bytes
  d_expected_seq :: u64
  d_done :: bool

record StreamV3Header =
  h3_version :: byte
  h3_suite_kem :: byte
  h3_suite_aead :: byte
  h3_stream_id :: bytes

definition v3_from_header ::
  "crypto \<Rightarrow> prims \<Rightarrow> SecretKey \<Rightarrow> bytes \<Rightarrow> bytes \<Rightarrow>
   decryption_error + (StreamV3Decryptor \<times> StreamV3Header)" where
  "v3_from_header X P sk header ctx =
    (if length header < STREAM_V3_HEADER_BYTES then Inl DecryptionError else
     if take 4 header \<noteq> STREAM_V3_MAGIC then Inl DecryptionError else
     let version = header ! 4 in
     if version \<noteq> STREAM_V3_VERSION then Inl DecryptionError else
     let flags = header ! 5 in
     if flags \<noteq> STREAM_V3_FLAGS then Inl DecryptionError else
     let suite_kem = header ! 6 in
     if suite_kem \<noteq> STREAM_V3_SUITE_KEM then Inl DecryptionError else
     let suite_aead = header ! 7 in
     if suite_aead \<noteq> STREAM_V3_SUITE_AEAD then Inl DecryptionError else
     let stream_id = slice 8 24 header;
         kem_ct_len = unat (be_u16 [header ! 24, header ! 25]) in
     if kem_ct_len \<noteq> KEM_CIPHERTEXT_BYTES then Inl DecryptionError else
     let kem_ct = slice 26 (26 + KEM_CIPHERTEXT_BYTES) header;
         pre_header = take (STREAM_V3_HEADER_BYTES - 16) header;
         header_tag = slice (STREAM_V3_HEADER_BYTES - 16) STREAM_V3_HEADER_BYTES header in
     and_then (decapsulate (HybridX25519MlKem768Provider P) sk kem_ct) (\<lambda>shared_secret.
     and_then (map_err (\<lambda>_. DecryptionError) (derive_stream_key X shared_secret kem_ct stream_id ctx))
       (\<lambda>stream_key.
     and_then (map_err (\<lambda>_. DecryptionError) (derive_header_key X stream_key)) (\<lambda>header_key.
     and_then (map_err (\<lambda>_. DecryptionError) (aead_seal X header_key (replicate 12 0) [] pre_header))
       (\<lambda>expected_tag.
     if expected_tag \<noteq> header_tag then Inl DecryptionError else
     and_then (map_err (\<lambda>_. DecryptionError) (derive_final_key X stream_key)) (\<lambda>final_key.
     Inr (\<lparr> d_stream_key = stream_key, d_final_key = final_key, d_stream_id = stream_id,
            d_expected_seq = 0, d_done = False \<rparr>,
          \<lparr> h3_version = version, h3_suite_kem = suite_kem, h3_suite_aead = suite_aead,
            h3_stream_id = stream_id \<rparr>)))))))"

definition v3_decrypt_chunk ::
  "crypto \<Rightarrow> StreamV3Decryptor \<Rightarrow> bytes \<Rightarrow> bytes \<Rightarrow>
   decryption_error + (StreamV3Decryptor \<times> bytes \<times> bool)" where
  "v3_decrypt_chunk X dec chunk_data aad =
    (if d_done dec then Inl DecryptionError else
     if length chunk_data < STREAM_V3_CHUNK_MIN_BYTES then Inl DecryptionError else
     and_then (to_array 8 DecryptionError (take 8 chunk_data)) (\<lambda>seq_bytes.
     let seq = be_u64 seq_bytes in
     and_then (if chunk_data ! 8 = 0x00 then Inr False else
               if chunk_data ! 8 = 0x01 then Inr True else Inl DecryptionError) (\<lambda>is_final.
     let ct = drop 9 chunk_data in
     if seq \<noteq> d_expected_seq dec then Inl DecryptionError else
     and_then (map_err (\<lambda>_. DecryptionError) (derive_chunk_nonce X (d_stream_key dec) seq)) (\<lambda>nonce.
     let chunk_aad = make_chunk_aad (d_stream_id dec) seq is_final aad in
     and_then (aead_open X (d_stream_key dec) nonce ct chunk_aad) (\<lambda>plaintext.
     and_then (ok_or (checked_succ (d_expected_seq dec)) DecryptionError) (\<lambda>nxt.
     Inr (dec\<lparr> d_expected_seq := nxt, d_done := (is_final \<or> d_done dec) \<rparr>, plaintext, is_final)))))))"

definition v3_verify_final_tag ::
  "crypto \<Rightarrow> StreamV3Decryptor \<Rightarrow> bytes \<Rightarrow> decryption_error + unit" where
  "v3_verify_final_tag X dec final_tag =
    (if \<not> d_done dec then Inl DecryptionError else
     if hmac_sha256 X (d_final_key dec) (d_stream_id dec @ u64_be (d_expected_seq dec)) = final_tag
     then Inr () else Inl DecryptionError)"

definition v3_finish :: "crypto \<Rightarrow> StreamV3Decryptor \<Rightarrow> bytes \<Rightarrow> decryption_error + unit" where
  "v3_finish X dec final_tag = v3_verify_final_tag X dec final_tag"

section \<open>Whole streams\<close>

record EncryptedStreamV3 =
  es_header :: bytes
  es_frames :: "bytes list"
  es_final_tag :: bytes

fun v3_encrypt_loop ::
  "crypto \<Rightarrow> StreamV3Encryptor \<Rightarrow> bytes \<Rightarrow> nat \<Rightarrow> nat \<Rightarrow> bytes list \<Rightarrow>
   encoding_error + (StreamV3Encryptor \<times> bytes list)" where
  "v3_encrypt_loop X enc aad i last_ix [] = Inr (enc, [])"
| "v3_encrypt_loop X enc aad i last_ix (pt # pts) =
     and_then (v3_encrypt_chunk X enc pt (i = last_ix) aad) (\<lambda>(enc', frame).
     and_then (v3_encrypt_loop X enc' aad (Suc i) last_ix pts) (\<lambda>(enc'', frames).
     Inr (enc'', frame # frames)))"

definition encrypt_stream_v3 ::
  "crypto \<Rightarrow> prims \<Rightarrow> kem_rand \<Rightarrow> bytes \<Rightarrow> PublicKey \<Rightarrow> bytes list \<Rightarrow> bytes \<Rightarrow> bytes \<Rightarrow>
   encoding_error + EncryptedStreamV3" where
  "encrypt_stream_v3 X P r sid pk plaintext_chunks aad ctx =
    (if plaintext_chunks = [] then Inl EncodingError else
     and_then (StreamV3Encryptor_new X P r sid pk ctx) (\<lambda>enc.
     let header = e_header enc;
         last_ix = length plaintext_chunks - 1 in
     and_then (v3_encrypt_loop X enc aad 0 last_ix plaintext_chunks) (\<lambda>(enc', frames).
     and_then (v3_final_tag X enc') (\<lambda>final_tag.
     Inr \<lparr> es_header = header, es_frames = frames, es_final_tag = final_tag \<rparr>))))"

fun v3_decrypt_loop ::
  "crypto \<Rightarrow> StreamV3Decryptor \<Rightarrow> bytes \<Rightarrow> nat \<Rightarrow> nat \<Rightarrow> bytes list \<Rightarrow> bytes \<Rightarrow>
   decryption_error + (StreamV3Decryptor \<times> bytes)" where
  "v3_decrypt_loop X dec aad i last_ix [] out = Inr (dec, out)"
| "v3_decrypt_loop X dec aad i last_ix (frame # frames) out =
     and_then (v3_decrypt_chunk X dec frame aad) (\<lambda>(dec', pt, is_final).
     if is_final \<noteq> (i = last_ix) then Inl DecryptionError
     else v3_decrypt_loop X dec' aad (Suc i) last_ix frames (out @ pt))"

definition decrypt_stream_v3 ::
  "crypto \<Rightarrow> prims \<Rightarrow> SecretKey \<Rightarrow> bytes \<Rightarrow> bytes list \<Rightarrow> bytes \<Rightarrow> bytes \<Rightarrow> bytes \<Rightarrow>
   decryption_error + bytes" where
  "decrypt_stream_v3 X P sk header chunks final_tag aad ctx =
    (if chunks = [] then Inl DecryptionError else
     and_then (v3_from_header X P sk header ctx) (\<lambda>(dec, _).
     let last_ix = length chunks - 1 in
     and_then (v3_decrypt_loop X dec aad 0 last_ix chunks []) (\<lambda>(dec', out).
     and_then (v3_finish X dec' final_tag) (\<lambda>_. Inr out))))"

section \<open>Chunk by chunk\<close>

text \<open>The decryptor that is in the same state as an encryptor.\<close>

definition dec_of :: "StreamV3Encryptor \<Rightarrow> StreamV3Decryptor" where
  "dec_of enc = \<lparr> d_stream_key = e_stream_key enc, d_final_key = e_final_key enc,
     d_stream_id = e_stream_id enc, d_expected_seq = e_next_seq enc, d_done = e_finalized enc \<rparr>"

definition v3_frame :: "u64 \<Rightarrow> bool \<Rightarrow> bytes \<Rightarrow> bytes" where
  "v3_frame seq fin ct = u64_be seq @ [if fin then 0x01 else 0x00] @ ct"

lemma v3_encrypt_chunk_eq_Inr:
  "v3_encrypt_chunk X enc pt fin aad = Inr (enc', f) \<longleftrightarrow>
     \<not> e_finalized enc \<and>
     (\<exists>nonce ct nxt. derive_chunk_nonce X (e_stream_key enc) (e_next_seq enc) = Inr nonce \<and>
        gcm_encrypt X (e_stream_key enc) nonce pt
          (make_chunk_aad (e_stream_id enc) (e_next_seq enc) fin aad) = Some ct \<and>
        checked_succ (e_next_seq enc) = Some nxt \<and>
        enc' = enc\<lparr> e_next_seq := nxt, e_finalized := fin \<rparr> \<and> f = v3_frame (e_next_seq enc) fin ct)"
  by (auto simp: v3_encrypt_chunk_def Let_def aead_seal_def v3_frame_def)

lemma v3_frame_parts:
  "take 8 (v3_frame q fin ct) = u64_be q" "v3_frame q fin ct ! 8 = (if fin then 1 else 0)"
  "drop 9 (v3_frame q fin ct) = ct" "length (v3_frame q fin ct) = 9 + length ct"
  by (simp_all add: v3_frame_def nth_append)

lemma v3_frame_of_parts:
  assumes "9 \<le> length f" "be_u64 (take 8 f) = q" "f ! 8 = (if fin then 1 else 0)"
  shows "f = v3_frame q fin (drop 9 f)"
proof -
  have "f = take 8 f @ [f ! 8] @ drop 9 f"
    using assms(1) id_take_nth_drop [of 8 f] by simp
  moreover have "take 8 f = u64_be q"
    using assms u64_be_be_u64 [of "take 8 f"] by simp
  ultimately show ?thesis using assms(3) by (simp add: v3_frame_def)
qed

lemma v3_decrypt_chunk_eq_Inr:
  assumes "crypto_ok X"
  shows "v3_decrypt_chunk X dec f aad = Inr (dec', pt, fin) \<longleftrightarrow>
     \<not> d_done dec \<and>
     (\<exists>nonce ct nxt. derive_chunk_nonce X (d_stream_key dec) (d_expected_seq dec) = Inr nonce \<and>
        gcm_encrypt X (d_stream_key dec) nonce pt
          (make_chunk_aad (d_stream_id dec) (d_expected_seq dec) fin aad) = Some ct \<and>
        checked_succ (d_expected_seq dec) = Some nxt \<and>
        dec' = dec\<lparr> d_expected_seq := nxt, d_done := fin \<rparr> \<and> f = v3_frame (d_expected_seq dec) fin ct)"
    (is "?L \<longleftrightarrow> ?R")
proof
  assume ?L
  then obtain nonce nxt where d: "\<not> d_done dec" and l: "25 \<le> length f"
    and q: "be_u64 (take 8 f) = d_expected_seq dec" and fin: "f ! 8 = (if fin then 1 else 0)"
    and n: "derive_chunk_nonce X (d_stream_key dec) (d_expected_seq dec) = Inr nonce"
    and o: "gcm_decrypt X (d_stream_key dec) nonce (drop 9 f)
          (make_chunk_aad (d_stream_id dec) (d_expected_seq dec) fin aad) = Some pt"
    and s: "checked_succ (d_expected_seq dec) = Some nxt"
    and d': "dec' = dec\<lparr> d_expected_seq := nxt, d_done := fin \<rparr>"
    by (auto simp: v3_decrypt_chunk_def Let_def wire_consts aead_open_def split: if_splits)
  have "f = v3_frame (d_expected_seq dec) fin (drop 9 f)"
    using l q fin by (intro v3_frame_of_parts) simp_all
  then show ?R
    using d n s d' gcm_encrypt_decrypt [OF assms o] by blast
next
  assume ?R
  then obtain nonce ct nxt where d: "\<not> d_done dec"
    and n: "derive_chunk_nonce X (d_stream_key dec) (d_expected_seq dec) = Inr nonce"
    and c: "gcm_encrypt X (d_stream_key dec) nonce pt
          (make_chunk_aad (d_stream_id dec) (d_expected_seq dec) fin aad) = Some ct"
    and s: "checked_succ (d_expected_seq dec) = Some nxt"
    and d': "dec' = dec\<lparr> d_expected_seq := nxt, d_done := fin \<rparr>"
    and f: "f = v3_frame (d_expected_seq dec) fin ct" by blast
  have "gcm_decrypt X (d_stream_key dec) nonce ct
      (make_chunk_aad (d_stream_id dec) (d_expected_seq dec) fin aad) = Some pt" "length ct = length pt + 16"
    using crypto_laws(1,2) [OF assms c] by simp_all
  with d n s d' show ?L
    by (simp add: v3_decrypt_chunk_def Let_def wire_consts aead_open_def f v3_frame_parts to_array_def)
qed

lemma decrypt_chunk_iff:
  assumes "crypto_ok X"
  shows "v3_decrypt_chunk X (dec_of enc) f aad = Inr (dec', pt, fin) \<longleftrightarrow>
    (\<exists>enc'. v3_encrypt_chunk X enc pt fin aad = Inr (enc', f) \<and> dec' = dec_of enc')"
  unfolding v3_decrypt_chunk_eq_Inr [OF assms] v3_encrypt_chunk_eq_Inr
  by (auto simp: dec_of_def)

lemma verify_final_tag_iff:
  "v3_verify_final_tag X (dec_of enc) tag = Inr () \<longleftrightarrow> v3_final_tag X enc = Inr tag"
  by (auto simp: v3_verify_final_tag_def v3_final_tag_def dec_of_def)

section \<open>Stream by stream\<close>

lemma decrypt_loop_iff:
  assumes "crypto_ok X"
  shows "v3_decrypt_loop X (dec_of enc) aad i last_ix fs out = Inr (dec', out') \<longleftrightarrow>
    (\<exists>pts enc'. v3_encrypt_loop X enc aad i last_ix pts = Inr (enc', fs) \<and> dec' = dec_of enc' \<and>
       out' = out @ concat pts)"
proof (induction fs arbitrary: enc i out)
  case Nil
  have "v3_encrypt_loop X enc aad i last_ix pts = Inr (enc', []) \<longleftrightarrow> pts = [] \<and> enc' = enc" for pts enc'
    by (cases pts) auto
  then show ?case by auto
next
  case (Cons f fs)
  have "v3_decrypt_loop X (dec_of enc) aad i last_ix (f # fs) out = Inr (dec', out') \<longleftrightarrow>
      (\<exists>enc1 pt. v3_encrypt_chunk X enc pt (i = last_ix) aad = Inr (enc1, f) \<and>
         v3_decrypt_loop X (dec_of enc1) aad (Suc i) last_ix fs (out @ pt) = Inr (dec', out'))"
    by (auto simp: decrypt_chunk_iff [OF assms])
  also have "\<dots> \<longleftrightarrow> (\<exists>pts enc'. v3_encrypt_loop X enc aad i last_ix pts = Inr (enc', f # fs) \<and>
      dec' = dec_of enc' \<and> out' = out @ concat pts)"
    unfolding Cons.IH
  proof safe
    fix enc1 pt pts enc'
    assume "v3_encrypt_chunk X enc pt (i = last_ix) aad = Inr (enc1, f)"
      "v3_encrypt_loop X enc1 aad (Suc i) last_ix pts = Inr (enc', fs)"
    then show "\<exists>pts' enc''. v3_encrypt_loop X enc aad i last_ix pts' = Inr (enc'', f # fs) \<and>
        dec_of enc' = dec_of enc'' \<and> (out @ pt) @ concat pts = out @ concat pts'"
      by (intro exI [of _ "pt # pts"] exI [of _ enc']) simp
  next
    fix pts enc'
    assume "v3_encrypt_loop X enc aad i last_ix pts = Inr (enc', f # fs)"
    then obtain pt pts' enc1 where "pts = pt # pts'"
      "v3_encrypt_chunk X enc pt (i = last_ix) aad = Inr (enc1, f)"
      "v3_encrypt_loop X enc1 aad (Suc i) last_ix pts' = Inr (enc', fs)"
      by (cases pts) auto
    then show "\<exists>enc1 pt. v3_encrypt_chunk X enc pt (i = last_ix) aad = Inr (enc1, f) \<and>
        (\<exists>pts' enc''. v3_encrypt_loop X enc1 aad (Suc i) last_ix pts' = Inr (enc'', fs) \<and>
          dec_of enc' = dec_of enc'' \<and> out @ concat pts = (out @ pt) @ concat pts')"
      by (intro exI [of _ enc1] exI [of _ pt] conjI exI [of _ pts'] exI [of _ enc']) simp_all
  qed
  finally show ?case .
qed

text \<open>The frames of a stream carry their position, and the final flag exactly at the last position.\<close>

lemma encrypt_loop_frames:
  assumes "v3_encrypt_loop X enc aad i last_ix pts = Inr (enc', fs)"
  shows "length fs = length pts \<and> unat (e_next_seq enc') = unat (e_next_seq enc) + length pts \<and>
    (\<forall>j < length fs. be_u64 (take 8 (fs ! j)) = word_of_nat (unat (e_next_seq enc) + j) \<and>
       fs ! j ! 8 = (if i + j = last_ix then 1 else 0))"
  using assms
proof (induction pts arbitrary: enc i fs)
  case (Cons pt pts)
  then obtain enc1 f fs' where f: "fs = f # fs'" and c: "v3_encrypt_chunk X enc pt (i = last_ix) aad = Inr (enc1, f)"
    and r: "v3_encrypt_loop X enc1 aad (Suc i) last_ix pts = Inr (enc', fs')" by auto
  from c have n: "unat (e_next_seq enc1) = unat (e_next_seq enc) + 1"
    and h: "be_u64 (take 8 f) = e_next_seq enc" "f ! 8 = (if i = last_ix then 1 else 0)"
    by (auto simp: v3_encrypt_chunk_eq_Inr v3_frame_parts dest: checked_succ_Some)
  from Cons.IH [OF r] n h f show ?case
    by (auto simp: less_Suc_eq_0_disj nth_Cons')
qed simp

lemma encrypt_loop_finalized:
  "v3_encrypt_loop X enc aad i last_ix pts = Inr (enc', fs) \<Longrightarrow> pts \<noteq> [] \<Longrightarrow> last_ix = i + length pts - 1 \<Longrightarrow>
   e_finalized enc'"
proof (induction pts arbitrary: enc i fs)
  case (Cons pt pts)
  then obtain enc1 f fs' where c: "v3_encrypt_chunk X enc pt (i = last_ix) aad = Inr (enc1, f)"
    and r: "v3_encrypt_loop X enc1 aad (Suc i) last_ix pts = Inr (enc', fs')" by auto
  show ?case
  proof (cases "pts = []")
    case True
    with Cons.prems(3) c r show ?thesis by (auto simp: v3_encrypt_chunk_eq_Inr)
  next
    case False
    with Cons.prems(3) show ?thesis by (intro Cons.IH [OF r]) simp_all
  qed
qed simp

lemma v3_from_header_start: "v3_from_header X P sk header ctx = Inr (dec, h) \<Longrightarrow>
   dec = dec_of \<lparr> e_stream_key = d_stream_key dec, e_final_key = d_final_key dec,
     e_stream_id = d_stream_id dec, e_header = header, e_next_seq = 0, e_finalized = False \<rparr>"
  by (auto simp: v3_from_header_def Let_def dec_of_def)

lemma STREAM_V3_MAGIC_eq: "STREAM_V3_MAGIC = [67, 84, 68, 76]"
  by (simp add: STREAM_V3_MAGIC_def as_bytes_def)

lemma v3_header_roundtrip:
  assumes "crypto_ok X" "prims_ok P" and sid: "length sid = 16"
    and e: "StreamV3Encryptor_new X P r sid (SecretKey_public_key P sk) ctx = Inr enc"
  shows "\<exists>h. v3_from_header X P sk (e_header enc) ctx = Inr (dec_of enc, h)"
proof -
  let ?K = "HybridX25519MlKem768Provider P"
  from e obtain ss k key hk fk tag where enc: "encapsulate ?K (SecretKey_public_key P sk) r = Inr (ss, k)"
    and key: "derive_stream_key X ss k sid ctx = Inr key" "derive_header_key X key = Inr hk"
      "derive_final_key X key = Inr fk"
    and tag: "gcm_encrypt X hk (replicate 12 0) []
      (STREAM_V3_MAGIC @ [3, 0, 0xA3, 0xB1] @ sid @ [4, 96] @ k) = Some tag"
    and E: "enc = \<lparr> e_stream_key = key, e_final_key = fk, e_stream_id = sid,
      e_header = (STREAM_V3_MAGIC @ [3, 0, 0xA3, 0xB1] @ sid @ [4, 96] @ k) @ tag, e_next_seq = 0, e_finalized = False \<rparr>"
    by (auto simp: StreamV3Encryptor_new_def Let_def aead_seal_def wire_consts u16_be_1120')
  have "length k = 1120 \<and> decapsulate ?K sk k = Inr ss"
    using enc hybrid_decapsulate_own [OF assms(2), of sk r ss k] by (simp add: HybridX25519MlKem768Provider_def)
  then have k: "length k = 1120" and d: "decapsulate ?K sk k = Inr ss" by simp_all
  have t: "length tag = 16" using gcm_encrypt_length [OF assms(1) tag] by simp
  let ?h = "[67, 84, 68, 76, 3, 0, 0xA3, 0xB1] @ sid @ [4, 96] @ k @ tag"
  have parts: "take 4 ?h = STREAM_V3_MAGIC" "?h ! 4 = 3" "?h ! 5 = 0" "?h ! 6 = 0xA3" "?h ! 7 = 0xB1"
    "slice 8 24 ?h = sid" "[?h ! 24, ?h ! 25] = [4, 96]" "slice 26 1146 ?h = k" "slice 1146 1162 ?h = tag"
    "take 1146 ?h = STREAM_V3_MAGIC @ [3, 0, 0xA3, 0xB1] @ sid @ [4, 96] @ k" "length ?h = 1162"
    using sid k t by (simp_all add: STREAM_V3_MAGIC_eq slice_def nth_append)
  have h: "e_header enc = ?h" by (simp add: E STREAM_V3_MAGIC_eq)
  have u: "unat (be_u16 [4, 96]) = KEM_CIPHERTEXT_BYTES" by (simp add: be_u16_1120)
  show ?thesis
    unfolding h v3_from_header_def Let_def wire_consts
    using parts d key tag u by (simp add: aead_seal_def E dec_of_def wire_consts)
qed

lemma decrypt_stream_v3_iff:
  assumes "crypto_ok X"
  shows "decrypt_stream_v3 X P sk header fs tag aad ctx = Inr out \<longleftrightarrow>
    fs \<noteq> [] \<and> (\<exists>enc h pts enc'. v3_from_header X P sk header ctx = Inr (dec_of enc, h) \<and>
      e_next_seq enc = 0 \<and> \<not> e_finalized enc \<and>
      v3_encrypt_loop X enc aad 0 (length fs - 1) pts = Inr (enc', fs) \<and>
      v3_final_tag X enc' = Inr tag \<and> out = concat pts)" (is "?L \<longleftrightarrow> ?R")
proof
  assume ?L
  then obtain dec h dec' where f: "fs \<noteq> []" and hd: "v3_from_header X P sk header ctx = Inr (dec, h)"
    and l: "v3_decrypt_loop X dec aad 0 (length fs - 1) fs [] = Inr (dec', out)"
    and t: "v3_verify_final_tag X dec' tag = Inr ()"
    by (auto simp: decrypt_stream_v3_def v3_finish_def Let_def)
  obtain enc where enc: "dec = dec_of enc" "e_next_seq enc = 0" "\<not> e_finalized enc"
    using v3_from_header_start [OF hd] by (metis StreamV3Encryptor.select_convs(5,6))
  from l obtain pts enc' where "v3_encrypt_loop X enc aad 0 (length fs - 1) pts = Inr (enc', fs)"
    "dec' = dec_of enc'" "out = concat pts"
    by (auto simp: enc(1) decrypt_loop_iff [OF assms])
  with f hd t enc show ?R by (auto simp: verify_final_tag_iff)
next
  assume ?R
  then obtain enc h pts enc' where f: "fs \<noteq> []" and hd: "v3_from_header X P sk header ctx = Inr (dec_of enc, h)"
    and l: "v3_encrypt_loop X enc aad 0 (length fs - 1) pts = Inr (enc', fs)"
    and t: "v3_final_tag X enc' = Inr tag" and o: "out = concat pts" by blast
  from l have "v3_decrypt_loop X (dec_of enc) aad 0 (length fs - 1) fs [] = Inr (dec_of enc', out)"
    by (auto simp: decrypt_loop_iff [OF assms] o)
  with f hd t show ?L by (simp add: decrypt_stream_v3_def v3_finish_def verify_final_tag_iff)
qed

lemma decrypt_encrypt_stream_v3:
  assumes "crypto_ok X" "prims_ok P" and sid: "length sid = 16"
    and e: "encrypt_stream_v3 X P r sid (SecretKey_public_key P sk) pts aad ctx = Inr es"
  shows "decrypt_stream_v3 X P sk (es_header es) (es_frames es) (es_final_tag es) aad ctx = Inr (concat pts)"
proof -
  from e obtain enc enc' fs tag where p: "pts \<noteq> []"
    and n: "StreamV3Encryptor_new X P r sid (SecretKey_public_key P sk) ctx = Inr enc"
    and l: "v3_encrypt_loop X enc aad 0 (length pts - 1) pts = Inr (enc', fs)"
    and t: "v3_final_tag X enc' = Inr tag"
    and es: "es = \<lparr> es_header = e_header enc, es_frames = fs, es_final_tag = tag \<rparr>"
    by (auto simp: encrypt_stream_v3_def Let_def)
  from n have "e_next_seq enc = 0" "\<not> e_finalized enc"
    by (auto simp: StreamV3Encryptor_new_def Let_def)
  moreover from encrypt_loop_frames [OF l] have "length fs = length pts" by simp
  moreover obtain h where "v3_from_header X P sk (e_header enc) ctx = Inr (dec_of enc, h)"
    using v3_header_roundtrip [OF assms(1-3) n] by blast
  ultimately show ?thesis
    unfolding decrypt_stream_v3_iff [OF assms(1)] using p l t by (auto simp: es)
qed

text \<open>Truncation, reordering, duplication and splicing within one stream.\<close>

definition v3_positions :: "bytes list \<Rightarrow> bool" where
  "v3_positions fs \<longleftrightarrow> fs \<noteq> [] \<and> length fs < 2 ^ 64 \<and>
     (\<forall>j < length fs. be_u64 (take 8 (fs ! j)) = word_of_nat j \<and>
        fs ! j ! 8 = (if j = length fs - 1 then 1 else 0))"

lemma accepted_positions:
  assumes "crypto_ok X" "decrypt_stream_v3 X P sk header fs tag aad ctx = Inr out"
  shows "v3_positions fs"
proof -
  from assms obtain enc pts enc' where f: "fs \<noteq> []" "e_next_seq enc = 0"
    and l: "v3_encrypt_loop X enc aad 0 (length fs - 1) pts = Inr (enc', fs)"
    by (auto simp: decrypt_stream_v3_iff)
  have "unat (e_next_seq enc') < 2 ^ 64" using unat_bound [of "e_next_seq enc'"] by simp
  with f encrypt_loop_frames [OF l] show ?thesis by (auto simp: v3_positions_def)
qed

lemma v3_positions_subset:
  assumes "v3_positions fs" "v3_positions fs'" "set fs' \<subseteq> set fs"
  shows "fs' = fs"
proof -
  have at: "j < length fs \<and> fs' ! j = fs ! j" if j: "j < length fs'" for j
  proof -
    from assms(3) j obtain k where k: "k < length fs" "fs' ! j = fs ! k"
      by (metis in_set_conv_nth nth_mem subsetD)
    have "word_of_nat j = (word_of_nat k :: u64)"
      using assms(1,2) j k unfolding v3_positions_def by metis
    moreover have "j < 2 ^ 64" "k < 2 ^ 64" using assms(1,2) j k by (auto simp: v3_positions_def)
    ultimately have "j = k" by (simp add: word_of_nat_eq_iff take_bit_nat_eq_self)
    with k show ?thesis by simp
  qed
  from assms(2) have "fs' \<noteq> []" by (simp add: v3_positions_def)
  let ?l = "length fs' - 1"
  have l: "?l < length fs'" using \<open>fs' \<noteq> []\<close> by simp
  from assms(2) l have "fs' ! ?l ! 8 = 1" by (simp add: v3_positions_def)
  with at [OF l] have "fs ! ?l ! 8 = 1" "?l < length fs" by simp_all
  with assms(1) have "?l = length fs - 1" unfolding v3_positions_def by (metis zero_neq_one)
  moreover have "fs \<noteq> []" using assms(1) by (simp add: v3_positions_def)
  ultimately have "length fs' = length fs" using \<open>fs' \<noteq> []\<close> by (metis Suc_diff_1 length_greater_0_conv)
  with at show ?thesis by (simp add: nth_equalityI)
qed

section \<open>Properties\<close>

text \<open>A V3 stream round-trips: what \<open>encrypt_stream_v3\<close> returns for a list of chunks,
  \<open>decrypt_stream_v3\<close> with the matching secret key, associated data and context turns into the
  concatenation of the chunks.\<close>

lemma stream_v3_roundtrip:
  assumes "crypto_ok X" "prims_ok P" "length sid = 16"
    and "encrypt_stream_v3 X P r sid (SecretKey_public_key P sk) pts aad ctx = Inr es"
  shows "decrypt_stream_v3 X P sk (es_header es) (es_frames es) (es_final_tag es) aad ctx = Inr (concat pts)"
  using assms by (rule decrypt_encrypt_stream_v3)

lemma toy_stream:
  "\<exists>es. encrypt_stream_v3 toy_crypto toy_prims toy_rand (replicate 16 9) (SecretKey_public_key toy_prims toy_sk)
     [[1, 2], [3]] [7] [8] = Inr es"
proof -
  obtain ss k where e: "encapsulate (HybridX25519MlKem768Provider toy_prims) (SecretKey_public_key toy_prims toy_sk)
      toy_rand = Inr (ss, k)"
    using toy_encapsulate unfolding toy_kem_def by blast
  show ?thesis
    by (simp add: encrypt_stream_v3_def StreamV3Encryptor_new_def e derive_stream_key_def v1_derive_key_def
        derive_header_key_def derive_final_key_def derive_chunk_nonce_def v3_encrypt_chunk_def v3_final_tag_def
        aead_seal_def toy_crypto_def Let_def checked_succ_def)
qed

lemma stream_v3_roundtrip_witness:
  "\<exists>es :: EncryptedStreamV3. decrypt_stream_v3 toy_crypto toy_prims toy_sk (es_header es) (es_frames es) (es_final_tag es) [7] [8] =
     Inr [1, 2, 3]"
proof -
  obtain es where "encrypt_stream_v3 toy_crypto toy_prims toy_rand (replicate 16 9)
      (SecretKey_public_key toy_prims toy_sk) [[1, 2], [3]] [7] [8] = Inr es" using toy_stream by blast
  from stream_v3_roundtrip [OF toy_crypto_ok toy_prims_ok _ this] show ?thesis by auto
qed

text \<open>C16: \<open>decrypt_stream_v3\<close> accepts exactly complete streams. It returns \<open>out\<close> if and only if the
  header authenticates and sets up keys under which an encryptor starting at sequence number 0 turns
  some list of plaintext chunks into these very frames, all but the last non-final and the last
  final, and then into this very final tag, and \<open>out\<close> is the concatenation of those chunks.\<close>

theorem stream_v3_accepts_iff:
  assumes "crypto_ok X"
  shows "decrypt_stream_v3 X P sk header fs tag aad ctx = Inr out \<longleftrightarrow>
    fs \<noteq> [] \<and> (\<exists>enc h pts enc'. v3_from_header X P sk header ctx = Inr (dec_of enc, h) \<and>
      e_next_seq enc = 0 \<and> \<not> e_finalized enc \<and>
      v3_encrypt_loop X enc aad 0 (length fs - 1) pts = Inr (enc', fs) \<and>
      v3_final_tag X enc' = Inr tag \<and> out = concat pts)"
  using assms by (rule decrypt_stream_v3_iff)

theorem stream_v3_accepts_iff_witness:
  "\<exists>header fs tag enc h pts enc'. v3_from_header toy_crypto toy_prims toy_sk header [8] = Inr (dec_of enc, h) \<and>
     v3_encrypt_loop toy_crypto enc [7] 0 (length fs - 1) pts = Inr (enc', fs) \<and>
     v3_final_tag toy_crypto enc' = Inr tag \<and> concat pts = [1, 2, 3]"
proof -
  obtain es where es: "encrypt_stream_v3 toy_crypto toy_prims toy_rand (replicate 16 9)
      (SecretKey_public_key toy_prims toy_sk) [[1, 2], [3]] [7] [8] = Inr es" using toy_stream by blast
  have "decrypt_stream_v3 toy_crypto toy_prims toy_sk (es_header es) (es_frames es) (es_final_tag es) [7] [8] =
      Inr (concat [[1, 2], [3]])"
    by (rule decrypt_encrypt_stream_v3 [OF toy_crypto_ok toy_prims_ok _ es]) simp
  with stream_v3_accepts_iff [OF toy_crypto_ok, of toy_prims toy_sk "es_header es" "es_frames es" "es_final_tag es" "[7]" "[8]"]
  show ?thesis by (metis append_Cons append_Nil concat.simps)
qed

text \<open>C17: truncation, reordering, duplication and splicing are rejected. Of the frames of an accepted
  stream no other arrangement is accepted under any key, header, tag, associated data or context: a
  second accepted list of frames drawn from the first is the first.\<close>

theorem stream_v3_no_rearrangement:
  assumes "crypto_ok X" "decrypt_stream_v3 X P sk header fs tag aad ctx = Inr out"
    and "decrypt_stream_v3 X P sk' header' fs' tag' aad' ctx' = Inr out'" and "set fs' \<subseteq> set fs"
  shows "fs' = fs"
  using accepted_positions [OF assms(1,2)] accepted_positions [OF assms(1,3)] assms(4)
  by (rule v3_positions_subset)

theorem stream_v3_no_rearrangement_witness:
  "\<exists>es :: EncryptedStreamV3. decrypt_stream_v3 toy_crypto toy_prims toy_sk (es_header es) (es_frames es) (es_final_tag es) [7] [8] =
       Inr [1, 2, 3] \<and>
     (\<forall>e. decrypt_stream_v3 toy_crypto toy_prims toy_sk (es_header es) (butlast (es_frames es)) (es_final_tag es)
        [7] [8] \<noteq> Inr e)"
proof -
  obtain es where es: "encrypt_stream_v3 toy_crypto toy_prims toy_rand (replicate 16 9)
      (SecretKey_public_key toy_prims toy_sk) [[1, 2], [3]] [7] [8] = Inr es" using toy_stream by blast
  have d: "decrypt_stream_v3 toy_crypto toy_prims toy_sk (es_header es) (es_frames es) (es_final_tag es) [7] [8] =
      Inr (concat [[1, 2], [3]])"
    by (rule decrypt_encrypt_stream_v3 [OF toy_crypto_ok toy_prims_ok _ es]) simp
  have f: "es_frames es \<noteq> []" using d by (auto simp: decrypt_stream_v3_def)
  have "butlast (es_frames es) = es_frames es"
    if "decrypt_stream_v3 toy_crypto toy_prims toy_sk (es_header es) (butlast (es_frames es)) (es_final_tag es) [7] [8] = Inr e"
    for e
    by (rule stream_v3_no_rearrangement [OF toy_crypto_ok d that]) (auto dest: in_set_butlastD)
  with f have "decrypt_stream_v3 toy_crypto toy_prims toy_sk (es_header es) (butlast (es_frames es)) (es_final_tag es) [7] [8] \<noteq> Inr e"
    for e by (metis append_butlast_last_id append_self_conv list.distinct(1))
  with d show ?thesis by auto
qed

end
