(* ===== verification/Key_Types.thy ===== *)
theory Key_Types
  imports Citadel_Prelude
begin

text \<open>
  \<^verbatim>\<open>citadel-keystore/src/types.rs\<close> and the role and wrapping types of \<^verbatim>\<open>hierarchy.rs\<close>: key types and
  roles, the life-cycle table, secret key material with its string serialization, key versions and
  key metadata. A \<^verbatim>\<open>DateTime<Utc>\<close> is an \<open>int\<close>, nanoseconds since an epoch; the tags map is an
  association list.
\<close>

type_synonym KeyId = string
type_synonym PolicyId = string
type_synonym DateTime = int

section \<open>Key types and roles\<close>

datatype KeyType = Root | Domain | KeyEncrypting | DataEncrypting | HybridIdentity | Signing

datatype KeyRole = RootRole | DomainKek | Kek | Dek | HybridIdentityKey | SigningKey

fun depth :: "KeyRole \<Rightarrow> nat" where
  "depth RootRole = 1"
| "depth DomainKek = 2"
| "depth Kek = 3"
| "depth Dek = 4"
| "depth HybridIdentityKey = 5"
| "depth SigningKey = 6"

fun role_label :: "KeyRole \<Rightarrow> string" where
  "role_label RootRole = ''Root''"
| "role_label DomainKek = ''DomainKek''"
| "role_label Kek = ''Kek''"
| "role_label Dek = ''Dek''"
| "role_label HybridIdentityKey = ''HybridIdentityKey''"
| "role_label SigningKey = ''SigningKey''"

fun can_wrap :: "KeyRole \<Rightarrow> KeyRole \<Rightarrow> bool" where
  "can_wrap RootRole DomainKek = True"
| "can_wrap DomainKek Kek = True"
| "can_wrap Kek Dek = True"
| "can_wrap Kek HybridIdentityKey = True"
| "can_wrap Kek SigningKey = True"
| "can_wrap _ _ = False"

fun allow_external_master :: "KeyRole \<Rightarrow> bool" where
  "allow_external_master RootRole = True"
| "allow_external_master DomainKek = True"
| "allow_external_master _ = False"

fun role_of_type :: "KeyType \<Rightarrow> KeyRole" where
  "role_of_type Root = RootRole"
| "role_of_type Domain = DomainKek"
| "role_of_type KeyEncrypting = Kek"
| "role_of_type DataEncrypting = Dek"
| "role_of_type HybridIdentity = HybridIdentityKey"
| "role_of_type Signing = SigningKey"

text \<open>The derived order of the enumeration.\<close>

lemma depth_inj: "depth a = depth b \<Longrightarrow> a = b"
  by (cases a; cases b) simp_all

instantiation KeyRole :: linorder
begin

definition less_eq_KeyRole :: "KeyRole \<Rightarrow> KeyRole \<Rightarrow> bool" where
  "less_eq_KeyRole a b \<longleftrightarrow> depth a \<le> depth b"

definition less_KeyRole :: "KeyRole \<Rightarrow> KeyRole \<Rightarrow> bool" where
  "less_KeyRole a b \<longleftrightarrow> depth a < depth b"

instance
  by standard (auto simp: less_eq_KeyRole_def less_KeyRole_def intro: depth_inj)

end

section \<open>Life cycle\<close>

datatype KeyState = Pending | Active | Rotated | Expired | Revoked | Suspended | Destroyed

fun can_encrypt :: "KeyState \<Rightarrow> bool" where
  "can_encrypt Active = True"
| "can_encrypt _ = False"

fun can_decrypt :: "KeyState \<Rightarrow> bool" where
  "can_decrypt Active = True"
| "can_decrypt Rotated = True"
| "can_decrypt _ = False"

fun valid_transitions :: "KeyState \<Rightarrow> KeyState list" where
  "valid_transitions Pending = [Active, Destroyed]"
| "valid_transitions Active = [Rotated, Revoked, Expired, Suspended]"
| "valid_transitions Rotated = [Expired, Suspended]"
| "valid_transitions Suspended = [Active, Destroyed]"
| "valid_transitions Expired = [Destroyed]"
| "valid_transitions Revoked = [Destroyed]"
| "valid_transitions Destroyed = []"

definition can_transition_to :: "KeyState \<Rightarrow> KeyState \<Rightarrow> bool" where
  "can_transition_to s target = (target \<in> set (valid_transitions s))"

fun state_label :: "KeyState \<Rightarrow> string" where
  "state_label Pending = ''PENDING''"
| "state_label Active = ''ACTIVE''"
| "state_label Rotated = ''ROTATED''"
| "state_label Expired = ''EXPIRED''"
| "state_label Revoked = ''REVOKED''"
| "state_label Suspended = ''SUSPENDED''"
| "state_label Destroyed = ''DESTROYED''"

section \<open>Secret key material\<close>

datatype SecretKeyMaterial =
  Encrypted string | CitadelWrapped string | Plaintext string | DestroyedMaterial

fun is_encrypted :: "SecretKeyMaterial \<Rightarrow> bool" where
  "is_encrypted (Encrypted _) = True"
| "is_encrypted _ = False"

fun is_citadel_wrapped :: "SecretKeyMaterial \<Rightarrow> bool" where
  "is_citadel_wrapped (CitadelWrapped _) = True"
| "is_citadel_wrapped _ = False"

definition is_wrapped :: "SecretKeyMaterial \<Rightarrow> bool" where
  "is_wrapped m = (is_encrypted m \<or> is_citadel_wrapped m)"

fun zeroize_and_destroy :: "SecretKeyMaterial \<Rightarrow> SecretKeyMaterial" where
  "zeroize_and_destroy _ = DestroyedMaterial"

fun serialize_material :: "SecretKeyMaterial \<Rightarrow> string" where
  "serialize_material (Encrypted v) = v"
| "serialize_material (CitadelWrapped v) = v"
| "serialize_material (Plaintext v) = v"
| "serialize_material DestroyedMaterial = ''DESTROYED''"

definition deserialize_material :: "string \<Rightarrow> SecretKeyMaterial" where
  "deserialize_material raw =
    (if raw = ''DESTROYED'' then DestroyedMaterial
     else if starts_with raw ''enc:'' then Encrypted raw
     else if starts_with raw ''ckw:'' then CitadelWrapped raw
     else Plaintext raw)"

section \<open>Wrapping modes\<close>

datatype WrapAlgorithm = Aes256GcmHkdfSha256 | CitadelHybridV2

datatype WrappingMode =
    ExternalMaster
  | WrappedByKey (parent_key_id: string) (parent_version: u32) (wm_algorithm: WrapAlgorithm)
  | HsmBacked (hsm_provider: string) (hsm_key_ref: string)

fun from_legacy :: "string option \<Rightarrow> u32 option \<Rightarrow> bool \<Rightarrow> WrappingMode" where
  "from_legacy (Some kid) (Some kver) True = WrappedByKey kid kver CitadelHybridV2"
| "from_legacy _ _ _ = ExternalMaster"

section \<open>Key versions and metadata\<close>

record KeyVersion =
  kv_version :: u32
  kv_created_at :: DateTime
  public_key_hex :: string
  secret_key_material :: SecretKeyMaterial
  wrapping_key_id :: "string option"
  wrapping_key_version :: "u32 option"
  wrap_nonce_hex :: "string option"
  wrapping_mode :: "WrappingMode option"

definition effective_wrapping_mode :: "KeyVersion \<Rightarrow> WrappingMode" where
  "effective_wrapping_mode kv =
    (case wrapping_mode kv of Some wm \<Rightarrow> wm
     | None \<Rightarrow> from_legacy (wrapping_key_id kv) (wrapping_key_version kv)
                 (is_citadel_wrapped (secret_key_material kv)))"

definition KeyVersion_validate :: "KeyVersion \<Rightarrow> string + unit" where
  "KeyVersion_validate kv =
    (let v = show_nat (unat (kv_version kv)) in
     case secret_key_material kv of
       Encrypted _ \<Rightarrow>
         if wrap_nonce_hex kv = None
         then Inl (''key version '' @ v @ '' is AES-wrapped but wrap_nonce_hex is missing'')
         else if wrapping_key_id kv \<noteq> None
         then Inl (''key version '' @ v @ '' is AES-wrapped but has a wrapping_key_id (should be None)'')
         else Inr ()
     | CitadelWrapped _ \<Rightarrow>
         if wrapping_key_id kv = None
         then Inl (''key version '' @ v @ '' is CitadelWrapped but wrapping_key_id is missing'')
         else if wrapping_key_version kv = None
         then Inl (''key version '' @ v @ '' is CitadelWrapped but wrapping_key_version is missing'')
         else if wrap_nonce_hex kv \<noteq> None
         then Inl (''key version '' @ v @ '' is CitadelWrapped but wrap_nonce_hex should be None'')
         else Inr ()
     | _ \<Rightarrow>
         if wrap_nonce_hex kv \<noteq> None
         then Inl (''key version '' @ v @ '' is not AES-wrapped but wrap_nonce_hex is present'')
         else Inr ())"

record KeyMetadata =
  km_id :: KeyId
  km_name :: string
  key_type :: KeyType
  km_state :: KeyState
  policy_id :: "PolicyId option"
  parent_id :: "KeyId option"
  created_at :: DateTime
  updated_at :: DateTime
  activated_at :: "DateTime option"
  rotated_at :: "DateTime option"
  revoked_at :: "DateTime option"
  destroyed_at :: "DateTime option"
  versions :: "KeyVersion list"
  current_version :: u32
  usage_count :: u64
  tags :: "(string \<times> string) list"

definition get_version :: "KeyMetadata \<Rightarrow> u32 \<Rightarrow> KeyVersion option" where
  "get_version m v = find (\<lambda>kv. kv_version kv = v) (versions m)"

definition current_key_version :: "KeyMetadata \<Rightarrow> KeyVersion option" where
  "current_key_version m = find (\<lambda>kv. kv_version kv = current_version m) (versions m)"

definition age :: "KeyMetadata \<Rightarrow> DateTime \<Rightarrow> int option" where
  "age m now = map_option (\<lambda>a. now - a) (activated_at m)"

definition km_role :: "KeyMetadata \<Rightarrow> KeyRole" where
  "km_role m = role_of_type (key_type m)"

section \<open>Lemmas\<close>

lemma can_wrap_depth: "can_wrap p c \<Longrightarrow> depth p < depth c \<and> depth p \<le> 3"
  by (cases "(p, c)" rule: can_wrap.cases) simp_all

lemma can_wrap_parent: "can_wrap p c \<Longrightarrow> p \<in> {RootRole, DomainKek, Kek}"
  by (cases "(p, c)" rule: can_wrap.cases) simp_all

lemma can_transition_iff [lifecycle_simps]:
  "can_transition_to s t \<longleftrightarrow>
     (s = Pending \<and> (t = Active \<or> t = Destroyed)) \<or>
     (s = Active \<and> (t = Rotated \<or> t = Revoked \<or> t = Expired \<or> t = Suspended)) \<or>
     (s = Rotated \<and> (t = Expired \<or> t = Suspended)) \<or>
     (s = Suspended \<and> (t = Active \<or> t = Destroyed)) \<or>
     (s \<in> {Expired, Revoked} \<and> t = Destroyed)"
  by (cases s) (auto simp: can_transition_to_def)

lemma can_decrypt_iff: "can_decrypt s \<longleftrightarrow> s = Active \<or> s = Rotated"
  by (cases s) simp_all

lemma can_encrypt_iff: "can_encrypt s \<longleftrightarrow> s = Active"
  by (cases s) simp_all

text \<open>Which materials survive a round trip through the string form.\<close>

definition material_wf :: "SecretKeyMaterial \<Rightarrow> bool" where
  "material_wf m = (case m of
      Encrypted s \<Rightarrow> starts_with s ''enc:''
    | CitadelWrapped s \<Rightarrow> starts_with s ''ckw:''
    | Plaintext s \<Rightarrow> s \<noteq> ''DESTROYED'' \<and> \<not> starts_with s ''enc:'' \<and> \<not> starts_with s ''ckw:''
    | DestroyedMaterial \<Rightarrow> True)"

lemma deserialize_serialize: "material_wf m \<Longrightarrow> deserialize_material (serialize_material m) = m"
  by (cases m) (auto simp: material_wf_def deserialize_material_def starts_with_simps)

lemma serialize_deserialize: "serialize_material (deserialize_material s) = s"
  by (simp add: deserialize_material_def)

end
