(* ===== verification/Hierarchy.thy ===== *)
theory Hierarchy
  imports Key_Types
begin

text \<open>
  \<^verbatim>\<open>citadel-keystore/src/hierarchy.rs\<close>: validation of the wrapping graph. \<^verbatim>\<open>by_id\<close> is the hash map
  collected from the key list (a later key with the same id replaces an earlier one). The depth-first
  search is a function whose recursion ends because the path grows inside the finite set of ids;
  \<open>grounded\<close> is the specification it is compared with: the wrapping chain of a key ends.
\<close>

datatype ViolationKind =
  Cycle | InvalidDirection | OrphanedParent | InactiveParent | InvalidWrappingForRole

record GraphViolation =
  v_kind :: ViolationKind
  v_detail :: string

section \<open>Validation\<close>

definition by_id :: "KeyMetadata list \<Rightarrow> (KeyId \<times> KeyMetadata) list" where
  "by_id keys = fold (\<lambda>k m. al_put (km_id k) k m) keys []"

definition wrapping_parent :: "KeyMetadata \<Rightarrow> string option" where
  "wrapping_parent key = Option.bind (current_key_version key) wrapping_key_id"

definition check_key :: "(KeyId \<times> KeyMetadata) list \<Rightarrow> KeyMetadata \<Rightarrow> GraphViolation list" where
  "check_key ids key =
    (let role = role_of_type (key_type key) in
     case wrapping_parent key of
       Some pid \<Rightarrow>
         (case map_of ids pid of
            None \<Rightarrow> [\<lparr> v_kind = OrphanedParent,
                      v_detail = ''key '' @ quoted (km_name key) @ '' ('' @ role_label role @
                        '') references parent '' @ quoted pid @ '' which does not exist'' \<rparr>]
          | Some parent \<Rightarrow>
              let parent_role = role_of_type (key_type parent) in
              (if \<not> can_wrap parent_role role then
                 [\<lparr> v_kind = InvalidDirection,
                    v_detail = ''key '' @ quoted (km_name key) @ '' ('' @ role_label role @ '') is wrapped by '' @
                      quoted (km_name parent) @ '' ('' @ role_label parent_role @ '') '' @ em_dash @ '' invalid: '' @
                      role_label parent_role @ '' cannot wrap '' @ role_label role \<rparr>] else []) @
              (if km_state parent \<notin> {Active, Rotated} then
                 [\<lparr> v_kind = InactiveParent,
                    v_detail = ''key '' @ quoted (km_name key) @ '' is wrapped by '' @ quoted (km_name parent) @
                      '' which is in state '' @ state_label (km_state parent) \<rparr>] else []))
     | None \<Rightarrow>
         if \<not> allow_external_master role \<and> role \<notin> {RootRole, DomainKek} then
           [\<lparr> v_kind = InvalidWrappingForRole,
              v_detail = ''key '' @ quoted (km_name key) @ '' ('' @ role_label role @
                '') has no parent but its role requires one'' \<rparr>] else [])"

function detect_cycle ::
  "(KeyId \<times> KeyMetadata) list \<Rightarrow> KeyId \<Rightarrow> KeyId list \<Rightarrow> KeyId list \<Rightarrow> KeyId list \<Rightarrow> GraphViolation list \<Rightarrow>
   KeyId list \<times> GraphViolation list" where
  "detect_cycle ids current_id path in_path visited violations =
    (if current_id \<in> set in_path then
       (visited, violations @ [\<lparr> v_kind = Cycle,
          v_detail = ''cycle detected: '' @ 
            join ('' '' @ right_arrow @ '' '') (dropWhile (\<lambda>i. i \<noteq> current_id) path) @
            '' '' @ right_arrow @ '' '' @ current_id \<rparr>])
     else if current_id \<in> set visited then (visited, violations)
     else case map_of ids current_id of
       None \<Rightarrow> (visited, violations)
     | Some meta \<Rightarrow>
         let (visited', violations') =
           (case wrapping_parent meta of
              Some pid \<Rightarrow>
                detect_cycle ids pid (path @ [current_id]) (current_id # in_path) visited violations
            | None \<Rightarrow> (visited, violations))
         in (current_id # visited', violations'))"
  by pat_completeness auto
termination
proof (relation "measure (\<lambda>(ids, _, _, in_path, _, _). card (set (al_keys ids) - set in_path))")
  fix ids :: "(KeyId \<times> KeyMetadata) list" and current_id path in_path visited violations meta pid
  assume "current_id \<notin> set in_path" and "map_of ids current_id = Some meta"
  then have "current_id \<in> set (al_keys ids) - set in_path" by (auto dest: map_of_SomeD simp: rev_image_eqI)
  then have "card (set (al_keys ids) - set (current_id # in_path)) < card (set (al_keys ids) - set in_path)"
    by (intro psubset_card_mono) auto
  then show "((ids, pid, path @ [current_id], current_id # in_path, visited, violations),
      (ids, current_id, path, in_path, visited, violations))
    \<in> measure (\<lambda>(ids, _, _, in_path, _, _). card (set (al_keys ids) - set in_path))" by simp
qed simp

declare detect_cycle.simps [simp del]

fun cycle_loop ::
  "(KeyId \<times> KeyMetadata) list \<Rightarrow> KeyMetadata list \<Rightarrow> KeyId list \<Rightarrow> GraphViolation list \<Rightarrow> GraphViolation list" where
  "cycle_loop ids [] visited violations = violations"
| "cycle_loop ids (key # keys) visited violations =
     (if km_id key \<in> set visited then cycle_loop ids keys visited violations
      else let (visited', violations') = detect_cycle ids (km_id key) [] [] visited violations
           in cycle_loop ids keys visited' violations')"

definition validate_wrapping_graph :: "KeyMetadata list \<Rightarrow> GraphViolation list" where
  "validate_wrapping_graph keys =
    (let ids = by_id keys in cycle_loop ids keys [] (concat (map (check_key ids) keys)))"

section \<open>Chains\<close>

definition parent_of :: "(KeyId \<times> KeyMetadata) list \<Rightarrow> KeyId \<Rightarrow> KeyId option" where
  "parent_of ids x = Option.bind (map_of ids x) wrapping_parent"

inductive grounded :: "(KeyId \<times> KeyMetadata) list \<Rightarrow> KeyId \<Rightarrow> bool" for ids where
  top: "parent_of ids x = None \<Longrightarrow> grounded ids x"
| up: "parent_of ids x = Some p \<Longrightarrow> grounded ids p \<Longrightarrow> grounded ids x"

inductive_cases grounded_upE: "grounded ids x"

definition wraps_step :: "(KeyId \<times> KeyMetadata) list \<Rightarrow> KeyId \<Rightarrow> KeyId \<Rightarrow> bool" where
  "wraps_step ids x y \<longleftrightarrow> parent_of ids x = Some y"

lemma grounded_acyclic: "grounded ids x \<Longrightarrow> \<not> (wraps_step ids)\<^sup>+\<^sup>+ x x"
proof (induction rule: grounded.induct)
  case (top x)
  then show ?case by (auto simp: wraps_step_def dest: tranclpD)
next
  case (up x p)
  show ?case
  proof
    assume "(wraps_step ids)\<^sup>+\<^sup>+ x x"
    then obtain z where z: "wraps_step ids x z" "(wraps_step ids)\<^sup>*\<^sup>* z x" by (blast dest: tranclpD)
    with up.hyps(1) have "z = p" by (simp add: wraps_step_def)
    with z up.hyps(1) have "(wraps_step ids)\<^sup>+\<^sup>+ p p" by (metis rtranclp_into_tranclp1)
    with up.IH show False by blast
  qed
qed

lemma grounded_step: "parent_of ids x = Some p \<Longrightarrow> grounded ids x \<longleftrightarrow> grounded ids p"
  by (metis grounded.simps option.distinct(1) option.inject)

definition has_cycle_violation :: "GraphViolation list \<Rightarrow> bool" where
  "has_cycle_violation vs = list_ex (\<lambda>v. v_kind v = Cycle) vs"

lemma has_cycle_violation_append [simp]:
  "has_cycle_violation (a @ b) \<longleftrightarrow> has_cycle_violation a \<or> has_cycle_violation b"
  by (simp add: has_cycle_violation_def)

lemma detect_cycle_complete:
  assumes "detect_cycle ids x path in_path visited vs = (visited', vs')"
    and "\<not> has_cycle_violation vs'" and "\<forall>y \<in> set visited. grounded ids y"
  shows "grounded ids x \<and> (\<forall>y \<in> set visited'. grounded ids y) \<and> \<not> has_cycle_violation vs"
  using assms
proof (induction ids x path in_path visited vs arbitrary: visited' vs' rule: detect_cycle.induct)
  case (1 ids x path in_path visited vs)
  show ?case
  proof (cases "x \<in> set in_path \<or> x \<in> set visited \<or> map_of ids x = None")
    case True
    then show ?thesis
      using "1.prems"
      by (auto simp: detect_cycle.simps [of ids x] has_cycle_violation_def parent_of_def split: if_splits
          intro: grounded.top)
  next
    case False
    then obtain meta where m: "x \<notin> set in_path" "x \<notin> set visited" "map_of ids x = Some meta" by auto
    show ?thesis
    proof (cases "wrapping_parent meta")
      case None
      then have "grounded ids x" using m by (auto simp: parent_of_def intro: grounded.top)
      then show ?thesis using m None "1.prems" by (auto simp: detect_cycle.simps [of ids x])
    next
      case (Some p)
      obtain v2 vs2 where d: "detect_cycle ids p (path @ [x]) (x # in_path) visited vs = (v2, vs2)"
        by (metis surj_pair)
      with m Some "1.prems"(1) have r: "visited' = x # v2" "vs' = vs2"
        by (auto simp: detect_cycle.simps [of ids x])
      have "grounded ids p \<and> (\<forall>y \<in> set v2. grounded ids y) \<and> \<not> has_cycle_violation vs"
        using "1.IH" [OF m(1,2,3) Some d] "1.prems"(2,3) r by simp
      moreover have "parent_of ids x = Some p" using m Some by (simp add: parent_of_def)
      ultimately show ?thesis using r grounded_step [of ids x p] by simp
    qed
  qed
qed

text \<open>Soundness: the path is a chain that leads to the current key.\<close>

fun is_chain :: "(KeyId \<times> KeyMetadata) list \<Rightarrow> KeyId list \<Rightarrow> KeyId \<Rightarrow> bool" where
  "is_chain ids [] x = True"
| "is_chain ids [y] x = (parent_of ids y = Some x)"
| "is_chain ids (y # z # zs) x = (parent_of ids y = Some z \<and> is_chain ids (z # zs) x)"

lemma is_chain_snoc: "is_chain ids ys x \<Longrightarrow> parent_of ids x = Some p \<Longrightarrow> is_chain ids (ys @ [x]) p"
  by (induction ids ys x rule: is_chain.induct) auto

lemma is_chain_reaches: "is_chain ids ys x \<Longrightarrow> y \<in> set ys \<Longrightarrow> (wraps_step ids)\<^sup>+\<^sup>+ y x"
proof (induction ids ys x arbitrary: y rule: is_chain.induct)
  case (3 ids y' z zs x)
  then have "(wraps_step ids)\<^sup>+\<^sup>+ z x" by simp
  moreover have "wraps_step ids y' z" using 3 by (simp add: wraps_step_def)
  ultimately have "(wraps_step ids)\<^sup>+\<^sup>+ y' x" by (rule tranclp_into_tranclp2 [rotated])
  with 3 show ?case by auto
qed (auto simp: wraps_step_def)

lemma detect_cycle_sound:
  assumes "detect_cycle ids x path in_path visited vs = (visited', vs')"
    and "has_cycle_violation vs'" and "is_chain ids path x" and "set in_path = set path"
  shows "has_cycle_violation vs \<or> (\<exists>y. (wraps_step ids)\<^sup>+\<^sup>+ y y \<and> (wraps_step ids)\<^sup>*\<^sup>* x y)"
  using assms
proof (induction ids x path in_path visited vs arbitrary: visited' vs' rule: detect_cycle.induct)
  case (1 ids x path in_path visited vs)
  show ?case
  proof (cases "x \<in> set in_path")
    case True
    with "1.prems" have "(wraps_step ids)\<^sup>+\<^sup>+ x x" by (auto intro: is_chain_reaches)
    then show ?thesis by blast
  next
    case False
    show ?thesis
    proof (cases "x \<in> set visited \<or> map_of ids x = None")
      case True
      with False "1.prems" show ?thesis by (auto simp: detect_cycle.simps [of ids x] split: if_splits)
    next
      case v: False
      then obtain meta where m: "x \<notin> set visited" "map_of ids x = Some meta" by auto
      show ?thesis
      proof (cases "wrapping_parent meta")
        case None
        with m False "1.prems" show ?thesis by (auto simp: detect_cycle.simps [of ids x])
      next
        case (Some p)
        obtain v2 vs2 where d: "detect_cycle ids p (path @ [x]) (x # in_path) visited vs = (v2, vs2)"
          by (metis surj_pair)
        with m False Some "1.prems"(1) have r: "vs' = vs2" by (auto simp: detect_cycle.simps [of ids x])
        have p: "parent_of ids x = Some p" using m Some by (simp add: parent_of_def)
        have "has_cycle_violation vs \<or> (\<exists>y. (wraps_step ids)\<^sup>+\<^sup>+ y y \<and> (wraps_step ids)\<^sup>*\<^sup>* p y)"
          using "1.IH" [OF False m(1,2) Some d] "1.prems"(2-4) r is_chain_snoc [OF "1.prems"(3) p] by simp
        then show ?thesis using p by (meson converse_rtranclp_into_rtranclp wraps_step_def)
      qed
    qed
  qed
qed

lemma reaches_cycle_not_grounded:
  assumes "(wraps_step ids)\<^sup>+\<^sup>+ y y" and "(wraps_step ids)\<^sup>*\<^sup>* x y"
  shows "\<not> grounded ids x"
  using assms(2)
proof (induction rule: converse_rtranclp_induct)
  case base
  with assms(1) grounded_acyclic show ?case by blast
next
  case (step x z)
  then show ?case by (simp add: wraps_step_def grounded_step)
qed

lemma detect_cycle_extends:
  "detect_cycle ids x path in_path visited vs = (visited', vs') \<Longrightarrow>
   has_cycle_violation vs \<Longrightarrow> has_cycle_violation vs'"
proof (induction ids x path in_path visited vs arbitrary: visited' vs' rule: detect_cycle.induct)
  case (1 ids x path in_path visited vs)
  show ?case
  proof (cases "x \<in> set in_path \<or> x \<in> set visited \<or> map_of ids x = None")
    case True
    with "1.prems" show ?thesis by (auto simp: detect_cycle.simps [of ids x] split: if_splits)
  next
    case False
    then obtain meta where m: "x \<notin> set in_path" "x \<notin> set visited" "map_of ids x = Some meta" by auto
    show ?thesis
    proof (cases "wrapping_parent meta")
      case None
      with m "1.prems" show ?thesis by (auto simp: detect_cycle.simps [of ids x])
    next
      case (Some p)
      obtain v2 vs2 where d: "detect_cycle ids p (path @ [x]) (x # in_path) visited vs = (v2, vs2)"
        by (metis surj_pair)
      with m Some "1.prems"(1) have "vs' = vs2" by (auto simp: detect_cycle.simps [of ids x])
      with "1.IH" [OF m(1,2,3) Some d "1.prems"(2)] show ?thesis by simp
    qed
  qed
qed

lemma cycle_loop_iff:
  assumes "\<forall>y \<in> set visited. has_cycle_violation vs \<or> grounded ids y"
  shows "has_cycle_violation (cycle_loop ids keys visited vs) \<longleftrightarrow>
    has_cycle_violation vs \<or> (\<exists>k \<in> set keys. \<not> grounded ids (km_id k))"
  using assms
proof (induction keys arbitrary: visited vs)
  case (Cons k keys)
  show ?case
  proof (cases "km_id k \<in> set visited")
    case True
    with Cons show ?thesis by auto
  next
    case False
    obtain v' vs' where d: "detect_cycle ids (km_id k) [] [] visited vs = (v', vs')" by (metis surj_pair)
    have ext: "has_cycle_violation vs \<Longrightarrow> has_cycle_violation vs'" by (rule detect_cycle_extends [OF d])
    have sound: "\<not> grounded ids (km_id k)" if "has_cycle_violation vs'" "\<not> has_cycle_violation vs"
      using detect_cycle_sound [OF d that(1)] that(2) reaches_cycle_not_grounded by auto
    have compl: "grounded ids (km_id k) \<and> (\<forall>y \<in> set v'. grounded ids y)" if n: "\<not> has_cycle_violation vs'"
      using detect_cycle_complete [OF d n] n ext Cons.prems by blast
    have "has_cycle_violation (cycle_loop ids keys v' vs') \<longleftrightarrow>
        has_cycle_violation vs' \<or> (\<exists>k \<in> set keys. \<not> grounded ids (km_id k))"
      using compl by (intro Cons.IH) blast
    then show ?thesis using False d ext sound compl by auto
  qed
qed simp

lemma check_key_no_cycle: "\<not> has_cycle_violation (check_key ids key)"
  by (auto simp: check_key_def has_cycle_violation_def Let_def split: option.splits)

lemma concat_check_no_cycle: "\<not> has_cycle_violation (concat (map (check_key ids) keys))"
  by (induction keys) (simp_all add: check_key_no_cycle, simp add: has_cycle_violation_def)

lemma detect_cycle_prefix:
  "\<exists>ws. snd (detect_cycle ids x path in_path visited vs) = vs @ ws"
proof (induction ids x path in_path visited vs rule: detect_cycle.induct)
  case (1 ids x path in_path visited vs)
  then show ?case
    by (subst detect_cycle.simps) (fastforce split: option.splits prod.splits)
qed

lemma cycle_loop_prefix: "\<exists>ws. cycle_loop ids keys visited vs = vs @ ws"
proof (induction keys arbitrary: visited vs)
  case (Cons k keys)
  obtain v' vs' where d: "detect_cycle ids (km_id k) [] [] visited vs = (v', vs')" by (metis surj_pair)
  with detect_cycle_prefix [of ids "km_id k" "[]" "[]" visited vs] obtain ws where "vs' = vs @ ws" by auto
  moreover obtain ws' where "cycle_loop ids keys v' vs' = vs' @ ws'" using Cons.IH by blast
  ultimately show ?case using Cons.IH [of visited vs] d by auto
qed simp

lemma validate_Nil_check:
  "validate_wrapping_graph keys = [] \<Longrightarrow> k \<in> set keys \<Longrightarrow> check_key (by_id keys) k = []"
  using cycle_loop_prefix [of "by_id keys" keys "[]" "concat (map (check_key (by_id keys)) keys)"]
  by (auto simp: validate_wrapping_graph_def Let_def)

text \<open>The lookup table of a list of keys with distinct ids.\<close>

lemma by_id_fold_member:
  "map_of (fold (\<lambda>k m. al_put (km_id k) k m) keys m0) x = Some k \<Longrightarrow>
   k \<in> set keys \<and> km_id k = x \<or> map_of m0 x = Some k"
  by (induction keys arbitrary: m0) (fastforce split: if_splits)+

lemma by_id_fold_other:
  "x \<notin> km_id ` set keys \<Longrightarrow> map_of (fold (\<lambda>k m. al_put (km_id k) k m) keys m0) x = map_of m0 x"
  by (induction keys arbitrary: m0) auto

lemma by_id_fold_lookup:
  "distinct (map km_id keys) \<Longrightarrow> k \<in> set keys \<Longrightarrow>
   map_of (fold (\<lambda>k m. al_put (km_id k) k m) keys m0) (km_id k) = Some k"
  by (induction keys arbitrary: m0) (auto simp: by_id_fold_other)

lemma by_id_member: "map_of (by_id keys) x = Some k \<Longrightarrow> k \<in> set keys \<and> km_id k = x"
  using by_id_fold_member [of keys "[]" x k] by (simp add: by_id_def)

lemma by_id_lookup: "distinct (map km_id keys) \<Longrightarrow> k \<in> set keys \<Longrightarrow> map_of (by_id keys) (km_id k) = Some k"
  by (simp add: by_id_def by_id_fold_lookup)

section \<open>What an empty report guarantees\<close>

definition wrapped_ok :: "KeyMetadata list \<Rightarrow> KeyMetadata \<Rightarrow> bool" where
  "wrapped_ok keys k =
    (case wrapping_parent k of
       None \<Rightarrow> km_role k \<in> {RootRole, DomainKek}
     | Some pid \<Rightarrow> (case map_of (by_id keys) pid of None \<Rightarrow> False
        | Some p \<Rightarrow> can_wrap (km_role p) (km_role k) \<and> km_state p \<in> {Active, Rotated}))"

lemma check_key_Nil: "check_key (by_id keys) k = [] \<longleftrightarrow> wrapped_ok keys k"
  by (cases "role_of_type (key_type k)")
    (auto simp: check_key_def wrapped_ok_def km_role_def Let_def split: option.splits)

text \<open>The wrapping chain from a key upwards, at most \<open>n\<close> hops.\<close>

fun chain_top :: "KeyMetadata list \<Rightarrow> nat \<Rightarrow> KeyMetadata \<Rightarrow> KeyMetadata option" where
  "chain_top keys 0 k = (if wrapping_parent k = None then Some k else None)"
| "chain_top keys (Suc n) k =
     (case wrapping_parent k of None \<Rightarrow> Some k
      | Some pid \<Rightarrow> Option.bind (map_of (by_id keys) pid) (chain_top keys n))"

lemma wrapped_chain:
  assumes "\<forall>k \<in> set keys. wrapped_ok keys k" and "k \<in> set keys"
  shows "depth (km_role k) \<le> n + 1 \<Longrightarrow>
    \<exists>t. chain_top keys n k = Some t \<and> t \<in> set keys \<and> wrapping_parent t = None \<and> km_role t \<in> {RootRole, DomainKek}"
  using assms(2)
proof (induction n arbitrary: k)
  case 0
  then have "km_role k = RootRole" by (cases "km_role k") simp_all
  with assms(1) 0 show ?case
    by (fastforce simp: wrapped_ok_def dest: can_wrap_depth split: option.splits)
next
  case (Suc n)
  show ?case
  proof (cases "wrapping_parent k")
    case None
    with assms(1) Suc.prems show ?thesis by (auto simp: wrapped_ok_def)
  next
    case (Some pid)
    with assms(1) Suc.prems obtain p where p: "map_of (by_id keys) pid = Some p" "can_wrap (km_role p) (km_role k)"
      by (fastforce simp: wrapped_ok_def split: option.splits)
    with by_id_member have "p \<in> set keys" by blast
    moreover have "depth (km_role p) \<le> n + 1" using can_wrap_depth [OF p(2)] Suc.prems by simp
    ultimately show ?thesis using Suc.IH [of p] Some p by auto
  qed
qed

lemma depth_le: "depth r \<le> 6"
  by (cases r) simp_all

lemma wrapped_chain_3:
  assumes "\<forall>k \<in> set keys. wrapped_ok keys k" and "k \<in> set keys"
  shows "\<exists>t. chain_top keys 3 k = Some t \<and> t \<in> set keys \<and> wrapping_parent t = None \<and> km_role t \<in> {RootRole, DomainKek}"
proof (cases "wrapping_parent k")
  case None
  with assms show ?thesis by (auto simp: wrapped_ok_def numeral_3_eq_3)
next
  case (Some pid)
  with assms obtain p where p: "map_of (by_id keys) pid = Some p" "can_wrap (km_role p) (km_role k)"
    by (fastforce simp: wrapped_ok_def split: option.splits)
  with by_id_member have "p \<in> set keys" by blast
  moreover have "depth (km_role p) \<le> 2 + 1" using can_wrap_depth [OF p(2)] by simp
  ultimately show ?thesis using wrapped_chain [OF assms(1), of p 2] Some p by (simp add: numeral_3_eq_3 numeral_2_eq_2)
qed

section \<open>Properties\<close>

text \<open>C25: an accepted wrapping graph is a hierarchy. If validation reports nothing, then from every
  key the chain of wrapping keys ends after at most three hops at a key without parent whose role is
  Root or DomainKek, and every wrapping key on the way exists, is usable (Active or Rotated) and has
  a role that may wrap the role below it.\<close>

theorem valid_graph_is_hierarchy:
  assumes "validate_wrapping_graph keys = []" and "k \<in> set keys"
  shows "wrapped_ok keys k \<and>
    (\<exists>t. chain_top keys 3 k = Some t \<and> t \<in> set keys \<and> wrapping_parent t = None \<and> km_role t \<in> {RootRole, DomainKek})"
proof -
  have "\<forall>k \<in> set keys. wrapped_ok keys k"
    using validate_Nil_check [OF assms(1)] by (simp add: check_key_Nil)
  then show ?thesis using wrapped_chain_3 assms(2) by blast
qed

definition demo_key :: "string \<Rightarrow> KeyType \<Rightarrow> string option \<Rightarrow> KeyMetadata" where
  "demo_key i t p = \<lparr> km_id = i, km_name = i, key_type = t, km_state = Active, policy_id = None,
     parent_id = p, created_at = 0, updated_at = 0, activated_at = Some 0, rotated_at = None,
     revoked_at = None, destroyed_at = None,
     versions = [\<lparr> kv_version = 1, kv_created_at = 0, public_key_hex = [], secret_key_material = Plaintext [],
       wrapping_key_id = p, wrapping_key_version = map_option (\<lambda>_. 1) p, wrap_nonce_hex = None, wrapping_mode = None \<rparr>],
     current_version = 1, usage_count = 0, tags = [] \<rparr>"

definition demo_keys :: "KeyMetadata list" where
  "demo_keys = [demo_key ''r'' Root None, demo_key ''d'' Domain (Some ''r''),
     demo_key ''k'' KeyEncrypting (Some ''d''), demo_key ''e'' DataEncrypting (Some ''k'')]"

theorem valid_graph_is_hierarchy_witness:
  "validate_wrapping_graph demo_keys = [] \<and> wrapped_ok demo_keys (demo_key ''e'' DataEncrypting (Some ''k''))"
proof -
  have v: "validate_wrapping_graph demo_keys = []"
    by (simp add: validate_wrapping_graph_def demo_keys_def demo_key_def by_id_def check_key_def wrapping_parent_def
        current_key_version_def detect_cycle.simps Let_def)
  moreover have "demo_key ''e'' DataEncrypting (Some ''k'') \<in> set demo_keys" by (simp add: demo_keys_def)
  ultimately show ?thesis using valid_graph_is_hierarchy by blast
qed

text \<open>C26: the depth-first search reports a cycle exactly when there is one: validation contains a
  \<open>Cycle\<close> violation if and only if the wrapping chain of some key does not end.\<close>

theorem cycle_reported_iff:
  "has_cycle_violation (validate_wrapping_graph keys) \<longleftrightarrow> (\<exists>k \<in> set keys. \<not> grounded (by_id keys) (km_id k))"
  by (simp add: validate_wrapping_graph_def Let_def cycle_loop_iff concat_check_no_cycle)

end
