(* ===== verification/F64.thy ===== *)
theory F64
  imports Complex_Main Citadel_Prelude
begin

text \<open>
  The \<^verbatim>\<open>f64\<close> arithmetic the code uses, over the rationals: a finite double is the rational it denotes,
  a literal or an operation rounds its exact value to the nearest number with 53 significant bits,
  ties to even. The exponent range is not bounded here: the values the code computes (seconds,
  counts, scores, percentages) are far from overflow and from the subnormal range. NaN and the
  infinities are not values of the model. \<^verbatim>\<open>powf\<close>, whose precision Rust leaves open, is a parameter where it is
  used.
\<close>

fun ilog2 :: "nat \<Rightarrow> nat" where
  "ilog2 n = (if n < 2 then 0 else Suc (ilog2 (n div 2)))"

declare ilog2.simps [simp del]

definition binexp :: "rat \<Rightarrow> int" where
  "binexp x =
    (case quotient_of x of (p, q) \<Rightarrow>
       let k = int (ilog2 (nat p)) - int (ilog2 (nat q))
       in if 2 powi k \<le> x then k else k - 1)"

definition round_even :: "rat \<Rightarrow> int" where
  "round_even x =
    (let f = floor x; d = x - of_int f in
     if d < 1 / 2 then f else if 1 / 2 < d then f + 1 else if even f then f else f + 1)"

definition f64 :: "rat \<Rightarrow> rat" where
  "f64 x =
    (if x = 0 then 0 else
     let u = 2 powi (binexp \<bar>x\<bar> - 52) in sgn x * (of_int (round_even (\<bar>x\<bar> / u)) * u))"

definition f64_add :: "rat \<Rightarrow> rat \<Rightarrow> rat" where "f64_add x y = f64 (x + y)"
definition f64_sub :: "rat \<Rightarrow> rat \<Rightarrow> rat" where "f64_sub x y = f64 (x - y)"
definition f64_mul :: "rat \<Rightarrow> rat \<Rightarrow> rat" where "f64_mul x y = f64 (x * y)"
definition f64_div :: "rat \<Rightarrow> rat \<Rightarrow> rat" where "f64_div x y = f64 (x / y)"

text \<open>\<^verbatim>\<open>as f64\<close> of an integer rounds, \<^verbatim>\<open>as u64\<close> truncates and saturates.\<close>

definition f64_of_nat :: "nat \<Rightarrow> rat" where "f64_of_nat n = f64 (of_nat n)"

definition f64_to_u64 :: "rat \<Rightarrow> nat" where
  "f64_to_u64 x = (if x < 0 then 0 else min (nat (floor x)) (2 ^ 64 - 1))"

definition clampf :: "rat \<Rightarrow> rat \<Rightarrow> rat \<Rightarrow> rat" where
  "clampf x lo hi = (if x < lo then lo else if hi < x then hi else x)"

section \<open>Lemmas\<close>

lemma ilog2_bounds: "0 < n \<Longrightarrow> 2 ^ ilog2 n \<le> n \<and> n < 2 ^ Suc (ilog2 n)"
proof (induction n rule: ilog2.induct)
  case (1 n)
  then show ?case
    by (subst (1 2) ilog2.simps) auto
qed

lemma binexp_bounds:
  assumes "0 < x"
  shows "2 powi binexp x \<le> x \<and> x < 2 powi (binexp x + 1)"
proof -
  obtain p q where pq: "quotient_of x = (p, q)" by (cases "quotient_of x")
  then have q: "0 < q" and x: "x = of_int p / of_int q"
    by (auto simp: quotient_of_denom_pos quotient_of_div)
  with assms have p: "0 < p" by (simp add: zero_less_divide_iff)
  let ?a = "ilog2 (nat p)" and ?b = "ilog2 (nat q)"
  have "2 ^ ?a \<le> nat p \<and> nat p < 2 ^ Suc ?a" "2 ^ ?b \<le> nat q \<and> nat q < 2 ^ Suc ?b"
    using p q ilog2_bounds [of "nat p"] ilog2_bounds [of "nat q"] by simp_all
  then have a: "(2::rat) ^ ?a \<le> of_int p" "of_int p < (2::rat) ^ Suc ?a"
    and b: "(2::rat) ^ ?b \<le> of_int q" "of_int q < (2::rat) ^ Suc ?b"
    using p q
    by (metis of_int_le_iff of_int_less_iff of_int_numeral of_int_power of_nat_le_iff of_nat_less_iff of_nat_numeral
        of_nat_power int_nat_eq less_imp_le)+
  have k: "(2::rat) powi (int ?a - int ?b) = 2 ^ ?a / 2 ^ ?b" by (simp add: power_int_diff)
  have up: "x < 2 powi (int ?a - int ?b + 1)"
  proof -
    have "x \<le> of_int p / 2 ^ ?b" using b(1) p by (simp add: x frac_le)
    also have "\<dots> < 2 ^ Suc ?a / 2 ^ ?b" using a(2) by (simp add: divide_strict_right_mono)
    also have "\<dots> = 2 powi (int ?a - int ?b + 1)" using k by (simp add: power_int_add)
    finally show ?thesis .
  qed
  have low: "2 powi (int ?a - int ?b - 1) < x"
  proof -
    have "(2::rat) powi (int ?a - int ?b - 1) = 2 ^ ?a / 2 ^ Suc ?b" using k by (simp add: power_int_diff)
    also have "\<dots> \<le> of_int p / 2 ^ Suc ?b" using a(1) by (simp add: divide_right_mono)
    also have "\<dots> < x" using b(2) p q by (simp add: x frac_less2)
    finally show ?thesis .
  qed
  show ?thesis using up low by (auto simp: binexp_def pq Let_def)
qed

lemma round_even_ge: "of_int n \<le> x \<Longrightarrow> n \<le> round_even x"
proof -
  assume "of_int n \<le> x"
  then have "n \<le> floor x" by (simp add: le_floor_iff)
  then show ?thesis by (auto simp: round_even_def Let_def)
qed

lemma round_even_le: "x \<le> of_int n \<Longrightarrow> round_even x \<le> n"
proof -
  assume x: "x \<le> of_int n"
  have "floor x = n \<and> x = of_int n \<or> floor x + 1 \<le> n" using x by linarith
  then show ?thesis by (auto simp: round_even_def Let_def)
qed

lemma round_even_mono: "x \<le> y \<Longrightarrow> round_even x \<le> round_even y"
proof (cases "floor x = floor y")
  case True
  assume "x \<le> y"
  with True show ?thesis by (auto simp: round_even_def Let_def)
next
  case False
  assume "x \<le> y"
  with False have "floor x + 1 \<le> floor y" using floor_mono by fastforce
  moreover have "round_even x \<le> floor x + 1" by (auto simp: round_even_def Let_def)
  moreover have "floor y \<le> round_even y" by (auto simp: round_even_def Let_def)
  ultimately show ?thesis by linarith
qed

lemma f64_pos_bounds:
  assumes "0 < x"
  shows "2 powi binexp x \<le> f64 x \<and> f64 x \<le> 2 powi (binexp x + 1)"
proof -
  let ?k = "binexp x" and ?u = "(2::rat) powi (binexp x - 52)"
  have u: "0 < ?u" by simp
  have e1: "(2::rat) powi ?k = of_int (2 ^ 52) * ?u" by (simp add: power_int_diff)
  have e2: "(2::rat) powi (?k + 1) = of_int (2 ^ 53) * ?u" by (simp add: power_int_diff power_int_add)
  have "of_int (2 ^ 52) \<le> x / ?u" "x / ?u \<le> of_int (2 ^ 53)"
    using binexp_bounds [OF assms] u unfolding e1 e2 by (simp_all add: pos_le_divide_eq pos_divide_le_eq)
  then have r: "2 ^ 52 \<le> round_even (x / ?u)" "round_even (x / ?u) \<le> 2 ^ 53"
    by (simp_all only: round_even_ge round_even_le)
  have f: "f64 x = of_int (round_even (x / ?u)) * ?u" using assms by (simp add: f64_def Let_def)
  have "of_int (2 ^ 52) * ?u \<le> of_int (round_even (x / ?u)) * ?u"
    "of_int (round_even (x / ?u)) * ?u \<le> of_int (2 ^ 53) * ?u"
    using r u by (auto intro!: mult_right_mono simp only: of_int_le_iff)
  then show ?thesis unfolding e1 e2 f by blast
qed

lemma f64_nonneg: "0 \<le> x \<Longrightarrow> 0 \<le> f64 x"
  using f64_pos_bounds [of x] by (cases "x = 0") (auto simp: f64_def intro: order_trans [rotated])

lemma f64_mono_pos:
  assumes "0 < x" "x \<le> y"
  shows "f64 x \<le> f64 y"
proof (cases "binexp x = binexp y")
  case True
  let ?u = "(2::rat) powi (binexp x - 52)"
  have "round_even (x / ?u) \<le> round_even (y / ?u)"
    using assms by (intro round_even_mono divide_right_mono) simp_all
  then show ?thesis using assms True by (simp add: f64_def Let_def mult_right_mono)
next
  case False
  have "\<not> binexp y < binexp x"
  proof
    assume "binexp y < binexp x"
    then have "(2::rat) powi (binexp y + 1) \<le> 2 powi binexp x" by (intro power_int_increasing) simp_all
    with binexp_bounds [of x] binexp_bounds [of y] assms show False by linarith
  qed
  with False have "(2::rat) powi (binexp x + 1) \<le> 2 powi binexp y" by (intro power_int_increasing) simp_all
  with f64_pos_bounds [of x] f64_pos_bounds [of y] assms show ?thesis by linarith
qed

lemma f64_mono: "0 \<le> x \<Longrightarrow> x \<le> y \<Longrightarrow> f64 x \<le> f64 y"
  using f64_mono_pos [of x y] f64_nonneg [of y] by (cases "x = 0") (auto simp: f64_def)

lemma f64_to_u64_mono: "0 \<le> x \<Longrightarrow> x \<le> y \<Longrightarrow> f64_to_u64 x \<le> f64_to_u64 y"
  unfolding f64_to_u64_def using floor_mono [of x y] by (auto simp: min_def nat_mono)

end
