(* ===== verification/Policy.thy ===== *)
theory Policy
  imports Key_Types F64
begin

text \<open>
  \<^verbatim>\<open>citadel-keystore/src/policy.rs\<close>: rotation triggers, key policies and their evaluation. A
  \<^verbatim>\<open>std::time::Duration\<close> is a number of nanoseconds; a \<^verbatim>\<open>chrono::Duration\<close> is an integer number of nanoseconds.
  Clock readings are arguments, one per \<^verbatim>\<open>Utc::now()\<close>. The only panic of \<open>evaluate\<close> (a division by
  zero seconds in the percentage of a log line) is the error value \<open>Panic\<close>.
\<close>

datatype panic = Panic

type_synonym Duration = nat

section \<open>Durations\<close>

definition NS_PER_SEC :: nat where "NS_PER_SEC = 1000000000"

definition from_secs :: "nat \<Rightarrow> Duration" where "from_secs s = s * NS_PER_SEC"

definition as_secs :: "Duration \<Rightarrow> nat" where "as_secs d = d div NS_PER_SEC"

definition chrono_MAX :: int where "chrono_MAX = (2 ^ 63 - 1) * 1000000"

definition chrono_from_std :: "Duration \<Rightarrow> int" where
  "chrono_from_std d = (if int d \<le> chrono_MAX then int d else chrono_MAX)"

text \<open>Division that truncates towards zero.\<close>

definition tdiv :: "int \<Rightarrow> int \<Rightarrow> int" where
  "tdiv a b = (if a < 0 then - ((- a) div b) else a div b)"

definition num_seconds :: "int \<Rightarrow> int" where "num_seconds d = tdiv d 1000000000"
definition num_minutes :: "int \<Rightarrow> int" where "num_minutes d = tdiv (num_seconds d) 60"
definition num_hours :: "int \<Rightarrow> int" where "num_hours d = tdiv (num_seconds d) 3600"
definition num_days :: "int \<Rightarrow> int" where "num_days d = tdiv (num_seconds d) 86400"

definition show_int :: "int \<Rightarrow> string" where
  "show_int i = (if i < 0 then ''-'' @ show_nat (nat (- i)) else show_nat (nat i))"

section \<open>Policies\<close>

datatype RotationTrigger =
  Age Duration | UsageCount u64 | ExternalSignal string | ParentRotated

record KeyPolicy =
  kp_id :: PolicyId
  kp_name :: string
  applies_to :: "KeyType list"
  rotation_triggers :: "RotationTrigger list"
  rotation_grace_period :: Duration
  max_lifetime :: "Duration option"
  max_usage_count :: "u64 option"
  auto_rotate :: bool
  min_versions_retained :: u32
  enforce_cryptoperiod :: bool

text \<open>\<open>env\<close> is the value of the environment variable \<^verbatim>\<open>CITADEL_ENFORCE_CRYPTOPERIODS\<close>.\<close>

definition enforce_of_env :: "string option \<Rightarrow> bool" where
  "enforce_of_env env = (case env of Some v \<Rightarrow> v = ''true'' \<or> v = ''1'' | None \<Rightarrow> False)"

definition default_dek :: "string option \<Rightarrow> KeyPolicy" where
  "default_dek env =
    \<lparr> kp_id = ''default-dek'', kp_name = ''Default DEK Policy (NIST SP 800-57)'',
      applies_to = [DataEncrypting], rotation_triggers = [Age (from_secs (90 * 86400))],
      rotation_grace_period = from_secs (7 * 86400), max_lifetime = Some (from_secs (97 * 86400)),
      max_usage_count = None, auto_rotate = False, min_versions_retained = 3,
      enforce_cryptoperiod = enforce_of_env env \<rparr>"

definition default_kek :: "string option \<Rightarrow> KeyPolicy" where
  "default_kek env =
    \<lparr> kp_id = ''default-kek'', kp_name = ''Default KEK Policy (NIST SP 800-57)'',
      applies_to = [KeyEncrypting], rotation_triggers = [Age (from_secs (365 * 86400))],
      rotation_grace_period = from_secs (30 * 86400), max_lifetime = Some (from_secs (395 * 86400)),
      max_usage_count = None, auto_rotate = False, min_versions_retained = 5,
      enforce_cryptoperiod = enforce_of_env env \<rparr>"

definition default_root :: "string option \<Rightarrow> KeyPolicy" where
  "default_root env =
    \<lparr> kp_id = ''default-root'', kp_name = ''Default Root Policy (NIST SP 800-57)'',
      applies_to = [Domain], rotation_triggers = [Age (from_secs (730 * 86400))],
      rotation_grace_period = from_secs (90 * 86400), max_lifetime = Some (from_secs (820 * 86400)),
      max_usage_count = None, auto_rotate = False, min_versions_retained = 10,
      enforce_cryptoperiod = enforce_of_env env \<rparr>"

section \<open>Evaluation\<close>

datatype PolicyVerdict =
    Compliant
  | RotationNeeded string
  | Warning string
  | UsageLimitExceeded u64 u64
  | VExpired int nat

fun needs_rotation :: "PolicyVerdict \<Rightarrow> bool" where
  "needs_rotation (RotationNeeded _) = True"
| "needs_rotation (UsageLimitExceeded _ _) = True"
| "needs_rotation _ = False"

fun verdict_is_expired :: "PolicyVerdict \<Rightarrow> bool" where
  "verdict_is_expired (VExpired _ _) = True"
| "verdict_is_expired _ = False"

definition format_duration :: "int \<Rightarrow> string" where
  "format_duration d =
    (let days = num_days d in
     if days > 0 then show_int days @ ''d'' else show_int (num_hours d) @ ''h'')"

definition format_std_duration :: "Duration \<Rightarrow> string" where
  "format_std_duration d =
    (let days = as_secs d div 86400 in
     if days > 0 then show_nat days @ ''d'' else show_nat (as_secs d div 3600) @ ''h'')"

text \<open>\<^verbatim>\<open>Duration::from_secs((d.as_secs() as f64 * factor) as u64)\<close>, the scaling both files use.\<close>

definition scale_secs :: "Duration \<Rightarrow> rat \<Rightarrow> Duration" where
  "scale_secs d factor = from_secs (f64_to_u64 (f64_mul (f64_of_nat (as_secs d)) factor))"

fun age_triggers :: "RotationTrigger list \<Rightarrow> int \<Rightarrow> PolicyVerdict" where
  "age_triggers [] a = Compliant"
| "age_triggers (t # ts) a =
     (case t of
        Age max_age \<Rightarrow>
          if a \<ge> chrono_from_std max_age then
            RotationNeeded (''age '' @ format_duration a @ '' exceeds max '' @ format_std_duration max_age)
          else if a \<ge> chrono_from_std (scale_secs max_age (f64 (9 / 10))) then
            Warning (''age '' @ format_duration a @ '' approaching max '' @ format_std_duration max_age)
          else age_triggers ts a
      | _ \<Rightarrow> age_triggers ts a)"

definition expiry_check :: "KeyPolicy \<Rightarrow> KeyMetadata \<Rightarrow> DateTime \<Rightarrow> panic + PolicyVerdict option" where
  "expiry_check policy key now1 =
    (if enforce_cryptoperiod policy then
       case max_lifetime policy of
         Some ml \<Rightarrow>
           (case activated_at key of
              Some activated \<Rightarrow>
                let a = now1 - activated; max_chrono = chrono_from_std ml in
                if a \<ge> max_chrono then Inr (Some (VExpired (num_days a) (as_secs ml div 86400)))
                else if a \<ge> chrono_from_std (scale_secs ml (f64 (8 / 10))) then
                  (if num_seconds max_chrono = 0 then Inl Panic else Inr None)
                else Inr None
            | None \<Rightarrow> Inr None)
       | None \<Rightarrow> Inr None
     else Inr None)"

text \<open>The percentage in the warning is \<^verbatim>\<open>usage_count * 100 / max_count\<close> in 64 bits: the product wraps in a release build (a debug build panics
  there).\<close>

definition usage_check :: "KeyPolicy \<Rightarrow> KeyMetadata \<Rightarrow> PolicyVerdict option" where
  "usage_check policy key =
    (case max_usage_count policy of
       Some max_count \<Rightarrow>
         if usage_count key \<ge> max_count then Some (UsageLimitExceeded (usage_count key) max_count)
         else
           let threshold = f64_to_u64 (f64_mul (f64_of_nat (unat max_count)) (f64 (9 / 10))) in
           if unat (usage_count key) \<ge> threshold then
             Some (Warning (''usage '' @ show_nat (unat (usage_count key)) @ ''/'' @ show_nat (unat max_count) @
               '' ('' @ show_nat (unat (usage_count key * 100 div max_count)) @ ''%)''))
           else None
     | None \<Rightarrow> None)"

definition evaluate :: "KeyPolicy \<Rightarrow> KeyMetadata \<Rightarrow> DateTime \<Rightarrow> DateTime \<Rightarrow> panic + PolicyVerdict" where
  "evaluate policy key now1 now2 =
    (if km_state key \<noteq> Active then Inr Compliant else
     and_then (expiry_check policy key now1) (\<lambda>early.
     case early of Some v \<Rightarrow> Inr v
     | None \<Rightarrow>
       (case usage_check policy key of Some v \<Rightarrow> Inr v
        | None \<Rightarrow>
          (case activated_at key of
             Some activated \<Rightarrow> Inr (age_triggers (rotation_triggers policy) (now2 - activated))
           | None \<Rightarrow> Inr Compliant))))"

section \<open>Lemmas\<close>

lemma age_triggers_not_expired: "\<not> verdict_is_expired (age_triggers ts a)"
  by (induction ts) (auto split: RotationTrigger.split)

lemma usage_check_not_expired: "usage_check p k = Some v \<Longrightarrow> \<not> verdict_is_expired v"
  by (auto simp: usage_check_def Let_def split: option.splits if_splits)

lemma evaluate_expired_iff:
  "(\<exists>v. evaluate p k now1 now2 = Inr v \<and> verdict_is_expired v) \<longleftrightarrow>
     km_state k = Active \<and> enforce_cryptoperiod p \<and>
     (\<exists>ml a. max_lifetime p = Some ml \<and> activated_at k = Some a \<and> now1 - a \<ge> chrono_from_std ml)"
proof (cases "km_state k = Active")
  case True
  show ?thesis
  proof (cases "expiry_check p k now1")
    case (Inl e)
    with True show ?thesis
      by (auto simp: evaluate_def expiry_check_def Let_def split: option.splits if_splits)
  next
    case (Inr r)
    have "r = None \<Longrightarrow> \<not> (\<exists>v. evaluate p k now1 now2 = Inr v \<and> verdict_is_expired v)"
      using True Inr
      by (auto simp: evaluate_def age_triggers_not_expired dest: usage_check_not_expired split: option.splits)
    moreover have "r = Some v \<Longrightarrow> evaluate p k now1 now2 = Inr v" for v
      using True Inr by (simp add: evaluate_def)
    ultimately show ?thesis
      using True Inr by (cases r) (auto simp: expiry_check_def Let_def split: option.splits if_splits)
  qed
qed (simp add: evaluate_def)

lemma age_triggers_rotation:
  "Age d \<in> set ts \<Longrightarrow> a \<ge> chrono_from_std d \<Longrightarrow> age_triggers ts a \<noteq> Compliant"
  by (induction ts) (auto split: RotationTrigger.split)

section \<open>Properties\<close>

text \<open>Strict cryptoperiods are a hard stop and nothing else is. The verdict of \<open>evaluate\<close> is
  \<open>Expired\<close> exactly when the key is Active, the policy enforces its cryptoperiod, a maximum lifetime
  and an activation time are set, and the age at the first clock reading has reached that lifetime.\<close>

lemma expired_verdict_iff:
  "(\<exists>v. evaluate p k now1 now2 = Inr v \<and> verdict_is_expired v) \<longleftrightarrow>
     km_state k = Active \<and> enforce_cryptoperiod p \<and>
     (\<exists>ml a. max_lifetime p = Some ml \<and> activated_at k = Some a \<and> now1 - a \<ge> chrono_from_std ml)"
  by (rule evaluate_expired_iff)

text \<open>C28: evaluation panics for an enforced maximum lifetime of less than a second. When the age has
  reached zero but not the lifetime, the percentage of the log line divides by zero seconds; with a
  lifetime of a second or more evaluation always returns a verdict.\<close>

theorem evaluate_panics_iff_subsecond:
  "evaluate p k now1 now2 = Inl Panic \<longleftrightarrow>
     km_state k = Active \<and> enforce_cryptoperiod p \<and>
     (\<exists>ml a. max_lifetime p = Some ml \<and> ml < NS_PER_SEC \<and> activated_at k = Some a \<and>
        0 \<le> now1 - a \<and> now1 - a < int ml)"
proof -
  have small: "num_seconds (chrono_from_std ml) = 0 \<longleftrightarrow> ml < NS_PER_SEC" for ml
    by (auto simp: num_seconds_def tdiv_def chrono_from_std_def chrono_MAX_def NS_PER_SEC_def)
  have sc: "chrono_from_std (scale_secs ml f) = 0" "chrono_from_std ml = int ml" if "ml < NS_PER_SEC" for ml f
    using that
    by (simp_all add: scale_secs_def as_secs_def from_secs_def f64_of_nat_def f64_mul_def f64_def f64_to_u64_def
        chrono_from_std_def chrono_MAX_def NS_PER_SEC_def)
  have "evaluate p k now1 now2 = Inl Panic \<longleftrightarrow> km_state k = Active \<and> expiry_check p k now1 = Inl Panic"
    by (auto simp: evaluate_def and_then_eq_Inl split: option.splits)
  also have "\<dots> \<longleftrightarrow> km_state k = Active \<and> enforce_cryptoperiod p \<and>
     (\<exists>ml a. max_lifetime p = Some ml \<and> ml < NS_PER_SEC \<and> activated_at k = Some a \<and>
        0 \<le> now1 - a \<and> now1 - a < int ml)"
    by (auto simp: expiry_check_def Let_def small sc split: option.splits if_splits)
  finally show ?thesis .
qed

end
