(* ===== verification/Threat.thy ===== *)
theory Threat
  imports Policy
begin

text \<open>
  \<^verbatim>\<open>citadel-keystore/src/threat.rs\<close>: the threat assessor (a rolling, decaying score mapped to a level with
  hysteresis and a manual override) and the policy adapter. \<open>powf\<close> is the parameter for \<^verbatim>\<open>f64::powf\<close>;
  the \<open>now\<close> arguments are the clock readings of an operation in program order. The optional audit sink
  is the list of the (verdict, detail) pairs recorded on it.
\<close>

section \<open>Levels and events\<close>

datatype ThreatLevel = Low | Guarded | Elevated | High | Critical

fun level_value :: "ThreatLevel \<Rightarrow> nat" where
  "level_value Low = 1"
| "level_value Guarded = 2"
| "level_value Elevated = 3"
| "level_value High = 4"
| "level_value Critical = 5"

lemma level_value_inj: "level_value a = level_value b \<Longrightarrow> a = b"
  by (cases a; cases b) simp_all

instantiation ThreatLevel :: linorder
begin

definition less_eq_ThreatLevel :: "ThreatLevel \<Rightarrow> ThreatLevel \<Rightarrow> bool" where
  "less_eq_ThreatLevel a b \<longleftrightarrow> level_value a \<le> level_value b"

definition less_ThreatLevel :: "ThreatLevel \<Rightarrow> ThreatLevel \<Rightarrow> bool" where
  "less_ThreatLevel a b \<longleftrightarrow> level_value a < level_value b"

instance
  by standard (auto simp: less_eq_ThreatLevel_def less_ThreatLevel_def intro: level_value_inj)

end

fun level_label :: "ThreatLevel \<Rightarrow> string" where
  "level_label Low = ''LOW''"
| "level_label Guarded = ''GUARDED''"
| "level_label Elevated = ''ELEVATED''"
| "level_label High = ''HIGH''"
| "level_label Critical = ''CRITICAL''"

definition show_level :: "ThreatLevel \<Rightarrow> string" where
  "show_level l = ''Level '' @ show_nat (level_value l) @ '' ('' @ level_label l @ '')''"

definition from_score :: "rat \<Rightarrow> ThreatLevel" where
  "from_score score =
    (let s = (if score < 0 then 0 else nat (floor score)) in
     if s \<le> 1 then Low else if s = 2 then Guarded else if s = 3 then Elevated else if s = 4 then High else Critical)"

datatype ThreatEventKind =
    DecryptionFailure | RapidAccessPattern | AnomalousAccess | ExternalAdvisory | AuthFailure
  | KeyEnumeration | ManualEscalation | ManualDeescalation | Heartbeat

record ThreatEvent =
  te_timestamp :: DateTime
  te_kind :: ThreatEventKind
  severity :: rat
  te_detail :: "string option"

definition ThreatEvent_new :: "DateTime \<Rightarrow> ThreatEventKind \<Rightarrow> rat \<Rightarrow> ThreatEvent" where
  "ThreatEvent_new now kind sev =
    \<lparr> te_timestamp = now, te_kind = kind, severity = clampf sev 0 10, te_detail = None \<rparr>"

definition with_detail :: "ThreatEvent \<Rightarrow> string \<Rightarrow> ThreatEvent" where
  "with_detail e d = e\<lparr> te_detail := Some d \<rparr>"

section \<open>The assessor\<close>

record ThreatConfig =
  window :: Duration
  decay_rate :: rat
  thresholds :: "rat \<times> rat \<times> rat \<times> rat"
  max_events :: nat
  hysteresis :: rat

definition ThreatConfig_default :: ThreatConfig where
  "ThreatConfig_default =
    \<lparr> window = from_secs 3600, decay_rate = f64 (95 / 100), thresholds = (5, 15, 30, 50),
      max_events = 10000, hysteresis = f64 (2 / 10) \<rparr>"

record ThreatAssessor =
  ta_config :: ThreatConfig
  ta_events :: "ThreatEvent list"
  ta_level :: ThreatLevel
  manual_override :: "ThreatLevel option"
  ta_audit :: "(string \<times> string) list option"
  level_history :: "(DateTime \<times> ThreatLevel \<times> string) list"

definition ThreatAssessor_new :: "ThreatConfig \<Rightarrow> DateTime \<Rightarrow> ThreatAssessor" where
  "ThreatAssessor_new config now =
    \<lparr> ta_config = config, ta_events = [], ta_level = Low, manual_override = None, ta_audit = None,
      level_history = [(now, Low, ''initialized'')] \<rparr>"

definition compute_score :: "(rat \<Rightarrow> rat \<Rightarrow> rat) \<Rightarrow> ThreatAssessor \<Rightarrow> DateTime \<Rightarrow> rat" where
  "compute_score powf ta now =
     foldl (\<lambda>score event.
       let age_minutes = f64_of_nat (nat (max (num_minutes (now - te_timestamp event)) 0));
           decay = powf (decay_rate (ta_config ta)) age_minutes
       in f64_add score (f64_mul (severity event) decay)) 0 (ta_events ta)"

text \<open>The two threshold ladders.\<close>

definition ladder :: "rat \<times> rat \<times> rat \<times> rat \<Rightarrow> rat \<Rightarrow> ThreatLevel" where
  "ladder th score =
    (case th of (t0, t1, t2, t3) \<Rightarrow>
       if score \<ge> t3 then Critical else if score \<ge> t2 then High else if score \<ge> t1 then Elevated
       else if score \<ge> t0 then Guarded else Low)"

definition relaxed :: "ThreatConfig \<Rightarrow> rat \<times> rat \<times> rat \<times> rat" where
  "relaxed c =
    (case thresholds c of (t0, t1, t2, t3) \<Rightarrow>
       let m = f64_sub 1 (hysteresis c) in (f64_mul t0 m, f64_mul t1 m, f64_mul t2 m, f64_mul t3 m))"

definition next_level :: "ThreatConfig \<Rightarrow> rat \<Rightarrow> ThreatLevel \<Rightarrow> ThreatLevel" where
  "next_level c score cur =
    (let raw_level = ladder (thresholds c) score;
         de_escalation_level = ladder (relaxed c) score
     in if raw_level > cur then raw_level
        else if de_escalation_level < cur then de_escalation_level
        else cur)"

text \<open>The arrow of the source's format strings, as its bytes stand in the file.\<close>

definition source_arrow :: string where
  "source_arrow = [CHR 0xC3, CHR 0xA2, CHR 0xE2, CHR 0x80, CHR 0xA0, CHR 0xE2, CHR 0x80, CHR 0x99]"

text \<open>\<^verbatim>\<open>{:.1}\<close> of a non-negative value.\<close>

definition show_1dp :: "rat \<Rightarrow> string" where
  "show_1dp x = (let n = nat (round_even (x * 10)) in show_nat (n div 10) @ ''.'' @ show_nat (n mod 10))"

definition recompute_level :: "(rat \<Rightarrow> rat \<Rightarrow> rat) \<Rightarrow> DateTime \<Rightarrow> DateTime \<Rightarrow> ThreatAssessor \<Rightarrow> ThreatAssessor" where
  "recompute_level powf now1 now2 ta =
    (let score = compute_score powf ta now1;
         new_level = (case manual_override ta of Some manual \<Rightarrow> manual
                      | None \<Rightarrow> next_level (ta_config ta) score (ta_level ta))
     in if new_level \<noteq> ta_level ta then
          let old = ta_level ta;
              reason = ''score '' @ show_1dp score @ '' '' @ source_arrow @ '' '' @ level_label new_level @
                '' (was '' @ level_label old @ '')''
          in ta\<lparr> ta_level := new_level,
                 level_history := level_history ta @ [(now2, new_level, reason)],
                 ta_audit := map_option (\<lambda>a. a @ [(''threat level changed: '' @ show_level old @ '' '' @
                   source_arrow @ '' '' @ show_level new_level, reason)]) (ta_audit ta) \<rparr>
        else ta)"

definition prune_old_events :: "DateTime \<Rightarrow> ThreatAssessor \<Rightarrow> ThreatAssessor" where
  "prune_old_events now ta =
    (let cutoff = now - chrono_from_std (window (ta_config ta));
         kept = dropWhile (\<lambda>e. te_timestamp e < cutoff) (ta_events ta)
     in ta\<lparr> ta_events := drop (length kept - max_events (ta_config ta)) kept \<rparr>)"

fun escalate :: "ThreatLevel \<Rightarrow> ThreatLevel" where
  "escalate Low = Guarded"
| "escalate Guarded = Elevated"
| "escalate Elevated = High"
| "escalate High = Critical"
| "escalate Critical = Critical"

definition record_event ::
  "(rat \<Rightarrow> rat \<Rightarrow> rat) \<Rightarrow> (nat \<Rightarrow> DateTime) \<Rightarrow> ThreatEvent \<Rightarrow> ThreatAssessor \<Rightarrow> ThreatAssessor" where
  "record_event powf clk event ta =
    (let ta1 = (case te_kind event of
           ManualEscalation \<Rightarrow> ta\<lparr> manual_override := Some (escalate (ta_level ta)) \<rparr>
         | ManualDeescalation \<Rightarrow> ta\<lparr> manual_override := None \<rparr>
         | _ \<Rightarrow> ta);
         ta2 = ta1\<lparr> ta_events := ta_events ta1 @ [event] \<rparr>
     in recompute_level powf (clk 1) (clk 2) (prune_old_events (clk 0) ta2))"

definition record_events ::
  "(rat \<Rightarrow> rat \<Rightarrow> rat) \<Rightarrow> (nat \<Rightarrow> DateTime) \<Rightarrow> ThreatEvent list \<Rightarrow> ThreatAssessor \<Rightarrow> ThreatAssessor" where
  "record_events powf clk events ta =
     recompute_level powf (clk 1) (clk 2)
       (prune_old_events (clk 0) (ta\<lparr> ta_events := ta_events ta @ events \<rparr>))"

definition threat_reset :: "DateTime \<Rightarrow> ThreatAssessor \<Rightarrow> ThreatAssessor" where
  "threat_reset now ta =
    (let old = ta_level ta;
         ta1 = ta\<lparr> ta_events := [], manual_override := None, ta_level := Low \<rparr>
     in if old \<noteq> Low then
          let reason = ''threat state reset (was '' @ level_label old @ '')''
          in ta1\<lparr> level_history := level_history ta1 @ [(now, Low, reason)],
                  ta_audit := map_option (\<lambda>a. a @ [(''threat level changed: '' @ show_level old @ '' '' @
                    right_arrow @ '' '' @ show_level Low @ '' (reset)'', reason)]) (ta_audit ta1) \<rparr>
        else ta1)"

definition current_level :: "(rat \<Rightarrow> rat \<Rightarrow> rat) \<Rightarrow> (nat \<Rightarrow> DateTime) \<Rightarrow> ThreatAssessor \<Rightarrow> ThreatAssessor \<times> ThreatLevel" where
  "current_level powf clk ta =
    (let ta' = recompute_level powf (clk 0) (clk 1) ta
     in (ta', case manual_override ta' of Some l \<Rightarrow> l | None \<Rightarrow> ta_level ta'))"

section \<open>The policy adapter\<close>

definition FLOOR_ROTATION_AGE :: Duration where "FLOOR_ROTATION_AGE = from_secs 86400"
definition FLOOR_GRACE_PERIOD :: Duration where "FLOOR_GRACE_PERIOD = from_secs 43200"
definition FLOOR_MAX_LIFETIME :: Duration where "FLOOR_MAX_LIFETIME = from_secs (30 * 86400)"
definition FLOOR_USAGE_COUNT :: u64 where "FLOOR_USAGE_COUNT = 100"

record ScalingFactors =
  sf_age :: rat
  sf_grace :: rat
  sf_lifetime :: rat
  sf_usage :: rat

fun scaling_factor :: "ThreatLevel \<Rightarrow> ScalingFactors" where
  "scaling_factor Low = \<lparr> sf_age = 1, sf_grace = 1, sf_lifetime = 1, sf_usage = 1 \<rparr>"
| "scaling_factor Guarded =
     \<lparr> sf_age = f64 (75 / 100), sf_grace = f64 (8 / 10), sf_lifetime = f64 (8 / 10), sf_usage = f64 (8 / 10) \<rparr>"
| "scaling_factor Elevated =
     \<lparr> sf_age = f64 (5 / 10), sf_grace = f64 (5 / 10), sf_lifetime = f64 (6 / 10), sf_usage = f64 (6 / 10) \<rparr>"
| "scaling_factor High =
     \<lparr> sf_age = f64 (3 / 10), sf_grace = f64 (3 / 10), sf_lifetime = f64 (4 / 10), sf_usage = f64 (4 / 10) \<rparr>"
| "scaling_factor Critical =
     \<lparr> sf_age = f64 (2 / 10), sf_grace = f64 (1 / 10), sf_lifetime = f64 (25 / 100), sf_usage = f64 (25 / 100) \<rparr>"

fun adapt_trigger :: "rat \<Rightarrow> RotationTrigger \<Rightarrow> RotationTrigger" where
  "adapt_trigger f (Age d) = Age (min (max (scale_secs d f) FLOOR_ROTATION_AGE) d)"
| "adapt_trigger f other = other"

definition adapt_usage :: "rat \<Rightarrow> u64 \<Rightarrow> u64" where
  "adapt_usage f c =
     min (max (word_of_nat (f64_to_u64 (f64_mul (f64_of_nat (unat c)) f))) FLOOR_USAGE_COUNT) c"

definition adapt :: "KeyPolicy \<Rightarrow> ThreatLevel \<Rightarrow> KeyPolicy" where
  "adapt base level =
    (let factor = scaling_factor level in
     base\<lparr> rotation_triggers := map (adapt_trigger (sf_age factor)) (rotation_triggers base),
           rotation_grace_period :=
             min (max (scale_secs (rotation_grace_period base) (sf_grace factor)) FLOOR_GRACE_PERIOD)
               (rotation_grace_period base),
           max_lifetime := map_option (\<lambda>d. min (max (scale_secs d (sf_lifetime factor)) FLOOR_MAX_LIFETIME) d)
             (max_lifetime base),
           max_usage_count := map_option (adapt_usage (sf_usage factor)) (max_usage_count base),
           auto_rotate := (level \<ge> Elevated \<or> auto_rotate base),
           kp_name := kp_name base @ '' [threat:'' @ level_label level @ '']'' \<rparr>)"

fun first_age :: "RotationTrigger list \<Rightarrow> Duration option" where
  "first_age [] = None"
| "first_age (Age d # ts) = Some d"
| "first_age (_ # ts) = first_age ts"

record AdaptationSummary =
  as_policy_name :: string
  as_threat_level :: ThreatLevel
  base_rotation_age :: "Duration option"
  effective_rotation_age :: "Duration option"
  base_grace_period :: Duration
  effective_grace_period :: Duration
  base_max_lifetime :: "Duration option"
  effective_max_lifetime :: "Duration option"
  base_usage_limit :: "u64 option"
  effective_usage_limit :: "u64 option"
  auto_rotate_forced :: bool

definition summarize :: "KeyPolicy \<Rightarrow> ThreatLevel \<Rightarrow> AdaptationSummary" where
  "summarize base level =
    (let adapted = adapt base level in
     \<lparr> as_policy_name = kp_name base, as_threat_level = level,
       base_rotation_age = first_age (rotation_triggers base),
       effective_rotation_age = first_age (rotation_triggers adapted),
       base_grace_period = rotation_grace_period base,
       effective_grace_period = rotation_grace_period adapted,
       base_max_lifetime = max_lifetime base,
       effective_max_lifetime = max_lifetime adapted,
       base_usage_limit = max_usage_count base,
       effective_usage_limit = max_usage_count adapted,
       auto_rotate_forced = (level \<ge> Elevated \<and> \<not> auto_rotate base) \<rparr>)"

section \<open>Lemmas\<close>

lemmas level_order = less_eq_ThreatLevel_def less_ThreatLevel_def

lemma scaling_factor_mono:
  assumes "l \<le> l'"
  shows "sf_age (scaling_factor l') \<le> sf_age (scaling_factor l) \<and>
    sf_grace (scaling_factor l') \<le> sf_grace (scaling_factor l) \<and>
    sf_lifetime (scaling_factor l') \<le> sf_lifetime (scaling_factor l) \<and>
    sf_usage (scaling_factor l') \<le> sf_usage (scaling_factor l)"
proof -
  have one: "f64 1 = 1" by code_simp
  have le1: "f64 x \<le> 1" if "0 \<le> x" "x \<le> 1" for x using f64_mono [OF that] by (simp add: one)
  show ?thesis using assms
    by (cases l; cases l') (simp_all add: level_order le1 f64_mono)
qed

lemma scaling_factor_nonneg:
  "0 \<le> sf_age (scaling_factor l) \<and> 0 \<le> sf_grace (scaling_factor l) \<and>
   0 \<le> sf_lifetime (scaling_factor l) \<and> 0 \<le> sf_usage (scaling_factor l)"
  by (cases l) (simp_all add: f64_nonneg)

lemma scaled_mono: "0 \<le> f \<Longrightarrow> f \<le> g \<Longrightarrow>
    f64_to_u64 (f64_mul (f64_of_nat n) f) \<le> f64_to_u64 (f64_mul (f64_of_nat n) g)"
  by (auto simp: f64_mul_def f64_of_nat_def intro!: f64_to_u64_mono f64_mono f64_nonneg mult_left_mono mult_nonneg_nonneg)

lemma scale_secs_mono: "0 \<le> f \<Longrightarrow> f \<le> g \<Longrightarrow> scale_secs d f \<le> scale_secs d g"
  by (simp add: scale_secs_def from_secs_def scaled_mono)

lemma scale_clamp_mono:
  "0 \<le> f \<Longrightarrow> f \<le> g \<Longrightarrow> min (max (scale_secs d f) m) d \<le> min (max (scale_secs d g) m) d"
  by (rule min.mono [OF max.mono [OF scale_secs_mono]]) simp_all

lemma f64_to_u64_less: "f64_to_u64 x < 2 ^ 64"
  by (auto simp: f64_to_u64_def min_def)

lemma adapt_usage_mono: "0 \<le> f \<Longrightarrow> f \<le> g \<Longrightarrow> adapt_usage f c \<le> adapt_usage g c"
proof -
  assume "0 \<le> f" "f \<le> g"
  then have "f64_to_u64 (f64_mul (f64_of_nat (unat c)) f) \<le> f64_to_u64 (f64_mul (f64_of_nat (unat c)) g)"
    by (rule scaled_mono)
  then have "(word_of_nat (f64_to_u64 (f64_mul (f64_of_nat (unat c)) f)) :: u64) \<le>
      word_of_nat (f64_to_u64 (f64_mul (f64_of_nat (unat c)) g))"
    using f64_to_u64_less by (simp add: word_of_nat_less_eq_iff take_bit_nat_eq_self)
  then show ?thesis unfolding adapt_usage_def by (intro min.mono max.mono) simp_all
qed

section \<open>Tightness\<close>

fun trigger_le :: "RotationTrigger \<Rightarrow> RotationTrigger \<Rightarrow> bool" where
  "trigger_le (Age d) (Age d') = (d \<le> d')"
| "trigger_le t t' = (t = t')"

definition opt_le :: "'a::ord option \<Rightarrow> 'a option \<Rightarrow> bool" where
  "opt_le x y = (case (x, y) of (Some a, Some b) \<Rightarrow> a \<le> b | (None, None) \<Rightarrow> True | _ \<Rightarrow> False)"

definition tighter :: "KeyPolicy \<Rightarrow> KeyPolicy \<Rightarrow> bool" where
  "tighter p q \<longleftrightarrow>
     list_all2 trigger_le (rotation_triggers p) (rotation_triggers q) \<and>
     rotation_grace_period p \<le> rotation_grace_period q \<and>
     opt_le (max_lifetime p) (max_lifetime q) \<and> opt_le (max_usage_count p) (max_usage_count q) \<and>
     (auto_rotate q \<longrightarrow> auto_rotate p)"

lemma adapt_tighter_base: "tighter (adapt base l) base"
proof -
  have "list_all2 trigger_le (map (adapt_trigger f) ts) ts" for f ts
  proof (induction ts)
    case (Cons t ts)
    then show ?case by (cases t) auto
  qed simp
  then show ?thesis
    by (auto simp: tighter_def adapt_def Let_def opt_le_def adapt_usage_def split: option.splits)
qed

lemma adapt_tighter_mono:
  assumes "l \<le> l'"
  shows "tighter (adapt base l') (adapt base l)"
proof -
  note m = scaling_factor_mono [OF assms] scaling_factor_nonneg [of l']
  have trig: "list_all2 trigger_le (map (adapt_trigger f) ts) (map (adapt_trigger g) ts)" if "0 \<le> f" "f \<le> g" for f g ts
  proof (induction ts)
    case (Cons t ts)
    then show ?case using that by (cases t) (simp_all add: scale_clamp_mono del: min.bounded_iff)
  qed simp
  have "opt_le (max_lifetime (adapt base l')) (max_lifetime (adapt base l))"
    using m by (simp add: adapt_def Let_def opt_le_def scale_clamp_mono del: min.bounded_iff split: option.split)
  moreover have "opt_le (max_usage_count (adapt base l')) (max_usage_count (adapt base l))"
    using m by (auto simp: adapt_def Let_def opt_le_def intro!: adapt_usage_mono split: option.splits)
  moreover have "rotation_grace_period (adapt base l') \<le> rotation_grace_period (adapt base l)"
    using m by (simp add: adapt_def Let_def scale_clamp_mono del: min.bounded_iff)
  moreover have "auto_rotate (adapt base l) \<longrightarrow> auto_rotate (adapt base l')"
    using assms by (auto simp: adapt_def Let_def)
  ultimately show ?thesis using m trig by (simp add: tighter_def adapt_def Let_def)
qed

section \<open>Hysteresis\<close>

definition doubles :: "ThreatConfig \<Rightarrow> bool" where
  "doubles c = (case thresholds c of (t0, t1, t2, t3) \<Rightarrow>
     0 \<le> hysteresis c \<and> hysteresis c \<le> 1 \<and> list_all (\<lambda>t. 0 \<le> t \<and> f64 t = t) [t0, t1, t2, t3])"

lemma ladder_antimono:
  "s0 \<le> t0 \<Longrightarrow> s1 \<le> t1 \<Longrightarrow> s2 \<le> t2 \<Longrightarrow> s3 \<le> t3 \<Longrightarrow>
   ladder (t0, t1, t2, t3) x \<le> ladder (s0, s1, s2, s3) (x :: rat)"
  by (auto simp: ladder_def level_order)

lemma raw_le_relaxed:
  assumes "doubles c"
  shows "ladder (thresholds c) x \<le> ladder (relaxed c) x"
proof -
  obtain t0 t1 t2 t3 where t: "thresholds c = (t0, t1, t2, t3)" by (cases "thresholds c") auto
  have one: "f64 1 = 1" by code_simp
  let ?m = "f64_sub 1 (hysteresis c)"
  have m: "0 \<le> ?m" "?m \<le> 1"
    using assms f64_nonneg [of "1 - hysteresis c"] f64_mono [of "1 - hysteresis c" 1]
    by (auto simp: doubles_def t f64_sub_def one)
  have "f64_mul u ?m \<le> u" if "0 \<le> u" "f64 u = u" for u
    using f64_mono [of "u * ?m" u] that m by (simp add: f64_mul_def mult_left_le)
  with assms show ?thesis
    unfolding t relaxed_def by (auto simp: Let_def doubles_def t intro!: ladder_antimono)
qed

lemma next_level_stable:
  assumes "doubles c"
  shows "next_level c x (next_level c x l) = next_level c x l"
  using raw_le_relaxed [OF assms, of x] by (auto simp: next_level_def Let_def)

section \<open>Reachable assessors\<close>

inductive assessor :: "(rat \<Rightarrow> rat \<Rightarrow> rat) \<Rightarrow> ThreatConfig \<Rightarrow> ThreatAssessor \<Rightarrow> bool" for powf c where
  init: "assessor powf c (ThreatAssessor_new c now)"
| audited: "assessor powf c ta \<Longrightarrow> assessor powf c (ta\<lparr> ta_audit := Some entries \<rparr>)"
| event: "assessor powf c ta \<Longrightarrow> assessor powf c (record_event powf clk e ta)"
| batch: "assessor powf c ta \<Longrightarrow> assessor powf c (record_events powf clk es ta)"
| refresh: "assessor powf c ta \<Longrightarrow> assessor powf c (fst (current_level powf clk ta))"
| reset: "assessor powf c ta \<Longrightarrow> assessor powf c (threat_reset now ta)"

definition assessor_inv :: "ThreatConfig \<Rightarrow> ThreatAssessor \<Rightarrow> bool" where
  "assessor_inv c ta \<longleftrightarrow>
     ta_config ta = c \<and> length (ta_events ta) \<le> max_events c \<and> level_history ta \<noteq> [] \<and>
     fst (snd (last (level_history ta))) = ta_level ta \<and>
     (\<forall>l. manual_override ta = Some l \<longrightarrow> ta_level ta = l)"

lemma recompute_level_fields:
  "ta_config (recompute_level powf a b ta) = ta_config ta"
  "ta_events (recompute_level powf a b ta) = ta_events ta"
  "manual_override (recompute_level powf a b ta) = manual_override ta"
  by (simp_all add: recompute_level_def Let_def)

lemma recompute_level_inv:
  assumes "ta_config ta = c" "length (ta_events ta) \<le> max_events c" "level_history ta \<noteq> []"
    "fst (snd (last (level_history ta))) = ta_level ta"
  shows "assessor_inv c (recompute_level powf a b ta)"
  using assms by (auto simp: assessor_inv_def recompute_level_def Let_def)

lemma prune_fields:
  "ta_config (prune_old_events now ta) = ta_config ta"
  "level_history (prune_old_events now ta) = level_history ta"
  "ta_level (prune_old_events now ta) = ta_level ta"
  "length (ta_events (prune_old_events now ta)) \<le> max_events (ta_config ta)"
  by (simp_all add: prune_old_events_def Let_def)

lemma assessor_invariant: "assessor powf c ta \<Longrightarrow> assessor_inv c ta"
proof (induction rule: assessor.induct)
  case (init now)
  show ?case by (simp add: assessor_inv_def ThreatAssessor_new_def)
next
  case (audited ta entries)
  then show ?case by (simp add: assessor_inv_def)
next
  case (event ta clk e)
  have f: "ta_config (case te_kind e of ManualEscalation \<Rightarrow> ta\<lparr> manual_override := Some (escalate (ta_level ta)) \<rparr>
         | ManualDeescalation \<Rightarrow> ta\<lparr> manual_override := None \<rparr> | _ \<Rightarrow> ta) = ta_config ta"
    "level_history (case te_kind e of ManualEscalation \<Rightarrow> ta\<lparr> manual_override := Some (escalate (ta_level ta)) \<rparr>
         | ManualDeescalation \<Rightarrow> ta\<lparr> manual_override := None \<rparr> | _ \<Rightarrow> ta) = level_history ta"
    "ta_level (case te_kind e of ManualEscalation \<Rightarrow> ta\<lparr> manual_override := Some (escalate (ta_level ta)) \<rparr>
         | ManualDeescalation \<Rightarrow> ta\<lparr> manual_override := None \<rparr> | _ \<Rightarrow> ta) = ta_level ta"
    by (cases "te_kind e"; simp)+
  show ?case unfolding record_event_def Let_def
    using event by (intro recompute_level_inv) (auto simp: prune_fields f assessor_inv_def
        intro: order_trans [OF prune_fields(4)])
next
  case (batch ta clk es)
  then show ?case unfolding record_events_def
    by (intro recompute_level_inv) (auto simp: prune_fields assessor_inv_def intro: order_trans [OF prune_fields(4)])
next
  case (refresh ta clk)
  then show ?case unfolding current_level_def Let_def fst_conv
    by (intro recompute_level_inv) (auto simp: assessor_inv_def)
next
  case (reset ta now)
  then show ?case by (auto simp: assessor_inv_def threat_reset_def Let_def)
qed

section \<open>Properties\<close>

text \<open>C29: the adapter only ever tightens. At every level the adapted policy is at most the base policy in
  every rotation age, the grace period, the lifetime and the usage limit, and never turns auto-rotate
  off; and a higher level is at least as tight as a lower one in all of these, with the rounding of the
  floating-point scaling taken into account.\<close>

theorem adapt_tightens:
  "tighter (adapt base l) base \<and> (l \<le> l' \<longrightarrow> tighter (adapt base l') (adapt base l))"
  using adapt_tighter_base adapt_tighter_mono by blast

theorem adapt_tightens_witness:
  "tighter (adapt (default_dek None) Critical) (adapt (default_dek None) Guarded)"
  using adapt_tightens [of "default_dek None" Guarded Critical] by (simp add: level_order)

text \<open>The floors hold. Scaling never compresses a rotation age below one day, the grace period
  below twelve hours, the lifetime below thirty days or the usage limit below one hundred, except
  where the base policy was already below.\<close>

lemma adapt_respects_floors:
  "list_all2 (\<lambda>t t'. case (t, t') of (Age d, Age d') \<Rightarrow> min FLOOR_ROTATION_AGE d \<le> d' | _ \<Rightarrow> t = t')
     (rotation_triggers base) (rotation_triggers (adapt base l)) \<and>
   min FLOOR_GRACE_PERIOD (rotation_grace_period base) \<le> rotation_grace_period (adapt base l) \<and>
   opt_le (map_option (min FLOOR_MAX_LIFETIME) (max_lifetime base)) (max_lifetime (adapt base l)) \<and>
   opt_le (map_option (min FLOOR_USAGE_COUNT) (max_usage_count base)) (max_usage_count (adapt base l))"
proof -
  have "list_all2 (\<lambda>t t'. case (t, t') of (Age d, Age d') \<Rightarrow> min FLOOR_ROTATION_AGE d \<le> d' | _ \<Rightarrow> t = t')
      ts (map (adapt_trigger f) ts)" for f ts
  proof (induction ts)
    case (Cons t ts)
    then show ?case by (cases t) (auto simp: min_def max_def)
  qed simp
  moreover have "min FLOOR_USAGE_COUNT c \<le> adapt_usage f c" for f c
    by (auto simp: adapt_usage_def min_def max_def)
  moreover have "min a b \<le> min (max x a) b" for a b x :: nat by (auto simp: min_def max_def)
  ultimately show ?thesis by (auto simp: adapt_def Let_def opt_le_def split: option.splits)
qed

text \<open>No oscillation at a boundary. For a hysteresis between 0 and 1 and thresholds that are
  non-negative doubles, deciding the level twice from one score is the same as deciding it once: a
  level is left only in one direction for a given score.\<close>

lemma hysteresis_stable:
  assumes "0 \<le> hysteresis c" "hysteresis c \<le> 1" "thresholds c = (t0, t1, t2, t3)"
    and "list_all (\<lambda>t. 0 \<le> t \<and> f64 t = t) [t0, t1, t2, t3]"
  shows "next_level c x (next_level c x l) = next_level c x l"
  by (rule next_level_stable) (use assms in \<open>simp add: doubles_def\<close>)

text \<open>C30: every reachable assessor is consistent. After any sequence of events, batches, refreshes and
  resets the configuration is unchanged, at most \<open>max_events\<close> events are kept, the last entry of the
  history is the current level, and an operator's override is the level in force.\<close>

theorem assessor_reachable_consistent:
  assumes "assessor powf c ta"
  shows "ta_config ta = c \<and> length (ta_events ta) \<le> max_events c \<and> level_history ta \<noteq> [] \<and>
    fst (snd (last (level_history ta))) = ta_level ta \<and> manual_override ta \<in> {None, Some (ta_level ta)}"
  using assessor_invariant [OF assms] by (cases "manual_override ta") (auto simp: assessor_inv_def)

theorem assessor_reachable_consistent_witness:
  "ta_config (threat_reset 0 (ThreatAssessor_new ThreatConfig_default 0)) = ThreatConfig_default"
  using assessor_reachable_consistent [OF assessor.reset [OF assessor.init [of "\<lambda>_ _. 1" ThreatConfig_default 0], of 0]]
  by simp

text \<open>A batch is not a sequence of events. For an event that is not an operator's escalation or
  de-escalation a batch of one is recorded like the event; an escalation in a batch leaves the override
  as it was, whereas \<open>record_event\<close> raises the level.\<close>

lemma batch_ignores_manual_escalation:
  "(te_kind e \<notin> {ManualEscalation, ManualDeescalation} \<longrightarrow> record_events powf clk [e] ta = record_event powf clk e ta) \<and>
   (te_kind e = ManualEscalation \<longrightarrow>
      manual_override (record_event powf clk e ta) = Some (escalate (ta_level ta)) \<and>
      manual_override (record_events powf clk [e] ta) = manual_override ta)"
  by (cases "te_kind e")
    (simp_all add: record_event_def record_events_def recompute_level_fields prune_old_events_def Let_def)

end
