(* ===== verification/State_Enforcer.thy ===== *)
theory State_Enforcer
  imports Crypto_Ext
begin

text \<open>
  \<^verbatim>\<open>citadel-core/src/state_enforcer.rs\<close>: the authority that issues one-shot authorization contexts. Hash
  sets are sets, hash maps association lists. A clock argument is the list of the readings of the system
  clock in program order, in nanoseconds since the epoch; \<open>rnd\<close> is the 128-bit draw of the operating
  system's generator. The mutex around the token registry is never poisoned: nothing panics while
  it is held. \<open>enf_step\<close> is the transition relation of an enforcer under every public operation.
\<close>

section \<open>Contexts\<close>

record CapabilityToken =
  ct_nonce :: u128
  enforcer_generation :: u64

datatype OperationType = OpEncrypt | OpDecrypt | OpKeyRotation | OpKeyAccess | OpSign | OpVerify

datatype LifecycleState = LActive | LPending | LRevoked | LDestroyed

datatype OperationParams =
    EncryptParams "string option"
  | DecryptParams
  | KeyRotationParams string
  | KeyAccessParams
  | SignParams bytes
  | VerifyParams

record AuthorizedContext =
  capability :: CapabilityToken
  operation :: OperationType
  ac_key_id :: string
  ac_domain_id :: "string option"
  lifecycle_state :: LifecycleState
  timestamp_ms :: u64
  operation_params :: OperationParams

datatype DenialReason =
    InvalidKey string | InvalidKeyState string | DomainViolation string | ReplayConflict string
  | LifecycleMismatch string | MissingContext string | StaleKeyMaterial string | Unauthorized string

fun show_op :: "OperationType \<Rightarrow> string" where
  "show_op OpEncrypt = ''Encrypt''"
| "show_op OpDecrypt = ''Decrypt''"
| "show_op OpKeyRotation = ''KeyRotation''"
| "show_op OpKeyAccess = ''KeyAccess''"
| "show_op OpSign = ''Sign''"
| "show_op OpVerify = ''Verify''"

fun show_lifecycle :: "LifecycleState \<Rightarrow> string" where
  "show_lifecycle LActive = ''Active''"
| "show_lifecycle LPending = ''Pending''"
| "show_lifecycle LRevoked = ''Revoked''"
| "show_lifecycle LDestroyed = ''Destroyed''"

fun show_denial :: "DenialReason \<Rightarrow> string" where
  "show_denial (InvalidKey msg) = ''Invalid key: '' @ msg"
| "show_denial (InvalidKeyState msg) = ''Invalid key state: '' @ msg"
| "show_denial (DomainViolation msg) = ''Domain violation: '' @ msg"
| "show_denial (ReplayConflict msg) = ''Replay conflict: '' @ msg"
| "show_denial (LifecycleMismatch msg) = ''Lifecycle mismatch: '' @ msg"
| "show_denial (MissingContext msg) = ''Missing context: '' @ msg"
| "show_denial (StaleKeyMaterial msg) = ''Stale key material: '' @ msg"
| "show_denial (Unauthorized msg) = ''Unauthorized: '' @ msg"

definition as_millis_u64 :: "nat \<Rightarrow> u64" where
  "as_millis_u64 nanos = word_of_nat (nanos div 1000000)"

definition AuthorizedContext_new ::
  "nat \<Rightarrow> CapabilityToken \<Rightarrow> OperationType \<Rightarrow> string \<Rightarrow> string option \<Rightarrow> LifecycleState \<Rightarrow> OperationParams \<Rightarrow>
   AuthorizedContext" where
  "AuthorizedContext_new now cap op kid domn lc params =
    \<lparr> capability = cap, operation = op, ac_key_id = kid, ac_domain_id = domn, lifecycle_state = lc,
      timestamp_ms = as_millis_u64 now, operation_params = params \<rparr>"

section \<open>The enforcer\<close>

record StateEnforcer =
  valid_keys :: "string set"
  revoked_keys :: "string set"
  domain_keys :: "(string \<times> string set) list"
  issued_tokens :: "(u128 \<times> nat) list"
  generation :: u64
  ttl_ms :: u64
  clock_skew_ms :: u64

definition CAPABILITY_TOKEN_TTL_NANOS :: nat where "CAPABILITY_TOKEN_TTL_NANOS = 60000000000"

text \<open>\<open>env_ttl\<close> and \<open>env_skew\<close> are the environment overrides that parse; \<open>counter\<close> is the value that
  the global generation counter had before its \<^verbatim>\<open>fetch_add\<close>, which wraps.\<close>

definition with_config :: "u64 option \<Rightarrow> u64 option \<Rightarrow> u64 \<Rightarrow> u64 \<Rightarrow> u64 \<Rightarrow> StateEnforcer \<times> u64" where
  "with_config env_ttl env_skew counter ttl skew =
    (\<lparr> valid_keys = {}, revoked_keys = {}, domain_keys = [], issued_tokens = [], generation = counter,
       ttl_ms = (case env_ttl of Some v \<Rightarrow> v | None \<Rightarrow> ttl),
       clock_skew_ms = (case env_skew of Some v \<Rightarrow> v | None \<Rightarrow> skew) \<rparr>, counter + 1)"

definition StateEnforcer_new :: "u64 option \<Rightarrow> u64 option \<Rightarrow> u64 \<Rightarrow> StateEnforcer \<times> u64" where
  "StateEnforcer_new env_ttl env_skew counter = with_config env_ttl env_skew counter 60000 5000"

definition register_key :: "string \<Rightarrow> string option \<Rightarrow> StateEnforcer \<Rightarrow> StateEnforcer" where
  "register_key kid domn e =
    (let e1 = e\<lparr> valid_keys := insert kid (valid_keys e) \<rparr> in
     case domn of None \<Rightarrow> e1
     | Some d \<Rightarrow> e1\<lparr> domain_keys :=
         al_put d (insert kid (case map_of (domain_keys e1) d of None \<Rightarrow> {} | Some ks \<Rightarrow> ks)) (domain_keys e1) \<rparr>)"

definition revoke_key :: "string \<Rightarrow> StateEnforcer \<Rightarrow> StateEnforcer" where
  "revoke_key kid e =
    e\<lparr> revoked_keys := insert kid (revoked_keys e), valid_keys := valid_keys e - {kid},
       domain_keys := map (\<lambda>(d, ks). (d, ks - {kid})) (domain_keys e) \<rparr>"

definition validate_key :: "StateEnforcer \<Rightarrow> string \<Rightarrow> string option \<Rightarrow> DenialReason option" where
  "validate_key e kid domn =
    (if kid \<in> revoked_keys e then Some (InvalidKeyState (''Key '' @ kid @ '' is revoked''))
     else if kid \<notin> valid_keys e then Some (InvalidKey (''Key '' @ kid @ '' does not exist''))
     else case domn of None \<Rightarrow> None
       | Some d \<Rightarrow>
         (case map_of (domain_keys e) d of
            Some ks \<Rightarrow> if kid \<notin> ks
              then Some (DomainViolation (''Key '' @ kid @ '' not authorized for domain '' @ d)) else None
          | None \<Rightarrow> Some (DomainViolation (''Domain '' @ d @ '' does not exist''))))"

definition fresh_tokens :: "nat \<Rightarrow> (u128 \<times> nat) list \<Rightarrow> (u128 \<times> nat) list" where
  "fresh_tokens now issued = al_retain (\<lambda>issued_at. now - issued_at < CAPABILITY_TOKEN_TTL_NANOS) issued"

definition generate_capability_token :: "u128 \<Rightarrow> nat \<Rightarrow> StateEnforcer \<Rightarrow> StateEnforcer \<times> CapabilityToken" where
  "generate_capability_token rnd now e =
    (e\<lparr> issued_tokens := fresh_tokens now (al_put rnd now (issued_tokens e)) \<rparr>,
     \<lparr> ct_nonce = rnd, enforcer_generation = generation e \<rparr>)"

definition validate_capability :: "nat \<Rightarrow> CapabilityToken \<Rightarrow> StateEnforcer \<Rightarrow> StateEnforcer \<times> bool" where
  "validate_capability now token e =
    (if ct_nonce token = 0 then (e, False)
     else if enforcer_generation token \<noteq> generation e then (e, False)
     else let issued = fresh_tokens now (issued_tokens e)
       in (e\<lparr> issued_tokens := al_del (ct_nonce token) issued \<rparr>, map_of issued (ct_nonce token) \<noteq> None))"

definition issue ::
  "u128 \<Rightarrow> (nat \<Rightarrow> nat) \<Rightarrow> OperationType \<Rightarrow> string \<Rightarrow> string option \<Rightarrow> OperationParams \<Rightarrow> StateEnforcer \<Rightarrow>
   StateEnforcer \<times> (DenialReason + AuthorizedContext)" where
  "issue rnd clk op kid domn params e =
    (let (e', cap) = generate_capability_token rnd (clk 0) e
     in (e', Inr (AuthorizedContext_new (clk 1) cap op kid domn LActive params)))"

definition authorize_encrypt ::
  "u128 \<Rightarrow> (nat \<Rightarrow> nat) \<Rightarrow> string \<Rightarrow> string option \<Rightarrow> string option \<Rightarrow> StateEnforcer \<Rightarrow>
   StateEnforcer \<times> (DenialReason + AuthorizedContext)" where
  "authorize_encrypt rnd clk sender domn recipient e =
    (case validate_key e sender domn of Some denial \<Rightarrow> (e, Inl denial)
     | None \<Rightarrow>
       (case recipient of
          Some r \<Rightarrow>
            if r \<notin> valid_keys e then (e, Inl (InvalidKey (''Recipient key '' @ r @ '' does not exist'')))
            else if r \<in> revoked_keys e then (e, Inl (InvalidKeyState (''Recipient key '' @ r @ '' is revoked'')))
            else issue rnd clk OpEncrypt sender domn (EncryptParams recipient) e
        | None \<Rightarrow> issue rnd clk OpEncrypt sender domn (EncryptParams recipient) e))"

definition authorize_decrypt ::
  "u128 \<Rightarrow> (nat \<Rightarrow> nat) \<Rightarrow> string \<Rightarrow> string option \<Rightarrow> StateEnforcer \<Rightarrow>
   StateEnforcer \<times> (DenialReason + AuthorizedContext)" where
  "authorize_decrypt rnd clk kid domn e =
    (case validate_key e kid domn of Some denial \<Rightarrow> (e, Inl denial)
     | None \<Rightarrow> issue rnd clk OpDecrypt kid domn DecryptParams e)"

definition authorize_key_rotation ::
  "u128 \<Rightarrow> (nat \<Rightarrow> nat) \<Rightarrow> string \<Rightarrow> string \<Rightarrow> string option \<Rightarrow> StateEnforcer \<Rightarrow>
   StateEnforcer \<times> (DenialReason + AuthorizedContext)" where
  "authorize_key_rotation rnd clk old_key new_key domn e =
    (case validate_key e old_key domn of Some denial \<Rightarrow> (e, Inl denial)
     | None \<Rightarrow>
       if new_key \<in> valid_keys e
       then (e, Inl (InvalidKey (''New key ID '' @ new_key @ '' already exists'')))
       else issue rnd clk OpKeyRotation old_key domn (KeyRotationParams new_key) e)"

definition authorize_api_request ::
  "u128 \<Rightarrow> (nat \<Rightarrow> nat) \<Rightarrow> string \<Rightarrow> string option \<Rightarrow> string \<Rightarrow> string \<Rightarrow> StateEnforcer \<Rightarrow>
   StateEnforcer \<times> (DenialReason + AuthorizedContext)" where
  "authorize_api_request rnd clk kid domn endpoint verb e =
    (case validate_key e kid domn of Some denial \<Rightarrow> (e, Inl denial)
     | None \<Rightarrow> issue rnd clk OpKeyAccess kid domn KeyAccessParams e)"

definition authorize_sign ::
  "crypto \<Rightarrow> u128 \<Rightarrow> (nat \<Rightarrow> nat) \<Rightarrow> string \<Rightarrow> string option \<Rightarrow> bytes \<Rightarrow> StateEnforcer \<Rightarrow>
   StateEnforcer \<times> (DenialReason + AuthorizedContext)" where
  "authorize_sign X rnd clk kid domn message e =
    (case validate_key e kid domn of Some denial \<Rightarrow> (e, Inl denial)
     | None \<Rightarrow> issue rnd clk OpSign kid domn (SignParams (sha256_digest X message)) e)"

definition authorize_verify ::
  "u128 \<Rightarrow> (nat \<Rightarrow> nat) \<Rightarrow> string \<Rightarrow> string option \<Rightarrow> StateEnforcer \<Rightarrow>
   StateEnforcer \<times> (DenialReason + AuthorizedContext)" where
  "authorize_verify rnd clk kid domn e =
    (case validate_key e kid domn of Some denial \<Rightarrow> (e, Inl denial)
     | None \<Rightarrow> issue rnd clk OpVerify kid domn VerifyParams e)"

section \<open>Checks on a context\<close>

definition validate :: "(nat \<Rightarrow> nat) \<Rightarrow> AuthorizedContext \<Rightarrow> StateEnforcer \<Rightarrow> StateEnforcer \<times> (string + unit)" where
  "validate clk ctx e =
    (let (e', ok) = validate_capability (clk 0) (capability ctx) e in
     if \<not> ok then (e', Inl ''StateEnforcer denied: capability token is invalid or forged'')
     else
       let age_ms = saturating_sub (as_millis_u64 (clk 1)) (timestamp_ms ctx);
           effective_ttl = ttl_ms e' + clock_skew_ms e'
       in if age_ms > effective_ttl then
            (e', Inl (''StateEnforcer denied: authorization context expired ('' @ show_nat (unat age_ms) @
              '' ms old, max '' @ show_nat (unat effective_ttl) @ '' ms [TTL '' @ show_nat (unat (ttl_ms e')) @
              '' + skew '' @ show_nat (unat (clock_skew_ms e')) @ ''])''))
          else (e', Inr ()))"

definition require_encrypt_for :: "AuthorizedContext \<Rightarrow> string \<Rightarrow> string + unit" where
  "require_encrypt_for ctx kid =
    (if operation ctx \<noteq> OpEncrypt then
       Inl (''StateEnforcer denied: context operation is '' @ show_op (operation ctx) @ '', not Encrypt'')
     else if ac_key_id ctx \<noteq> kid then
       Inl (''StateEnforcer denied: context key_id '' @ ac_key_id ctx @ '' does not match requested key '' @ kid)
     else if lifecycle_state ctx \<noteq> LActive then
       Inl (''StateEnforcer denied: key '' @ kid @ '' lifecycle is '' @ show_lifecycle (lifecycle_state ctx) @
         '', not Active'')
     else Inr ())"

definition require_decrypt_for :: "AuthorizedContext \<Rightarrow> string \<Rightarrow> string + unit" where
  "require_decrypt_for ctx kid =
    (if operation ctx \<noteq> OpDecrypt then
       Inl (''StateEnforcer denied: context operation is '' @ show_op (operation ctx) @ '', not Decrypt'')
     else if ac_key_id ctx \<noteq> kid then
       Inl (''StateEnforcer denied: context key_id '' @ ac_key_id ctx @ '' does not match requested key '' @ kid)
     else if lifecycle_state ctx \<noteq> LActive then
       Inl (''StateEnforcer denied: key '' @ kid @ '' lifecycle is '' @ show_lifecycle (lifecycle_state ctx) @
         '', not Active'')
     else Inr ())"

definition require_sign_for :: "AuthorizedContext \<Rightarrow> string \<Rightarrow> string + unit" where
  "require_sign_for ctx kid =
    (if operation ctx \<noteq> OpSign then
       Inl (''StateEnforcer denied: context operation is '' @ show_op (operation ctx) @ '', not Sign'')
     else if ac_key_id ctx \<noteq> kid then
       Inl (''StateEnforcer denied: context key_id '' @ ac_key_id ctx @ '' does not match requested signing key '' @ kid)
     else if lifecycle_state ctx \<noteq> LActive then
       Inl (''StateEnforcer denied: signing key '' @ kid @ '' lifecycle is '' @
         show_lifecycle (lifecycle_state ctx) @ '', not Active'')
     else Inr ())"

text \<open>\<open>hex\<close> is the parameter for \<^verbatim>\<open>hex::encode\<close>, used in the error text only.\<close>

definition require_sign_for_payload ::
  "crypto \<Rightarrow> (bytes \<Rightarrow> string) \<Rightarrow> AuthorizedContext \<Rightarrow> string \<Rightarrow> bytes \<Rightarrow> string + unit" where
  "require_sign_for_payload X hex ctx kid message =
    and_then (require_sign_for ctx kid) (\<lambda>_.
      let message_hash = sha256_digest X message in
      case operation_params ctx of
        SignParams payload_hash \<Rightarrow>
          if payload_hash = message_hash then Inr ()
          else Inl (''StateEnforcer denied: message hash mismatch (expected '' @ hex payload_hash @
            '', got '' @ hex message_hash @ '')'')
      | _ \<Rightarrow> Inl ''StateEnforcer denied: wrong operation params'')"

definition require_operation :: "AuthorizedContext \<Rightarrow> OperationType \<Rightarrow> string + unit" where
  "require_operation ctx expected =
    (if operation ctx \<noteq> expected then
       Inl (''Operation mismatch: context is for '' @ show_op (operation ctx) @ '' but '' @ show_op expected @
         '' was attempted'')
     else Inr ())"

section \<open>Runs\<close>

datatype enf_op =
    Register string "string option"
  | Revoke string
  | AuthEncrypt u128 "nat \<Rightarrow> nat" string "string option" "string option"
  | AuthDecrypt u128 "nat \<Rightarrow> nat" string "string option"
  | AuthRotation u128 "nat \<Rightarrow> nat" string string "string option"
  | AuthApi u128 "nat \<Rightarrow> nat" string "string option" string string
  | AuthSign u128 "nat \<Rightarrow> nat" string "string option" bytes
  | AuthVerify u128 "nat \<Rightarrow> nat" string "string option"
  | Validate "nat \<Rightarrow> nat" AuthorizedContext

fun enf_exec :: "crypto \<Rightarrow> enf_op \<Rightarrow> StateEnforcer \<Rightarrow> StateEnforcer \<times> AuthorizedContext option" where
  "enf_exec X (Register kid d) e = (register_key kid d e, None)"
| "enf_exec X (Revoke kid) e = (revoke_key kid e, None)"
| "enf_exec X (AuthEncrypt r c kid d rec) e = apsnd (case_sum (\<lambda>_. None) Some) (authorize_encrypt r c kid d rec e)"
| "enf_exec X (AuthDecrypt r c kid d) e = apsnd (case_sum (\<lambda>_. None) Some) (authorize_decrypt r c kid d e)"
| "enf_exec X (AuthRotation r c k k' d) e = apsnd (case_sum (\<lambda>_. None) Some) (authorize_key_rotation r c k k' d e)"
| "enf_exec X (AuthApi r c kid d p v) e = apsnd (case_sum (\<lambda>_. None) Some) (authorize_api_request r c kid d p v e)"
| "enf_exec X (AuthSign r c kid d m) e = apsnd (case_sum (\<lambda>_. None) Some) (authorize_sign X r c kid d m e)"
| "enf_exec X (AuthVerify r c kid d) e = apsnd (case_sum (\<lambda>_. None) Some) (authorize_verify r c kid d e)"
| "enf_exec X (Validate c ctx) e = (fst (validate c ctx e), None)"

fun op_draw :: "enf_op \<Rightarrow> (u128 \<times> nat) option" where
  "op_draw (AuthEncrypt r c _ _ _) = Some (r, c 0)"
| "op_draw (AuthDecrypt r c _ _) = Some (r, c 0)"
| "op_draw (AuthRotation r c _ _ _) = Some (r, c 0)"
| "op_draw (AuthApi r c _ _ _ _) = Some (r, c 0)"
| "op_draw (AuthSign r c _ _ _) = Some (r, c 0)"
| "op_draw (AuthVerify r c _ _) = Some (r, c 0)"
| "op_draw _ = None"

definition enf_run :: "crypto \<Rightarrow> enf_op list \<Rightarrow> StateEnforcer \<Rightarrow> StateEnforcer" where
  "enf_run X ops e = fold (\<lambda>op e. fst (enf_exec X op e)) ops e"

section \<open>Lemmas\<close>

lemma enf_run_simps [simp]:
  "enf_run X [] e = e" "enf_run X (op # ops) e = enf_run X ops (fst (enf_exec X op e))"
  "enf_run X (ops @ ops') e = enf_run X ops' (enf_run X ops e)"
  by (simp_all add: enf_run_def)

lemma issue_fields [simp]:
  "fst (issue r c op kid d ps e) = e\<lparr> issued_tokens := fresh_tokens (c 0) (al_put r (c 0) (issued_tokens e)) \<rparr>"
  "snd (issue r c op kid d ps e) = Inr (AuthorizedContext_new (c 1)
     \<lparr> ct_nonce = r, enforcer_generation = generation e \<rparr> op kid d LActive ps)"
  by (simp_all add: issue_def generate_capability_token_def)

lemmas authorize_defs = authorize_encrypt_def authorize_decrypt_def authorize_key_rotation_def
  authorize_api_request_def authorize_sign_def authorize_verify_def

lemma fst_validate: "fst (validate c ctx e) = fst (validate_capability (c 0) (capability ctx) e)"
  by (simp add: validate_def Let_def split: prod.split)

lemma map_of_retain: "(n, t) \<in> set (fresh_tokens now kvs) \<longleftrightarrow>
    (n, t) \<in> set kvs \<and> now - t < CAPABILITY_TOKEN_TTL_NANOS"
  by (auto simp: fresh_tokens_def al_retain_def)

lemma exec_unchanged_fields:
  "generation (fst (enf_exec X op e)) = generation e"
  "revoked_keys e \<subseteq> revoked_keys (fst (enf_exec X op e))"
proof -
  have v: "generation (fst (validate_capability now tk e)) = generation e"
    "revoked_keys (fst (validate_capability now tk e)) = revoked_keys e" for now tk
    by (simp_all add: validate_capability_def Let_def)
  show "generation (fst (enf_exec X op e)) = generation e"
    by (cases op) (auto simp: authorize_defs register_key_def revoke_key_def fst_validate v Let_def split: option.splits)
  show "revoked_keys e \<subseteq> revoked_keys (fst (enf_exec X op e))"
    by (cases op) (auto simp: authorize_defs register_key_def revoke_key_def fst_validate v Let_def split: option.splits)
qed

lemma run_unchanged_fields:
  "generation (enf_run X ops e) = generation e" "revoked_keys e \<subseteq> revoked_keys (enf_run X ops e)"
proof (induction ops arbitrary: e)
  case (Cons op ops)
  { case 1 show ?case by (simp add: Cons.IH exec_unchanged_fields) }
  { case 2 show ?case using Cons.IH(2) [of "fst (enf_exec X op e)"] exec_unchanged_fields(2) [of e X op] by auto }
qed simp_all

text \<open>Where the tokens of the registry come from: one operation adds at most its own draw, and only
  when it grants a context that carries it.\<close>

lemma exec_issued:
  assumes "(n, t) \<in> set (issued_tokens (fst (enf_exec X op e)))"
  shows "(n, t) \<in> set (issued_tokens e) \<or>
    (op_draw op = Some (n, t) \<and> (\<exists>ctx. snd (enf_exec X op e) = Some ctx \<and>
       capability ctx = \<lparr> ct_nonce = n, enforcer_generation = generation e \<rparr>))"
proof -
  have put: "(n, t) \<in> set (al_put r s kvs) \<Longrightarrow> (n, t) = (r, s) \<or> (n, t) \<in> set kvs" for r s and kvs :: "(u128 \<times> nat) list"
    by (induction kvs) (auto split: if_splits)
  have val: "(n, t) \<in> set (issued_tokens (fst (validate_capability now tk e))) \<Longrightarrow> (n, t) \<in> set (issued_tokens e)" for now tk
    by (auto simp: validate_capability_def Let_def al_del_def map_of_retain split: if_splits)
  show ?thesis using assms
    by (cases op)
      (auto simp: authorize_defs register_key_def revoke_key_def fst_validate Let_def map_of_retain
        AuthorizedContext_new_def dest!: put val split: option.splits if_splits)
qed

lemma run_issued:
  assumes "(n, t) \<in> set (issued_tokens (enf_run X ops e))" and "(n, t) \<notin> set (issued_tokens e)"
  shows "\<exists>ops1 op ops2 ctx. ops = ops1 @ op # ops2 \<and> op_draw op = Some (n, t) \<and>
    snd (enf_exec X op (enf_run X ops1 e)) = Some ctx \<and>
    capability ctx = \<lparr> ct_nonce = n, enforcer_generation = generation e \<rparr>"
  using assms
proof (induction ops rule: rev_induct)
  case (snoc op ops)
  show ?case
  proof (cases "(n, t) \<in> set (issued_tokens (enf_run X ops e))")
    case True
    from snoc.IH [OF True snoc.prems(2)] obtain ops1 o1 ops2 ctx where
      "ops = ops1 @ o1 # ops2" "op_draw o1 = Some (n, t)" "snd (enf_exec X o1 (enf_run X ops1 e)) = Some ctx"
      "capability ctx = \<lparr> ct_nonce = n, enforcer_generation = generation e \<rparr>" by blast
    then show ?thesis by (intro exI [of _ ops1] exI [of _ o1] exI [of _ "ops2 @ [op]"] exI [of _ ctx]) simp
  next
    case False
    with snoc.prems exec_issued [of n t X op "enf_run X ops e"] run_unchanged_fields(1) [of X ops e]
    show ?thesis by (intro exI [of _ ops] exI [of _ op] exI [of _ "[]"]) auto
  qed
qed simp

lemma validate_capability_ok:
  assumes "snd (validate_capability now tk e)"
  shows "ct_nonce tk \<noteq> 0 \<and> enforcer_generation tk = generation e \<and>
    (\<exists>t. (ct_nonce tk, t) \<in> set (issued_tokens e) \<and> now - t < CAPABILITY_TOKEN_TTL_NANOS)"
  using assms map_of_SomeD map_of_retain
  by (fastforce simp: validate_capability_def Let_def split: if_splits)

lemma validate_ok_capability: "snd (validate c ctx e) = Inr () \<Longrightarrow> snd (validate_capability (c 0) (capability ctx) e)"
  by (auto simp: validate_def Let_def split: prod.splits if_splits)

lemma run_not_reissued:
  assumes "\<forall>t. (n, t) \<notin> set (issued_tokens e)" and "\<forall>op \<in> set ops. \<forall>t. op_draw op \<noteq> Some (n, t)"
  shows "(n, t) \<notin> set (issued_tokens (enf_run X ops e))"
proof
  assume "(n, t) \<in> set (issued_tokens (enf_run X ops e))"
  from run_issued [OF this] assms(1) obtain ops1 op ops2 where "ops = ops1 @ op # ops2" "op_draw op = Some (n, t)"
    by blast
  with assms(2) show False by auto
qed

lemma validated_is_spent:
  assumes "validate c ctx e = (e', Inr ())" and "capability ctx' = capability ctx"
    and "\<forall>op \<in> set ops. \<forall>t. op_draw op \<noteq> Some (ct_nonce (capability ctx), t)"
  shows "snd (validate c' ctx' (enf_run X ops e')) = Inl ''StateEnforcer denied: capability token is invalid or forged''"
proof -
  have "e' = fst (validate_capability (c 0) (capability ctx) e)" using assms(1) fst_validate [of c ctx e] by simp
  moreover have "snd (validate_capability (c 0) (capability ctx) e)"
    using assms(1) by (intro validate_ok_capability) simp
  ultimately have "\<forall>t. (ct_nonce (capability ctx), t) \<notin> set (issued_tokens e')"
    by (auto simp: validate_capability_def Let_def al_del_def split: if_splits)
  then have "(ct_nonce (capability ctx), t) \<notin> set (issued_tokens (enf_run X ops e'))" for t
    using assms(3) by (rule run_not_reissued)
  then have "\<not> snd (validate_capability (c' 0) (capability ctx') (enf_run X ops e'))"
    using validate_capability_ok assms(2) by metis
  then show ?thesis
    by (cases "validate_capability (c' 0) (capability ctx') (enf_run X ops e')") (simp add: validate_def)
qed

definition the_default :: "'a \<Rightarrow> 'a option \<Rightarrow> 'a" where
  "the_default d x = (case x of Some v \<Rightarrow> v | None \<Rightarrow> d)"

lemma validate_ok_age:
  "snd (validate c ctx e) = Inr () \<Longrightarrow> saturating_sub (as_millis_u64 (c 1)) (timestamp_ms ctx) \<le> ttl_ms e + clock_skew_ms e"
  by (auto simp: validate_def validate_capability_def Let_def not_less split: prod.splits if_splits)

lemma exec_lifetime:
  "ttl_ms (fst (enf_exec X op e)) = ttl_ms e" "clock_skew_ms (fst (enf_exec X op e)) = clock_skew_ms e"
proof -
  have v: "ttl_ms (fst (validate_capability now tk e)) = ttl_ms e"
    "clock_skew_ms (fst (validate_capability now tk e)) = clock_skew_ms e" for now tk
    by (simp_all add: validate_capability_def Let_def)
  show "ttl_ms (fst (enf_exec X op e)) = ttl_ms e" "clock_skew_ms (fst (enf_exec X op e)) = clock_skew_ms e"
    by (cases op; auto simp: authorize_defs register_key_def revoke_key_def fst_validate v Let_def split: option.splits)+
qed

lemma config_lifetime:
  "ttl_ms (enf_run X ops (fst (with_config et es g ttl skew))) = the_default ttl et"
  "clock_skew_ms (enf_run X ops (fst (with_config et es g ttl skew))) = the_default skew es"
proof -
  have "ttl_ms (enf_run X ops e) = ttl_ms e \<and> clock_skew_ms (enf_run X ops e) = clock_skew_ms e" for e
    by (induction ops arbitrary: e) (simp_all add: exec_lifetime)
  then show "ttl_ms (enf_run X ops (fst (with_config et es g ttl skew))) = the_default ttl et"
    "clock_skew_ms (enf_run X ops (fst (with_config et es g ttl skew))) = the_default skew es"
    by (simp_all add: with_config_def the_default_def split: option.split)
qed

text \<open>A run hands out \<open>ctx\<close> when one of its operations returns it.\<close>

definition hands_out :: "crypto \<Rightarrow> enf_op list \<Rightarrow> StateEnforcer \<Rightarrow> AuthorizedContext \<Rightarrow> bool" where
  "hands_out X ops e ctx \<longleftrightarrow>
     list_ex (\<lambda>n. snd (enf_exec X (ops ! n) (enf_run X (take n ops) e)) = Some ctx) [0..<length ops]"

lemma hands_outE:
  assumes "hands_out X ops e ctx"
  obtains ops1 op ops2 where "ops = ops1 @ op # ops2" "snd (enf_exec X op (enf_run X ops1 e)) = Some ctx"
proof -
  from assms obtain n where n: "n < length ops" "snd (enf_exec X (ops ! n) (enf_run X (take n ops) e)) = Some ctx"
    by (auto simp: hands_out_def list_ex_iff)
  show ?thesis by (rule that [OF id_take_nth_drop [OF n(1)] n(2)])
qed

text \<open>What a granted context says about the state it was granted in.\<close>

lemma exec_granted:
  assumes "snd (enf_exec X op e) = Some ctx"
  shows "validate_key e (ac_key_id ctx) (ac_domain_id ctx) = None \<and> lifecycle_state ctx = LActive \<and>
    enforcer_generation (capability ctx) = generation e \<and>
    (\<exists>t. op_draw op = Some (ct_nonce (capability ctx), t))"
  using assms by (cases op) (auto simp: authorize_defs AuthorizedContext_new_def split: option.splits if_splits)

lemma draw_unique:
  assumes "distinct (map fst (List.map_filter op_draw ops))"
    and "ops = ops1 @ op # ops2" "op_draw op = Some (n, t)" "ops = ops1' @ op' # ops2'" "op_draw op' = Some (n, t')"
  shows "ops1 = ops1' \<and> op = op'"
proof -
  have other: "False" if d: "distinct (map fst (List.map_filter op_draw (as @ x # bs @ y # cs)))"
    and x: "op_draw x = Some (n, u)" and y: "op_draw y = Some (n, v)" for as x bs y cs u v
    using d x y by (simp add: map_filter_def)
  from assms(2,4) have "ops1 @ op # ops2 = ops1' @ op' # ops2'" by simp
  then obtain us where "ops1 = ops1' @ us \<and> us @ op # ops2 = op' # ops2' \<or> ops1 @ us = ops1' \<and> op # ops2 = us @ op' # ops2'"
    unfolding append_eq_append_conv2 by blast
  then show ?thesis
  proof
    assume u: "ops1 = ops1' @ us \<and> us @ op # ops2 = op' # ops2'"
    show ?thesis
    proof (cases us)
      case (Cons x bs)
      then have "ops = ops1' @ op' # bs @ op # ops2" using u assms(2) by simp
      then show ?thesis using other [OF _ assms(5,3)] assms(1) by blast
    qed (use u in simp)
  next
    assume u: "ops1 @ us = ops1' \<and> op # ops2 = us @ op' # ops2'"
    show ?thesis
    proof (cases us)
      case (Cons x bs)
      then have "ops = ops1 @ op # bs @ op' # ops2'" using u assms(2) by auto
      then show ?thesis using other [OF _ assms(3,5)] assms(1) by blast
    qed (use u in simp)
  qed
qed

section \<open>Properties\<close>

text \<open>C31: revocation is final. Once the enforcer has revoked a key, no later sequence of operations,
  registering the key again included, makes it issue a context for that key: every \<open>authorize_\<close>
  operation denies with the reason that the key is revoked, and no encryption to it is authorized.\<close>

theorem revocation_is_final:
  fixes e :: StateEnforcer and k :: string
  defines "denied \<equiv> InvalidKeyState (''Key '' @ k @ '' is revoked'')"
  shows "let e' = enf_run X ops (revoke_key k e) in
    snd (authorize_encrypt r c k d rec e') = Inl denied \<and> snd (authorize_decrypt r c k d e') = Inl denied \<and>
    snd (authorize_key_rotation r c k k' d e') = Inl denied \<and> snd (authorize_api_request r c k d p v e') = Inl denied \<and>
    snd (authorize_sign X r c k d m e') = Inl denied \<and> snd (authorize_verify r c k d e') = Inl denied \<and>
    \<not> is_ok (snd (authorize_encrypt r c s d (Some k) e'))"
proof -
  define e' where "e' = enf_run X ops (revoke_key k e)"
  have "k \<in> revoked_keys e'"
    using run_unchanged_fields(2) [of "revoke_key k e" X ops] by (auto simp: e'_def revoke_key_def)
  then show ?thesis
    by (auto simp: e'_def [symmetric] Let_def denied_def authorize_defs validate_key_def split: option.splits)
qed

text \<open>C32: a context is accepted only where and while it may be. The fields of a context are private, so a context at hand is one that
  the run \<open>runs g'\<close> of some enforcer of the process handed out unchanged; the enforcers are told apart by their generation, the value of the counter. When
  such a context validates at the enforcer of generation \<open>g\<close> and no nonce was drawn twice in its run, then this enforcer
  granted this very context, in a state in which its key was registered for the domain and not revoked; the token was drawn
  less than sixty seconds before the validation, and the context is no older than the configured lifetime plus the clock
  skew, added in 64 bits. (The first bound is a constant of the token registry, whatever lifetime is configured.)\<close>

theorem validated_context_was_issued:
  fixes runs :: "u64 \<Rightarrow> enf_op list" and ttl skew :: "u64 \<Rightarrow> u64" and et es :: "u64 option"
  defines "new \<equiv> \<lambda>g. fst (with_config et es g (ttl g) (skew g))"
  assumes "\<exists>g'. hands_out X (runs g') (new g') ctx"
    and "snd (validate c ctx (enf_run X (runs g) (new g))) = Inr ()"
    and "distinct (map fst (List.map_filter op_draw (runs g)))"
  shows "\<exists>ops1 op ops2 t. runs g = ops1 @ op # ops2 \<and> snd (enf_exec X op (enf_run X ops1 (new g))) = Some ctx \<and>
    validate_key (enf_run X ops1 (new g)) (ac_key_id ctx) (ac_domain_id ctx) = None \<and>
    op_draw op = Some (ct_nonce (capability ctx), t) \<and> c 0 - t < 60 * 1000000000 \<and>
    saturating_sub (as_millis_u64 (c 1)) (timestamp_ms ctx) \<le> the_default (ttl g) et + the_default (skew g) es"
proof -
  let ?e0 = "new g" and ?tk = "capability ctx"
  have gen: "generation (new g') = g'" for g' by (simp add: new_def with_config_def)
  have cap: "enforcer_generation ?tk = g"
    and ex: "\<exists>t. (ct_nonce ?tk, t) \<in> set (issued_tokens (enf_run X (runs g) ?e0)) \<and> c 0 - t < CAPABILITY_TOKEN_TTL_NANOS"
    using validate_capability_ok [OF validate_ok_capability [OF assms(3)]] gen by (simp_all add: run_unchanged_fields)
  from assms(2) obtain g' where "hands_out X (runs g') (new g') ctx" ..
  then obtain ops1 op ops2 where o: "runs g' = ops1 @ op # ops2" "snd (enf_exec X op (enf_run X ops1 (new g'))) = Some ctx"
    by (rule hands_outE)
  note granted = exec_granted [OF o(2), unfolded run_unchanged_fields gen]
  have g': "g' = g" using granted cap by simp
  from ex obtain t where t: "(ct_nonce ?tk, t) \<in> set (issued_tokens (enf_run X (runs g) ?e0))"
    "c 0 - t < CAPABILITY_TOKEN_TTL_NANOS" by blast
  have "(ct_nonce ?tk, t) \<notin> set (issued_tokens ?e0)" by (simp add: new_def with_config_def)
  from run_issued [OF t(1) this] obtain ops1' op' ops2' where
    o': "runs g = ops1' @ op' # ops2'" "op_draw op' = Some (ct_nonce ?tk, t)" by blast
  from granted obtain t' where "op_draw op = Some (ct_nonce ?tk, t')" by blast
  from draw_unique [OF assms(4) o(1) [unfolded g'] this o'] have "op' = op" by simp
  moreover have "saturating_sub (as_millis_u64 (c 1)) (timestamp_ms ctx) \<le> the_default (ttl g) et + the_default (skew g) es"
    using validate_ok_age [OF assms(3)] config_lifetime [of X "runs g" et es g "ttl g" "skew g"] by (simp add: new_def)
  ultimately show ?thesis using o g' granted o'(2) t(2) unfolding CAPABILITY_TOKEN_TTL_NANOS_def
    by (intro exI [of _ ops1] exI [of _ op] exI [of _ ops2] exI [of _ t]) simp
qed

definition demo_ctx :: AuthorizedContext where
  "demo_ctx = AuthorizedContext_new 0 \<lparr> ct_nonce = 7, enforcer_generation = 1 \<rparr> OpDecrypt ''k'' None LActive DecryptParams"

lemma demo_validates:
  "snd (validate (\<lambda>_. 0) demo_ctx (enf_run toy_crypto [Register ''k'' None, AuthDecrypt 7 (\<lambda>_. 0) ''k'' None]
     (fst (with_config None None 1 60000 5000)))) = Inr ()"
  by (simp add: demo_ctx_def with_config_def register_key_def authorize_decrypt_def validate_key_def issue_def
      generate_capability_token_def validate_def validate_capability_def AuthorizedContext_new_def fresh_tokens_def
      al_retain_def CAPABILITY_TOKEN_TTL_NANOS_def as_millis_u64_def saturating_sub_def al_del_def Let_def)

theorem validated_context_was_issued_witness:
  "\<exists>ops1 op ops2 t. [Register ''k'' None, AuthDecrypt 7 (\<lambda>_. 0) ''k'' None] = ops1 @ op # ops2 \<and>
    snd (enf_exec toy_crypto op (enf_run toy_crypto ops1 (fst (with_config None None 1 60000 5000)))) = Some demo_ctx \<and>
    op_draw op = Some (7, t) \<and> 0 - t < 60 * 1000000000"
proof -
  let ?ops = "[Register ''k'' None, AuthDecrypt 7 (\<lambda>_. 0) ''k'' None]"
  have "hands_out toy_crypto ?ops (fst (with_config None None 1 60000 5000)) demo_ctx"
    by (simp add: hands_out_def demo_ctx_def with_config_def register_key_def authorize_decrypt_def validate_key_def
        AuthorizedContext_new_def)
  moreover have "distinct (map fst (List.map_filter op_draw ?ops))" by (simp add: map_filter_def)
  moreover have "capability demo_ctx = \<lparr> ct_nonce = 7, enforcer_generation = 1 \<rparr>"
    by (simp add: demo_ctx_def AuthorizedContext_new_def)
  ultimately show ?thesis
    using validated_context_was_issued [of toy_crypto "\<lambda>_. ?ops" None None "\<lambda>_. 60000" "\<lambda>_. 5000" demo_ctx "\<lambda>_. 0" 1] demo_validates
    by fastforce
qed

text \<open>A context is single use. After a successful validation the same context, or any other context
  with its capability, is refused by every later state of the enforcer, as long as the random generator
  does not draw the same 128-bit nonce again.\<close>

lemma capability_single_use:
  assumes "validate c ctx e = (e', Inr ())" and "capability ctx' = capability ctx"
    and "\<forall>op \<in> set ops. \<forall>t. op_draw op \<noteq> Some (ct_nonce (capability ctx), t)"
  shows "snd (validate c' ctx' (enf_run X ops e')) = Inl ''StateEnforcer denied: capability token is invalid or forged''"
  using assms by (rule validated_is_spent)

lemma capability_single_use_witness:
  "\<exists>e'. snd (validate (\<lambda>_. 0) demo_ctx (enf_run toy_crypto [Register ''k'' None] e')) =
     Inl ''StateEnforcer denied: capability token is invalid or forged''"
proof -
  let ?e = "enf_run toy_crypto [Register ''k'' None, AuthDecrypt 7 (\<lambda>_. 0) ''k'' None]
     (fst (with_config None None 1 60000 5000))"
  have "validate (\<lambda>_. 0) demo_ctx ?e = (fst (validate (\<lambda>_. 0) demo_ctx ?e), Inr ())"
    using demo_validates by (metis prod.collapse)
  from capability_single_use [OF this, of demo_ctx "[Register ''k'' None]" "\<lambda>_. 0" toy_crypto]
  show ?thesis by auto
qed

end
