(* ===== verification/Replay_Store.thy ===== *)
theory Replay_Store
  imports Crypto_Ext Policy
begin

text \<open>
  \<^verbatim>\<open>citadel-keystore/src/replay_store.rs\<close> and \<^verbatim>\<open>sharded_replay_cache.rs\<close>: the replay-protection stores. The trait
  \<^verbatim>\<open>ReplayStore\<close> is a record of functions on a store state; the locale \<open>replay_store\<close> is its contract,
  in terms of \<open>live r now k\<close>: the claim of \<open>k\<close> is still in force at time \<open>now\<close>. The memory store,
  the file store and the sharded cache interpret it. A clock argument gives the clock readings of a call in program
  order, in nanoseconds; they are ordered in time, and wall clock and monotonic clock are one time line.

  The file store writes to a disk, whose state is the contents of the store file and the outcomes of the
  next file operations (\<open>Some\<close> the error text); \<^verbatim>\<open>serde_json\<close> and \<^verbatim>\<open>hex\<close> are parameters. A failed flush leaves the store file
  as it was, since it is replaced by a rename only at the end. The mutexes are never poisoned.
\<close>

datatype ReplayError = ReplayError (message: string)

record 'r ReplayStore =
  rs_claim :: "(nat \<Rightarrow> nat) \<Rightarrow> bytes \<Rightarrow> Duration \<Rightarrow> 'r \<Rightarrow> 'r \<times> (ReplayError + bool)"
  rs_release :: "(nat \<Rightarrow> nat) \<Rightarrow> bytes \<Rightarrow> 'r \<Rightarrow> 'r \<times> (ReplayError + unit)"
  rs_entry_count :: "'r \<Rightarrow> nat"

definition derive_replay_key :: "crypto \<Rightarrow> string \<Rightarrow> string \<Rightarrow> u32 \<Rightarrow> bytes \<Rightarrow> bytes \<Rightarrow> bytes" where
  "derive_replay_key X domain_id key_id key_version nonce aead_tag =
     sha256_digest X (as_bytes domain_id @ as_bytes key_id @ u32_be key_version @ nonce @ aead_tag)"

definition unix_secs :: "nat \<Rightarrow> nat" where
  "unix_secs now = now div 1000000000"

section \<open>Memory store\<close>

record MemoryReplayStore =
  mem_seen :: "(bytes \<times> nat) list"
  mem_fail_closed :: bool
  mem_ttl :: Duration

definition MemoryReplayStore_new :: "Duration \<Rightarrow> bool \<Rightarrow> MemoryReplayStore" where
  "MemoryReplayStore_new ttl fc = \<lparr> mem_seen = [], mem_fail_closed = fc, mem_ttl = ttl \<rparr>"

definition MemoryReplayStore_with_defaults :: MemoryReplayStore where
  "MemoryReplayStore_with_defaults = MemoryReplayStore_new (from_secs 86400) True"

definition evict_expired :: "nat \<Rightarrow> MemoryReplayStore \<Rightarrow> MemoryReplayStore" where
  "evict_expired now r = r\<lparr> mem_seen := al_retain (\<lambda>seen_at. now - seen_at < mem_ttl r) (mem_seen r) \<rparr>"

definition mem_claim ::
  "(nat \<Rightarrow> nat) \<Rightarrow> bytes \<Rightarrow> Duration \<Rightarrow> MemoryReplayStore \<Rightarrow> MemoryReplayStore \<times> (ReplayError + bool)" where
  "mem_claim clk key ttl r =
    (let r1 = evict_expired (clk 0) r in
     if map_of (mem_seen r1) key \<noteq> None then (r1, Inr False)
     else (r1\<lparr> mem_seen := al_put key (clk 1) (mem_seen r1) \<rparr>, Inr True))"

definition mem_release ::
  "(nat \<Rightarrow> nat) \<Rightarrow> bytes \<Rightarrow> MemoryReplayStore \<Rightarrow> MemoryReplayStore \<times> (ReplayError + unit)" where
  "mem_release clk key r = (r\<lparr> mem_seen := al_del key (mem_seen r) \<rparr>, Inr ())"

definition mem_entry_count :: "MemoryReplayStore \<Rightarrow> nat" where
  "mem_entry_count r = length (mem_seen r)"

definition MemoryReplay :: "MemoryReplayStore ReplayStore" where
  "MemoryReplay = \<lparr> rs_claim = mem_claim, rs_release = mem_release, rs_entry_count = mem_entry_count \<rparr>"

section \<open>File store\<close>

record FileEntry =
  key_hex :: string
  seen_at_unix :: nat

record json_codec =
  to_vec :: "FileEntry list \<Rightarrow> string + string"
  from_str :: "string \<Rightarrow> string + FileEntry list"
  jhex_encode :: "bytes \<Rightarrow> string"
  jhex_decode :: "string \<Rightarrow> string + bytes"

record disk =
  contents :: "string option"
  io_results :: "string option list"

record FileReplayStore =
  fr_path :: string
  default_ttl_secs :: nat
  fr_fail_closed :: bool
  claims :: "(bytes \<times> nat) list"
  ops_since_flush :: nat
  last_flush :: nat
  fr_disk :: disk

fun take_chars :: "nat \<Rightarrow> string \<Rightarrow> string" where
  "take_chars n [] = []"
| "take_chars n (c # cs) =
     (if (128 :: nat) \<le> of_char c \<and> (of_char c :: nat) < 192 then c # take_chars n cs
      else case n of 0 \<Rightarrow> [] | Suc m \<Rightarrow> c # take_chars m cs)"

fun load_entries ::
  "json_codec \<Rightarrow> string \<Rightarrow> nat \<Rightarrow> FileEntry list \<Rightarrow> (bytes \<times> nat) list \<Rightarrow> ReplayError + (bytes \<times> nat) list" where
  "load_entries J path cutoff [] cs = Inr cs"
| "load_entries J path cutoff (entry # es) cs =
     (if seen_at_unix entry \<ge> cutoff then
        (case jhex_decode J (key_hex entry) of
           Inl e \<Rightarrow> Inl (ReplayError (''replay file '' @ quoted path @ '' contains invalid key_hex '' @
             quoted (take_chars 16 (key_hex entry)) @ '': '' @ e @ '' '' @ em_dash @
             '' aborting to prevent replay bypass. Delete the file only if you accept replay risk for that ciphertext.''))
         | Inr k \<Rightarrow> load_entries J path cutoff es (al_put k (seen_at_unix entry) cs))
      else load_entries J path cutoff es cs)"

text \<open>\<open>clk 0\<close> is the wall clock, \<open>clk 1\<close> the instant of construction; \<open>read_err\<close> is the error of reading an
  existing file, if any.\<close>

definition FileReplayStore_new ::
  "json_codec \<Rightarrow> (nat \<Rightarrow> nat) \<Rightarrow> string \<Rightarrow> Duration \<Rightarrow> bool \<Rightarrow> string option \<Rightarrow> disk \<Rightarrow> ReplayError + FileReplayStore" where
  "FileReplayStore_new J clk path ttl fc read_err dsk =
    (let ttl_secs = as_secs ttl; cutoff = unix_secs (clk 0) - ttl_secs in
     and_then
       (case contents dsk of
          None \<Rightarrow> Inr []
        | Some data \<Rightarrow>
            (case read_err of
               Some e \<Rightarrow> Inl (ReplayError (''replay file '' @ quoted path @ '' exists but cannot be read: '' @ e @
                 '' '' @ em_dash @ '' aborting to prevent replay bypass.''))
             | None \<Rightarrow>
                 and_then (map_err (\<lambda>e. ReplayError (''replay file '' @ quoted path @ '' is corrupt (parse failed: '' @ e @
                     '') '' @ em_dash @ replicate 22 (CHR '' '') @
                     ''delete only if you accept previously-claimed ciphertexts may replay.''))
                   (from_str J data))
                 (\<lambda>entries. load_entries J path cutoff entries [])))
       (\<lambda>cs. Inr \<lparr> fr_path = path, default_ttl_secs = ttl_secs, fr_fail_closed = fc, claims = cs,
                   ops_since_flush = 0, last_flush = clk 1, fr_disk = dsk \<rparr>))"

text \<open>The steps of a flush (create, write, flush and sync the temporary file, rename it) share one outcome.\<close>

definition file_flush :: "json_codec \<Rightarrow> nat \<Rightarrow> FileReplayStore \<Rightarrow> FileReplayStore \<times> (ReplayError + unit)" where
  "file_flush J now r =
    (let cutoff = unix_secs now - default_ttl_secs r;
         entries = map (\<lambda>(k, ts). \<lparr> key_hex = jhex_encode J k, seen_at_unix = ts \<rparr>)
           (al_retain (\<lambda>ts. ts \<ge> cutoff) (claims r))
     in case to_vec J entries of
          Inl e \<Rightarrow> (r, Inl (ReplayError (''replay flush serialize: '' @ e)))
        | Inr json \<Rightarrow>
            (case io_results (fr_disk r) of
               Some e # rest \<Rightarrow> (r\<lparr> fr_disk := (fr_disk r)\<lparr> io_results := rest \<rparr> \<rparr>, Inl (ReplayError e))
             | _ \<Rightarrow> (r\<lparr> fr_disk := \<lparr> contents = Some json, io_results = tl (io_results (fr_disk r)) \<rparr> \<rparr>, Inr ())))"

definition BATCH_SIZE :: nat where "BATCH_SIZE = 100"
definition BATCH_INTERVAL_SECS :: nat where "BATCH_INTERVAL_SECS = 5"
definition HIGH_WATER_MARK :: nat where "HIGH_WATER_MARK = 10000"

definition should_flush :: "nat \<Rightarrow> FileReplayStore \<Rightarrow> bool" where
  "should_flush now r =
    (ops_since_flush r \<ge> BATCH_SIZE \<or> as_secs (now - last_flush r) \<ge> BATCH_INTERVAL_SECS \<or>
     length (claims r) \<ge> HIGH_WATER_MARK)"

definition force_flush :: "json_codec \<Rightarrow> (nat \<Rightarrow> nat) \<Rightarrow> FileReplayStore \<Rightarrow> FileReplayStore \<times> (ReplayError + unit)" where
  "force_flush J clk r =
    (case file_flush J (clk 0) r of
       (r', Inl e) \<Rightarrow> (r', Inl e)
     | (r', Inr _) \<Rightarrow> (r'\<lparr> ops_since_flush := 0, last_flush := clk 1 \<rparr>, Inr ()))"

definition file_drop :: "json_codec \<Rightarrow> nat \<Rightarrow> FileReplayStore \<Rightarrow> disk" where
  "file_drop J now r = fr_disk (fst (file_flush J now r))"

definition file_claim ::
  "json_codec \<Rightarrow> (nat \<Rightarrow> nat) \<Rightarrow> bytes \<Rightarrow> Duration \<Rightarrow> FileReplayStore \<Rightarrow> FileReplayStore \<times> (ReplayError + bool)" where
  "file_claim J clk key ttl r =
    (let cutoff = unix_secs (clk 0) - default_ttl_secs r;
         r1 = r\<lparr> claims := al_retain (\<lambda>ts. ts \<ge> cutoff) (claims r) \<rparr> in
     if map_of (claims r1) key \<noteq> None then (r1, Inr False)
     else
       let r2 = r1\<lparr> claims := al_put key (unix_secs (clk 1)) (claims r1), ops_since_flush := ops_since_flush r1 + 1 \<rparr>
       in if should_flush (clk 2) r2 then
            (case file_flush J (clk 3) r2 of
               (r3, Inl e) \<Rightarrow> (r3\<lparr> claims := al_del key (claims r3) \<rparr>, Inl e)
             | (r3, Inr _) \<Rightarrow> (r3\<lparr> ops_since_flush := 0, last_flush := clk 4 \<rparr>, Inr True))
          else (r2, Inr True))"

definition file_release ::
  "json_codec \<Rightarrow> (nat \<Rightarrow> nat) \<Rightarrow> bytes \<Rightarrow> FileReplayStore \<Rightarrow> FileReplayStore \<times> (ReplayError + unit)" where
  "file_release J clk key r =
    (case file_flush J (clk 0) (r\<lparr> claims := al_del key (claims r) \<rparr>) of
       (r', Inl e) \<Rightarrow> (r', Inl e)
     | (r', Inr _) \<Rightarrow> (r'\<lparr> ops_since_flush := 0, last_flush := clk 1 \<rparr>, Inr ()))"

definition file_entry_count :: "FileReplayStore \<Rightarrow> nat" where
  "file_entry_count r = length (claims r)"

definition FileReplay :: "json_codec \<Rightarrow> FileReplayStore ReplayStore" where
  "FileReplay J = \<lparr> rs_claim = file_claim J, rs_release = file_release J, rs_entry_count = file_entry_count \<rparr>"

section \<open>Redis store\<close>

text \<open>The server is a parameter: \<open>set_nx_ex\<close> and \<open>redis_del\<close> on an abstract server state.\<close>

record 'v redis =
  set_nx_ex :: "nat \<Rightarrow> string \<Rightarrow> nat \<Rightarrow> 'v \<Rightarrow> 'v \<times> (string + bool)"
  redis_del :: "nat \<Rightarrow> string \<Rightarrow> 'v \<Rightarrow> 'v \<times> (string + unit)"

record RedisReplayStore =
  key_prefix :: string
  rr_fail_closed :: bool

definition redis_key :: "(bytes \<Rightarrow> string) \<Rightarrow> RedisReplayStore \<Rightarrow> bytes \<Rightarrow> string" where
  "redis_key hex s key = key_prefix s @ hex key"

definition redis_claim ::
  "(bytes \<Rightarrow> string) \<Rightarrow> 'v redis \<Rightarrow> RedisReplayStore \<Rightarrow> (nat \<Rightarrow> nat) \<Rightarrow> bytes \<Rightarrow> Duration \<Rightarrow> 'v \<Rightarrow> 'v \<times> (ReplayError + bool)" where
  "redis_claim hex R s clk key ttl v =
    (case set_nx_ex R (clk 0) (redis_key hex s key) (max (as_secs ttl) 1) v of
       (v', Inr b) \<Rightarrow> (v', Inr b)
     | (v', Inl e) \<Rightarrow> (v', Inl (ReplayError (''Redis outage (fail_closed='' @
         (if rr_fail_closed s then ''true'' else ''false'') @ ''): '' @ e @ '' '' @ em_dash @
         '' operation denied to prevent replay bypass''))))"

definition redis_release ::
  "(bytes \<Rightarrow> string) \<Rightarrow> 'v redis \<Rightarrow> RedisReplayStore \<Rightarrow> (nat \<Rightarrow> nat) \<Rightarrow> bytes \<Rightarrow> 'v \<Rightarrow> 'v \<times> (ReplayError + unit)" where
  "redis_release hex R s clk key v =
    apsnd (map_err (\<lambda>e. ReplayError (''Redis release failed: '' @ e))) (redis_del R (clk 0) (redis_key hex s key) v)"

definition RedisReplay :: "(bytes \<Rightarrow> string) \<Rightarrow> 'v redis \<Rightarrow> RedisReplayStore \<Rightarrow> 'v ReplayStore" where
  "RedisReplay hex R s =
    \<lparr> rs_claim = redis_claim hex R s, rs_release = redis_release hex R s, rs_entry_count = (\<lambda>_. 0) \<rparr>"

section \<open>Sharded cache\<close>

definition SHARD_COUNT :: nat where "SHARD_COUNT = 256"

fun make_shards :: "nat \<Rightarrow> (nat \<Rightarrow> ReplayError + 'r) \<Rightarrow> ReplayError + 'r list" where
  "make_shards 0 factory = Inr []"
| "make_shards (Suc n) factory =
     and_then (make_shards n factory) (\<lambda>shards. and_then (factory n) (\<lambda>s. Inr (shards @ [s])))"

definition Sharded_new :: "(nat \<Rightarrow> ReplayError + 'r) \<Rightarrow> ReplayError + 'r list" where
  "Sharded_new factory = make_shards SHARD_COUNT factory"

definition shard_index :: "bytes \<Rightarrow> nat" where
  "shard_index key = (case key of [] \<Rightarrow> 0 | b # _ \<Rightarrow> unat b)"

definition sharded_claim ::
  "'r ReplayStore \<Rightarrow> (nat \<Rightarrow> nat) \<Rightarrow> bytes \<Rightarrow> Duration \<Rightarrow> 'r list \<Rightarrow> 'r list \<times> (ReplayError + bool)" where
  "sharded_claim S clk key ttl shards =
    (let (s, res) = rs_claim S clk key ttl (shards ! shard_index key) in (shards[shard_index key := s], res))"

definition sharded_release ::
  "'r ReplayStore \<Rightarrow> (nat \<Rightarrow> nat) \<Rightarrow> bytes \<Rightarrow> 'r list \<Rightarrow> 'r list \<times> (ReplayError + unit)" where
  "sharded_release S clk key shards =
    (let (s, res) = rs_release S clk key (shards ! shard_index key) in (shards[shard_index key := s], res))"

definition total_entry_count :: "'r ReplayStore \<Rightarrow> 'r list \<Rightarrow> nat" where
  "total_entry_count S shards = sum_list (map (rs_entry_count S) shards)"

definition Sharded :: "'r ReplayStore \<Rightarrow> 'r list ReplayStore" where
  "Sharded S = \<lparr> rs_claim = sharded_claim S, rs_release = sharded_release S, rs_entry_count = total_entry_count S \<rparr>"

section \<open>The contract\<close>

text \<open>\<open>window r k ttl\<close> is how long a claim made with the argument \<open>ttl\<close> stays in force at least.\<close>

locale replay_store =
  fixes S :: "'r ReplayStore"
    and inv :: "'r \<Rightarrow> bool"
    and live :: "'r \<Rightarrow> nat \<Rightarrow> bytes \<Rightarrow> bool"
    and window :: "'r \<Rightarrow> bytes \<Rightarrow> Duration \<Rightarrow> nat"
  assumes claim_inv: "inv r \<Longrightarrow> inv (fst (rs_claim S clk k ttl r))"
    and release_inv: "inv r \<Longrightarrow> inv (fst (rs_release S clk k r))"
    and claim_refuses: "inv r \<Longrightarrow> live r (clk 0) k \<Longrightarrow> snd (rs_claim S clk k ttl r) \<noteq> Inr True"
    and claim_refuses_only: "inv r \<Longrightarrow> snd (rs_claim S clk k ttl r) = Inr False \<Longrightarrow> live r (clk 0) k"
    and claim_takes: "inv r \<Longrightarrow> snd (rs_claim S clk k ttl r) = Inr True \<Longrightarrow> mono clk \<Longrightarrow> clk 0 \<le> now \<Longrightarrow>
      now < clk 0 + window r k ttl \<Longrightarrow> live (fst (rs_claim S clk k ttl r)) now k"
    and claim_keeps: "inv r \<Longrightarrow> clk 0 \<le> now \<Longrightarrow> live r now k' \<Longrightarrow> live (fst (rs_claim S clk k ttl r)) now k'"
    and release_keeps: "inv r \<Longrightarrow> k' \<noteq> k \<Longrightarrow> live r now k' \<Longrightarrow> live (fst (rs_release S clk k r)) now k'"
    and live_earlier: "inv r \<Longrightarrow> t \<le> now \<Longrightarrow> live r now k \<Longrightarrow> live r t k"
    and release_frees: "inv r \<Longrightarrow> snd (rs_release S clk k r) = Inr () \<Longrightarrow> \<not> live (fst (rs_release S clk k r)) now k"

datatype rs_op = Claim "nat \<Rightarrow> nat" bytes Duration | Release "nat \<Rightarrow> nat" bytes

fun rs_exec :: "'r ReplayStore \<Rightarrow> rs_op \<Rightarrow> 'r \<Rightarrow> 'r" where
  "rs_exec S (Claim clk k ttl) r = fst (rs_claim S clk k ttl r)"
| "rs_exec S (Release clk k) r = fst (rs_release S clk k r)"

definition rs_run :: "'r ReplayStore \<Rightarrow> rs_op list \<Rightarrow> 'r \<Rightarrow> 'r" where
  "rs_run S ops r = fold (rs_exec S) ops r"

fun not_after :: "nat \<Rightarrow> rs_op \<Rightarrow> bool" where
  "not_after now (Claim clk _ _) = (clk 0 \<le> now)"
| "not_after now (Release clk _) = (clk 0 \<le> now)"

fun releases :: "bytes \<Rightarrow> rs_op \<Rightarrow> bool" where
  "releases k (Claim _ _ _) = False"
| "releases k (Release _ k') = (k' = k)"

context replay_store
begin

lemma exec_inv: "inv r \<Longrightarrow> inv (rs_exec S op r)"
  by (cases op) (simp_all add: claim_inv release_inv)

lemma exec_keeps:
  "inv r \<Longrightarrow> live r now k \<Longrightarrow> not_after now op \<Longrightarrow> \<not> releases k op \<Longrightarrow> live (rs_exec S op r) now k"
  by (cases op) (auto intro: claim_keeps release_keeps)

lemma run_inv: "inv r \<Longrightarrow> inv (rs_run S ops r)"
  unfolding rs_run_def by (induction ops arbitrary: r) (simp_all add: exec_inv)

lemma run_keeps:
  "inv r \<Longrightarrow> live r now k \<Longrightarrow> \<forall>op \<in> set ops. not_after now op \<and> \<not> releases k op \<Longrightarrow> live (rs_run S ops r) now k"
  unfolding rs_run_def by (induction ops arbitrary: r) (simp_all add: exec_inv exec_keeps)

text \<open>One claim wins: until the window has passed or the winner releases, every other claim loses.\<close>

lemma one_winner:
  assumes "inv r" and won: "rs_claim S clk k ttl r = (r', Inr True)" and "mono clk"
    and ops: "\<forall>op \<in> set ops. not_after (clk' 0) op \<and> \<not> releases k op"
    and "clk 0 \<le> clk' 0" "clk' 0 < clk 0 + window r k ttl"
  shows "snd (rs_claim S clk' k ttl' (rs_run S ops r')) \<noteq> Inr True"
proof -
  have "live r' (clk' 0) k" using claim_takes [of r clk k ttl "clk' 0"] assms by simp
  moreover have i: "inv r'" using claim_inv [OF assms(1), of clk k ttl] won by simp
  ultimately have "live (rs_run S ops r') (clk' 0) k" by (intro run_keeps) (use ops in auto)
  then show ?thesis by (intro claim_refuses run_inv i)
qed

lemma released_again_free:
  "inv r \<Longrightarrow> rs_release S clk k r = (r', Inr ()) \<Longrightarrow> snd (rs_claim S clk' k ttl r') \<noteq> Inr False"
  using release_frees [of r clk k "clk' 0"] claim_refuses_only [of r' clk' k ttl] release_inv [of r clk k] by auto

end

section \<open>Instances\<close>

definition mem_inv :: "MemoryReplayStore \<Rightarrow> bool" where
  "mem_inv r = distinct (al_keys (mem_seen r))"

definition mem_live :: "MemoryReplayStore \<Rightarrow> nat \<Rightarrow> bytes \<Rightarrow> bool" where
  "mem_live r now k = (case map_of (mem_seen r) k of None \<Rightarrow> False | Some t \<Rightarrow> now - t < mem_ttl r)"

interpretation memory: replay_store MemoryReplay mem_inv mem_live "\<lambda>r k ttl. mem_ttl r"
proof
  fix r :: MemoryReplayStore and clk :: "nat \<Rightarrow> nat" and k k' now t ttl
  note d = MemoryReplay_def mem_inv_def mem_live_def mem_claim_def mem_release_def evict_expired_def Let_def map_of_al_retain
  note [simp del] = map_of_eq_Some_iff
  show "mem_inv r \<Longrightarrow> mem_inv (fst (rs_claim MemoryReplay clk k ttl r))" by (simp add: d)
  show "mem_inv r \<Longrightarrow> mem_inv (fst (rs_release MemoryReplay clk k r))" by (simp add: d)
  show "mem_inv r \<Longrightarrow> mem_live r (clk 0) k \<Longrightarrow> snd (rs_claim MemoryReplay clk k ttl r) \<noteq> Inr True"
    by (auto simp: d split: option.splits)
  show "mem_inv r \<Longrightarrow> snd (rs_claim MemoryReplay clk k ttl r) = Inr False \<Longrightarrow> mem_live r (clk 0) k"
    by (auto simp: d split: option.splits if_splits)
  show "mem_live (fst (rs_claim MemoryReplay clk k ttl r)) now k"
    if "mem_inv r" "snd (rs_claim MemoryReplay clk k ttl r) = Inr True" "mono clk" "clk 0 \<le> now" "now < clk 0 + mem_ttl r"
    using that monoD [of clk 0 1] by (auto simp: d split: option.splits if_splits)
  show "mem_inv r \<Longrightarrow> clk 0 \<le> now \<Longrightarrow> mem_live r now k' \<Longrightarrow> mem_live (fst (rs_claim MemoryReplay clk k ttl r)) now k'"
    by (auto simp: d split: option.splits if_splits)
  show "mem_inv r \<Longrightarrow> k' \<noteq> k \<Longrightarrow> mem_live r now k' \<Longrightarrow> mem_live (fst (rs_release MemoryReplay clk k r)) now k'"
    by (simp add: d split: option.splits)
  show "mem_inv r \<Longrightarrow> t \<le> now \<Longrightarrow> mem_live r now k \<Longrightarrow> mem_live r t k"
    by (auto simp: d split: option.splits)
  show "mem_inv r \<Longrightarrow> snd (rs_release MemoryReplay clk k r) = Inr () \<Longrightarrow> \<not> mem_live (fst (rs_release MemoryReplay clk k r)) now k"
    by (simp add: d)
qed

definition file_inv :: "FileReplayStore \<Rightarrow> bool" where
  "file_inv r = distinct (al_keys (claims r))"

definition file_live :: "FileReplayStore \<Rightarrow> nat \<Rightarrow> bytes \<Rightarrow> bool" where
  "file_live r now k = (case map_of (claims r) k of None \<Rightarrow> False | Some ts \<Rightarrow> ts \<ge> unix_secs now - default_ttl_secs r)"

lemma file_flush_fields:
  "claims (fst (file_flush J now r)) = claims r" "default_ttl_secs (fst (file_flush J now r)) = default_ttl_secs r"
  by (auto simp: file_flush_def Let_def split: sum.split list.split option.split)

text \<open>What a claim does to the set of claims, flush or not.\<close>

lemma file_claim_cases:
  fixes r :: FileReplayStore and clk :: "nat \<Rightarrow> nat"
  assumes "file_inv r"
  defines "kept \<equiv> al_retain (\<lambda>ts. ts \<ge> unix_secs (clk 0) - default_ttl_secs r) (claims r)"
  shows "default_ttl_secs (fst (file_claim J clk k ttl r)) = default_ttl_secs r"
    and "file_live r (clk 0) k \<Longrightarrow> snd (file_claim J clk k ttl r) = Inr False \<and> claims (fst (file_claim J clk k ttl r)) = kept"
    and "\<not> file_live r (clk 0) k \<Longrightarrow>
      (snd (file_claim J clk k ttl r) = Inr True \<and>
         claims (fst (file_claim J clk k ttl r)) = al_put k (unix_secs (clk 1)) kept) \<or>
      (\<exists>e. snd (file_claim J clk k ttl r) = Inl e \<and>
         claims (fst (file_claim J clk k ttl r)) = al_del k (al_put k (unix_secs (clk 1)) kept))"
proof -
  define r2 where "r2 = r\<lparr> claims := al_put k (unix_secs (clk 1)) kept, ops_since_flush := ops_since_flush r + 1 \<rparr>"
  have m: "map_of kept k \<noteq> None \<longleftrightarrow> file_live r (clk 0) k"
    using assms(1) by (simp add: kept_def map_of_al_retain file_inv_def file_live_def split: option.split)
  obtain r3 res where f: "file_flush J (clk 3) r2 = (r3, res)" by (cases "file_flush J (clk 3) r2")
  have f3: "claims r3 = claims r2" "default_ttl_secs r3 = default_ttl_secs r2"
    using file_flush_fields [of J "clk 3" r2] f by simp_all
  have eq: "file_claim J clk k ttl r =
      (if map_of kept k \<noteq> None then (r\<lparr> claims := kept \<rparr>, Inr False)
       else if should_flush (clk 2) r2 then
         (case res of Inl e \<Rightarrow> (r3\<lparr> claims := al_del k (claims r3) \<rparr>, Inl e)
          | Inr _ \<Rightarrow> (r3\<lparr> ops_since_flush := 0, last_flush := clk 4 \<rparr>, Inr True))
       else (r2, Inr True))"
    using f by (simp add: file_claim_def Let_def kept_def r2_def del: not_None_eq)
  have r2: "claims r2 = al_put k (unix_secs (clk 1)) kept" "default_ttl_secs r2 = default_ttl_secs r"
    by (simp_all add: r2_def)
  show "default_ttl_secs (fst (file_claim J clk k ttl r)) = default_ttl_secs r"
    using f3 r2 by (cases res) (auto simp: eq)
  show "snd (file_claim J clk k ttl r) = Inr False \<and> claims (fst (file_claim J clk k ttl r)) = kept"
    if "file_live r (clk 0) k" using that m by (simp add: eq)
  show "(snd (file_claim J clk k ttl r) = Inr True \<and>
         claims (fst (file_claim J clk k ttl r)) = al_put k (unix_secs (clk 1)) kept) \<or>
      (\<exists>e. snd (file_claim J clk k ttl r) = Inl e \<and>
         claims (fst (file_claim J clk k ttl r)) = al_del k (al_put k (unix_secs (clk 1)) kept))"
    if "\<not> file_live r (clk 0) k"
    using that m f3 r2 by (cases res) (auto simp: eq)
qed

lemma file_release_fields:
  "claims (fst (file_release J clk k r)) = al_del k (claims r)"
  "default_ttl_secs (fst (file_release J clk k r)) = default_ttl_secs r"
proof -
  obtain r' res where f: "file_flush J (clk 0) (r\<lparr> claims := al_del k (claims r) \<rparr>) = (r', res)" by fastforce
  with file_flush_fields [of J "clk 0" "r\<lparr> claims := al_del k (claims r) \<rparr>"]
  have "claims r' = al_del k (claims r)" "default_ttl_secs r' = default_ttl_secs r" by simp_all
  with f show "claims (fst (file_release J clk k r)) = al_del k (claims r)"
    "default_ttl_secs (fst (file_release J clk k r)) = default_ttl_secs r"
    by (cases res; simp add: file_release_def)+
qed

lemma unix_secs_window: "clk0 \<le> clk1 \<Longrightarrow> now < clk0 + t * 1000000000 \<Longrightarrow> unix_secs now - t \<le> unix_secs clk1"
proof -
  assume "clk0 \<le> clk1" "now < clk0 + t * 1000000000"
  then have "now div 1000000000 \<le> (clk1 + t * 1000000000) div 1000000000" by (intro div_le_mono) simp
  then show ?thesis by (simp add: unix_secs_def)
qed

interpretation filed: replay_store "FileReplay J" file_inv file_live "\<lambda>r k ttl. default_ttl_secs r * 1000000000" for J
proof
  fix r :: FileReplayStore and clk :: "nat \<Rightarrow> nat" and k k' now t ttl
  have c: "rs_claim (FileReplay J) = file_claim J" "rs_release (FileReplay J) = file_release J"
    by (simp_all add: FileReplay_def)
  let ?r = "fst (file_claim J clk k ttl r)"
  let ?kept = "al_retain (\<lambda>ts. ts \<ge> unix_secs (clk 0) - default_ttl_secs r) (claims r)"
  have cl: "claims ?r \<in> {?kept, al_put k (unix_secs (clk 1)) ?kept, al_del k (al_put k (unix_secs (clk 1)) ?kept)}"
    if "file_inv r" using file_claim_cases(2,3) [OF that, where clk = clk and J = J and k = k and ttl = ttl] by blast
  then show "file_inv r \<Longrightarrow> file_inv (fst (rs_claim (FileReplay J) clk k ttl r))"
    by (auto simp: c file_inv_def)
  show "file_inv r \<Longrightarrow> file_inv (fst (rs_release (FileReplay J) clk k r))"
    by (simp add: c file_inv_def file_release_fields)
  show "file_inv r \<Longrightarrow> file_live r (clk 0) k \<Longrightarrow> snd (rs_claim (FileReplay J) clk k ttl r) \<noteq> Inr True"
    using file_claim_cases(2) [where r = r and clk = clk and J = J and k = k and ttl = ttl] by (simp add: c)
  show "file_inv r \<Longrightarrow> snd (rs_claim (FileReplay J) clk k ttl r) = Inr False \<Longrightarrow> file_live r (clk 0) k"
    using file_claim_cases(3) [where r = r and clk = clk and J = J and k = k and ttl = ttl] by (auto simp: c)
  show "file_live (fst (rs_claim (FileReplay J) clk k ttl r)) now k"
    if i: "file_inv r" and won: "snd (rs_claim (FileReplay J) clk k ttl r) = Inr True" and "mono clk"
      and w: "now < clk 0 + default_ttl_secs r * 1000000000"
  proof -
    note fc = file_claim_cases [OF i, where clk = clk and J = J and k = k and ttl = ttl]
    have "\<not> file_live r (clk 0) k" using fc(2) won by (auto simp: c)
    with fc(3) won have "claims ?r = al_put k (unix_secs (clk 1)) ?kept" by (auto simp: c)
    moreover have "unix_secs now - default_ttl_secs r \<le> unix_secs (clk 1)"
      using monoD [OF \<open>mono clk\<close>, of 0 1] w by (auto intro: unix_secs_window)
    ultimately show ?thesis using fc(1) by (simp add: c file_live_def)
  qed
  show "file_live (fst (rs_claim (FileReplay J) clk k ttl r)) now k'"
    if i: "file_inv r" and le: "clk 0 \<le> now" and l: "file_live r now k'"
  proof -
    have secs: "unix_secs (clk 0) \<le> unix_secs now" using le by (simp add: unix_secs_def div_le_mono)
    from l obtain ts where ts0: "map_of (claims r) k' = Some ts" "ts \<ge> unix_secs now - default_ttl_secs r"
      by (auto simp: file_live_def split: option.splits)
    with secs i have ts: "map_of ?kept k' = Some ts" "ts \<ge> unix_secs now - default_ttl_secs r"
      by (simp_all add: map_of_al_retain file_inv_def del: map_of_eq_Some_iff)
    show ?thesis
    proof (cases "file_live r (clk 0) k")
      case True
      with ts file_claim_cases [OF i, where clk = clk and J = J and k = k and ttl = ttl] show ?thesis by (simp add: c file_live_def)
    next
      case False
      with l secs have "k' \<noteq> k" by (auto simp: file_live_def split: option.splits)
      with ts False file_claim_cases [OF i, where clk = clk and J = J and k = k and ttl = ttl] show ?thesis by (auto simp: c file_live_def)
    qed
  qed
  show "file_inv r \<Longrightarrow> k' \<noteq> k \<Longrightarrow> file_live r now k' \<Longrightarrow> file_live (fst (rs_release (FileReplay J) clk k r)) now k'"
    by (simp add: c file_live_def file_release_fields split: option.splits)
  show "file_live r t k" if "t \<le> now" "file_live r now k"
  proof -
    have "unix_secs t \<le> unix_secs now" using that(1) by (simp add: unix_secs_def div_le_mono)
    then show ?thesis using that(2) by (auto simp: file_live_def split: option.splits)
  qed
  show "file_inv r \<Longrightarrow> snd (rs_release (FileReplay J) clk k r) = Inr () \<Longrightarrow>
      \<not> file_live (fst (rs_release (FileReplay J) clk k r)) now k"
    by (simp add: c file_live_def file_release_fields)
qed

text \<open>The sharded cache keeps the contract of its shards.\<close>

lemma shard_index_bound: "shard_index key < SHARD_COUNT"
proof (cases key)
  case (Cons b bs)
  then show ?thesis using unat_bound [of b] by (simp add: shard_index_def SHARD_COUNT_def)
qed (simp add: shard_index_def SHARD_COUNT_def)

lemma sharded_fields:
  "fst (sharded_claim S clk k ttl sh) = sh[shard_index k := fst (rs_claim S clk k ttl (sh ! shard_index k))]"
  "snd (sharded_claim S clk k ttl sh) = snd (rs_claim S clk k ttl (sh ! shard_index k))"
  "fst (sharded_release S clk k sh) = sh[shard_index k := fst (rs_release S clk k (sh ! shard_index k))]"
  "snd (sharded_release S clk k sh) = snd (rs_release S clk k (sh ! shard_index k))"
  by (simp_all add: sharded_claim_def sharded_release_def split: prod.split)

lemma Sharded_ops [simp]:
  "rs_claim (Sharded S) = sharded_claim S" "rs_release (Sharded S) = sharded_release S"
  by (simp_all add: Sharded_def)

context replay_store
begin

lemma sharded_store:
  "replay_store (Sharded S) (\<lambda>sh. length sh = SHARD_COUNT \<and> (\<forall>i < SHARD_COUNT. inv (sh ! i)))
    (\<lambda>sh now k. live (sh ! shard_index k) now k) (\<lambda>sh k ttl. window (sh ! shard_index k) k ttl)"
proof
  fix sh clk k k' ttl now t
  assume i: "length sh = SHARD_COUNT \<and> (\<forall>i < SHARD_COUNT. inv (sh ! i))"
  note b = shard_index_bound [of k] shard_index_bound [of k']
  have ik: "inv (sh ! shard_index k)" using i b by simp
  show "length (fst (rs_claim (Sharded S) clk k ttl sh)) = SHARD_COUNT \<and>
      (\<forall>i < SHARD_COUNT. inv (fst (rs_claim (Sharded S) clk k ttl sh) ! i))"
    using i b by (auto simp: sharded_fields nth_list_update claim_inv)
  show "length (fst (rs_release (Sharded S) clk k sh)) = SHARD_COUNT \<and>
      (\<forall>i < SHARD_COUNT. inv (fst (rs_release (Sharded S) clk k sh) ! i))"
    using i b by (auto simp: sharded_fields nth_list_update release_inv)
  show "live (sh ! shard_index k) (clk 0) k \<Longrightarrow> snd (rs_claim (Sharded S) clk k ttl sh) \<noteq> Inr True"
    using claim_refuses [OF ik] by (simp add: sharded_fields)
  show "snd (rs_claim (Sharded S) clk k ttl sh) = Inr False \<Longrightarrow> live (sh ! shard_index k) (clk 0) k"
    using claim_refuses_only [OF ik] by (simp add: sharded_fields)
  show "live (fst (rs_claim (Sharded S) clk k ttl sh) ! shard_index k) now k"
    if "snd (rs_claim (Sharded S) clk k ttl sh) = Inr True" "mono clk" "clk 0 \<le> now"
      "now < clk 0 + window (sh ! shard_index k) k ttl"
    using claim_takes [OF ik] that i b by (simp add: sharded_fields)
  show "live (fst (rs_claim (Sharded S) clk k ttl sh) ! shard_index k') now k'"
    if "clk 0 \<le> now" "live (sh ! shard_index k') now k'"
    using claim_keeps [OF ik] that i b by (cases "shard_index k' = shard_index k") (auto simp: sharded_fields)
  show "live (fst (rs_release (Sharded S) clk k sh) ! shard_index k') now k'"
    if "k' \<noteq> k" "live (sh ! shard_index k') now k'"
    using release_keeps [OF ik] that i b by (cases "shard_index k' = shard_index k") (auto simp: sharded_fields)
  show "t \<le> now \<Longrightarrow> live (sh ! shard_index k) now k \<Longrightarrow> live (sh ! shard_index k) t k" by (rule live_earlier [OF ik])
  show "\<not> live (fst (rs_release (Sharded S) clk k sh) ! shard_index k) now k"
    if "snd (rs_release (Sharded S) clk k sh) = Inr ()"
    using release_frees [OF ik] that i b by (simp add: sharded_fields)
qed

end

interpretation sharded_memory: replay_store "Sharded MemoryReplay"
    "\<lambda>sh. length sh = SHARD_COUNT \<and> (\<forall>i < SHARD_COUNT. mem_inv (sh ! i))"
    "\<lambda>sh now k. mem_live (sh ! shard_index k) now k" "\<lambda>sh k ttl. mem_ttl (sh ! shard_index k)"
  by (rule memory.sharded_store)

text \<open>What the Redis documentation says of \<^verbatim>\<open>SET key value NX EX seconds\<close> and \<^verbatim>\<open>DEL\<close>; \<open>present v now k\<close> is whether the
  server has an unexpired key. A command that reports an error may or may not have been executed.\<close>

definition redis_ok :: "'v redis \<Rightarrow> ('v \<Rightarrow> nat \<Rightarrow> string \<Rightarrow> bool) \<Rightarrow> bool" where
  "redis_ok R present \<longleftrightarrow>
     (\<forall>now k secs v. present v now k \<longrightarrow> snd (set_nx_ex R now k secs v) \<noteq> Inr True) \<and>
     (\<forall>now k secs v. snd (set_nx_ex R now k secs v) = Inr False \<longrightarrow> present v now k) \<and>
     (\<forall>now k secs v t. snd (set_nx_ex R now k secs v) = Inr True \<longrightarrow> now \<le> t \<longrightarrow> t < now + secs * 1000000000 \<longrightarrow>
        present (fst (set_nx_ex R now k secs v)) t k) \<and>
     (\<forall>now k secs v t k'. now \<le> t \<longrightarrow> present v t k' \<longrightarrow> present (fst (set_nx_ex R now k secs v)) t k') \<and>
     (\<forall>now k v t k'. k' \<noteq> k \<longrightarrow> present v t k' \<longrightarrow> present (fst (redis_del R now k v)) t k') \<and>
     (\<forall>v now t k. t \<le> now \<longrightarrow> present v now k \<longrightarrow> present v t k) \<and>
     (\<forall>now k v t. snd (redis_del R now k v) = Inr () \<longrightarrow> \<not> present (fst (redis_del R now k v)) t k)"

lemma redis_replay_store:
  assumes R: "redis_ok R present" and hex: "inj hex"
  shows "replay_store (RedisReplay hex R s) (\<lambda>_. True) (\<lambda>v now k. present v now (redis_key hex s k))
    (\<lambda>v k ttl. max (as_secs ttl) 1 * 1000000000)"
proof -
  have inj: "redis_key hex s k = redis_key hex s k' \<longleftrightarrow> k = k'" for k k'
    using hex by (auto simp: redis_key_def dest: injD)
  have cl: "fst (redis_claim hex R s clk k ttl v) = fst (set_nx_ex R (clk 0) (redis_key hex s k) (max (as_secs ttl) 1) v)"
    "snd (redis_claim hex R s clk k ttl v) = Inr b \<longleftrightarrow>
       snd (set_nx_ex R (clk 0) (redis_key hex s k) (max (as_secs ttl) 1) v) = Inr b" for clk k ttl v b
    by (auto simp: redis_claim_def split: prod.split sum.split)
  have rel: "fst (redis_release hex R s clk k v) = fst (redis_del R (clk 0) (redis_key hex s k) v)"
    "snd (redis_release hex R s clk k v) = Inr () \<longleftrightarrow> snd (redis_del R (clk 0) (redis_key hex s k) v) = Inr ()" for clk k v
    by (auto simp: redis_release_def)
  note r = R [unfolded redis_ok_def]
  show ?thesis
    unfolding RedisReplay_def
    by (rule replay_store.intro) (use r in \<open>auto simp: cl rel inj\<close>)
qed

text \<open>A server that keeps the time a key expires meets the contract.\<close>

definition toy_present :: "(string \<rightharpoonup> nat) \<Rightarrow> nat \<Rightarrow> string \<Rightarrow> bool" where
  "toy_present v t k = (case v k of Some e \<Rightarrow> t < e | None \<Rightarrow> False)"

definition toy_redis :: "(string \<rightharpoonup> nat) redis" where
  "toy_redis =
    \<lparr> set_nx_ex = (\<lambda>t k secs v. if toy_present v t k then (v, Inr False) else (v(k \<mapsto> t + secs * 1000000000), Inr True)),
      redis_del = (\<lambda>t k v. (v(k := None), Inr ())) \<rparr>"

lemma toy_redis_ok: "redis_ok toy_redis toy_present"
  by (auto simp: redis_ok_def toy_redis_def toy_present_def split: option.splits if_splits)

section \<open>Properties\<close>

text \<open>C33: a ciphertext is used once. When a claim has been granted, every later claim of the same key
  within the retention window is refused, whatever claims and releases of other keys happen in between,
  and it is refused by the memory store, by the file store (also when flushes fail) and by a
  sharded cache of memory stores; and it is granted only to one caller in any interleaving, since every
  operation is one atomic step.\<close>

theorem replay_claim_one_winner:
  assumes "mono clk" "clk 0 \<le> clk' 0" "\<forall>op \<in> set ops. not_after (clk' 0) op \<and> \<not> releases k op"
  shows "(mem_inv r \<and> mem_claim clk k ttl r = (r', Inr True) \<and> clk' 0 < clk 0 + mem_ttl r \<longrightarrow>
      snd (mem_claim clk' k ttl' (rs_run MemoryReplay ops r')) = Inr False) \<and>
    (file_inv f \<and> file_claim J clk k ttl f = (f', Inr True) \<and> clk' 0 < clk 0 + default_ttl_secs f * 1000000000 \<longrightarrow>
      snd (file_claim J clk' k ttl' (rs_run (FileReplay J) ops f')) = Inr False) \<and>
    (length sh = SHARD_COUNT \<and> (\<forall>i < SHARD_COUNT. mem_inv (sh ! i)) \<and>
      sharded_claim MemoryReplay clk k ttl sh = (sh', Inr True) \<and> clk' 0 < clk 0 + mem_ttl (sh ! shard_index k) \<longrightarrow>
      snd (sharded_claim MemoryReplay clk' k ttl' (rs_run (Sharded MemoryReplay) ops sh')) \<noteq> Inr True)"
proof (intro conjI impI)
  have m: "rs_claim MemoryReplay = mem_claim" by (simp add: MemoryReplay_def)
  have f: "rs_claim (FileReplay J) = file_claim J" by (simp add: FileReplay_def)
  have mo: "snd (mem_claim c x t q) \<in> {Inr True, Inr False}" for c x t q by (simp add: mem_claim_def Let_def)
  assume h: "mem_inv r \<and> mem_claim clk k ttl r = (r', Inr True) \<and> clk' 0 < clk 0 + mem_ttl r"
  then have "snd (mem_claim clk' k ttl' (rs_run MemoryReplay ops r')) \<noteq> Inr True"
    using memory.one_winner [of r clk k ttl r' ops clk' ttl'] assms by (simp add: m)
  then show "snd (mem_claim clk' k ttl' (rs_run MemoryReplay ops r')) = Inr False" using mo by blast
next
  have f: "rs_claim (FileReplay J) = file_claim J" by (simp add: FileReplay_def)
  assume h: "file_inv f \<and> file_claim J clk k ttl f = (f', Inr True) \<and> clk' 0 < clk 0 + default_ttl_secs f * 1000000000"
  then have "file_live f' (clk' 0) k" using filed.claim_takes [of f J clk k ttl "clk' 0"] assms by (simp add: f)
  moreover have i': "file_inv f'" using filed.claim_inv [of f J clk k ttl] h by (simp add: f)
  ultimately have "file_live (rs_run (FileReplay J) ops f') (clk' 0) k"
    using assms by (intro filed.run_keeps) auto
  then show "snd (file_claim J clk' k ttl' (rs_run (FileReplay J) ops f')) = Inr False"
    using file_claim_cases(2) [OF filed.run_inv [OF i']] by blast
next
  assume "length sh = SHARD_COUNT \<and> (\<forall>i < SHARD_COUNT. mem_inv (sh ! i)) \<and>
      sharded_claim MemoryReplay clk k ttl sh = (sh', Inr True) \<and> clk' 0 < clk 0 + mem_ttl (sh ! shard_index k)"
  then show "snd (sharded_claim MemoryReplay clk' k ttl' (rs_run (Sharded MemoryReplay) ops sh')) \<noteq> Inr True"
    using sharded_memory.one_winner [of sh clk k ttl sh' ops clk' ttl'] assms by simp
qed

theorem replay_claim_one_winner_witness:
  "snd (mem_claim (\<lambda>_. 5) [1] 0 (rs_run MemoryReplay [Claim (\<lambda>_. 3) [2] 0, Release (\<lambda>_. 4) [2]]
     (MemoryReplayStore_with_defaults\<lparr> mem_seen := [([1], 2)] \<rparr>))) = Inr False"
proof -
  have "mono (\<lambda>_ :: nat. 2 :: nat)" by (simp add: mono_def)
  moreover have "mem_claim (\<lambda>_. 2) [1] 0 MemoryReplayStore_with_defaults =
      (MemoryReplayStore_with_defaults\<lparr> mem_seen := [([1], 2)] \<rparr>, Inr True)"
    by (simp add: mem_claim_def evict_expired_def MemoryReplayStore_with_defaults_def MemoryReplayStore_new_def al_retain_def)
  ultimately show ?thesis
    using replay_claim_one_winner [of "\<lambda>_. 2" "\<lambda>_. 5" "[Claim (\<lambda>_. 3) [2] 0, Release (\<lambda>_. 4) [2]]" "[1]"
        MemoryReplayStore_with_defaults 0 "MemoryReplayStore_with_defaults\<lparr> mem_seen := [([1], 2)] \<rparr>" 0]
    by (simp add: mem_inv_def MemoryReplayStore_with_defaults_def MemoryReplayStore_new_def from_secs_def NS_PER_SEC_def)
qed

definition json_ok :: "json_codec \<Rightarrow> bool" where
  "json_ok J \<longleftrightarrow> (\<forall>es. \<exists>s. to_vec J es = Inr s \<and> from_str J s = Inr es) \<and>
     (\<forall>k. jhex_decode J (jhex_encode J k) = Inr k)"

lemma load_entries_of:
  assumes "\<forall>k. jhex_decode J (jhex_encode J k) = Inr k" and "distinct (al_keys kvs)" and "distinct (al_keys cs)"
    and "set (al_keys kvs) \<inter> set (al_keys cs) = {}"
  shows "\<exists>cs'. load_entries J p cutoff (map (\<lambda>(k, ts). \<lparr> key_hex = jhex_encode J k, seen_at_unix = ts \<rparr>) kvs) cs = Inr cs' \<and>
    distinct (al_keys cs') \<and>
    (\<forall>k. map_of cs' k = (case map_of kvs k of Some ts \<Rightarrow> if ts \<ge> cutoff then Some ts else None | None \<Rightarrow> map_of cs k))"
  using assms(2-)
proof (induction kvs arbitrary: cs)
  case (Cons kv kvs)
  obtain k ts where kv: "kv = (k, ts)" by (cases kv)
  have new: "map_of cs k = None" using Cons.prems kv by (simp add: map_of_eq_None_iff)
  have new': "map_of kvs k = None" using Cons.prems kv by (simp add: map_of_eq_None_iff)
  show ?case
  proof (cases "ts \<ge> cutoff")
    case True
    have "\<exists>cs'. load_entries J p cutoff (map (\<lambda>(k, ts). \<lparr> key_hex = jhex_encode J k, seen_at_unix = ts \<rparr>) kvs)
        (al_put k ts cs) = Inr cs' \<and> distinct (al_keys cs') \<and>
      (\<forall>x. map_of cs' x = (case map_of kvs x of Some ts \<Rightarrow> if ts \<ge> cutoff then Some ts else None
         | None \<Rightarrow> map_of (al_put k ts cs) x))"
      using Cons.prems kv by (intro Cons.IH) (auto simp del: set_map)
    then show ?thesis using kv True new' assms(1) by (auto split: option.split)
  next
    case False
    have "\<exists>cs'. load_entries J p cutoff (map (\<lambda>(k, ts). \<lparr> key_hex = jhex_encode J k, seen_at_unix = ts \<rparr>) kvs) cs = Inr cs' \<and>
       distinct (al_keys cs') \<and>
      (\<forall>x. map_of cs' x = (case map_of kvs x of Some ts \<Rightarrow> if ts \<ge> cutoff then Some ts else None | None \<Rightarrow> map_of cs x))"
      using Cons.prems kv by (intro Cons.IH) auto
    then show ?thesis using kv False new new' by (auto split: option.split)
  qed
qed simp

lemma force_flush_disk:
  assumes "json_ok J" and "force_flush J clk r = (r', Inr ())"
  shows "\<exists>s. contents (fr_disk r') = Some s \<and> from_str J s = Inr
    (map (\<lambda>(k, ts). \<lparr> key_hex = jhex_encode J k, seen_at_unix = ts \<rparr>)
       (al_retain (\<lambda>ts. ts \<ge> unix_secs (clk 0) - default_ttl_secs r) (claims r)))"
proof -
  let ?es = "map (\<lambda>(k, ts). \<lparr> key_hex = jhex_encode J k, seen_at_unix = ts \<rparr>)
       (al_retain (\<lambda>ts. ts \<ge> unix_secs (clk 0) - default_ttl_secs r) (claims r))"
  obtain s where "to_vec J ?es = Inr s" "from_str J s = Inr ?es" using assms(1) by (auto simp: json_ok_def)
  then show ?thesis using assms(2)
    by (auto simp: force_flush_def file_flush_def Let_def split: prod.splits sum.splits list.splits option.splits)
qed

text \<open>C34: claims survive a restart. After a successful flush a store that is opened later on the same disk,
  with the same lifetime, opens and holds every claim that is still in force, so a ciphertext claimed before the
  restart is refused after it.\<close>

theorem claims_survive_restart:
  assumes "json_ok J" "file_inv r" "force_flush J clk r = (r', Inr ())" "as_secs ttl = default_ttl_secs r" "clk 0 \<le> clk' 0"
  shows "\<exists>r2. FileReplayStore_new J clk' path ttl fc None (fr_disk r') = Inr r2 \<and> file_inv r2 \<and>
    (\<forall>c k ttl'. clk' 0 \<le> c 0 \<and> file_live r (c 0) k \<longrightarrow> snd (file_claim J c k ttl' r2) = Inr False)"
proof -
  let ?kvs = "al_retain (\<lambda>ts. ts \<ge> unix_secs (clk 0) - default_ttl_secs r) (claims r)"
  let ?cut = "unix_secs (clk' 0) - default_ttl_secs r"
  obtain s where s: "contents (fr_disk r') = Some s" "from_str J s = Inr
      (map (\<lambda>(k, ts). \<lparr> key_hex = jhex_encode J k, seen_at_unix = ts \<rparr>) ?kvs)"
    using force_flush_disk [OF assms(1,3)] by blast
  have "distinct (al_keys ?kvs)" using assms(2) by (simp add: file_inv_def)
  then obtain cs where cs: "load_entries J path ?cut
      (map (\<lambda>(k, ts). \<lparr> key_hex = jhex_encode J k, seen_at_unix = ts \<rparr>) ?kvs) [] = Inr cs" "distinct (al_keys cs)"
    "\<forall>k. map_of cs k = (case map_of ?kvs k of Some ts \<Rightarrow> if ts \<ge> ?cut then Some ts else None
      | None \<Rightarrow> map_of ([] :: (bytes \<times> nat) list) k)"
    using load_entries_of [of J ?kvs "[]" path ?cut] assms(1) unfolding json_ok_def by auto
  let ?r2 = "\<lparr> fr_path = path, default_ttl_secs = default_ttl_secs r, fr_fail_closed = fc, claims = cs,
                   ops_since_flush = 0, last_flush = clk' 1, fr_disk = fr_disk r' \<rparr>"
  have "FileReplayStore_new J clk' path ttl fc None (fr_disk r') = Inr ?r2"
    using s cs(1) assms(4) by (simp add: FileReplayStore_new_def Let_def)
  moreover have i: "file_inv ?r2" using cs(2) by (simp add: file_inv_def)
  moreover have "snd (file_claim J c k ttl' ?r2) = Inr False" if h: "clk' 0 \<le> c 0" "file_live r (c 0) k" for c k ttl'
  proof -
    obtain ts where ts: "map_of (claims r) k = Some ts" "ts \<ge> unix_secs (c 0) - default_ttl_secs r"
      using h(2) by (auto simp: file_live_def split: option.splits)
    moreover have le: "unix_secs (clk 0) \<le> unix_secs (clk' 0)" "unix_secs (clk' 0) \<le> unix_secs (c 0)"
      using h(1) assms(5) by (simp_all add: unix_secs_def div_le_mono)
    moreover have "ts \<ge> unix_secs (clk 0) - default_ttl_secs r" using ts(2) le by linarith
    ultimately have "map_of cs k = Some ts"
      using cs(3) assms(2) by (simp add: map_of_al_retain file_inv_def del: map_of_eq_Some_iff)
    with ts(2) have "file_live ?r2 (c 0) k" by (simp add: file_live_def del: map_of_eq_Some_iff)
    then show ?thesis using file_claim_cases(2) [OF i] by blast
  qed
  ultimately show ?thesis by blast
qed

text \<open>A concrete codec: each character of the key preceded by \<open>c\<close>, the time in unary, a semicolon.\<close>

definition toy_print :: "FileEntry \<Rightarrow> string" where
  "toy_print e = concat (map (\<lambda>c. [CHR ''c'', c]) (key_hex e)) @ replicate (seen_at_unix e) (CHR ''t'') @ '';''"

fun toy_parse :: "string \<Rightarrow> nat \<Rightarrow> string \<Rightarrow> FileEntry list" where
  "toy_parse k n [] = []"
| "toy_parse k n (c # s) =
     (if c = CHR ''t'' then toy_parse k (n + 1) s
      else if c = CHR '';'' then \<lparr> key_hex = k, seen_at_unix = n \<rparr> # toy_parse [] 0 s
      else case s of [] \<Rightarrow> [] | d # s' \<Rightarrow> toy_parse (k @ [d]) n s')"

definition toy_json :: json_codec where
  "toy_json =
    \<lparr> to_vec = \<lambda>es. Inr (concat (map toy_print es)), from_str = \<lambda>s. Inr (toy_parse [] 0 s),
      jhex_encode = chars_of, jhex_decode = \<lambda>s. Inr (as_bytes s) \<rparr>"

lemma toy_json_ok: "json_ok toy_json"
proof -
  have k: "toy_parse k n (concat (map (\<lambda>c. [CHR ''c'', c]) w) @ s) = toy_parse (k @ w) n s" for k n w s
    by (induction w arbitrary: k) simp_all
  have t: "toy_parse k n (replicate m (CHR ''t'') @ s) = toy_parse k (n + m) s" for k n m s
    by (induction m arbitrary: n) simp_all
  have "toy_parse [] 0 (concat (map toy_print es)) = es" for es
    by (induction es) (simp_all add: toy_print_def k t)
  then show ?thesis by (simp add: json_ok_def toy_json_def)
qed

definition demo_file :: FileReplayStore where
  "demo_file = \<lparr> fr_path = ''r'', default_ttl_secs = 60, fr_fail_closed = True, claims = [([1], 5)], ops_since_flush = 1,
     last_flush = 0, fr_disk = \<lparr> contents = None, io_results = [] \<rparr> \<rparr>"

theorem claims_survive_restart_witness:
  "\<exists>r' r2. force_flush toy_json (\<lambda>_. 6000000000) demo_file = (r', Inr ()) \<and>
     FileReplayStore_new toy_json (\<lambda>_. 7000000000) ''r'' (from_secs 60) True None (fr_disk r') = Inr r2 \<and>
     snd (file_claim toy_json (\<lambda>_. 8000000000) [1] 0 r2) = Inr False"
proof -
  have "snd (force_flush toy_json (\<lambda>_. 6000000000) demo_file) = Inr ()"
    by (simp add: force_flush_def file_flush_def demo_file_def toy_json_def Let_def)
  then obtain r' where r': "force_flush toy_json (\<lambda>_. 6000000000) demo_file = (r', Inr ())" by (metis prod.collapse)
  have "file_inv demo_file" by (simp add: file_inv_def demo_file_def)
  moreover have "as_secs (from_secs 60) = default_ttl_secs demo_file"
    by (simp add: as_secs_def from_secs_def NS_PER_SEC_def demo_file_def)
  moreover have "file_live demo_file 8000000000 [1]" by (simp add: file_live_def demo_file_def unix_secs_def)
  ultimately show ?thesis
    using claims_survive_restart [OF toy_json_ok, of demo_file "\<lambda>_. 6000000000" r' "from_secs 60" "\<lambda>_. 7000000000" "''r''" True] r'
    by fastforce
qed

end
