(* ===== verification/Audit_Chain.thy ===== *)
theory Audit_Chain
  imports Crypto_Ext Key_Types
begin

text \<open>
  \<^verbatim>\<open>citadel-keystore/src/audit.rs\<close>: audit events and the integrity chain. \<open>json\<close> is the parameter for
  \<^verbatim>\<open>serde_json::to_string\<close> on events, \<open>hex\<close> for lower-case hexadecimal output. The sink that the chain wraps and the
  in-memory sink are the list of the events they recorded; the external witness is the list of the (sequence, hash) pairs
  published to it and whether the next publications succeed, which changes nothing in the chain. Events are recorded one at a time:
  the lock of the chain is held from the stamping to the update of the head.
\<close>

datatype AuditAction =
    KeyGenerated
  | KeyActivated
  | KeyRotated u32
  | KeyExpired string
  | KeyRevoked string
  | KeyDestroyedAction
  | EncryptionPerformed u32
  | DecryptionPerformed u32
  | DecryptionFailed u32
  | PolicyRegistered string
  | PolicyEvaluated string
  | ExpirationCheckRun nat nat
  | KeyRewrapped "string option" "string option" "u32 option"
  | HierarchyViolationAction string string string
  | PlaintextModeActivated string
  | PreflightFailed "string list"
  | WrappingGraphViolation nat string
  | ReplayDetected u32
  | AuthFailed string "string option"
  | AuthSuccess string string
  | SigningPerformed u32 nat
  | SigningFailed u32 string
  | VerificationPerformed u32 bool

record AuditEvent =
  ev_timestamp :: DateTime
  ev_key_id :: "KeyId option"
  ev_key_type :: "KeyType option"
  ev_key_state :: "KeyState option"
  action :: AuditAction
  actor :: string
  success :: bool
  ev_detail :: "string option"
  ev_sequence :: "u64 option"
  prev_hash :: "string option"

definition key_event :: "DateTime \<Rightarrow> KeyId \<Rightarrow> KeyType \<Rightarrow> KeyState \<Rightarrow> AuditAction \<Rightarrow> AuditEvent" where
  "key_event now kid kt st act =
    \<lparr> ev_timestamp = now, ev_key_id = Some kid, ev_key_type = Some kt, ev_key_state = Some st, action = act,
      actor = ''system'', success = True, ev_detail = None, ev_sequence = None, prev_hash = None \<rparr>"

definition system_event :: "DateTime \<Rightarrow> AuditAction \<Rightarrow> AuditEvent" where
  "system_event now act =
    \<lparr> ev_timestamp = now, ev_key_id = None, ev_key_type = None, ev_key_state = None, action = act,
      actor = ''system'', success = True, ev_detail = None, ev_sequence = None, prev_hash = None \<rparr>"

definition ev_with_detail :: "AuditEvent \<Rightarrow> string \<Rightarrow> AuditEvent" where
  "ev_with_detail e d = e\<lparr> ev_detail := Some d \<rparr>"

definition with_actor :: "AuditEvent \<Rightarrow> string \<Rightarrow> AuditEvent" where
  "with_actor e a = e\<lparr> actor := a \<rparr>"

definition with_failure :: "AuditEvent \<Rightarrow> AuditEvent" where
  "with_failure e = e\<lparr> success := False \<rparr>"

definition events_for_key :: "AuditEvent list \<Rightarrow> KeyId \<Rightarrow> AuditEvent list" where
  "events_for_key events kid = filter (\<lambda>e. ev_key_id e = Some kid) events"

section \<open>The integrity chain\<close>

record ChainState =
  cs_sequence :: u64
  cs_prev_hash :: string

record IntegrityChainSink =
  inner :: "AuditEvent list"
  chain_state :: ChainState
  witness :: "(u64 \<times> bytes) list option"
  anchor_interval :: u64

definition genesis :: "crypto \<Rightarrow> (bytes \<Rightarrow> string) \<Rightarrow> string" where
  "genesis X hex = hex (sha256_digest X (as_bytes ''citadel-audit-genesis''))"

definition with_witness ::
  "crypto \<Rightarrow> (bytes \<Rightarrow> string) \<Rightarrow> AuditEvent list \<Rightarrow> (u64 \<times> bytes) list option \<Rightarrow> u64 \<Rightarrow> IntegrityChainSink" where
  "with_witness X hex inn w interval =
    \<lparr> inner = inn, chain_state = \<lparr> cs_sequence = 0, cs_prev_hash = genesis X hex \<rparr>, witness = w,
      anchor_interval = interval \<rparr>"

definition IntegrityChainSink_new :: "crypto \<Rightarrow> (bytes \<Rightarrow> string) \<Rightarrow> AuditEvent list \<Rightarrow> IntegrityChainSink" where
  "IntegrityChainSink_new X hex inn = with_witness X hex inn None 1000"

text \<open>\<open>unhex\<close> is \<^verbatim>\<open>hex::decode(..).unwrap_or_default()\<close>. A remainder by a zero interval panics in the code; the
  interval is positive where the property needs it.\<close>

definition chain_record ::
  "crypto \<Rightarrow> (bytes \<Rightarrow> string) \<Rightarrow> (string \<Rightarrow> bytes) \<Rightarrow> (AuditEvent \<Rightarrow> string option) \<Rightarrow> AuditEvent \<Rightarrow>
   IntegrityChainSink \<Rightarrow> IntegrityChainSink" where
  "chain_record X hex unhex json event0 s =
    (let st = chain_state s;
         event = event0\<lparr> ev_sequence := Some (cs_sequence st), prev_hash := Some (cs_prev_hash st) \<rparr>;
         h = (case json event of Some j \<Rightarrow> hex (sha256_digest X (as_bytes j)) | None \<Rightarrow> cs_prev_hash st);
         w = (if cs_sequence st > 0 \<and> cs_sequence st mod anchor_interval s = 0
              then map_option (\<lambda>published. published @ [(cs_sequence st, unhex h)]) (witness s) else witness s)
     in s\<lparr> chain_state := \<lparr> cs_sequence = cs_sequence st + 1, cs_prev_hash = h \<rparr>,
           witness := w, inner := inner s @ [event] \<rparr>)"

section \<open>Lemmas\<close>

abbreviation recorded ::
  "crypto \<Rightarrow> (bytes \<Rightarrow> string) \<Rightarrow> (string \<Rightarrow> bytes) \<Rightarrow> (AuditEvent \<Rightarrow> string option) \<Rightarrow> AuditEvent list \<Rightarrow>
   (u64 \<times> bytes) list option \<Rightarrow> u64 \<Rightarrow> IntegrityChainSink" where
  "recorded X hex unhex json es w interval \<equiv> fold (chain_record X hex unhex json) es (with_witness X hex [] w interval)"

definition unstamped :: "AuditEvent \<Rightarrow> AuditEvent" where
  "unstamped e = e\<lparr> ev_sequence := None, prev_hash := None \<rparr>"

definition sha256_collision :: "crypto \<Rightarrow> bytes \<Rightarrow> bytes \<Rightarrow> bool" where
  "sha256_collision X a b \<longleftrightarrow> a \<noteq> b \<and> sha256_digest X a = sha256_digest X b"

definition event_bytes :: "(AuditEvent \<Rightarrow> string option) \<Rightarrow> AuditEvent \<Rightarrow> bytes" where
  "event_bytes json e = (case json e of Some j \<Rightarrow> as_bytes j | None \<Rightarrow> [])"

lemma chain_record_inner:
  "inner (chain_record X hex unhex json e s) =
     inner s @ [e\<lparr> ev_sequence := Some (cs_sequence (chain_state s)), prev_hash := Some (cs_prev_hash (chain_state s)) \<rparr>]"
  by (simp add: chain_record_def Let_def)

lemma chain_log:
  "length (inner (recorded X hex unhex json es w interval)) = length es"
  "map unstamped (inner (recorded X hex unhex json es w interval)) = map unstamped es"
  "cs_sequence (chain_state (recorded X hex unhex json es w interval)) = word_of_nat (length es)"
proof (induction es rule: rev_induct)
  case (snoc e es)
  have "cs_sequence (chain_state (chain_record X hex unhex json e s)) = cs_sequence (chain_state s) + 1" for s
    by (simp add: chain_record_def Let_def)
  note step = this chain_record_inner
  { case 1 show ?case using snoc by (simp add: step) }
  { case 2 show ?case using snoc by (simp add: step unstamped_def) }
  { case 3 show ?case using snoc by (simp add: step add.commute) }
qed (simp_all add: with_witness_def)

lemma chain_head:
  assumes "s = recorded X hex unhex json (es @ [e]) w interval"
    and "list_all (\<lambda>e. json e \<noteq> None) (inner s)"
  obtains e' where "inner s = inner (recorded X hex unhex json es w interval) @ [e']"
    and "ev_sequence e' = Some (word_of_nat (length es))"
    and "prev_hash e' = Some (cs_prev_hash (chain_state (recorded X hex unhex json es w interval)))"
    and "json e' \<noteq> None" "cs_prev_hash (chain_state s) = hex (sha256_digest X (event_bytes json e'))"
proof -
  let ?r = "recorded X hex unhex json es w interval"
  let ?e = "e\<lparr> ev_sequence := Some (cs_sequence (chain_state ?r)), prev_hash := Some (cs_prev_hash (chain_state ?r)) \<rparr>"
  have i: "inner s = inner ?r @ [?e]" using assms(1) by (simp add: chain_record_inner)
  with assms(2) have j: "json ?e \<noteq> None" by (simp add: list_all_iff)
  then have "cs_prev_hash (chain_state s) = hex (sha256_digest X (event_bytes json ?e))"
    using assms(1) by (auto simp: chain_record_def Let_def event_bytes_def)
  with i j show ?thesis by (intro that [of ?e]) (simp_all add: chain_log)
qed

text \<open>Two chains with one head: the last entries in which the logs differ collide.\<close>

lemma chain_heads_agree:
  fixes X :: crypto and hex :: "bytes \<Rightarrow> string" and unhex :: "string \<Rightarrow> bytes" and json :: "AuditEvent \<Rightarrow> string option"
  defines "run \<equiv> \<lambda>es w interval. recorded X hex unhex json es w interval"
  assumes "cs_prev_hash (chain_state (run es w i)) = cs_prev_hash (chain_state (run fs v j))"
    and "length es < 2 ^ 64" "length fs < 2 ^ 64" "inj hex"
    and "list_all (\<lambda>e. json e \<noteq> None \<and> event_bytes json e \<noteq> as_bytes ''citadel-audit-genesis'') (inner (run es w i) @ inner (run fs v j))"
    and "inj_on json (set (inner (run es w i) @ inner (run fs v j)))"
  shows "inner (run es w i) = inner (run fs v j) \<or>
    (\<exists>l m e f x. inner (run es w i) = l @ e # x \<and> inner (run fs v j) = m @ f # x \<and>
       sha256_collision X (event_bytes json e) (event_bytes json f)) \<or>
    (\<exists>l e. (inner (run es w i), inner (run fs v j)) \<in> {(l @ [e], []), ([], l @ [e])} \<and>
       sha256_collision X (event_bytes json e) (as_bytes ''citadel-audit-genesis''))"
  using assms(2-4,6,7)
proof (induction es arbitrary: fs rule: rev_induct)
  case Nil
  show ?case
  proof (cases fs rule: rev_cases)
    case (snoc fs' f)
    have "list_all (\<lambda>e. json e \<noteq> None) (inner (run fs v j))" using Nil.prems(4) by (simp add: list_all_iff)
    from chain_head [OF _ this, unfolded run_def snoc, OF refl] obtain f' where f:
      "inner (run fs v j) = inner (run fs' v j) @ [f']" "cs_prev_hash (chain_state (run fs v j)) = hex (sha256_digest X (event_bytes json f'))"
      unfolding run_def snoc by metis
    have "cs_prev_hash (chain_state (run [] w i)) = hex (sha256_digest X (as_bytes ''citadel-audit-genesis''))"
      by (simp add: run_def with_witness_def genesis_def)
    then have "sha256_digest X (event_bytes json f') = sha256_digest X (as_bytes ''citadel-audit-genesis'')"
      using Nil.prems(1) f(2) injD [OF assms(5)] by metis
    moreover have "event_bytes json f' \<noteq> as_bytes ''citadel-audit-genesis''" using Nil.prems(4) f(1) by (simp add: list_all_iff)
    moreover have "inner (run [] w i) = []" by (simp add: run_def with_witness_def)
    ultimately show ?thesis using f(1) unfolding sha256_collision_def by simp
  qed (simp add: run_def with_witness_def)
next
  case (snoc e es)
  have tot: "list_all (\<lambda>e. json e \<noteq> None) (inner (run (es @ [e]) w i))" "list_all (\<lambda>e. json e \<noteq> None) (inner (run fs v j))"
    using snoc.prems(4) by (simp_all add: list_all_iff)
  from chain_head [OF _ tot(1) [unfolded run_def], OF refl] obtain e' where e:
    "inner (run (es @ [e]) w i) = inner (run es w i) @ [e']" "ev_sequence e' = Some (word_of_nat (length es))"
    "prev_hash e' = Some (cs_prev_hash (chain_state (run es w i)))" "json e' \<noteq> None"
    "cs_prev_hash (chain_state (run (es @ [e]) w i)) = hex (sha256_digest X (event_bytes json e'))"
    unfolding run_def by metis
  show ?case
  proof (cases fs rule: rev_cases)
    case Nil
    have "cs_prev_hash (chain_state (run fs v j)) = hex (sha256_digest X (as_bytes ''citadel-audit-genesis''))"
      by (simp add: Nil run_def with_witness_def genesis_def)
    then have "sha256_digest X (event_bytes json e') = sha256_digest X (as_bytes ''citadel-audit-genesis'')"
      using snoc.prems(1) e(5) injD [OF assms(5)] by metis
    moreover have "event_bytes json e' \<noteq> as_bytes ''citadel-audit-genesis''" using snoc.prems(4) e(1) by (simp add: list_all_iff)
    moreover have "inner (run fs v j) = []" by (simp add: Nil run_def with_witness_def)
    ultimately show ?thesis using e(1) unfolding sha256_collision_def by simp
  next
    case fs: (snoc fs' f)
    from chain_head [OF _ tot(2) [unfolded run_def fs], OF refl] obtain f' where f:
      "inner (run fs v j) = inner (run fs' v j) @ [f']" "ev_sequence f' = Some (word_of_nat (length fs'))"
      "prev_hash f' = Some (cs_prev_hash (chain_state (run fs' v j)))" "json f' \<noteq> None"
      "cs_prev_hash (chain_state (run fs v j)) = hex (sha256_digest X (event_bytes json f'))"
      unfolding run_def fs by metis
    have d: "sha256_digest X (event_bytes json e') = sha256_digest X (event_bytes json f')"
      using snoc.prems(1) e(5) f(5) injD [OF assms(5)] by metis
    show ?thesis
    proof (cases "event_bytes json e' = event_bytes json f'")
      case False
      with d e(1) f(1) show ?thesis unfolding sha256_collision_def by blast
    next
      case True
      then have "json e' = json f'" using e(4) f(4) by (auto simp: event_bytes_def)
      then have same: "e' = f'" by (rule inj_onD [OF snoc.prems(5)]) (simp_all add: e(1) f(1))
      then have len: "length es = length fs'"
        using e(2) f(2) snoc.prems(2,3) fs by (simp add: word_of_nat_eq_iff take_bit_nat_eq_self)
      have "inner (run es w i) = inner (run fs' v j) \<or>
        (\<exists>l m e f x. inner (run es w i) = l @ e # x \<and> inner (run fs' v j) = m @ f # x \<and>
           sha256_collision X (event_bytes json e) (event_bytes json f)) \<or>
        (\<exists>l e. (inner (run es w i), inner (run fs' v j)) \<in> {(l @ [e], []), ([], l @ [e])} \<and>
           sha256_collision X (event_bytes json e) (as_bytes ''citadel-audit-genesis''))"
        by (rule snoc.IH)
          (use e(1,3) f(1,3) same snoc.prems fs in \<open>simp_all add: list_all_iff inj_on_subset [OF snoc.prems(5)] subset_iff\<close>)
      moreover have "length (inner (run es w i)) = length (inner (run fs' v j))" by (simp add: run_def chain_log len)
      ultimately show ?thesis using e(1) f(1) same by auto
    qed
  qed
qed

section \<open>Properties\<close>

text \<open>C35: the audit chain is tamper evident. Record any two sequences of events, say the events of the original log and those of an
  altered one, each on a new chain. If the chains end in the same head hash, the logs are the same entry by entry, stamps included, and the
  events recorded are the same up to the two stamped fields: an insertion, deletion, reordering or change of an event changes the head. Otherwise
  SHA-256 has a collision on the texts of two entries at hand: the last entries in which the two logs differ, or, when one log is
  empty, the last entry of the other one and the text behind the genesis hash. Logs are shorter than \<open>2 ^ 64\<close>; \<^verbatim>\<open>serde_json\<close> writes every
  event, different texts for different ones, and never the genesis text, which is no JSON; the anchor interval, by which the code divides, is
  positive.\<close>

theorem audit_chain_tamper_evident:
  assumes "s = fold (chain_record X hex unhex json) es (with_witness X hex [] w i)"
    and "t = fold (chain_record X hex unhex json) fs (with_witness X hex [] v j)"
    and "cs_prev_hash (chain_state s) = cs_prev_hash (chain_state t)"
    and "length es < 2 ^ 64" "length fs < 2 ^ 64" "0 < i" "0 < j" "inj hex"
    and "list_all (\<lambda>e. json e \<noteq> None \<and> json e \<noteq> Some ''citadel-audit-genesis'') (inner s @ inner t)"
    and "inj_on json (set (inner s @ inner t))"
  shows "inner s = inner t \<and> map unstamped es = map unstamped fs \<or>
    (\<exists>l m e f x. inner s = l @ e # x \<and> inner t = m @ f # x \<and>
       sha256_collision X (event_bytes json e) (event_bytes json f)) \<or>
    (\<exists>l e. (inner s, inner t) \<in> {(l @ [e], []), ([], l @ [e])} \<and> sha256_collision X (event_bytes json e) (as_bytes ''citadel-audit-genesis''))"
proof -
  have "event_bytes json e \<noteq> as_bytes ''citadel-audit-genesis''" if "json e \<noteq> None \<and> json e \<noteq> Some ''citadel-audit-genesis''" for e
    using that by (auto simp: event_bytes_def)
  then have "list_all (\<lambda>e. json e \<noteq> None \<and> event_bytes json e \<noteq> as_bytes ''citadel-audit-genesis'') (inner s @ inner t)"
    using assms(9) by (simp add: list_all_iff)
  from chain_heads_agree [OF assms(3) [unfolded assms(1,2)] assms(4,5,8) this [unfolded assms(1,2)] assms(10) [unfolded assms(1,2)]]
  show ?thesis unfolding assms(1,2) using chain_log(2) by metis
qed

definition demo_json :: "AuditEvent \<Rightarrow> string option" where
  "demo_json e = Some (replicate (nat (ev_timestamp e)) (CHR ''.''))"

theorem audit_chain_tamper_evident_witness:
  "inner (chain_record toy_crypto chars_of as_bytes demo_json (system_event 1 KeyActivated) (with_witness toy_crypto chars_of [] None 1000)) \<noteq> [] \<and>
   map unstamped [system_event 1 KeyActivated] = map unstamped [(system_event 1 KeyActivated)\<lparr> prev_hash := Some ''00'' \<rparr>]"
proof -
  let ?e = "system_event 1 KeyActivated" and ?f = "(system_event 1 KeyActivated)\<lparr> prev_hash := Some ''00'' \<rparr>"
  let ?s = "fold (chain_record toy_crypto chars_of as_bytes demo_json) [?e] (with_witness toy_crypto chars_of [] None 1000)"
  let ?t = "fold (chain_record toy_crypto chars_of as_bytes demo_json) [?f] (with_witness toy_crypto chars_of [] None 1000)"
  have same: "?s = ?t" by (simp add: chain_record_def Let_def)
  have l: "\<exists>e. inner ?s = [e] \<and> ev_timestamp e = 1" by (simp add: chain_record_inner with_witness_def system_event_def)
  then obtain e where e: "inner ?s = [e]" "ev_timestamp e = 1" by blast
  have "(0 :: u64) < 1000" by simp
  note c = audit_chain_tamper_evident [OF refl refl, of toy_crypto chars_of as_bytes demo_json "[?e]" None 1000 "[?f]" None 1000]
  have "list_all (\<lambda>e. demo_json e \<noteq> None \<and> demo_json e \<noteq> Some ''citadel-audit-genesis'') (inner ?s @ inner ?t)"
    using e unfolding same [symmetric] by (simp add: demo_json_def)
  moreover have "inj_on demo_json (set (inner ?s @ inner ?t))" using e unfolding same [symmetric] by simp
  moreover have "\<not> sha256_collision toy_crypto (event_bytes demo_json e) (event_bytes demo_json e)" by (simp add: sha256_collision_def)
  ultimately have "map unstamped [?e] = map unstamped [?f]"
    using c inj_chars_of e unfolding same [symmetric] by (auto simp: Cons_eq_append_conv)
  then show ?thesis using e by simp
qed

end
