(* ===== verification/Storage.thy ===== *)
theory Storage
  imports Key_Types
begin

text \<open>
  \<^verbatim>\<open>citadel-keystore/src/error.rs\<close> and \<^verbatim>\<open>storage.rs\<close>: the errors of the keystore and the storage back ends. The trait
  \<^verbatim>\<open>StorageBackend\<close> is a record of functions on a store state, every operation of which may fail; the locale
  \<open>storage_backend\<close> is the contract the keystore relies on, also for a write that reports an error (it happened or it
  did not) and for the overwriting of a key file (the key may be unreadable until it is written again).
  The in-memory back end interprets it. The newtype errors of single operations
  (\<^verbatim>\<open>GenerateError\<close>, \<^verbatim>\<open>LifecycleError\<close>, ...) are the error they wrap.
\<close>

section \<open>Errors\<close>

datatype KeystoreError =
    KeyNotFound KeyId
  | InvalidTransition KeyId KeyState KeyState
  | PolicyViolation string
  | StorageError string
  | EnvelopeError string
  | DuplicateKey KeyId
  | KeyDestroyed KeyId
  | NotActive KeyId
  | NotDecryptable KeyId
  | PolicyNotFound string
  | ParentKeyNotFound KeyId
  | HierarchyViolation string

fun show_error :: "KeystoreError \<Rightarrow> string" where
  "show_error (KeyNotFound i) = ''key not found: '' @ i"
| "show_error (InvalidTransition i f t) =
     ''invalid transition for '' @ i @ '': '' @ state_label f @ '' '' @ right_arrow @ '' '' @ state_label t"
| "show_error (PolicyViolation msg) = ''policy violation: '' @ msg"
| "show_error (StorageError msg) = ''storage error: '' @ msg"
| "show_error (EnvelopeError msg) = ''envelope error: '' @ msg"
| "show_error (DuplicateKey i) = ''duplicate key: '' @ i"
| "show_error (KeyDestroyed i) = ''key destroyed: '' @ i"
| "show_error (NotActive i) = ''key not active: '' @ i"
| "show_error (NotDecryptable i) = ''key cannot decrypt: '' @ i"
| "show_error (PolicyNotFound i) = ''policy not found: '' @ i"
| "show_error (ParentKeyNotFound i) =
     ''parent key not found: '' @ i @ '' (wrapping_key_id references a missing key)''"
| "show_error (HierarchyViolation msg) = ''hierarchy violation: '' @ msg"

section \<open>Back ends\<close>

record 's StorageBackend =
  sb_get :: "KeyId \<Rightarrow> 's \<Rightarrow> KeystoreError + KeyMetadata option"
  sb_put :: "KeyMetadata \<Rightarrow> 's \<Rightarrow> 's \<times> (KeystoreError + unit)"
  sb_delete :: "KeyId \<Rightarrow> 's \<Rightarrow> 's \<times> (KeystoreError + unit)"
  sb_list :: "'s \<Rightarrow> KeystoreError + KeyMetadata list"
  sb_list_by_state :: "KeyState \<Rightarrow> 's \<Rightarrow> KeystoreError + KeyMetadata list"
  sb_list_by_parent :: "KeyId \<Rightarrow> 's \<Rightarrow> KeystoreError + KeyMetadata list"
  sb_overwrite_key_file :: "KeyId \<Rightarrow> 's \<Rightarrow> 's \<times> (KeystoreError + unit)"

type_synonym InMemoryBackend = "(KeyId \<times> KeyMetadata) list"

definition mem_get :: "KeyId \<Rightarrow> InMemoryBackend \<Rightarrow> KeystoreError + KeyMetadata option" where
  "mem_get i keys = Inr (map_of keys i)"

definition mem_put :: "KeyMetadata \<Rightarrow> InMemoryBackend \<Rightarrow> InMemoryBackend \<times> (KeystoreError + unit)" where
  "mem_put meta keys = (al_put (km_id meta) meta keys, Inr ())"

definition mem_delete :: "KeyId \<Rightarrow> InMemoryBackend \<Rightarrow> InMemoryBackend \<times> (KeystoreError + unit)" where
  "mem_delete i keys = (al_del i keys, Inr ())"

definition mem_list :: "InMemoryBackend \<Rightarrow> KeystoreError + KeyMetadata list" where
  "mem_list keys = Inr (map snd keys)"

definition mem_list_by_state :: "KeyState \<Rightarrow> InMemoryBackend \<Rightarrow> KeystoreError + KeyMetadata list" where
  "mem_list_by_state st keys = Inr (filter (\<lambda>k. km_state k = st) (map snd keys))"

definition mem_list_by_parent :: "KeyId \<Rightarrow> InMemoryBackend \<Rightarrow> KeystoreError + KeyMetadata list" where
  "mem_list_by_parent p keys = Inr (filter (\<lambda>k. parent_id k = Some p) (map snd keys))"

text \<open>The default of the trait.\<close>

definition default_overwrite_key_file :: "KeyId \<Rightarrow> 's \<Rightarrow> 's \<times> (KeystoreError + unit)" where
  "default_overwrite_key_file i s = (s, Inr ())"

definition InMemory :: "InMemoryBackend StorageBackend" where
  "InMemory = \<lparr> sb_get = mem_get, sb_put = mem_put, sb_delete = mem_delete, sb_list = mem_list,
     sb_list_by_state = mem_list_by_state, sb_list_by_parent = mem_list_by_parent,
     sb_overwrite_key_file = default_overwrite_key_file \<rparr>"

section \<open>The contract\<close>

locale storage_backend =
  fixes SB :: "'s StorageBackend"
    and sinv :: "'s \<Rightarrow> bool"
  assumes put_inv: "sinv s \<Longrightarrow> sinv (fst (sb_put SB m s))"
    and overwrite_inv: "sinv s \<Longrightarrow> sinv (fst (sb_overwrite_key_file SB i s))"
    and get_id: "sinv s \<Longrightarrow> sb_get SB i s = Inr (Some m) \<Longrightarrow> km_id m = i"
    and put_other: "sinv s \<Longrightarrow> i \<noteq> km_id m \<Longrightarrow> sb_get SB i (fst (sb_put SB m s)) = sb_get SB i s"
    and put_ok: "sinv s \<Longrightarrow> snd (sb_put SB m s) = Inr () \<Longrightarrow> sb_get SB (km_id m) (fst (sb_put SB m s)) = Inr (Some m)"
    and put_err: "sinv s \<Longrightarrow> snd (sb_put SB m s) \<noteq> Inr () \<Longrightarrow>
      sb_get SB (km_id m) (fst (sb_put SB m s)) \<in> {Inr (Some m), sb_get SB (km_id m) s}"
    and overwrite_other: "sinv s \<Longrightarrow> i \<noteq> j \<Longrightarrow> sb_get SB i (fst (sb_overwrite_key_file SB j s)) = sb_get SB i s"
    and overwrite_same: "sinv s \<Longrightarrow> sb_get SB j (fst (sb_overwrite_key_file SB j s)) = sb_get SB j s \<or>
      (\<exists>e. sb_get SB j (fst (sb_overwrite_key_file SB j s)) = Inl e)"
    and list_by_state_ok: "sinv s \<Longrightarrow> sb_list_by_state SB st s = Inr ms \<Longrightarrow>
      m \<in> set ms \<longleftrightarrow> sb_get SB (km_id m) s = Inr (Some m) \<and> km_state m = st"
    and list_by_parent_ok: "sinv s \<Longrightarrow> sb_list_by_parent SB p s = Inr ms \<Longrightarrow>
      m \<in> set ms \<longleftrightarrow> sb_get SB (km_id m) s = Inr (Some m) \<and> parent_id m = Some p"
    and list_by_parent_distinct: "sinv s \<Longrightarrow> sb_list_by_parent SB p s = Inr ms \<Longrightarrow> distinct (map km_id ms)"
begin

lemma put_get:
  "sinv s \<Longrightarrow> sb_get SB i (fst (sb_put SB m s)) = Inr (Some m') \<Longrightarrow>
     (i = km_id m \<and> m' = m) \<or> sb_get SB i s = Inr (Some m')"
  using put_other [of s i m] put_ok [of s m] put_err [of s m]
  by (cases "i = km_id m"; cases "snd (sb_put SB m s) = Inr ()") auto

end

definition mem_sinv :: "InMemoryBackend \<Rightarrow> bool" where
  "mem_sinv keys \<longleftrightarrow> distinct (al_keys keys) \<and> (\<forall>(i, m) \<in> set keys. km_id m = i)"

lemma mem_sinv_get: "mem_sinv keys \<Longrightarrow> map_of keys i = Some m \<longleftrightarrow> (i, m) \<in> set keys"
  by (simp add: mem_sinv_def)

lemma mem_sinv_member: "mem_sinv keys \<Longrightarrow> m \<in> snd ` set keys \<longleftrightarrow> map_of keys (km_id m) = Some m"
  by (force simp: mem_sinv_def rev_image_eqI)

interpretation in_memory: storage_backend InMemory mem_sinv
proof
  fix s :: InMemoryBackend and m :: KeyMetadata and i j p st ms
  note d = InMemory_def mem_get_def mem_put_def mem_list_by_state_def mem_list_by_parent_def default_overwrite_key_file_def
  assume inv: "mem_sinv s"
  show "mem_sinv (fst (sb_put InMemory m s))"
    using inv by (auto simp: d mem_sinv_def set_al_put)
  show "mem_sinv (fst (sb_overwrite_key_file InMemory i s))" using inv by (simp add: d)
  show "sb_get InMemory i s = Inr (Some m) \<Longrightarrow> km_id m = i" using inv by (auto simp: d mem_sinv_def)
  show "i \<noteq> km_id m \<Longrightarrow> sb_get InMemory i (fst (sb_put InMemory m s)) = sb_get InMemory i s" by (simp add: d)
  show "sb_get InMemory (km_id m) (fst (sb_put InMemory m s)) = Inr (Some m)" by (simp add: d)
  show "sb_get InMemory (km_id m) (fst (sb_put InMemory m s)) \<in> {Inr (Some m), sb_get InMemory (km_id m) s}" by (simp add: d)
  show "i \<noteq> j \<Longrightarrow> sb_get InMemory i (fst (sb_overwrite_key_file InMemory j s)) = sb_get InMemory i s" by (simp add: d)
  show "sb_get InMemory j (fst (sb_overwrite_key_file InMemory j s)) = sb_get InMemory j s \<or>
      (\<exists>e. sb_get InMemory j (fst (sb_overwrite_key_file InMemory j s)) = Inl e)" by (simp add: d)
  show "sb_list_by_state InMemory st s = Inr ms \<Longrightarrow>
      m \<in> set ms \<longleftrightarrow> sb_get InMemory (km_id m) s = Inr (Some m) \<and> km_state m = st"
    using mem_sinv_member [OF inv, of m] by (force simp: d)
  show "sb_list_by_parent InMemory p s = Inr ms \<Longrightarrow>
      m \<in> set ms \<longleftrightarrow> sb_get InMemory (km_id m) s = Inr (Some m) \<and> parent_id m = Some p"
    using mem_sinv_member [OF inv, of m] by (force simp: d)
  have "map km_id (map snd s) = map fst s" using inv by (auto simp: mem_sinv_def)
  then have "distinct (map km_id (map snd s))" using inv unfolding mem_sinv_def by metis
  then show "sb_list_by_parent InMemory p s = Inr ms \<Longrightarrow> distinct (map km_id ms)"
    by (auto simp: d intro: distinct_map_filter)
qed

end
