(* ===== verification/Signer.thy ===== *)
theory Signer
  imports Crypto_Ext Policy "HOL-Library.List_Lexorder" "HOL-Library.Char_ord" "HOL-Library.Countable"
begin

text \<open>
  \<^verbatim>\<open>citadel-signer\<close>: the ML-DSA-65 surface of \<^verbatim>\<open>dsa.rs\<close> and the native assertions of \<^verbatim>\<open>assertion.rs\<close>. The
  \<^verbatim>\<open>ml_dsa\<close> crate is the record \<open>mldsa\<close>, \<^verbatim>\<open>serde_json::to_string\<close>, \<^verbatim>\<open>hex\<close> and \<^verbatim>\<open>timestamp_opt\<close> of chrono are functions of the record
  \<open>signer_env\<close>. A JSON object is an association list in the order of the B-tree map behind it.
\<close>

section \<open>Constants\<close>

definition MLDSA65_SEED_BYTES :: nat where "MLDSA65_SEED_BYTES = 32"
definition MLDSA65_VK_BYTES :: nat where "MLDSA65_VK_BYTES = 1952"
definition MLDSA65_SIG_BYTES :: nat where "MLDSA65_SIG_BYTES = 3309"
definition CNA_VERSION :: string where "CNA_VERSION = ''cna-v1''"

lemmas mldsa_consts = MLDSA65_SEED_BYTES_def MLDSA65_VK_BYTES_def MLDSA65_SIG_BYTES_def

section \<open>ML-DSA-65\<close>

record mldsa =
  vk_of_seed :: "bytes \<Rightarrow> bytes"
  try_sign :: "bytes \<Rightarrow> bytes \<Rightarrow> string + bytes"
  sig_decodes :: "bytes \<Rightarrow> bool"
  vk_verify :: "bytes \<Rightarrow> bytes \<Rightarrow> bytes \<Rightarrow> bool"

definition mldsa_ok :: "mldsa \<Rightarrow> bool" where
  "mldsa_ok M \<longleftrightarrow> (\<forall>seed. length seed = 32 \<longrightarrow> length (vk_of_seed M seed) = 1952 \<and>
     (\<forall>msg sig. try_sign M seed msg = Inr sig \<longrightarrow>
        length sig = 3309 \<and> sig_decodes M sig \<and> vk_verify M (vk_of_seed M seed) msg sig))"

text \<open>The errors are the messages inside \<^verbatim>\<open>SignError\<close> and \<^verbatim>\<open>VerifyError\<close>; \<open>show_sign_error\<close> is how they print.
  \<^verbatim>\<open>Seed::try_from\<close>, \<^verbatim>\<open>EncodedVerifyingKey::try_from\<close> and \<^verbatim>\<open>EncodedSignature::try_from\<close> fail on a wrong length only.\<close>

definition show_sign_error :: "string \<Rightarrow> string" where
  "show_sign_error e = ''SignError: '' @ e"

definition show_verify_error :: "string \<Rightarrow> string" where
  "show_verify_error e = ''VerifyError: '' @ e"

definition seed_array :: "bytes \<Rightarrow> string + bytes" where
  "seed_array = to_array MLDSA65_SEED_BYTES ''seed construction failed''"

definition generate_keypair :: "mldsa \<Rightarrow> bytes \<Rightarrow> string + bytes \<times> bytes" where
  "generate_keypair M seed_bytes =
    and_then (seed_array seed_bytes) (\<lambda>seed. Inr (vk_of_seed M seed, seed_bytes))"

definition check_seed_len :: "bytes \<Rightarrow> string + unit" where
  "check_seed_len seed =
    (if length seed \<noteq> MLDSA65_SEED_BYTES then
       Inl (''seed must be '' @ show_nat MLDSA65_SEED_BYTES @ '' bytes, got '' @ show_nat (length seed))
     else Inr ())"

definition verifying_key_from_seed :: "mldsa \<Rightarrow> bytes \<Rightarrow> string + bytes" where
  "verifying_key_from_seed M seed =
    and_then (check_seed_len seed) (\<lambda>_. and_then (seed_array seed) (\<lambda>s. Inr (vk_of_seed M s)))"

definition sign_message :: "mldsa \<Rightarrow> bytes \<Rightarrow> bytes \<Rightarrow> string + bytes" where
  "sign_message M seed message =
    and_then (check_seed_len seed) (\<lambda>_.
    and_then (seed_array seed) (\<lambda>s.
    map_err (\<lambda>e. ''ML-DSA sign: '' @ e) (try_sign M s message)))"

definition verify_message :: "mldsa \<Rightarrow> bytes \<Rightarrow> bytes \<Rightarrow> bytes \<Rightarrow> string + bool" where
  "verify_message M verifying_key message signature =
    (if length verifying_key \<noteq> MLDSA65_VK_BYTES then
       Inl (''verifying key must be '' @ show_nat MLDSA65_VK_BYTES @ '' bytes, got '' @ show_nat (length verifying_key))
     else if length signature \<noteq> MLDSA65_SIG_BYTES then
       Inl (''signature must be '' @ show_nat MLDSA65_SIG_BYTES @ '' bytes, got '' @ show_nat (length signature))
     else
       and_then (to_array MLDSA65_VK_BYTES ''verifying key decode failed'' verifying_key) (\<lambda>vk.
       and_then (to_array MLDSA65_SIG_BYTES ''signature decode failed'' signature) (\<lambda>sig.
       if \<not> sig_decodes M sig then Inl ''signature malformed'' else Inr (vk_verify M vk message sig))))"

section \<open>Assertions\<close>

datatype Value =
    JNull
  | JBool bool
  | JInt int
  | JFloat rat
  | JString string
  | JArray "Value list"
  | JObject "(string \<times> Value) list"

instance Value :: countable
  by countable_datatype

fun bt_insert :: "'k::linorder \<Rightarrow> 'v \<Rightarrow> ('k \<times> 'v) list \<Rightarrow> ('k \<times> 'v) list" where
  "bt_insert k v [] = [(k, v)]"
| "bt_insert k v ((k', v') # m) =
     (if k < k' then (k, v) # (k', v') # m else if k = k' then (k, v) # m else (k', v') # bt_insert k v m)"

record signer_env =
  s_mldsa :: mldsa
  json_to_string :: "Value \<Rightarrow> string + string"
  s_hex_encode :: "bytes \<Rightarrow> string"
  s_hex_decode :: "string \<Rightarrow> string + bytes"
  timestamp_opt :: "int \<Rightarrow> DateTime option"

definition signer_ok :: "signer_env \<Rightarrow> bool" where
  "signer_ok S \<longleftrightarrow> mldsa_ok (s_mldsa S) \<and> (\<forall>b. s_hex_decode S (s_hex_encode S b) = Inr b) \<and>
     (\<forall>v w s. json_to_string S v = Inr s \<and> json_to_string S w = Inr s \<longrightarrow> v = w)"

record CitadelAssertion =
  ca_version :: string
  ca_suite :: string
  signing_key_id :: string
  signing_key_version :: u32
  issued_at :: int
  expires_at :: int
  assertion_id :: string
  public_claims :: Value
  sealed_claims_hex :: "string option"
  sealed_claims_key_id :: "string option"
  sealed_claims_key_version :: "u32 option"
  signature_hex :: string

text \<open>\<^verbatim>\<open>now + ttl_secs as i64\<close>: the cast and the addition wrap (release builds do not check overflow).\<close>

definition expiry_of :: "int \<Rightarrow> u64 \<Rightarrow> int" where
  "expiry_of now ttl_secs = sint (word_of_int now + ttl_secs :: 64 word)"

definition build_unsigned ::
  "signer_env \<Rightarrow> int \<Rightarrow> bytes \<Rightarrow> string \<Rightarrow> u32 \<Rightarrow> Value \<Rightarrow> u64 \<Rightarrow> string option \<Rightarrow> string option \<Rightarrow> u32 option \<Rightarrow>
   string + CitadelAssertion" where
  "build_unsigned S now id_bytes kid ver claims ttl_secs sealed sealed_kid sealed_ver =
    Inr \<lparr> ca_version = CNA_VERSION, ca_suite = ''ml-dsa-65'', signing_key_id = kid, signing_key_version = ver,
      issued_at = now, expires_at = expiry_of now ttl_secs, assertion_id = s_hex_encode S id_bytes,
      public_claims = claims, sealed_claims_hex = sealed, sealed_claims_key_id = sealed_kid,
      sealed_claims_key_version = sealed_ver, signature_hex = '''' \<rparr>"

definition opt_insert :: "string \<Rightarrow> Value option \<Rightarrow> (string \<times> Value) list \<Rightarrow> (string \<times> Value) list" where
  "opt_insert k v m = (case v of None \<Rightarrow> m | Some x \<Rightarrow> bt_insert k x m)"

definition signing_map :: "CitadelAssertion \<Rightarrow> (string \<times> Value) list" where
  "signing_map a =
    opt_insert ''sealed_claims_key_version'' (map_option (\<lambda>v. JInt (uint v)) (sealed_claims_key_version a))
   (opt_insert ''sealed_claims_key_id'' (map_option JString (sealed_claims_key_id a))
   (opt_insert ''sealed_claims_hex'' (map_option JString (sealed_claims_hex a))
   (bt_insert ''public_claims'' (public_claims a)
   (bt_insert ''assertion_id'' (JString (assertion_id a))
   (bt_insert ''expires_at'' (JInt (expires_at a))
   (bt_insert ''issued_at'' (JInt (issued_at a))
   (bt_insert ''signing_key_version'' (JInt (uint (signing_key_version a)))
   (bt_insert ''signing_key_id'' (JString (signing_key_id a))
   (bt_insert ''suite'' (JString (ca_suite a))
   (bt_insert ''version'' (JString (ca_version a)) []))))))))))"

definition canonical_signing_input :: "signer_env \<Rightarrow> CitadelAssertion \<Rightarrow> string + bytes" where
  "canonical_signing_input S a =
    and_then (map_err (\<lambda>e. ''canonical serialize: '' @ e) (json_to_string S (JObject (signing_map a)))) (\<lambda>s.
    Inr (as_bytes s))"

record VerifiedClaims =
  vc_public_claims :: Value
  vc_assertion_id :: string
  vc_signing_key_id :: string
  vc_signing_key_version :: u32
  vc_issued_at :: DateTime
  vc_expires_at :: DateTime
  has_sealed_claims :: bool

text \<open>\<open>now\<close> is the clock in seconds; \<open>t1\<close> and \<open>t2\<close> are the readings used for timestamps chrono cannot represent.\<close>

definition cna_verify ::
  "signer_env \<Rightarrow> int \<Rightarrow> DateTime \<Rightarrow> DateTime \<Rightarrow> CitadelAssertion \<Rightarrow> bytes \<Rightarrow> string + VerifiedClaims" where
  "cna_verify S now t1 t2 a vk =
    (if ca_version a \<noteq> CNA_VERSION then
       Inl (''unsupported version '' @ quoted (ca_version a) @ '' (expected '' @ quoted CNA_VERSION @ '')'')
     else if ca_suite a \<noteq> ''ml-dsa-65'' then
       Inl (''unsupported suite '' @ quoted (ca_suite a) @ '' (expected '' @ quoted ''ml-dsa-65'' @ '')'')
     else if expires_at a \<le> now then
       Inl (''assertion expired at '' @ show_int (expires_at a) @ '' (now '' @ show_int now @ '')'')
     else
       and_then (canonical_signing_input S a) (\<lambda>signing_input.
       and_then (map_err (\<lambda>e. ''decode signature_hex: '' @ e) (s_hex_decode S (signature_hex a))) (\<lambda>sig_bytes.
       and_then (map_err (\<lambda>e. ''verification error: '' @ show_verify_error e)
         (verify_message (s_mldsa S) vk signing_input sig_bytes)) (\<lambda>valid.
       if \<not> valid then Inl ''signature invalid'' else
       Inr \<lparr> vc_public_claims = public_claims a, vc_assertion_id = assertion_id a, vc_signing_key_id = signing_key_id a,
         vc_signing_key_version = signing_key_version a,
         vc_issued_at = (case timestamp_opt S (issued_at a) of Some t \<Rightarrow> t | None \<Rightarrow> t1),
         vc_expires_at = (case timestamp_opt S (expires_at a) of Some t \<Rightarrow> t | None \<Rightarrow> t2),
         has_sealed_claims = (sealed_claims_hex a \<noteq> None) \<rparr>))))"

record CitadelAssertionIssuer =
  is_signing_key_id :: string
  is_signing_key_version :: u32
  is_seed_bytes :: bytes

definition Issuer_new :: "string \<Rightarrow> u32 \<Rightarrow> bytes \<Rightarrow> CitadelAssertionIssuer" where
  "Issuer_new kid ver seed = \<lparr> is_signing_key_id = kid, is_signing_key_version = ver, is_seed_bytes = seed \<rparr>"

definition issue_inner ::
  "signer_env \<Rightarrow> int \<Rightarrow> bytes \<Rightarrow> CitadelAssertionIssuer \<Rightarrow> Value \<Rightarrow> u64 \<Rightarrow> string option \<Rightarrow> string option \<Rightarrow> u32 option \<Rightarrow>
   string + CitadelAssertion" where
  "issue_inner S now id_bytes i claims ttl_secs sealed sealed_kid sealed_ver =
    (let assertion = \<lparr> ca_version = CNA_VERSION, ca_suite = ''ml-dsa-65'', signing_key_id = is_signing_key_id i,
           signing_key_version = is_signing_key_version i, issued_at = now, expires_at = expiry_of now ttl_secs,
           assertion_id = s_hex_encode S id_bytes, public_claims = claims, sealed_claims_hex = sealed,
           sealed_claims_key_id = sealed_kid, sealed_claims_key_version = sealed_ver, signature_hex = '''' \<rparr> in
     and_then (canonical_signing_input S assertion) (\<lambda>signing_input.
     and_then (map_err (\<lambda>e. ''signing failed: '' @ show_sign_error e)
       (sign_message (s_mldsa S) (is_seed_bytes i) signing_input)) (\<lambda>sig_bytes.
     Inr (assertion\<lparr> signature_hex := s_hex_encode S sig_bytes \<rparr>))))"

definition cna_issue ::
  "signer_env \<Rightarrow> int \<Rightarrow> bytes \<Rightarrow> CitadelAssertionIssuer \<Rightarrow> Value \<Rightarrow> u64 \<Rightarrow> string + CitadelAssertion" where
  "cna_issue S now id_bytes i claims ttl_secs = issue_inner S now id_bytes i claims ttl_secs None None None"

definition issue_with_sealed ::
  "signer_env \<Rightarrow> int \<Rightarrow> bytes \<Rightarrow> CitadelAssertionIssuer \<Rightarrow> Value \<Rightarrow> u64 \<Rightarrow> string \<Rightarrow> string \<Rightarrow> u32 \<Rightarrow> string + CitadelAssertion" where
  "issue_with_sealed S now id_bytes i claims ttl_secs sealed kid ver =
     issue_inner S now id_bytes i claims ttl_secs (Some sealed) (Some kid) (Some ver)"

section \<open>Lemmas\<close>

lemma map_of_bt_insert [simp]: "map_of (bt_insert k v m) = (map_of m)(k \<mapsto> v)"
  by (induction k v m rule: bt_insert.induct) (auto simp: fun_eq_iff)

lemma map_of_opt_insert: "map_of (opt_insert k v m) k' = (if k' = k \<and> v \<noteq> None then v else map_of m k')"
  by (auto simp: opt_insert_def split: option.split)

lemma sign_message_Inr:
  "sign_message M seed msg = Inr sig \<longleftrightarrow> length seed = 32 \<and> try_sign M seed msg = Inr sig"
  by (auto simp: sign_message_def check_seed_len_def seed_array_def to_array_def mldsa_consts)

lemma verify_message_Inr:
  "verify_message M vk msg sig = Inr b \<longleftrightarrow> length vk = 1952 \<and> length sig = 3309 \<and> sig_decodes M sig \<and> b = vk_verify M vk msg sig"
  by (auto simp: verify_message_def to_array_def mldsa_consts)

lemma cna_verify_Inr:
  "(\<exists>c. cna_verify S now t1 t2 a vk = Inr c) \<longleftrightarrow> ca_version a = CNA_VERSION \<and> ca_suite a = ''ml-dsa-65'' \<and> now < expires_at a \<and>
     (\<exists>input sig. canonical_signing_input S a = Inr input \<and> s_hex_decode S (signature_hex a) = Inr sig \<and>
        verify_message (s_mldsa S) vk input sig = Inr True)"
  by (auto simp: cna_verify_def)

text \<open>What is signed determines every field but the signature.\<close>

lemma signing_lookup:
  "map_of (signing_map a) ''version'' = Some (JString (ca_version a))"
  "map_of (signing_map a) ''suite'' = Some (JString (ca_suite a))"
  "map_of (signing_map a) ''signing_key_id'' = Some (JString (signing_key_id a))"
  "map_of (signing_map a) ''signing_key_version'' = Some (JInt (uint (signing_key_version a)))"
  "map_of (signing_map a) ''issued_at'' = Some (JInt (issued_at a))"
  "map_of (signing_map a) ''expires_at'' = Some (JInt (expires_at a))"
  "map_of (signing_map a) ''assertion_id'' = Some (JString (assertion_id a))"
  "map_of (signing_map a) ''public_claims'' = Some (public_claims a)"
  "map_of (signing_map a) ''sealed_claims_hex'' = map_option JString (sealed_claims_hex a)"
  "map_of (signing_map a) ''sealed_claims_key_id'' = map_option JString (sealed_claims_key_id a)"
  "map_of (signing_map a) ''sealed_claims_key_version'' = map_option (\<lambda>v. JInt (uint v)) (sealed_claims_key_version a)"
  by (simp_all add: signing_map_def map_of_opt_insert)

lemma map_option_eq_inj: "inj f \<Longrightarrow> map_option f x = map_option f y \<longleftrightarrow> x = y"
  by (cases x; cases y) (auto dest: injD)

lemma signing_map_inj:
  assumes "signing_map a = signing_map b"
  shows "b = a\<lparr> signature_hex := signature_hex b \<rparr>"
proof -
  note l = signing_lookup [of a, unfolded assms, unfolded signing_lookup [of b]]
  have i: "inj JString" "inj (\<lambda>v :: u32. JInt (uint v))" by (auto intro!: injI simp: word_uint_eqI)
  show ?thesis
    by (rule CitadelAssertion.equality) (use l in \<open>simp_all add: map_option_eq_inj i word_uint_eqI\<close>)
qed

lemma canonical_inj:
  assumes "signer_ok S" "canonical_signing_input S a = Inr x" "canonical_signing_input S b = Inr x"
  shows "b = a\<lparr> signature_hex := signature_hex b \<rparr>"
proof (rule signing_map_inj)
  obtain s t where "json_to_string S (JObject (signing_map a)) = Inr s" "json_to_string S (JObject (signing_map b)) = Inr t"
    "as_bytes s = as_bytes t"
    using assms(2,3) by (auto simp: canonical_signing_input_def)
  moreover from this have "s = t" by simp
  ultimately show "signing_map a = signing_map b" using assms(1) unfolding signer_ok_def by blast
qed

text \<open>The issuer's own time-to-live: the expiry is later than the clock while the sum stays below \<open>2\<^sup>63\<close>.\<close>

lemma expiry_of_exact:
  assumes "0 \<le> now" "now + uint ttl < 2 ^ 63"
  shows "expiry_of now ttl = now + uint ttl"
proof -
  have "expiry_of now ttl = signed_take_bit 63 (now + uint ttl)"
    by (simp add: expiry_of_def sint_uint uint_word_ariths uint_word_of_int signed_take_bit_eq_iff_take_bit_eq
        take_bit_eq_mod mod_simps)
  also have "\<dots> = now + uint ttl"
    using assms add_nonneg_nonneg [OF assms(1) uint_ge_0 [of ttl]] by (intro signed_take_bit_int_eq_self) linarith+
  finally show ?thesis .
qed

section \<open>A concrete signer\<close>

definition toy_mldsa :: mldsa where
  "toy_mldsa = \<lparr> vk_of_seed = (\<lambda>s. s @ replicate 1920 0), try_sign = (\<lambda>s m. Inr (replicate 3309 0)),
     sig_decodes = (\<lambda>_. True), vk_verify = (\<lambda>_ _ _. True) \<rparr>"

definition toy_signer :: signer_env where
  "toy_signer = \<lparr> s_mldsa = toy_mldsa, json_to_string = (\<lambda>v. Inr (replicate (to_nat v) CHR ''x'')),
     s_hex_encode = chars_of, s_hex_decode = (\<lambda>s. Inr (as_bytes s)), timestamp_opt = (\<lambda>s. Some (s * 1000000000)) \<rparr>"

lemma toy_signer_ok: "signer_ok toy_signer"
  by (auto simp: signer_ok_def toy_signer_def mldsa_ok_def toy_mldsa_def dest: arg_cong [of _ _ length])

section \<open>Properties\<close>

text \<open>An assertion that the issuer signs verifies. With a clock reading before the expiry, verification under the key of
  the issuer's seed returns the claims that were issued; the expiry is the issuing time plus the time-to-live.\<close>

lemma assertion_roundtrip:
  assumes "signer_ok S" "issue_inner S now id_bytes i claims ttl sealed sealed_kid sealed_ver = Inr a"
    and "0 \<le> now" "now + uint ttl < 2 ^ 63" "later < now + uint ttl"
  shows "\<exists>c. cna_verify S later t1 t2 a (vk_of_seed (s_mldsa S) (is_seed_bytes i)) = Inr c \<and>
    vc_public_claims c = claims \<and> vc_signing_key_id c = is_signing_key_id i \<and> has_sealed_claims c = (sealed \<noteq> None)"
proof -
  let ?M = "s_mldsa S" and ?seed = "is_seed_bytes i"
  obtain u input sig where u: "canonical_signing_input S u = Inr input" "sign_message ?M ?seed input = Inr sig"
    "a = u\<lparr> signature_hex := s_hex_encode S sig \<rparr>" "ca_version u = CNA_VERSION" "ca_suite u = ''ml-dsa-65''"
    "expires_at u = expiry_of now ttl" "public_claims u = claims" "signing_key_id u = is_signing_key_id i"
    "sealed_claims_hex u = sealed"
    using assms(2) by (auto simp: issue_inner_def Let_def)
  have "canonical_signing_input S a = Inr input" using u(1,3) by (simp add: canonical_signing_input_def signing_map_def)
  moreover have "verify_message ?M (vk_of_seed ?M ?seed) input sig = Inr True"
    using u(2) assms(1) by (auto simp: verify_message_Inr sign_message_Inr signer_ok_def mldsa_ok_def)
  ultimately show ?thesis
    using assms u by (simp add: cna_verify_def expiry_of_exact signer_ok_def)
qed

lemma assertion_roundtrip_witness:
  "\<exists>a c. issue_inner toy_signer 100 [1] (Issuer_new ''k'' 1 (replicate 32 7)) JNull 60 None None None = Inr a \<and>
     cna_verify toy_signer 130 0 0 a (vk_of_seed (s_mldsa toy_signer) (replicate 32 7)) = Inr c \<and> vc_public_claims c = JNull"
proof -
  let ?i = "Issuer_new ''k'' 1 (replicate 32 7)"
  have "\<exists>a. issue_inner toy_signer 100 [1] ?i JNull 60 None None None = Inr a"
    by (simp add: issue_inner_def Let_def canonical_signing_input_def toy_signer_def sign_message_def check_seed_len_def
        seed_array_def to_array_def mldsa_consts toy_mldsa_def Issuer_new_def)
  then obtain a where a: "issue_inner toy_signer 100 [1] ?i JNull 60 None None None = Inr a" ..
  from assertion_roundtrip [OF toy_signer_ok this, of 130 0 0] a show ?thesis by (auto simp: Issuer_new_def)
qed

text \<open>C40: the signature of an assertion covers every field. Another assertion has the same canonical signing input if and only if it agrees
  in every field but the signature itself. And verification accepts an assertion exactly when its version and suite are the supported
  ones, it is not expired and the decoded signature verifies over this very input; the claims it returns are those of the assertion.\<close>

theorem assertion_binds_fields:
  assumes "signer_ok S" "canonical_signing_input S a = Inr input"
  shows "(canonical_signing_input S b = Inr input \<longleftrightarrow>
      ca_version b = ca_version a \<and> ca_suite b = ca_suite a \<and> signing_key_id b = signing_key_id a \<and>
      signing_key_version b = signing_key_version a \<and> issued_at b = issued_at a \<and> expires_at b = expires_at a \<and>
      assertion_id b = assertion_id a \<and> public_claims b = public_claims a \<and> sealed_claims_hex b = sealed_claims_hex a \<and>
      sealed_claims_key_id b = sealed_claims_key_id a \<and> sealed_claims_key_version b = sealed_claims_key_version a) \<and>
    ((\<exists>c. cna_verify S now t1 t2 a vk = Inr c \<and> vc_public_claims c = public_claims a \<and> vc_assertion_id c = assertion_id a \<and>
        vc_signing_key_id c = signing_key_id a \<and> vc_signing_key_version c = signing_key_version a) \<longleftrightarrow>
      ca_version a = CNA_VERSION \<and> ca_suite a = ''ml-dsa-65'' \<and> now < expires_at a \<and>
      (\<exists>sig. s_hex_decode S (signature_hex a) = Inr sig \<and> verify_message (s_mldsa S) vk input sig = Inr True))"
    (is "(?same \<longleftrightarrow> ?fields) \<and> (?accepted \<longleftrightarrow> ?checks)")
proof
  show "?same \<longleftrightarrow> ?fields"
  proof
    assume ?same
    from canonical_inj [OF assms this] have b: "b = a\<lparr> signature_hex := signature_hex b \<rparr>" .
    show ?fields by (subst (1 2 3 4 5 6 7 8 9 10 11) b) simp
  next
    assume ?fields
    then have "signing_map b = signing_map a" by (simp add: signing_map_def)
    then show ?same using assms(2) by (simp add: canonical_signing_input_def)
  qed
  show "?accepted \<longleftrightarrow> ?checks" using assms(2) by (auto simp: cna_verify_def)
qed

theorem assertion_binds_fields_witness:
  "\<exists>a input. canonical_signing_input toy_signer a = Inr input \<and>
     canonical_signing_input toy_signer (a\<lparr> public_claims := JBool True \<rparr>) \<noteq> Inr input \<and>
     canonical_signing_input toy_signer (a\<lparr> signature_hex := ''0'' \<rparr>) = Inr input \<and>
     (\<exists>c. cna_verify toy_signer 0 0 0 a (replicate 1952 0) = Inr c)"
proof -
  define a where "a = \<lparr> ca_version = CNA_VERSION, ca_suite = ''ml-dsa-65'', signing_key_id = ''k'', signing_key_version = 1,
    issued_at = 1, expires_at = 2, assertion_id = ''i'', public_claims = JNull, sealed_claims_hex = None,
    sealed_claims_key_id = None, sealed_claims_key_version = None, signature_hex = chars_of (replicate 3309 0) \<rparr>"
  obtain input where i: "canonical_signing_input toy_signer a = Inr input"
    by (simp add: canonical_signing_input_def toy_signer_def)
  have v: "s_hex_decode toy_signer (signature_hex a) = Inr (replicate 3309 0)"
    "verify_message (s_mldsa toy_signer) (replicate 1952 0) input (replicate 3309 0) = Inr True"
    by (simp_all add: a_def toy_signer_def toy_mldsa_def verify_message_Inr)
  have f: "ca_version a = CNA_VERSION" "ca_suite a = ''ml-dsa-65''" "expires_at a = 2" "public_claims a = JNull" by (simp_all add: a_def)
  note binds = assertion_binds_fields [OF toy_signer_ok i]
  have "canonical_signing_input toy_signer (a\<lparr> public_claims := JBool True \<rparr>) \<noteq> Inr input"
    using binds [of "a\<lparr> public_claims := JBool True \<rparr>"] f by simp
  moreover have "canonical_signing_input toy_signer (a\<lparr> signature_hex := ''0'' \<rparr>) = Inr input"
    using binds [of "a\<lparr> signature_hex := ''0'' \<rparr>"] by simp
  moreover have "\<exists>c. cna_verify toy_signer 0 0 0 a (replicate 1952 0) = Inr c"
    using binds [of a 0 0 0 "replicate 1952 0"] f v by auto
  ultimately show ?thesis using i by blast
qed

end
