(* ===== verification/Keystore_Wrap.thy ===== *)
theory Keystore_Wrap
  imports Sdk Threat Storage Replay_Store Audit_Chain State_Enforcer Signer
begin

text \<open>
  \<^verbatim>\<open>citadel-keystore/src/keystore.rs\<close>, first part: the state of the keystore, and the wrapping and unwrapping of secret
  keys under the master key or under a parent key.

  An operation is a function from the keystore to a result and the keystore afterwards; \<open>bnd\<close> is Rust's sequencing
  with \<^verbatim>\<open>?\<close>. The state also holds what the operation will read from the outside: \<open>clock\<close> and \<open>draws\<close> are the readings of the
  clocks (nanoseconds) and of the random generator, \<open>tick\<close> and \<open>drawn\<close> how many were used. The record \<open>kenv\<close>
  holds the trait objects and the parameters for code outside the repository. The audit sink is the list of recorded events;
  the threat assessor shares it.
\<close>

section \<open>State\<close>

record rnd =
  r_id :: bytes
  r_keygen :: "bytes \<times> bytes"
  r_nonce :: bytes
  r_kem :: kem_rand
  r_env_nonce :: "bytes option"
  r_seed :: bytes

record ('s, 'r) kenv =
  k_sb :: "'s StorageBackend"
  k_rs :: "'r ReplayStore"
  k_crypto :: crypto
  k_prims :: prims
  k_mldsa :: mldsa
  hex_encode :: "bytes \<Rightarrow> string"
  hex_decode :: "string \<Rightarrow> string + bytes"
  hkdf_error :: string
  env_var :: "string \<Rightarrow> string option"
  k_powf :: "rat \<Rightarrow> rat \<Rightarrow> rat"

record ('s, 'r) Keystore =
  storage :: 's
  audit :: "AuditEvent list"
  policies :: "(string \<times> KeyPolicy) list"
  threat :: ThreatAssessor
  master_key :: "bytes option"
  root_key_provider_name :: "string option"
  replay_cache :: 'r
  enforcer :: "StateEnforcer option"
  clock :: "nat \<Rightarrow> nat"
  tick :: nat
  draws :: "nat \<Rightarrow> rnd"
  drawn :: nat

type_synonym ('s, 'r, 'e, 'a) kop = "('s, 'r) Keystore \<Rightarrow> ('e + 'a) \<times> ('s, 'r) Keystore"

definition ret :: "'a \<Rightarrow> ('s, 'r, 'e, 'a) kop" where
  "ret x k = (Inr x, k)"

definition throw :: "'e \<Rightarrow> ('s, 'r, 'e, 'a) kop" where
  "throw e k = (Inl e, k)"

definition bnd :: "('s, 'r, 'e, 'a) kop \<Rightarrow> ('a \<Rightarrow> ('s, 'r, 'e, 'b) kop) \<Rightarrow> ('s, 'r, 'e, 'b) kop" where
  "bnd m f k = (case m k of (Inl e, k') \<Rightarrow> (Inl e, k') | (Inr x, k') \<Rightarrow> f x k')"

definition on_err :: "('e \<Rightarrow> 'f) \<Rightarrow> ('s, 'r, 'e, 'a) kop \<Rightarrow> ('s, 'r, 'f, 'a) kop" where
  "on_err g m k = (case m k of (Inl e, k') \<Rightarrow> (Inl (g e), k') | (Inr x, k') \<Rightarrow> (Inr x, k'))"

definition lift :: "'e + 'a \<Rightarrow> ('s, 'r, 'e, 'a) kop" where
  "lift r k = (r, k)"

definition gets :: "(('s, 'r) Keystore \<Rightarrow> 'a) \<Rightarrow> ('s, 'r, 'e, 'a) kop" where
  "gets f k = (Inr (f k), k)"

definition modify :: "(('s, 'r) Keystore \<Rightarrow> ('s, 'r) Keystore) \<Rightarrow> ('s, 'r, 'e, unit) kop" where
  "modify f k = (Inr (), f k)"

definition now :: "('s, 'r, 'e, DateTime) kop" where
  "now k = (Inr (int (clock k (tick k))), k\<lparr> tick := tick k + 1 \<rparr>)"

definition draw :: "('s, 'r, 'e, rnd) kop" where
  "draw k = (Inr (draws k (drawn k)), k\<lparr> drawn := drawn k + 1 \<rparr>)"

text \<open>\<open>clock_from k\<close> is the clock stream handed to a call that reads several times.\<close>

definition clock_from :: "('s, 'r) Keystore \<Rightarrow> nat \<Rightarrow> nat" where
  "clock_from k i = clock k (tick k + i)"

definition audit_event :: "(DateTime \<Rightarrow> AuditEvent) \<Rightarrow> ('s, 'r, 'e, unit) kop" where
  "audit_event ev = bnd now (\<lambda>t. modify (\<lambda>k. k\<lparr> audit := audit k @ [ev t] \<rparr>))"

definition audit_key :: "KeyId \<Rightarrow> KeyType \<Rightarrow> KeyState \<Rightarrow> AuditAction \<Rightarrow> ('s, 'r, 'e, unit) kop" where
  "audit_key kid kt st act = audit_event (\<lambda>t. key_event t kid kt st act)"

definition storage_get :: "('s, 'r) kenv \<Rightarrow> KeyId \<Rightarrow> ('s, 'r, KeystoreError, KeyMetadata option) kop" where
  "storage_get E i k = (sb_get (k_sb E) i (storage k), k)"

definition storage_put :: "('s, 'r) kenv \<Rightarrow> KeyMetadata \<Rightarrow> ('s, 'r, KeystoreError, unit) kop" where
  "storage_put E m k = (case sb_put (k_sb E) m (storage k) of (s, r) \<Rightarrow> (r, k\<lparr> storage := s \<rparr>))"

definition storage_overwrite :: "('s, 'r) kenv \<Rightarrow> KeyId \<Rightarrow> ('s, 'r, KeystoreError, unit) kop" where
  "storage_overwrite E i k = (case sb_overwrite_key_file (k_sb E) i (storage k) of (s, r) \<Rightarrow> (r, k\<lparr> storage := s \<rparr>))"

text \<open>A call on the threat assessor: what it records on the shared sink is appended there.\<close>

definition on_threat :: "(ThreatAssessor \<Rightarrow> ThreatAssessor \<times> 'a) \<Rightarrow> ('s, 'r, 'e, 'a) kop" where
  "on_threat f k =
    (case f ((threat k)\<lparr> ta_audit := Some [] \<rparr>) of (ta, x) \<Rightarrow>
       (Inr x, k\<lparr> threat := ta\<lparr> ta_audit := Some [] \<rparr>, tick := tick k + 4,
          audit := audit k @ map (\<lambda>(v, d). ev_with_detail
            (system_event (int (clock k (tick k + 3))) (PolicyEvaluated v)) d) (case ta_audit ta of None \<Rightarrow> [] | Some l \<Rightarrow> l) \<rparr>))"

section \<open>Wrapping\<close>

definition MAX_UNWRAP_DEPTH :: nat where "MAX_UNWRAP_DEPTH = 4"
definition HIERARCHY_WRAP_AAD :: bytes where "HIERARCHY_WRAP_AAD = as_bytes ''citadel-kek-hierarchy-v2''"

definition kek_info :: "KeyId \<Rightarrow> u32 \<Rightarrow> bytes" where
  "kek_info kid ver = as_bytes ''citadel-kek-v1:'' @ as_bytes kid @ as_bytes '':'' @ u32_be ver"

definition wrap_context :: "KeyId \<Rightarrow> u32 \<Rightarrow> KeyId \<Rightarrow> bytes" where
  "wrap_context child ver parent =
     Context_for_secrets (''kek-wrap-v2:'' @ child @ '':'' @ show_nat (unat ver)) parent"

definition wrap_with_master_key ::
  "('s, 'r) kenv \<Rightarrow> KeyId \<Rightarrow> u32 \<Rightarrow> bytes \<Rightarrow> ('s, 'r, string, SecretKeyMaterial) kop" where
  "wrap_with_master_key E kid ver sk_bytes =
    bnd (gets master_key) (\<lambda>mk.
      case mk of
        None \<Rightarrow> ret (Plaintext (hex_encode E sk_bytes))
      | Some mk \<Rightarrow>
          (case hkdf_expand (k_crypto E) None mk (kek_info kid ver) 32 of
             None \<Rightarrow> throw (''HKDF expand: '' @ hkdf_error E)
           | Some aes_key \<Rightarrow>
               bnd draw (\<lambda>r.
                 let nonce_bytes = r_nonce r in
                 case gcm_encrypt (k_crypto E) aes_key nonce_bytes sk_bytes [] of
                   None \<Rightarrow> throw ''AES-256-GCM encrypt failed''
                 | Some ct \<Rightarrow> ret (Encrypted (''enc:'' @ hex_encode E nonce_bytes @ hex_encode E ct)))))"

definition wrap_with_citadel_key ::
  "('s, 'r) kenv \<Rightarrow> KeyId \<Rightarrow> u32 \<Rightarrow> KeyId \<Rightarrow> u32 \<Rightarrow> string \<Rightarrow> bytes \<Rightarrow> ('s, 'r, string, SecretKeyMaterial) kop" where
  "wrap_with_citadel_key E child_key_id child_version pid parent_ver parent_pk_hex sk_bytes =
    bnd (lift (map_err (\<lambda>e. ''decode parent public key hex: '' @ e) (hex_decode E parent_pk_hex))) (\<lambda>pk_bytes.
    bnd (lift (map_err (\<lambda>_. ''parse parent public key failed'') (PublicKey_from_bytes (k_prims E) pk_bytes))) (\<lambda>pk.
    bnd draw (\<lambda>r.
    bnd (lift (map_err (\<lambda>_. ''Citadel seal for hierarchy wrap: encoding error'')
      (Citadel_seal (k_crypto E) (k_prims E) (r_kem r) (r_env_nonce r) pk sk_bytes HIERARCHY_WRAP_AAD
        (wrap_context child_key_id child_version pid)))) (\<lambda>ciphertext.
    ret (CitadelWrapped (''ckw:'' @ hex_encode E ciphertext))))))"

definition wrap_secret_key_for ::
  "('s, 'r) kenv \<Rightarrow> KeyId \<Rightarrow> u32 \<Rightarrow> KeyId option \<Rightarrow> bytes \<Rightarrow>
   ('s, 'r, string, SecretKeyMaterial \<times> string option \<times> u32 option) kop" where
  "wrap_secret_key_for E kid ver parent sk_bytes =
    (let with_master = bnd (wrap_with_master_key E kid ver sk_bytes) (\<lambda>material. ret (material, None, None)) in
     case parent of
       None \<Rightarrow> with_master
     | Some pid \<Rightarrow>
         bnd (on_err (\<lambda>e. ''load parent '' @ pid @ '': '' @ show_error e) (storage_get E pid)) (\<lambda>found.
         bnd (lift (ok_or found (''parent key '' @ pid @ '' not found''))) (\<lambda>parent_meta.
         if key_type parent_meta \<in> {KeyEncrypting, Domain} then
           bnd (lift (ok_or (current_key_version parent_meta) (''parent '' @ pid @ '' has no current version''))) (\<lambda>pv.
           bnd (wrap_with_citadel_key E kid ver pid (kv_version pv) (public_key_hex pv) sk_bytes) (\<lambda>material.
           ret (material, Some pid, Some (kv_version pv))))
         else with_master)))"

section \<open>Unwrapping\<close>

definition strip_prefix :: "string \<Rightarrow> string \<Rightarrow> string option" where
  "strip_prefix p s = (if starts_with s p then Some (drop (length p) s) else None)"

definition unwrap_encrypted ::
  "('s, 'r) kenv \<Rightarrow> bytes option \<Rightarrow> KeyId \<Rightarrow> u32 \<Rightarrow> string \<Rightarrow> string + bytes" where
  "unwrap_encrypted E master kid ver enc =
    and_then (ok_or master ''key is AES-wrapped but CITADEL_MASTER_KEY is not set'') (\<lambda>mk.
    and_then (ok_or (strip_prefix ''enc:'' enc)
      (''malformed Encrypted material: missing '' @ quoted ''enc:'' @ '' prefix'')) (\<lambda>payload.
    if length payload < 24 then Inl ''encrypted key blob too short'' else
    and_then (map_err (\<lambda>e. ''nonce hex: '' @ e) (hex_decode E (take 24 payload))) (\<lambda>nonce_bytes.
    and_then (map_err (\<lambda>e. ''ct hex: '' @ e) (hex_decode E (drop 24 payload))) (\<lambda>ciphertext.
    and_then (ok_or (hkdf_expand (k_crypto E) None mk (kek_info kid ver) 32)
      (''HKDF expand: '' @ hkdf_error E)) (\<lambda>aes_key.
    and_then (to_array 12 ''nonce must be 12 bytes'' nonce_bytes) (\<lambda>nonce.
    ok_or (gcm_decrypt (k_crypto E) aes_key nonce ciphertext [])
      (''AES-256-GCM decryption failed '' @ em_dash @ '' wrong master key or corruption'')))))))"

definition kv_name :: "KeyId \<Rightarrow> KeyVersion \<Rightarrow> string" where
  "kv_name kid kv = kid @ '' v'' @ show_nat (unat (kv_version kv))"

text \<open>\<open>depth\<close> of the source is \<open>lvl\<close> here; the recursion ends since it grows up to the limit.\<close>

function unwrap_key_version_inner ::
  "('s, 'r) kenv \<Rightarrow> KeyId \<Rightarrow> KeyVersion \<Rightarrow> nat \<Rightarrow> bool \<Rightarrow> ('s, 'r, string, bytes) kop" where
  "unwrap_key_version_inner E kid kv lvl skip_parent_state_check =
    (if lvl > MAX_UNWRAP_DEPTH then
       throw (''key '' @ kid @ '' hierarchy too deep (>'' @ show_nat MAX_UNWRAP_DEPTH @
         '' levels); possible circular wrapping'')
     else case secret_key_material kv of
       DestroyedMaterial \<Rightarrow> throw ''key material has been destroyed and cannot be recovered''
     | Plaintext hex_str \<Rightarrow> lift (map_err (\<lambda>e. ''plaintext hex decode: '' @ e) (hex_decode E hex_str))
     | Encrypted enc \<Rightarrow>
         bnd (gets master_key) (\<lambda>mk. lift (unwrap_encrypted E mk kid (kv_version kv) enc))
     | CitadelWrapped ckw \<Rightarrow>
         bnd (lift (ok_or (wrapping_key_id kv)
           (''key '' @ kv_name kid kv @ '' is CitadelWrapped but wrapping_key_id is missing''))) (\<lambda>pid.
         bnd (on_err (\<lambda>e. ''load parent '' @ pid @ '': '' @ show_error e) (storage_get E pid)) (\<lambda>found.
         bnd (lift (ok_or found (''parent key '' @ quoted pid @ '' not found (needed to unwrap '' @ quoted kid @ '' v'' @
           show_nat (unat (kv_version kv)) @ '') '' @ em_dash @
           '' hierarchy broken; use rewrap() to re-wrap under a present parent''))) (\<lambda>parent_meta.
         bnd (if \<not> skip_parent_state_check \<and> km_state parent_meta \<notin> {Active, Rotated} then
                bnd (audit_key kid (key_type parent_meta) (km_state parent_meta)
                  (HierarchyViolationAction pid (state_label (km_state parent_meta)) kid)) (\<lambda>_.
                throw (''parent key '' @ pid @ '' is in state '' @ state_label (km_state parent_meta) @ '' '' @ em_dash @
                  '' hierarchy access denied for '' @ kv_name kid kv))
              else ret ()) (\<lambda>_.
         bnd (lift (ok_or (wrapping_key_version kv)
           (''key '' @ kv_name kid kv @ '' is CitadelWrapped but wrapping_key_version is missing''))) (\<lambda>pver.
         bnd (lift (ok_or (get_version parent_meta pver)
           (''parent key '' @ pid @ '' v'' @ show_nat (unat pver) @ '' not found (needed to unwrap '' @
             kv_name kid kv @ '')''))) (\<lambda>parent_kv.
         bnd (unwrap_key_version_inner E pid parent_kv (lvl + 1) skip_parent_state_check) (\<lambda>parent_sk_bytes.
         bnd (lift (map_err (\<lambda>_. ''parse parent '' @ pid @ '' secret key failed'')
           (SecretKey_from_bytes (k_prims E) parent_sk_bytes))) (\<lambda>parent_sk.
         bnd (lift (ok_or (strip_prefix ''ckw:'' ckw)
           (''malformed CitadelWrapped material: missing '' @ quoted ''ckw:'' @ '' prefix''))) (\<lambda>payload.
         bnd (lift (map_err (\<lambda>e. ''decode CitadelWrapped: '' @ e) (hex_decode E payload))) (\<lambda>ciphertext.
         lift (map_err (\<lambda>_. ''CitadelWrapped decryption failed for key '' @ kv_name kid kv @
             '' (wrong parent key or corruption)'')
           (Citadel_open (k_crypto E) (k_prims E) parent_sk ciphertext HIERARCHY_WRAP_AAD
             (wrap_context kid (kv_version kv) pid))))))))))))))"
  by pat_completeness auto
termination
  by (relation "measure (\<lambda>(_, _, _, lvl, _). 5 - lvl)") (auto simp: MAX_UNWRAP_DEPTH_def)

declare unwrap_key_version_inner.simps [simp del]

definition unwrap_key_version :: "('s, 'r) kenv \<Rightarrow> KeyId \<Rightarrow> KeyVersion \<Rightarrow> nat \<Rightarrow> ('s, 'r, string, bytes) kop" where
  "unwrap_key_version E kid kv lvl = unwrap_key_version_inner E kid kv lvl False"

definition unwrap_key_version_for_rewrap :: "('s, 'r) kenv \<Rightarrow> KeyId \<Rightarrow> KeyVersion \<Rightarrow> ('s, 'r, string, bytes) kop" where
  "unwrap_key_version_for_rewrap E kid kv = unwrap_key_version_inner E kid kv 0 True"

definition extract_wrap_nonce :: "SecretKeyMaterial \<Rightarrow> string option" where
  "extract_wrap_nonce material =
    (case material of Encrypted enc \<Rightarrow> if length enc > 28 then Some (slice 4 28 enc) else None | _ \<Rightarrow> None)"

section \<open>Lemmas on operations\<close>

lemma bnd_Inr: "bnd m f k = (Inr y, k') \<longleftrightarrow> (\<exists>x k1. m k = (Inr x, k1) \<and> f x k1 = (Inr y, k'))"
  by (auto simp: bnd_def split: prod.split sum.split)

lemma on_err_Inr [simp]: "on_err g m k = (Inr y, k') \<longleftrightarrow> m k = (Inr y, k')"
  by (auto simp: on_err_def split: prod.split sum.split)

lemma lift_Inr [simp]: "lift r k = (Inr y, k') \<longleftrightarrow> r = Inr y \<and> k' = k"
  by (auto simp: lift_def)

lemma ret_Inr [simp]: "ret x k = (Inr y, k') \<longleftrightarrow> x = y \<and> k' = k"
  by (auto simp: ret_def)

lemma throw_not_Inr [simp]: "throw e k \<noteq> (Inr y, k')"
  by (simp add: throw_def)

lemma gets_Inr [simp]: "gets f k = (Inr y, k') \<longleftrightarrow> y = f k \<and> k' = k"
  by (auto simp: gets_def)

lemma storage_get_Inr [simp]:
  "storage_get E i k = (Inr y, k') \<longleftrightarrow> sb_get (k_sb E) i (storage k) = Inr y \<and> k' = k"
  by (auto simp: storage_get_def)

lemmas run_simps = bnd_Inr

text \<open>\<open>evolves R m\<close>: whatever the result, the keystore afterwards is related to the one before.\<close>

named_theorems evolve_intros \<open>how operations change the keystore\<close>

definition evolves :: "(('s, 'r) Keystore \<Rightarrow> ('s, 'r) Keystore \<Rightarrow> bool) \<Rightarrow> ('s, 'r, 'e, 'a) kop \<Rightarrow> bool" where
  "evolves R m \<longleftrightarrow> (\<forall>k. R k (snd (m k)))"

lemma evolvesD: "evolves R m \<Longrightarrow> m k = (r, k') \<Longrightarrow> R k k'"
  by (metis evolves_def snd_conv)

lemma evolves_bnd:
  assumes "transp R" "evolves R m" "\<And>x. evolves R (f x)"
  shows "evolves R (bnd m f)"
  unfolding evolves_def
proof
  fix k
  obtain r k1 where m: "m k = (r, k1)" by (cases "m k")
  have 1: "R k k1" by (rule evolvesD [OF assms(2) m])
  show "R k (snd (bnd m f k))"
  proof (cases r)
    case (Inl e)
    then show ?thesis using m 1 by (simp add: bnd_def)
  next
    case (Inr x)
    then have "snd (bnd m f k) = snd (f x k1)" using m by (simp add: bnd_def)
    moreover have "R k1 (snd (f x k1))" using assms(3) by (simp add: evolves_def)
    ultimately show ?thesis using 1 assms(1) by (metis transpD)
  qed
qed

lemma snd_on_err [simp]: "snd (on_err g m k) = snd (m k)"
  by (simp add: on_err_def split: prod.split sum.split)

lemma evolves_on_err: "evolves R m \<Longrightarrow> evolves R (on_err g m)"
  by (simp add: evolves_def)

lemma evolves_pure:
  assumes "reflp R"
  shows "evolves R (ret x)" "evolves R (throw e)" "evolves R (lift r)" "evolves R (gets f)" "evolves R (storage_get E i)"
  using assms by (simp_all add: evolves_def ret_def throw_def lift_def gets_def storage_get_def reflpD)

text \<open>\<open>quiet\<close>: only the audit trail grows and clock readings and random draws are used up.\<close>

definition quiet :: "('s, 'r) Keystore \<Rightarrow> ('s, 'r) Keystore \<Rightarrow> bool" where
  "quiet k k' \<longleftrightarrow> (\<exists>evs t d. k' = k\<lparr> audit := audit k @ evs, tick := tick k + t, drawn := drawn k + d \<rparr>)"

lemma quiet_refl: "reflp quiet"
  by (rule reflpI) (auto simp: quiet_def intro!: exI [of _ "[]"] exI [of _ 0])

lemma quiet_trans: "transp quiet"
proof (rule transpI)
  fix a b c :: "('s, 'r) Keystore"
  assume "quiet a b" "quiet b c"
  then obtain e1 t1 d1 e2 t2 d2 where
    "b = a\<lparr> audit := audit a @ e1, tick := tick a + t1, drawn := drawn a + d1 \<rparr>"
    "c = b\<lparr> audit := audit b @ e2, tick := tick b + t2, drawn := drawn b + d2 \<rparr>" by (auto simp: quiet_def)
  then have "c = a\<lparr> audit := audit a @ (e1 @ e2), tick := tick a + (t1 + t2), drawn := drawn a + (d1 + d2) \<rparr>" by simp
  then show "quiet a c" unfolding quiet_def by blast
qed

lemma quiet_fields:
  assumes "quiet k k'"
  shows "storage k' = storage k" "policies k' = policies k" "threat k' = threat k" "master_key k' = master_key k"
    "replay_cache k' = replay_cache k" "enforcer k' = enforcer k" "clock k' = clock k" "draws k' = draws k"
    "tick k \<le> tick k'" "\<exists>evs. audit k' = audit k @ evs"
  using assms by (auto simp: quiet_def)

lemma quietI: "k' = k\<lparr> audit := audit k @ evs, tick := tick k + t, drawn := drawn k + d \<rparr> \<Longrightarrow> quiet k k'"
  by (auto simp: quiet_def)

lemma quiet_now: "evolves quiet now"
  unfolding evolves_def by (intro allI quietI [where evs = "[]" and t = 1 and d = 0]) (simp add: now_def)

lemma quiet_draw: "evolves quiet draw"
  unfolding evolves_def by (intro allI quietI [where evs = "[]" and t = 0 and d = 1]) (simp add: draw_def)

lemma audit_event_run:
  "audit_event ev k = (Inr (), k\<lparr> audit := audit k @ [ev (int (clock k (tick k)))], tick := tick k + 1 \<rparr>)"
  by (simp add: audit_event_def bnd_def now_def modify_def)

lemma quiet_audit_event: "evolves quiet (audit_event ev)"
  unfolding evolves_def
proof
  fix k :: "('a, 'b) Keystore"
  show "quiet k (snd (audit_event ev k))"
    by (rule quietI [where evs = "[ev (int (clock k (tick k)))]" and t = 1 and d = 0]) (simp add: audit_event_run)
qed

lemma quiet_audit_key: "evolves quiet (audit_key kid kt st act)"
  by (simp add: audit_key_def quiet_audit_event)

lemmas quiet_bnd [evolve_intros] = evolves_bnd [OF quiet_trans]
lemmas quiet_basic [evolve_intros] = evolves_on_err evolves_pure [OF quiet_refl] quiet_now quiet_draw quiet_audit_event quiet_audit_key

lemma wrap_with_master_key_quiet [evolve_intros]: "evolves quiet (wrap_with_master_key E kid ver sk)"
  unfolding wrap_with_master_key_def Let_def
  by (intro evolve_intros) (auto intro!: evolve_intros split: option.split)

lemma wrap_with_citadel_key_quiet [evolve_intros]: "evolves quiet (wrap_with_citadel_key E kid ver pid pver pk sk)"
  unfolding wrap_with_citadel_key_def by (intro evolve_intros)

lemma wrap_secret_key_for_quiet [evolve_intros]: "evolves quiet (wrap_secret_key_for E kid ver parent sk)"
  unfolding wrap_secret_key_for_def Let_def
  by (auto intro!: evolve_intros split: option.split)

lemma unwrap_quiet [evolve_intros]: "evolves quiet (unwrap_key_version_inner E kid kv lvl skip)"
proof (induction E kid kv lvl skip rule: unwrap_key_version_inner.induct)
  case (1 E kid kv lvl skip)
  show ?case
    by (subst unwrap_key_version_inner.simps)
      (auto intro!: evolve_intros 1 [simplified] split: SecretKeyMaterial.split)
qed

section \<open>Unwrapping what was wrapped\<close>

definition hex_ok :: "('s, 'r) kenv \<Rightarrow> bool" where
  "hex_ok E \<longleftrightarrow> (\<forall>b. hex_decode E (hex_encode E b) = Inr b \<and> length (hex_encode E b) = 2 * length b)"

lemma strip_prefix_append [simp]: "strip_prefix p (p @ s) = Some s"
  by (simp add: strip_prefix_def)

lemma strip_literals [simp]:
  "strip_prefix ''enc:'' (CHR ''e'' # CHR ''n'' # CHR ''c'' # CHR '':'' # s) = Some s"
  "strip_prefix ''ckw:'' (CHR ''c'' # CHR ''k'' # CHR ''w'' # CHR '':'' # s) = Some s"
  by (simp_all add: strip_prefix_def starts_with_def)

lemma unwrap_simple_iff:
  "secret_key_material kv = DestroyedMaterial \<Longrightarrow> unwrap_key_version_inner E kid kv lvl skip k \<noteq> (Inr sk, k')"
  "secret_key_material kv = Plaintext h \<Longrightarrow>
     unwrap_key_version_inner E kid kv lvl skip k = (Inr sk, k') \<longleftrightarrow> lvl \<le> 4 \<and> hex_decode E h = Inr sk \<and> k' = k"
  "secret_key_material kv = Encrypted enc \<Longrightarrow>
     unwrap_key_version_inner E kid kv lvl skip k = (Inr sk, k') \<longleftrightarrow>
       lvl \<le> 4 \<and> unwrap_encrypted E (master_key k) kid (kv_version kv) enc = Inr sk \<and> k' = k"
  by (auto simp: unwrap_key_version_inner.simps [of E kid] MAX_UNWRAP_DEPTH_def bnd_Inr)

lemma unwrap_citadel_iff:
  assumes "secret_key_material kv = CitadelWrapped ckw"
  shows "unwrap_key_version_inner E kid kv lvl skip k = (Inr sk, k') \<longleftrightarrow>
    lvl \<le> 4 \<and> (\<exists>pid pm pver pkv pbytes psk payload ct. wrapping_key_id kv = Some pid \<and>
      sb_get (k_sb E) pid (storage k) = Inr (Some pm) \<and> (skip \<or> km_state pm \<in> {Active, Rotated}) \<and>
      wrapping_key_version kv = Some pver \<and> get_version pm pver = Some pkv \<and>
      unwrap_key_version_inner E pid pkv (Suc lvl) skip k = (Inr pbytes, k') \<and>
      SecretKey_from_bytes (k_prims E) pbytes = Inr psk \<and> strip_prefix ''ckw:'' ckw = Some payload \<and>
      hex_decode E payload = Inr ct \<and>
      Citadel_open (k_crypto E) (k_prims E) psk ct HIERARCHY_WRAP_AAD (wrap_context kid (kv_version kv) pid) = Inr sk)"
proof -
  have guard: "(if b then bnd m (\<lambda>_. throw e) else ret ()) k = (Inr u, k1) \<longleftrightarrow> \<not> b \<and> k1 = k" for b m e u k1 and k :: "('s, 'r) Keystore"
    by (auto simp: bnd_Inr)
  show ?thesis
    by (subst unwrap_key_version_inner.simps)
      (auto simp: assms MAX_UNWRAP_DEPTH_def bnd_Inr guard)
qed

text \<open>A successful unwrap changes nothing, and depends on nothing but the stored keys and the master key.\<close>

lemma unwrap_ok_same:
  "unwrap_key_version_inner E kid kv lvl skip k = (Inr sk, k') \<Longrightarrow> k' = k"
proof (induction E kid kv lvl skip arbitrary: sk rule: unwrap_key_version_inner.induct)
  case (1 E kid kv lvl skip)
  show ?case
  proof (cases "secret_key_material kv")
    case (CitadelWrapped ckw)
    with "1.prems" obtain pid pkv pbytes where "lvl \<le> 4"
      "unwrap_key_version_inner E pid pkv (Suc lvl) skip k = (Inr pbytes, k')"
      by (auto simp: unwrap_citadel_iff)
    then show ?thesis using "1.IH" CitadelWrapped by (auto simp: MAX_UNWRAP_DEPTH_def)
  qed (use "1.prems" in \<open>auto simp: unwrap_simple_iff\<close>)
qed

lemma unwrap_ok_cong:
  "unwrap_key_version_inner E kid kv lvl skip k = (Inr sk, k) \<Longrightarrow> storage k2 = storage k \<Longrightarrow> master_key k2 = master_key k \<Longrightarrow>
   lvl2 \<le> lvl \<Longrightarrow> unwrap_key_version_inner E kid kv lvl2 skip k2 = (Inr sk, k2)"
proof (induction E kid kv lvl skip arbitrary: sk lvl2 rule: unwrap_key_version_inner.induct)
  case (1 E kid kv lvl skip)
  show ?case
  proof (cases "secret_key_material kv")
    case (CitadelWrapped ckw)
    with "1.prems"(1) obtain pid pm pver pkv pbytes psk payload ct where
      u: "lvl \<le> 4" "wrapping_key_id kv = Some pid" "sb_get (k_sb E) pid (storage k) = Inr (Some pm)"
      "skip \<or> km_state pm \<in> {Active, Rotated}" "wrapping_key_version kv = Some pver" "get_version pm pver = Some pkv"
      "unwrap_key_version_inner E pid pkv (Suc lvl) skip k = (Inr pbytes, k)"
      "SecretKey_from_bytes (k_prims E) pbytes = Inr psk" "strip_prefix ''ckw:'' ckw = Some payload"
      "hex_decode E payload = Inr ct"
      "Citadel_open (k_crypto E) (k_prims E) psk ct HIERARCHY_WRAP_AAD (wrap_context kid (kv_version kv) pid) = Inr sk"
      unfolding unwrap_citadel_iff [OF CitadelWrapped] by blast
    then have "unwrap_key_version_inner E pid pkv (Suc lvl2) skip k2 = (Inr pbytes, k2)"
      using "1.IH" CitadelWrapped "1.prems" by (simp add: MAX_UNWRAP_DEPTH_def)
    with u CitadelWrapped "1.prems" show ?thesis
      unfolding unwrap_citadel_iff [OF CitadelWrapped] by auto
  qed (use "1.prems" in \<open>auto simp: unwrap_simple_iff\<close>)
qed

lemma wrap_master_unwrap:
  assumes "crypto_ok (k_crypto E)" "hex_ok E" "wrap_with_master_key E kid ver sk k = (Inr m, k')"
    and "length (r_nonce (draws k (drawn k))) = 12" "master_key k2 = master_key k" "lvl \<le> 4"
    and "secret_key_material kv = m" "kv_version kv = ver"
  shows "unwrap_key_version_inner E kid kv lvl skip k2 = (Inr sk, k2)"
proof (cases "master_key k")
  case None
  with assms(3) have "m = Plaintext (hex_encode E sk)" by (simp add: wrap_with_master_key_def bnd_Inr)
  with assms show ?thesis by (simp add: unwrap_simple_iff hex_ok_def)
next
  case (Some mk)
  let ?n = "r_nonce (draws k (drawn k))"
  from Some assms(3) obtain key ct where
    w: "hkdf_expand (k_crypto E) None mk (kek_info kid ver) 32 = Some key" "gcm_encrypt (k_crypto E) key ?n sk [] = Some ct"
      "m = Encrypted (''enc:'' @ hex_encode E ?n @ hex_encode E ct)"
    by (auto simp: wrap_with_master_key_def bnd_Inr draw_def Let_def split: option.splits)
  have h: "hex_decode E (hex_encode E b) = Inr b" "length (hex_encode E b) = 2 * length b" for b
    using assms(2) by (simp_all add: hex_ok_def)
  have l: "length (hex_encode E ?n) = 24" using h(2) assms(4) by simp
  then have "take 24 (hex_encode E ?n @ hex_encode E ct) = hex_encode E ?n"
    "drop 24 (hex_encode E ?n @ hex_encode E ct) = hex_encode E ct" by simp_all
  moreover have "gcm_decrypt (k_crypto E) key ?n ct [] = Some sk" by (rule gcm_decrypt_encrypt [OF assms(1) w(2)])
  ultimately have "unwrap_encrypted E (Some mk) kid ver (''enc:'' @ hex_encode E ?n @ hex_encode E ct) = Inr sk"
    using h l assms(4) w(1) by (simp add: unwrap_encrypted_def)
  with w(3) assms Some show ?thesis by (simp add: unwrap_simple_iff)
qed

lemma wrap_citadel_unwrap:
  assumes ok: "crypto_ok (k_crypto E)" "prims_ok (k_prims E)" "hex_ok E"
    and w: "wrap_with_citadel_key E kid ver pid pver pk_hex sk k = (Inr m, k')"
    and env: "\<exists>n. r_env_nonce (draws k (drawn k)) = Some n \<and> length n = 12"
    and pk: "pk_hex = hex_encode E (PublicKey_to_bytes (SecretKey_public_key (k_prims E) psk))"
    and parent: "sb_get (k_sb E) pid (storage k2) = Inr (Some pm)" "skip \<or> km_state pm \<in> {Active, Rotated}"
      "get_version pm pver = Some pkv"
      "unwrap_key_version_inner E pid pkv (Suc lvl) skip k2 = (Inr pbytes, k2)"
      "SecretKey_from_bytes (k_prims E) pbytes = Inr psk"
    and kv: "secret_key_material kv = m" "kv_version kv = ver" "wrapping_key_id kv = Some pid"
      "wrapping_key_version kv = Some pver" and "lvl \<le> 4"
  shows "unwrap_key_version_inner E kid kv lvl skip k2 = (Inr sk, k2)"
proof -
  let ?P = "k_prims E" and ?X = "k_crypto E" and ?r = "draws k (drawn k)"
  have hx: "hex_decode E (hex_encode E b) = Inr b" for b using ok(3) by (simp add: hex_ok_def)
  have "PublicKey_from_bytes ?P (PublicKey_to_bytes (SecretKey_public_key ?P psk)) = Inr (SecretKey_public_key ?P psk)"
    using ok(2) by (simp add: PublicKey_from_bytes_def PublicKey_to_bytes_def SecretKey_public_key_def
        PublicKey_from_parts_mlkem_def prims_ok_def wire_consts)
  with w obtain ct where ct: "m = CitadelWrapped (''ckw:'' @ hex_encode E ct)"
    "Citadel_seal ?X ?P (r_kem ?r) (r_env_nonce ?r) (SecretKey_public_key ?P psk) sk HIERARCHY_WRAP_AAD (wrap_context kid ver pid) = Inr ct"
    by (auto simp: wrap_with_citadel_key_def bnd_Inr draw_def pk hx)
  have "Citadel_open ?X ?P psk ct HIERARCHY_WRAP_AAD (wrap_context kid ver pid) = Inr sk"
    using Citadel_open_seal [OF ok(1,2)] ct(2) env by auto
  then show ?thesis
    unfolding unwrap_citadel_iff [OF kv(1) [unfolded ct(1)]]
    using parent kv(2-) \<open>lvl \<le> 4\<close> hx by auto
qed

section \<open>A concrete keystore\<close>

fun toy_unhex :: "string \<Rightarrow> bytes" where
  "toy_unhex (a # b # s) = of_char a # toy_unhex s"
| "toy_unhex s = []"

definition toy_hex :: "bytes \<Rightarrow> string" where
  "toy_hex b = concat (map (\<lambda>w. [char_of (unat w), CHR ''0'']) b)"

definition toy_env :: "(InMemoryBackend, MemoryReplayStore) kenv" where
  "toy_env = \<lparr> k_sb = InMemory, k_rs = MemoryReplay, k_crypto = toy_crypto, k_prims = toy_prims, k_mldsa = toy_mldsa,
     hex_encode = toy_hex, hex_decode = (\<lambda>s. Inr (toy_unhex s)), hkdf_error = ''invalid length'',
     env_var = (\<lambda>_. None), k_powf = (\<lambda>_ _. 1) \<rparr>"

definition toy_rnd :: "nat \<Rightarrow> rnd" where
  "toy_rnd n = \<lparr> r_id = [word_of_nat n], r_keygen = (replicate 32 1, replicate 32 2), r_nonce = replicate 12 0,
     r_kem = toy_rand, r_env_nonce = Some (replicate 12 0), r_seed = replicate 32 3 \<rparr>"

definition toy_keystore :: "InMemoryBackend \<Rightarrow> (InMemoryBackend, MemoryReplayStore) Keystore" where
  "toy_keystore keys = \<lparr> storage = keys, audit = [], policies = [], threat = ThreatAssessor_new ThreatConfig_default 0,
     master_key = Some (replicate 32 0), root_key_provider_name = None,
     replay_cache = MemoryReplayStore_with_defaults, enforcer = None,
     clock = (\<lambda>n. n), tick = 0, draws = toy_rnd, drawn = 0 \<rparr>"

definition toy_key :: "KeyId \<Rightarrow> KeyType \<Rightarrow> KeyState \<Rightarrow> KeyId option \<Rightarrow> KeyVersion list \<Rightarrow> KeyMetadata" where
  "toy_key i kt st parent vs = \<lparr> km_id = i, km_name = i, key_type = kt, km_state = st, policy_id = None, parent_id = parent,
     created_at = 0, updated_at = 0, activated_at = None, rotated_at = None, revoked_at = None, destroyed_at = None,
     versions = vs, current_version = 1, usage_count = 0, tags = [] \<rparr>"

lemma toy_hex_ok: "hex_ok toy_env"
proof -
  have "toy_unhex (toy_hex b) = b" for b
  proof (induction b)
    case (Cons w b)
    then show ?case using as_bytes_chars_of [of "[w]"] by (simp add: toy_hex_def as_bytes_def chars_of_def)
  qed (simp add: toy_hex_def)
  moreover have "length (toy_hex b) = 2 * length b" for b by (induction b) (simp_all add: toy_hex_def)
  ultimately show ?thesis by (simp add: hex_ok_def toy_env_def)
qed

lemma toy_env_simps [simp]:
  "k_sb toy_env = InMemory" "k_rs toy_env = MemoryReplay" "k_crypto toy_env = toy_crypto" "k_prims toy_env = toy_prims"
  by (simp_all add: toy_env_def)

end
