(* ===== verification/Keystore_Life.thy ===== *)
theory Keystore_Life
  imports Keystore_Wrap Hierarchy
begin

text \<open>
  \<^verbatim>\<open>citadel-keystore/src/keystore.rs\<close>, second part: generation, retrieval, domain resolution and the life cycle of keys
  (activation, rotation, rewrapping, revocation with its cascade, expiry, destruction). The cascade runs on a stack that a
  foreign back end could keep non-empty for ever, so it takes fuel and returns \<open>None\<close> when that runs out.
\<close>

section \<open>Reading keys and policies\<close>

definition ks_get :: "('s, 'r) kenv \<Rightarrow> KeyId \<Rightarrow> ('s, 'r, KeystoreError, KeyMetadata) kop" where
  "ks_get E i = bnd (storage_get E i) (\<lambda>found. lift (ok_or found (KeyNotFound i)))"

definition list_keys :: "('s, 'r) kenv \<Rightarrow> ('s, 'r, KeystoreError, KeyMetadata list) kop" where
  "list_keys E k = (sb_list (k_sb E) (storage k), k)"

definition list_by_state :: "('s, 'r) kenv \<Rightarrow> KeyState \<Rightarrow> ('s, 'r, KeystoreError, KeyMetadata list) kop" where
  "list_by_state E st k = (sb_list_by_state (k_sb E) st (storage k), k)"

definition register_policy :: "KeyPolicy \<Rightarrow> ('s, 'r, 'e, unit) kop" where
  "register_policy policy =
    bnd (audit_event (\<lambda>t. system_event t (PolicyRegistered (kp_id policy)))) (\<lambda>_.
    modify (\<lambda>k. k\<lparr> policies := al_put (kp_id policy) policy (policies k) \<rparr>))"

definition get_policy :: "('s, 'r) Keystore \<Rightarrow> PolicyId \<Rightarrow> KeyPolicy option" where
  "get_policy k i = map_of (policies k) i"

definition MAX_DEPTH :: nat where "MAX_DEPTH = 10"

fun resolve_loop :: "('s, 'r) kenv \<Rightarrow> KeyId \<Rightarrow> KeyId \<Rightarrow> nat \<Rightarrow> ('s, 'r, KeystoreError, KeyId) kop" where
  "resolve_loop E start current 0 =
     throw (HierarchyViolation (''resolve_domain_for_key exceeded max depth ('' @ show_nat MAX_DEPTH @
       '') starting from '' @ start @ '' '' @ em_dash @ '' possible cycle in parent chain''))"
| "resolve_loop E start current (Suc n) =
     bnd (ks_get E current) (\<lambda>meta.
       case key_type meta of
         Domain \<Rightarrow> ret (km_id meta)
       | Root \<Rightarrow> throw (HierarchyViolation ''Root key has no Domain ancestor'')
       | _ \<Rightarrow>
           (case parent_id meta of
              None \<Rightarrow> throw (HierarchyViolation (''Key '' @ current @
                '' is orphaned (no parent) and not a Domain (depth '' @ show_nat (MAX_DEPTH - Suc n) @ '')''))
            | Some p \<Rightarrow> resolve_loop E start p n))"

definition resolve_domain_for_key :: "('s, 'r) kenv \<Rightarrow> KeyId \<Rightarrow> ('s, 'r, KeystoreError, KeyId) kop" where
  "resolve_domain_for_key E kid = resolve_loop E kid kid MAX_DEPTH"

section \<open>Generation and rotation\<close>

fun show_key_type_debug :: "KeyType \<Rightarrow> string" where
  "show_key_type_debug Root = ''Root''"
| "show_key_type_debug Domain = ''Domain''"
| "show_key_type_debug KeyEncrypting = ''KeyEncrypting''"
| "show_key_type_debug DataEncrypting = ''DataEncrypting''"
| "show_key_type_debug HybridIdentity = ''HybridIdentity''"
| "show_key_type_debug Signing = ''Signing''"

fun show_role_debug :: "KeyRole \<Rightarrow> string" where
  "show_role_debug RootRole = ''Root''"
| "show_role_debug DomainKek = ''DomainKek''"
| "show_role_debug Kek = ''Kek''"
| "show_role_debug Dek = ''Dek''"
| "show_role_debug HybridIdentityKey = ''HybridIdentityKey''"
| "show_role_debug SigningKey = ''SigningKey''"

definition in_dev_mode :: "('s, 'r) kenv \<Rightarrow> string \<Rightarrow> bool" where
  "in_dev_mode E var \<longleftrightarrow> env_var E var = Some ''1'' \<and> env_var E ''CITADEL_ENV'' = Some ''development''"

definition master_key_gate :: "('s, 'r) kenv \<Rightarrow> ('s, 'r, KeystoreError, unit) kop" where
  "master_key_gate E =
    bnd (gets master_key) (\<lambda>mk.
      if mk = None \<and> \<not> in_dev_mode E ''CITADEL_ALLOW_PLAINTEXT_KEYS'' then
        throw (StorageError (''CITADEL_MASTER_KEY is not set. Set CITADEL_MASTER_KEY or '' @
          ''set CITADEL_ALLOW_PLAINTEXT_KEYS=1 and CITADEL_ENV=development.''))
      else ret ())"

definition hierarchy_gate :: "('s, 'r) kenv \<Rightarrow> KeyType \<Rightarrow> KeyId option \<Rightarrow> ('s, 'r, KeystoreError, unit) kop" where
  "hierarchy_gate E kt parent =
    (let child_role = role_of_type kt; flat_override = in_dev_mode E ''CITADEL_ALLOW_FLAT_DEKS'';
         arrow = '' '' @ right_arrow @ '' '';
         hint = '' Set CITADEL_ALLOW_FLAT_DEKS=1 with CITADEL_ENV=development to override for testing only.''
     in case parent of
       None \<Rightarrow>
         if kt \<noteq> Root \<and> \<not> flat_override then
           throw (HierarchyViolation (show_key_type_debug kt @ '' keys require a parent. Valid hierarchy: Root'' @ arrow @
             ''Domain'' @ arrow @ ''KeyEncrypting'' @ arrow @ ''DataEncrypting.'' @ hint))
         else ret ()
     | Some pid \<Rightarrow>
         bnd (on_err (\<lambda>e. StorageError (''load parent for hierarchy check '' @ pid @ '': '' @ show_error e))
           (storage_get E pid)) (\<lambda>found.
         bnd (lift (ok_or found (HierarchyViolation (''parent key '' @ pid @ '' not found'')))) (\<lambda>parent_meta.
         let parent_role = role_of_type (key_type parent_meta) in
         if \<not> can_wrap parent_role child_role \<and> \<not> flat_override then
           throw (HierarchyViolation (show_key_type_debug kt @ '' ('' @ show_role_debug child_role @
             '') cannot be a child of '' @ show_key_type_debug (key_type parent_meta) @ '' ('' @ show_role_debug parent_role @
             ''). Valid hierarchy: Root'' @ arrow @ ''Domain'' @ arrow @ ''KeyEncrypting'' @ arrow @
             ''DataEncrypting/HybridIdentity.'' @ hint))
         else ret ())))"

definition generate ::
  "('s, 'r) kenv \<Rightarrow> string \<Rightarrow> KeyType \<Rightarrow> PolicyId option \<Rightarrow> KeyId option \<Rightarrow> ('s, 'r, KeystoreError, KeyId) kop" where
  "generate E name kt pol parent =
    (if kt = Signing then
       throw (HierarchyViolation (''KeyType::Signing keys must be created with generate_signing_key(), not generate(). '' @
         ''generate() creates KEM keys; signing keys require ML-DSA-65 keypairs.''))
     else
       bnd (master_key_gate E) (\<lambda>_.
       bnd (hierarchy_gate E kt parent) (\<lambda>_.
       bnd draw (\<lambda>rid.
       bnd now (\<lambda>t.
       bnd draw (\<lambda>rk.
       let kid = hex_encode E (r_id rid); (pk, sk) = hybrid_keygen (k_prims E) (r_keygen rk) in
       bnd (on_err StorageError (wrap_secret_key_for E kid 1 parent (SecretKey_to_bytes (k_prims E) sk)))
         (\<lambda>(material, wid, wver).
       let version = \<lparr> kv_version = 1, kv_created_at = t, public_key_hex = hex_encode E (PublicKey_to_bytes pk),
             secret_key_material = material, wrapping_key_id = wid, wrapping_key_version = wver,
             wrap_nonce_hex = extract_wrap_nonce material, wrapping_mode = None \<rparr>;
           meta = \<lparr> km_id = kid, km_name = name, key_type = kt, km_state = Pending, policy_id = pol, parent_id = parent,
             created_at = t, updated_at = t, activated_at = None, rotated_at = None, revoked_at = None,
             destroyed_at = None, versions = [version], current_version = 1, usage_count = 0, tags = [] \<rparr> in
       bnd (storage_put E meta) (\<lambda>_.
       bnd (audit_key kid kt Pending KeyGenerated) (\<lambda>_.
       ret kid)))))))))"

definition rotate :: "('s, 'r) kenv \<Rightarrow> KeyId \<Rightarrow> ('s, 'r, KeystoreError, KeyId) kop" where
  "rotate E kid =
    bnd (ks_get E kid) (\<lambda>meta.
    if km_state meta \<noteq> Active then throw (NotActive kid) else
    bnd (master_key_gate E) (\<lambda>_.
    bnd draw (\<lambda>rk.
    let (pk, sk) = hybrid_keygen (k_prims E) (r_keygen rk); new_version_num = current_version meta + 1 in
    bnd now (\<lambda>t.
    bnd (on_err StorageError (wrap_secret_key_for E kid new_version_num (parent_id meta) (SecretKey_to_bytes (k_prims E) sk)))
      (\<lambda>(material, wid, wver).
    let new_version = \<lparr> kv_version = new_version_num, kv_created_at = t,
          public_key_hex = hex_encode E (PublicKey_to_bytes pk), secret_key_material = material, wrapping_key_id = wid,
          wrapping_key_version = wver, wrap_nonce_hex = extract_wrap_nonce material, wrapping_mode = None \<rparr>;
        meta' = meta\<lparr> versions := versions meta @ [new_version], current_version := new_version_num, km_state := Active,
          activated_at := Some t, rotated_at := Some t, updated_at := t \<rparr> in
    bnd (storage_put E meta') (\<lambda>_.
    bnd (audit_key kid (key_type meta') (km_state meta') (KeyRotated new_version_num)) (\<lambda>_.
    ret kid)))))))"

section \<open>Transitions\<close>

definition transition :: "KeyMetadata \<Rightarrow> KeyState \<Rightarrow> ('s, 'r, KeystoreError, KeyMetadata) kop" where
  "transition meta target =
    (if \<not> can_transition_to (km_state meta) target then
       throw (InvalidTransition (km_id meta) (km_state meta) target)
     else bnd now (\<lambda>t. ret (meta\<lparr> km_state := target, updated_at := t \<rparr>)))"

definition activate :: "('s, 'r) kenv \<Rightarrow> KeyId \<Rightarrow> ('s, 'r, KeystoreError, unit) kop" where
  "activate E kid =
    bnd (ks_get E kid) (\<lambda>meta.
    bnd (transition meta Active) (\<lambda>meta.
    bnd now (\<lambda>t.
    let meta' = meta\<lparr> activated_at := Some t \<rparr> in
    bnd (storage_put E meta') (\<lambda>_.
    audit_key kid (key_type meta') (km_state meta') KeyActivated))))"

fun replace_version :: "(KeyVersion \<Rightarrow> KeyVersion) \<Rightarrow> u32 \<Rightarrow> KeyVersion list \<Rightarrow> KeyVersion list option" where
  "replace_version f n [] = None"
| "replace_version f n (v # vs) =
     (if kv_version v = n then Some (f v # vs) else map_option ((#) v) (replace_version f n vs))"

definition rewrap :: "('s, 'r) kenv \<Rightarrow> KeyId \<Rightarrow> KeyId option \<Rightarrow> ('s, 'r, KeystoreError, unit) kop" where
  "rewrap E kid new_parent =
    bnd (on_err (\<lambda>_. KeyNotFound kid) (ks_get E kid)) (\<lambda>meta.
    bnd (lift (ok_or (current_key_version meta) (KeyNotFound kid))) (\<lambda>kv.
    let old_parent_id = wrapping_key_id kv in
    bnd (on_err StorageError (unwrap_key_version_for_rewrap E kid kv)) (\<lambda>sk_bytes.
    bnd (on_err StorageError (wrap_secret_key_for E kid (kv_version kv) new_parent sk_bytes))
      (\<lambda>(new_material, new_wk_id, new_wk_ver).
    bnd (lift (ok_or (replace_version (\<lambda>v. v\<lparr> secret_key_material := new_material, wrapping_key_id := new_wk_id,
        wrapping_key_version := new_wk_ver, wrap_nonce_hex := extract_wrap_nonce new_material, wrapping_mode := None \<rparr>)
        (current_version meta) (versions meta)) (KeyNotFound kid))) (\<lambda>vs.
    bnd now (\<lambda>t.
    let meta' = meta\<lparr> versions := vs, updated_at := t \<rparr> in
    bnd (storage_put E meta') (\<lambda>_.
    audit_key kid (key_type meta') (km_state meta') (KeyRewrapped old_parent_id new_parent new_wk_ver))))))))"

definition revoke :: "('s, 'r) kenv \<Rightarrow> KeyId \<Rightarrow> string \<Rightarrow> ('s, 'r, KeystoreError, unit) kop" where
  "revoke E kid reason =
    bnd (ks_get E kid) (\<lambda>meta.
    if km_state meta \<noteq> Active then throw (InvalidTransition kid (km_state meta) Revoked) else
    bnd now (\<lambda>t1. bnd now (\<lambda>t2.
    let meta' = meta\<lparr> km_state := Revoked, revoked_at := Some t1, updated_at := t2 \<rparr> in
    bnd (storage_put E meta') (\<lambda>_.
    audit_key kid (key_type meta') (km_state meta') (KeyRevoked reason)))))"

text \<open>One pass over the children of \<open>pid\<close>: counter, errors and stack are threaded through.\<close>

fun suspend_children ::
  "('s, 'r) kenv \<Rightarrow> KeyId \<Rightarrow> KeyMetadata list \<Rightarrow> nat \<times> (KeyId \<times> string) list \<times> KeyId list \<Rightarrow> ('s, 'r) Keystore \<Rightarrow>
   (nat \<times> (KeyId \<times> string) list \<times> KeyId list) \<times> ('s, 'r) Keystore" where
  "suspend_children E pid [] acc k = (acc, k)"
| "suspend_children E pid (child # cs) (suspended, errors, queue) k =
     (if km_state child \<in> {Destroyed, Revoked, Suspended} then suspend_children E pid cs (suspended, errors, queue) k
      else if \<not> can_transition_to (km_state child) Suspended then
        suspend_children E pid cs (suspended, errors @ [(km_id child, ''cannot suspend '' @ km_name child @
          '' key (state: '' @ state_label (km_state child) @ '')'')], queue) k
      else
        let k1 = k\<lparr> tick := tick k + 1 \<rparr>;
            child' = child\<lparr> km_state := Suspended, updated_at := int (clock k (tick k)) \<rparr>;
            (s, res) = sb_put (k_sb E) child' (storage k1); k2 = k1\<lparr> storage := s \<rparr> in
        case res of
          Inr _ \<Rightarrow>
            let (_ :: KeystoreError + unit, k3) = audit_key (km_id child') (key_type child') (km_state child')
                  (HierarchyViolationAction pid ''Revoked'' (km_id child')) k2
            in suspend_children E pid cs (suspended + 1, errors, queue @ [km_id child']) k3
        | Inl e \<Rightarrow> suspend_children E pid cs (suspended, errors @ [(km_id child', show_error e)], queue) k2)"

fun cascade_loop ::
  "nat \<Rightarrow> ('s, 'r) kenv \<Rightarrow> nat \<times> (KeyId \<times> string) list \<times> KeyId list \<Rightarrow> ('s, 'r) Keystore \<Rightarrow>
   ((KeystoreError + nat \<times> (KeyId \<times> string) list) \<times> ('s, 'r) Keystore) option" where
  "cascade_loop 0 E acc k = None"
| "cascade_loop (Suc fuel) E (suspended, errors, queue) k =
     (if queue = [] then Some (Inr (suspended, errors), k)
      else case sb_list_by_parent (k_sb E) (last queue) (storage k) of
             Inl e \<Rightarrow> Some (Inl e, k)
           | Inr children \<Rightarrow>
               let (acc, k') = suspend_children E (last queue) children (suspended, errors, butlast queue) k
               in cascade_loop fuel E acc k')"

definition revoke_cascade ::
  "nat \<Rightarrow> ('s, 'r) kenv \<Rightarrow> KeyId \<Rightarrow> string \<Rightarrow> ('s, 'r) Keystore \<Rightarrow>
   ((KeystoreError + nat \<times> nat \<times> (KeyId \<times> string) list) \<times> ('s, 'r) Keystore) option" where
  "revoke_cascade fuel E kid reason k =
    (case revoke E kid reason k of
       (Inl e, k1) \<Rightarrow> Some (Inl e, k1)
     | (Inr _, k1) \<Rightarrow>
         map_option (apfst (\<lambda>r. case r of Inl e \<Rightarrow> Inl e | Inr (suspended, errors) \<Rightarrow> Inr (1, suspended, errors)))
           (cascade_loop fuel E (0, [], [kid]) k1))"

definition destroy :: "('s, 'r) kenv \<Rightarrow> KeyId \<Rightarrow> ('s, 'r, KeystoreError, unit) kop" where
  "destroy E kid =
    bnd (ks_get E kid) (\<lambda>meta.
    if \<not> can_transition_to (km_state meta) Destroyed then throw (InvalidTransition kid (km_state meta) Destroyed) else
    let vs = map (\<lambda>v. v\<lparr> secret_key_material := zeroize_and_destroy (secret_key_material v),
               public_key_hex := ''DESTROYED'' \<rparr>) (versions meta) in
    bnd now (\<lambda>t1. bnd now (\<lambda>t2.
    let meta' = meta\<lparr> versions := vs, km_state := Destroyed, destroyed_at := Some t1, updated_at := t2 \<rparr> in
    bnd (storage_overwrite E kid) (\<lambda>_.
    bnd (storage_put E meta') (\<lambda>_.
    audit_key kid (key_type meta') (km_state meta') KeyDestroyedAction)))))"

section \<open>Policies in force and expiry\<close>

definition current_threat_level :: "('s, 'r) kenv \<Rightarrow> ('s, 'r, 'e, ThreatLevel) kop" where
  "current_threat_level E k = on_threat (current_level (k_powf E) (\<lambda>i. int (clock_from k i))) k"

definition effective_policy_for :: "('s, 'r) kenv \<Rightarrow> KeyMetadata \<Rightarrow> ('s, 'r, 'e, KeyPolicy option) kop" where
  "effective_policy_for E meta =
    bnd (current_threat_level E) (\<lambda>level.
    gets (\<lambda>k. map_option (\<lambda>base. adapt base level) (Option.bind (policy_id meta) (map_of (policies k)))))"

definition grace_period_for :: "('s, 'r) kenv \<Rightarrow> KeyMetadata \<Rightarrow> ('s, 'r, 'e, Duration) kop" where
  "grace_period_for E meta =
    bnd (effective_policy_for E meta) (\<lambda>p.
    ret (case p of Some p \<Rightarrow> rotation_grace_period p | None \<Rightarrow> from_secs (7 * 86400)))"

definition max_lifetime_for :: "('s, 'r) kenv \<Rightarrow> KeyMetadata \<Rightarrow> ('s, 'r, 'e, Duration option) kop" where
  "max_lifetime_for E meta = bnd (effective_policy_for E meta) (\<lambda>p. ret (Option.bind p max_lifetime))"

datatype ExpirationSource = GracePeriodExpired | MaxLifetimeExceeded

datatype ExpirationDecision =
    NotNeeded
  | ExpirationRequired string ExpirationSource
  | ExpirationWarning string Duration ExpirationSource

text \<open>\<^verbatim>\<open>(secs as f64 * 0.9) as i64\<close>\<close>

definition warn_secs :: "Duration \<Rightarrow> int" where
  "warn_secs d = int (min (f64_to_u64 (f64_mul (f64_of_nat (as_secs d)) (f64 (9 / 10)))) (2 ^ 63 - 1))"

definition check_expiration :: "('s, 'r) kenv \<Rightarrow> KeyMetadata \<Rightarrow> ('s, 'r, 'e, ExpirationDecision) kop" where
  "check_expiration E meta =
    (case km_state meta of
       Rotated \<Rightarrow>
         (case rotated_at meta of
            Some rotated \<Rightarrow>
              bnd (grace_period_for E meta) (\<lambda>grace.
              bnd now (\<lambda>t.
              let elapsed = t - rotated; grace_chrono = chrono_from_std grace in
              if elapsed \<ge> grace_chrono then
                ret (ExpirationRequired (''rotated '' @ show_int (num_seconds elapsed) @ ''s ago, grace period '' @
                  show_nat (as_secs grace) @ ''s'') GracePeriodExpired)
              else if num_seconds elapsed \<ge> warn_secs grace then
                ret (ExpirationWarning ''grace period expiring soon'' (nat (grace_chrono - elapsed)) GracePeriodExpired)
              else ret NotNeeded))
          | None \<Rightarrow> ret NotNeeded)
     | Active \<Rightarrow>
         bnd (max_lifetime_for E meta) (\<lambda>ml.
         case ml of
           None \<Rightarrow> ret NotNeeded
         | Some life \<Rightarrow>
             (case activated_at meta of
                Some activated \<Rightarrow>
                  bnd now (\<lambda>t.
                  let elapsed = t - activated; max_chrono = chrono_from_std life in
                  if elapsed \<ge> max_chrono then
                    ret (ExpirationRequired (''active for '' @ show_int (num_seconds elapsed) @ ''s, max lifetime '' @
                      show_nat (as_secs life) @ ''s'') MaxLifetimeExceeded)
                  else if num_seconds elapsed \<ge> warn_secs life then
                    ret (ExpirationWarning ''max lifetime expiring soon'' (nat (max_chrono - elapsed)) MaxLifetimeExceeded)
                  else ret NotNeeded)
              | None \<Rightarrow> ret NotNeeded))
     | _ \<Rightarrow> ret NotNeeded)"

definition should_expire :: "('s, 'r) kenv \<Rightarrow> KeyId \<Rightarrow> ('s, 'r, KeystoreError, ExpirationDecision) kop" where
  "should_expire E kid = bnd (ks_get E kid) (check_expiration E)"

definition expire :: "('s, 'r) kenv \<Rightarrow> KeyId \<Rightarrow> ('s, 'r, KeystoreError, ExpirationSource) kop" where
  "expire E kid =
    bnd (ks_get E kid) (\<lambda>meta.
    bnd (check_expiration E meta) (\<lambda>decision.
    case decision of
      ExpirationRequired reason src \<Rightarrow>
        bnd now (\<lambda>t.
        let meta' = meta\<lparr> km_state := Expired, updated_at := t \<rparr> in
        bnd (storage_put E meta') (\<lambda>_.
        bnd (audit_key kid (key_type meta') (km_state meta') (KeyExpired reason)) (\<lambda>_.
        ret src)))
    | _ \<Rightarrow> throw (InvalidTransition kid (km_state meta) Expired)))"

record ExpirationReport =
  rep_expired :: "(KeyId \<times> ExpirationSource) list"
  rep_warnings :: "(KeyId \<times> string \<times> Duration) list"
  rep_failed :: "(KeyId \<times> string) list"
  rep_skipped :: nat

fun expire_each ::
  "('s, 'r) kenv \<Rightarrow> KeyMetadata list \<Rightarrow> ExpirationReport \<Rightarrow> ('s, 'r, KeystoreError, ExpirationReport) kop" where
  "expire_each E [] rep = ret rep"
| "expire_each E (meta # ms) rep =
     bnd (check_expiration E meta) (\<lambda>decision.
       case decision of
         ExpirationRequired _ _ \<Rightarrow>
           (\<lambda>k. case expire E (km_id meta) k of
              (Inr src, k') \<Rightarrow> expire_each E ms (rep\<lparr> rep_expired := rep_expired rep @ [(km_id meta, src)] \<rparr>) k'
            | (Inl e, k') \<Rightarrow> expire_each E ms (rep\<lparr> rep_failed := rep_failed rep @ [(km_id meta, show_error e)] \<rparr>) k')
       | ExpirationWarning reason remaining _ \<Rightarrow>
           expire_each E ms (rep\<lparr> rep_warnings := rep_warnings rep @ [(km_id meta, reason, remaining)] \<rparr>)
       | NotNeeded \<Rightarrow> expire_each E ms (rep\<lparr> rep_skipped := rep_skipped rep + 1 \<rparr>))"

definition expire_due_keys :: "('s, 'r) kenv \<Rightarrow> ('s, 'r, KeystoreError, ExpirationReport) kop" where
  "expire_due_keys E =
    bnd (list_by_state E Rotated) (\<lambda>rotated.
    bnd (expire_each E rotated \<lparr> rep_expired = [], rep_warnings = [], rep_failed = [], rep_skipped = 0 \<rparr>) (\<lambda>rep.
    bnd (list_by_state E Active) (\<lambda>active.
    bnd (expire_each E active rep) (\<lambda>rep.
    bnd (audit_event (\<lambda>t. system_event t (ExpirationCheckRun (length (rep_expired rep)) (length (rep_warnings rep))))) (\<lambda>_.
    ret rep)))))"

section \<open>How operations change the stored keys\<close>

definition view :: "('s, 'r) kenv \<Rightarrow> ('s, 'r) Keystore \<Rightarrow> KeyId \<Rightarrow> KeyMetadata option" where
  "view E k i = (case sb_get (k_sb E) i (storage k) of Inr (Some m) \<Rightarrow> Some m | _ \<Rightarrow> None)"

lemma view_Some: "view E k i = Some m \<longleftrightarrow> sb_get (k_sb E) i (storage k) = Inr (Some m)"
  by (auto simp: view_def split: sum.split option.split)

lemma view_cong: "storage k' = storage k \<Longrightarrow> view E k' = view E k"
  by (simp add: fun_eq_iff view_def)

definition store_same :: "('s, 'r) Keystore \<Rightarrow> ('s, 'r) Keystore \<Rightarrow> bool" where
  "store_same k k' \<longleftrightarrow> storage k' = storage k"

lemma store_same_refl: "reflp store_same"
  by (simp add: reflp_def store_same_def)

lemma store_same_trans: "transp store_same"
  by (simp add: transp_def store_same_def)

named_theorems store_intros \<open>operations that leave the stored keys alone\<close>

lemma evolves_mono: "evolves R m \<Longrightarrow> (\<And>k k'. R k k' \<Longrightarrow> S k k') \<Longrightarrow> evolves S m"
  by (simp add: evolves_def)

lemma quiet_store_same: "evolves quiet m \<Longrightarrow> evolves store_same m"
  by (erule evolves_mono) (simp add: store_same_def quiet_fields)

lemmas store_bnd [store_intros] = evolves_bnd [OF store_same_trans]
lemmas store_basic [store_intros] = evolves_on_err evolves_pure [OF store_same_refl]
lemmas store_quiet [store_intros] = quiet_store_same [OF quiet_now] quiet_store_same [OF quiet_draw]
  quiet_store_same [OF quiet_audit_event] quiet_store_same [OF quiet_audit_key]
  quiet_store_same [OF wrap_secret_key_for_quiet] quiet_store_same [OF unwrap_quiet]

lemma on_threat_store [store_intros]: "evolves store_same (on_threat f)"
  by (simp add: evolves_def on_threat_def store_same_def split: prod.split)

lemma current_threat_level_store [store_intros]: "evolves store_same (current_threat_level E)"
  by (simp add: evolves_def current_threat_level_def on_threat_def store_same_def split: prod.split)

lemma master_key_gate_store [store_intros]: "evolves store_same (master_key_gate E)"
  unfolding master_key_gate_def by (auto intro!: store_intros)

lemma hierarchy_gate_store [store_intros]: "evolves store_same (hierarchy_gate E kt parent)"
  unfolding hierarchy_gate_def Let_def by (auto intro!: store_intros split: option.split)

lemma ks_get_store [store_intros]: "evolves store_same (ks_get E i)"
  unfolding ks_get_def by (intro store_intros)

lemma transition_store [store_intros]: "evolves store_same (transition m t)"
  unfolding transition_def by (auto intro!: store_intros)

lemma effective_policy_store [store_intros]: "evolves store_same (effective_policy_for E meta)"
  unfolding effective_policy_for_def by (intro store_intros)

lemma check_expiration_store [store_intros]: "evolves store_same (check_expiration E meta)"
  unfolding check_expiration_def grace_period_for_def max_lifetime_for_def Let_def
  by (auto intro!: store_intros split: KeyState.split option.split)

lemma resolve_loop_store [store_intros]: "evolves store_same (resolve_loop E start cur n)"
  by (induction E start cur n rule: resolve_loop.induct)
    (auto intro!: store_intros split: KeyType.split option.split)

text \<open>\<open>upd\<close>: the keys that are stored afterwards were stored before and are unchanged, or were changed in a way
  that \<open>Q\<close> allows. \<open>safe\<close> is the same for the rest of an operation that has read a key.\<close>

definition upd ::
  "('s \<Rightarrow> bool) \<Rightarrow> ('s, 'r) kenv \<Rightarrow> (KeyMetadata \<Rightarrow> KeyMetadata \<Rightarrow> bool) \<Rightarrow> ('s, 'r) Keystore \<Rightarrow> ('s, 'r) Keystore \<Rightarrow> bool" where
  "upd J E Q k k' \<longleftrightarrow> (J (storage k) \<longrightarrow> J (storage k') \<and>
     (\<forall>i m'. view E k' i = Some m' \<longrightarrow> (\<exists>m. view E k i = Some m \<and> (m' = m \<or> Q m m'))))"

definition safe ::
  "('s \<Rightarrow> bool) \<Rightarrow> ('s, 'r) kenv \<Rightarrow> (KeyMetadata \<Rightarrow> KeyMetadata \<Rightarrow> bool) \<Rightarrow> KeyMetadata \<Rightarrow> ('s, 'r, 'e, 'a) kop \<Rightarrow> bool" where
  "safe J E Q m op \<longleftrightarrow> (\<forall>k. view E k (km_id m) = Some m \<longrightarrow> upd J E Q k (snd (op k)))"

named_theorems safe_intros \<open>the rest of an operation changes keys as allowed\<close>

lemma upd_same: "storage k' = storage k \<Longrightarrow> upd J E Q k k'"
  using view_cong [of k' k E] by (simp add: upd_def)

lemma safe_same [safe_intros]: "evolves store_same op \<Longrightarrow> safe J E Q m op"
  unfolding safe_def evolves_def store_same_def by (intro allI impI upd_same) blast

lemma safe_throw: "safe J E Q m (throw e)"
  by (intro safe_same store_intros)

lemma safe_bnd:
  assumes "evolves store_same a" "\<And>x k k1. a k = (Inr x, k1) \<Longrightarrow> safe J E Q m (f x)"
  shows "safe J E Q m (bnd a f)"
  unfolding safe_def
proof (intro allI impI)
  fix k assume v: "view E k (km_id m) = Some m"
  obtain r k1 where a: "a k = (r, k1)" by (cases "a k")
  with assms(1) have s: "storage k1 = storage k" by (metis evolvesD store_same_def)
  show "upd J E Q k (snd (bnd a f k))"
  proof (cases r)
    case (Inl e)
    with a s show ?thesis by (simp add: bnd_def upd_same)
  next
    case (Inr x)
    have "upd J E Q k1 (snd (f x k1))"
      using assms(2) [OF a [unfolded Inr]] v s by (simp add: safe_def view_cong [OF s])
    with a Inr s show ?thesis by (simp add: bnd_def upd_def view_cong [OF s])
  qed
qed

lemmas safe_steps = safe_bnd [OF quiet_store_same [OF quiet_now]] safe_bnd [OF quiet_store_same [OF quiet_draw]]
  safe_bnd [OF evolves_pure(3) [OF store_same_refl]] safe_bnd [OF evolves_on_err] safe_bnd [OF master_key_gate_store]
  safe_bnd [OF check_expiration_store]

text \<open>A transition is a read of the clock and a state that the table allows.\<close>

lemma safe_transition:
  assumes "\<And>t. can_transition_to (km_state m) target \<Longrightarrow> safe J E Q m (f (m\<lparr> km_state := target, updated_at := t \<rparr>))"
  shows "safe J E Q m (bnd (transition m target) f)"
proof (cases "can_transition_to (km_state m) target")
  case True
  then have "bnd (transition m target) f = bnd now (\<lambda>t. f (m\<lparr> km_state := target, updated_at := t \<rparr>))"
    by (simp add: fun_eq_iff transition_def bnd_def now_def ret_def)
  then show ?thesis using assms True by (auto intro!: safe_bnd store_intros)
next
  case False
  then have "bnd (transition m target) f = throw (InvalidTransition (km_id m) (km_state m) target)"
    by (simp add: fun_eq_iff transition_def bnd_def throw_def)
  then show ?thesis by (auto intro!: safe_same store_intros)
qed

lemma upd_get:
  assumes "\<And>m. km_id m = i \<Longrightarrow> safe J E Q m (f m)" and "\<And>s m. J s \<Longrightarrow> sb_get (k_sb E) i s = Inr (Some m) \<Longrightarrow> km_id m = i"
  shows "evolves (upd J E Q) (bnd (ks_get E i) f)"
  unfolding evolves_def
proof
  fix k
  show "upd J E Q k (snd (bnd (ks_get E i) f k))"
  proof (cases "sb_get (k_sb E) i (storage k)")
    case (Inr found)
    show ?thesis
    proof (cases "J (storage k) \<and> found \<noteq> None")
      case True
      then obtain m where m: "found = Some m" by blast
      with Inr have "bnd (ks_get E i) f k = f m k"
        by (simp add: ks_get_def bnd_def storage_get_def lift_def)
      moreover have "km_id m = i" using assms(2) True Inr m by blast
      ultimately show ?thesis using assms(1) [of m] Inr m by (simp add: safe_def view_Some)
    next
      case False
      with Inr show ?thesis by (cases found) (auto simp: ks_get_def bnd_def storage_get_def lift_def upd_def)
    qed
  qed (simp add: ks_get_def bnd_def storage_get_def upd_same)
qed

context storage_backend
begin

lemma safe_put:
  assumes "k_sb E = SB" "km_id m' = km_id m" "Q m m'" "\<And>x. evolves store_same (f x)"
  shows "safe sinv E Q m (bnd (storage_put E m') f)"
  unfolding safe_def upd_def
proof (intro allI impI)
  fix k assume v: "view E k (km_id m) = Some m" and i: "sinv (storage k)"
  obtain s r where p: "sb_put SB m' (storage k) = (s, r)" by (cases "sb_put SB m' (storage k)")
  have st: "storage (snd (bnd (storage_put E m') f k)) = s"
    using assms(1) p assms(4) by (cases r) (simp_all add: bnd_def storage_put_def evolves_def store_same_def)
  have s: "s = fst (sb_put SB m' (storage k))" using p by simp
  have "\<exists>m0. view E k j = Some m0 \<and> (m1 = m0 \<or> Q m0 m1)" if "view E (snd (bnd (storage_put E m') f k)) j = Some m1" for j m1
  proof -
    have "sb_get SB j (fst (sb_put SB m' (storage k))) = Inr (Some m1)" using that st s assms(1) by (simp add: view_Some)
    from put_get [OF i this] show ?thesis
      using v assms(1-3) by (auto simp: view_Some)
  qed
  then show "sinv (storage (snd (bnd (storage_put E m') f k))) \<and>
      (\<forall>j m1. view E (snd (bnd (storage_put E m') f k)) j = Some m1 \<longrightarrow> (\<exists>m0. view E k j = Some m0 \<and> (m1 = m0 \<or> Q m0 m1)))"
    using st s put_inv [OF i] by simp
qed

lemma upd_get': "k_sb E = SB \<Longrightarrow> (\<And>m. km_id m = i \<Longrightarrow> safe sinv E Q m (f m)) \<Longrightarrow> evolves (upd sinv E Q) (bnd (ks_get E i) f)"
  using upd_get [of i sinv E Q f] get_id by blast

text \<open>The overwriting of a key file followed by the write of the new metadata.\<close>

lemma safe_overwrite_put:
  assumes "k_sb E = SB" "km_id m' = km_id m" "Q m m'" "\<And>x. evolves store_same (f x)"
  shows "safe sinv E Q m (bnd (storage_overwrite E (km_id m)) (\<lambda>_. bnd (storage_put E m') f))"
  unfolding safe_def upd_def
proof (intro allI impI)
  fix k assume v: "view E k (km_id m) = Some m" and i: "sinv (storage k)"
  let ?op = "bnd (storage_overwrite E (km_id m)) (\<lambda>_. bnd (storage_put E m') f)"
  obtain s r where o: "sb_overwrite_key_file SB (km_id m) (storage k) = (s, r)" by fastforce
  obtain s2 r2 where p: "sb_put SB m' s = (s2, r2)" by fastforce
  have s: "s = fst (sb_overwrite_key_file SB (km_id m) (storage k))" "s2 = fst (sb_put SB m' s)" using o p by simp_all
  have inv: "sinv s" "sinv s2" using overwrite_inv [OF i] put_inv s by auto
  have st: "storage (snd (?op k)) \<in> {s, s2}"
    using assms(1) o p assms(4)
    by (cases r; cases r2) (simp_all add: bnd_def storage_put_def storage_overwrite_def evolves_def store_same_def)
  have old: "sb_get SB j (storage k) = Inr (Some m1)" if "sb_get SB j s = Inr (Some m1)" for j m1
    using that overwrite_other [OF i, of j "km_id m"] overwrite_same [OF i, of "km_id m"] s(1)
    by (cases "j = km_id m") auto
  have "\<exists>m0. view E k j = Some m0 \<and> (m1 = m0 \<or> Q m0 m1)" if "view E (snd (?op k)) j = Some m1" for j m1
  proof -
    have "sb_get SB j s = Inr (Some m1) \<or> sb_get SB j s2 = Inr (Some m1)" using that st assms(1) by (auto simp: view_Some)
    then consider "sb_get SB j s = Inr (Some m1)" | "j = km_id m'" "m1 = m'"
      using put_get [OF inv(1), of j m' m1] s(2) by auto
    then show ?thesis using old v assms(1-3) by cases (auto simp: view_Some)
  qed
  then show "sinv (storage (snd (?op k))) \<and>
      (\<forall>j m1. view E (snd (?op k)) j = Some m1 \<longrightarrow> (\<exists>m0. view E k j = Some m0 \<and> (m1 = m0 \<or> Q m0 m1)))"
    using st inv by auto
qed

end

section \<open>The life cycle\<close>

definition purged :: "KeyMetadata \<Rightarrow> bool" where
  "purged m = list_all (\<lambda>v. secret_key_material v = DestroyedMaterial) (versions m)"

definition life_ok :: "KeyMetadata \<Rightarrow> KeyMetadata \<Rightarrow> bool" where
  "life_ok m m' \<longleftrightarrow> km_id m' = km_id m \<and> key_type m' = key_type m \<and> parent_id m' = parent_id m \<and>
     (km_state m' = km_state m \<or> can_transition_to (km_state m) (km_state m')) \<and>
     (km_state m' = Destroyed \<and> (km_state m = Destroyed \<longrightarrow> purged m) \<longrightarrow> purged m')"

lemma required_state:
  "check_expiration E m k = (Inr (ExpirationRequired r src), k') \<Longrightarrow> km_state m = Active \<or> km_state m = Rotated"
  by (auto simp: check_expiration_def split: KeyState.splits)

lemma unwrap_destroyed: "secret_key_material kv = DestroyedMaterial \<Longrightarrow> fst (unwrap_key_version_inner E kid kv lvl skip k) \<noteq> Inr sk"
  using unwrap_simple_iff(1) by (metis prod.collapse)

lemma life_ok_unchanged_state:
  "km_id m' = km_id m \<Longrightarrow> key_type m' = key_type m \<Longrightarrow> parent_id m' = parent_id m \<Longrightarrow> km_state m' = km_state m \<Longrightarrow>
   (km_state m = Destroyed \<Longrightarrow> purged m \<Longrightarrow> purged m') \<Longrightarrow> life_ok m m'"
  by (auto simp: life_ok_def)

context storage_backend
begin

lemma activate_upd: "k_sb E = SB \<Longrightarrow> evolves (upd sinv E life_ok) (activate E i)"
  unfolding activate_def Let_def
  by (intro upd_get' safe_transition safe_steps safe_put)
    (auto intro!: store_intros simp: life_ok_def)

lemma rotate_upd: "k_sb E = SB \<Longrightarrow> evolves (upd sinv E life_ok) (rotate E i)"
  unfolding rotate_def Let_def
  by (rule upd_get')
    (auto intro!: safe_steps safe_put safe_throw store_intros split: prod.split simp: life_ok_def)

lemma revoke_upd: "k_sb E = SB \<Longrightarrow> evolves (upd sinv E life_ok) (revoke E i r)"
  unfolding revoke_def Let_def
  by (rule upd_get')
    (auto intro!: safe_steps safe_put safe_throw store_intros simp: life_ok_def can_transition_iff)

lemma expire_upd: "k_sb E = SB \<Longrightarrow> evolves (upd sinv E life_ok) (expire E i)"
  unfolding expire_def Let_def
  by (rule upd_get')
    (auto intro!: safe_steps safe_put safe_throw store_intros dest!: required_state
      split: ExpirationDecision.split simp: life_ok_def can_transition_iff)

lemma destroy_upd:
  fixes E :: "('s, 'r) kenv"
  assumes E: "k_sb E = SB"
  shows "evolves (upd sinv E life_ok) (destroy E i)"
proof -
  have ok: "life_ok m (m\<lparr> versions := map (\<lambda>v. v\<lparr> secret_key_material := DestroyedMaterial,
      public_key_hex := ''DESTROYED'' \<rparr>) (versions m), km_state := Destroyed, destroyed_at := a, updated_at := b \<rparr>)"
    if "can_transition_to (km_state m) Destroyed" for m a b
    using that by (simp add: life_ok_def purged_def list_all_iff)
  show ?thesis
    unfolding destroy_def Let_def
    by (intro upd_get' [OF E]) (auto intro!: safe_steps safe_throw store_intros safe_overwrite_put [OF E] ok)
qed

lemma rewrap_upd:
  fixes E :: "('s, 'r) kenv"
  assumes E: "k_sb E = SB"
  shows "evolves (upd sinv E life_ok) (rewrap E i p)"
proof -
  let ?rest = "\<lambda>m. bnd (lift (ok_or (current_key_version m) (KeyNotFound i))) (\<lambda>kv.
    let old_parent_id = wrapping_key_id kv in
    bnd (on_err StorageError (unwrap_key_version_for_rewrap E i kv)) (\<lambda>sk_bytes.
    bnd (on_err StorageError (wrap_secret_key_for E i (kv_version kv) p sk_bytes))
      (\<lambda>(new_material, new_wk_id, new_wk_ver).
    bnd (lift (ok_or (replace_version (\<lambda>v. v\<lparr> secret_key_material := new_material, wrapping_key_id := new_wk_id,
        wrapping_key_version := new_wk_ver, wrap_nonce_hex := extract_wrap_nonce new_material, wrapping_mode := None \<rparr>)
        (current_version m) (versions m)) (KeyNotFound i))) (\<lambda>vs.
    bnd now (\<lambda>t.
    let meta' = m\<lparr> versions := vs, updated_at := t \<rparr> in
    bnd (storage_put E meta') (\<lambda>_.
    audit_key i (key_type meta') (km_state meta') (KeyRewrapped old_parent_id p new_wk_ver)))))))"
  have s: "safe sinv E life_ok m (?rest m)" if "km_id m = i" for m
  proof (cases "km_state m = Destroyed \<and> purged m")
    case True
    have "\<not> (\<exists>k sk k1. on_err StorageError (unwrap_key_version_for_rewrap E i kv) k = (Inr sk, k1))"
      if "current_key_version m = Some kv" for kv
    proof -
      have "kv \<in> set (versions m)" using that by (metis current_key_version_def find_Some_iff nth_mem)
      then have "secret_key_material kv = DestroyedMaterial" using True by (simp add: purged_def list_all_iff)
      then show ?thesis by (simp add: unwrap_key_version_for_rewrap_def unwrap_simple_iff)
    qed
    then show ?thesis unfolding Let_def
      by (intro safe_steps store_intros) (auto simp: unwrap_key_version_for_rewrap_def intro!: store_intros)
  next
    case False
    then show ?thesis unfolding Let_def
      by (auto intro!: safe_steps safe_put [OF E] store_intros life_ok_unchanged_state
          simp: unwrap_key_version_for_rewrap_def)
  qed
  have *: "evolves (upd sinv E life_ok) (bnd (ks_get E i) ?rest)" by (intro upd_get' [OF E] s)
  have err: "evolves R (bnd (on_err g (ks_get E i)) f)" if "evolves R (bnd (ks_get E i) f)" for R g and f :: "KeyMetadata \<Rightarrow> ('s, 'r, KeystoreError, unit) kop"
  proof -
    have "snd (bnd (on_err g (ks_get E i)) f k) = snd (bnd (ks_get E i) f k)" for k
      by (simp add: bnd_def on_err_def split: prod.split sum.split)
    then show ?thesis using that by (simp add: evolves_def)
  qed
  show ?thesis unfolding rewrap_def by (rule err [OF *])
qed

end

end
