(* ===== verification/Keystore_Cascade.thy ===== *)
theory Keystore_Cascade
  imports Keystore_Life
begin

text \<open>
  \<^verbatim>\<open>Keystore::revoke_cascade\<close>. The loop works through a stack of parents and suspends their children. One child is dealt
  with by one \<open>child_step\<close>; from its cases follow an invariant of the loop, that the loop ends (the stack can only grow at the
  cost of keys that can still be suspended), and what it achieves when it reports no error.
\<close>

section \<open>One child\<close>

abbreviation stopped :: "KeyState \<Rightarrow> bool" where
  "stopped s \<equiv> s \<in> {Destroyed, Revoked, Suspended}"

definition suspends :: "KeyMetadata \<Rightarrow> KeyMetadata \<Rightarrow> bool" where
  "suspends m m' \<longleftrightarrow> can_transition_to (km_state m) Suspended \<and> (\<exists>t. m' = m\<lparr> km_state := Suspended, updated_at := t \<rparr>)"

lemma suspends_facts:
  assumes "suspends m m'"
  shows "km_state m' = Suspended" "km_id m' = km_id m" "parent_id m' = parent_id m" "life_ok m m'"
    "can_transition_to (km_state m) Suspended" "\<not> can_transition_to (km_state m') Suspended"
  using assms by (auto simp: suspends_def life_ok_def can_transition_iff)

type_synonym cascade = "((KeyId \<times> string) list \<times> KeyId list) \<times> (KeyId \<rightharpoonup> KeyMetadata)"

inductive child_step :: "KeyMetadata \<Rightarrow> cascade \<Rightarrow> cascade \<Rightarrow> bool" for c where
  left_alone: "stopped (km_state c) \<Longrightarrow> child_step c ((errs, q), V) ((errs, q), V)"
| refused: "child_step c ((errs, q), V) ((errs @ [e], q), V)"
| suspended: "suspends c c' \<Longrightarrow> child_step c ((errs, q), V) ((errs, q @ [km_id c]), V(km_id c \<mapsto> c'))"
| unsure: "suspends c c' \<Longrightarrow> child_step c ((errs, q), V) ((errs @ [e], q), V(km_id c \<mapsto> c'))"

inductive_cases child_stepE: "child_step c ((errs, q), V) X"

lemma child_step_other: "child_step c (a, V) (a', V') \<Longrightarrow> i \<noteq> km_id c \<Longrightarrow> V' i = V i"
  by (auto elim: child_step.cases)

lemma suspend_children_Cons:
  "suspend_children E pid (c # cs) acc k =
     (case suspend_children E pid [c] acc k of (acc1, k1) \<Rightarrow> suspend_children E pid cs acc1 k1)"
  by (cases acc) (auto simp: Let_def split: prod.split sum.split)

context storage_backend
begin

lemma view_put:
  assumes "k_sb E = SB" "sinv (storage k)" "sb_put SB m (storage k) = (s, r)" "storage k' = s"
  shows "sinv (storage k')" "r = Inr () \<Longrightarrow> view E k' = (view E k)(km_id m \<mapsto> m)"
    "view E k' \<in> {view E k, (view E k)(km_id m \<mapsto> m)}"
proof -
  have s: "s = fst (sb_put SB m (storage k))" "r = snd (sb_put SB m (storage k))" using assms(3) by simp_all
  show "sinv (storage k')" using put_inv [OF assms(2)] assms(4) s by simp
  have other: "view E k' i = view E k i" if "i \<noteq> km_id m" for i
    using put_other [OF assms(2) that] assms(1,4) s by (simp add: view_def)
  show ok: "view E k' = (view E k)(km_id m \<mapsto> m)" if "r = Inr ()"
    using put_ok [OF assms(2), of m] that other assms(1,4) s by (auto simp: fun_eq_iff view_def)
  have "view E k' (km_id m) \<in> {view E k (km_id m), Some m}" if "r \<noteq> Inr ()"
    using put_err [OF assms(2), of m] that assms(1,4) s by (auto simp: view_def)
  then show "view E k' \<in> {view E k, (view E k)(km_id m \<mapsto> m)}"
    using ok other by (metis (no_types, lifting) ext fun_upd_other fun_upd_same insertCI insertE singletonD)
qed

lemma suspend_one:
  assumes E: "k_sb E = SB" and inv: "sinv (storage k)"
    and run: "suspend_children E pid [c] (n, errs, q) k = ((n', errs', q'), k')"
  shows "sinv (storage k') \<and> child_step c ((errs, q), view E k) ((errs', q'), view E k') \<and> n' + length q = n + length q'"
proof -
  consider (stop) "stopped (km_state c)" | (refuse) "\<not> stopped (km_state c)" "\<not> can_transition_to (km_state c) Suspended"
    | (go) "\<not> stopped (km_state c)" "can_transition_to (km_state c) Suspended" by blast
  then show ?thesis
  proof cases
    case stop
    then show ?thesis using run inv by (auto intro: child_step.left_alone)
  next
    case refuse
    then show ?thesis using run inv by (auto intro: child_step.refused)
  next
    case go
    define c' where "c' = c\<lparr> km_state := Suspended, updated_at := int (clock k (tick k)) \<rparr>"
    obtain s r where p: "sb_put SB c' (storage k) = (s, r)" by fastforce
    have st: "storage k' = s"
      using run go p E by (auto simp: Let_def c'_def audit_key_def audit_event_run split: sum.splits)
    note v = view_put [OF E inv p st]
    have c': "suspends c c'" "km_id c' = km_id c" using go by (auto simp: suspends_def c'_def)
    show ?thesis
    proof (cases r)
      case (Inr u)
      then have "errs' = errs" "q' = q @ [km_id c]" "n' = n + 1"
        using run go p E by (auto simp: Let_def c'_def audit_key_def audit_event_run)
      then show ?thesis using v c' Inr child_step.suspended [of c c'] by simp
    next
      case (Inl e)
      then have "errs' = errs @ [(km_id c, show_error e)]" "q' = q" "n' = n"
        using run go p E by (auto simp: Let_def c'_def)
      then show ?thesis using v c' child_step.unsure [of c c'] child_step.refused [of c] by auto
    qed
  qed
qed

text \<open>A relation that every step for a listed child keeps is kept by a pass.\<close>

lemma suspend_children_inv:
  assumes E: "k_sb E = SB"
    and step: "\<And>c a V X. R (a, V) \<Longrightarrow> V (km_id c) = Some c \<Longrightarrow> child_step c (a, V) X \<Longrightarrow> R X"
  shows "suspend_children E pid cs (n, errs, q) k = ((n', errs', q'), k') \<Longrightarrow> sinv (storage k) \<Longrightarrow> distinct (map km_id cs) \<Longrightarrow>
    \<forall>c\<in>set cs. view E k (km_id c) = Some c \<Longrightarrow> R ((errs, q), view E k) \<Longrightarrow> sinv (storage k') \<and> R ((errs', q'), view E k')"
proof (induction cs arbitrary: n errs q k)
  case (Cons c cs)
  obtain n1 errs1 q1 k1 where one: "suspend_children E pid [c] (n, errs, q) k = ((n1, errs1, q1), k1)"
    by (cases "suspend_children E pid [c] (n, errs, q) k") (metis prod_cases3)
  from suspend_one [OF E Cons.prems(2) one] have s: "sinv (storage k1)" "child_step c ((errs, q), view E k) ((errs1, q1), view E k1)" by simp_all
  have "\<forall>c'\<in>set cs. view E k1 (km_id c') = Some c'"
  proof
    fix c' assume "c' \<in> set cs"
    moreover from this have "km_id c' \<noteq> km_id c" using Cons.prems(3) by (metis distinct.simps(2) image_eqI list.simps(9) list.set_map)
    ultimately show "view E k1 (km_id c') = Some c'" using child_step_other [OF s(2)] Cons.prems(4) by simp
  qed
  moreover have "suspend_children E pid cs (n1, errs1, q1) k1 = ((n', errs', q'), k')"
    using Cons.prems(1) unfolding suspend_children_Cons [of E pid c cs] one by simp
  moreover have "R ((errs1, q1), view E k1)" using step [OF Cons.prems(5) _ s(2)] Cons.prems(4) by simp
  ultimately show ?case using Cons.IH Cons.prems(3) s(1) by simp
qed simp

end

section \<open>What a step keeps\<close>

definition suspendable :: "(KeyId \<rightharpoonup> KeyMetadata) \<Rightarrow> KeyId set" where
  "suspendable V = {i. \<exists>m. V i = Some m \<and> can_transition_to (km_state m) Suspended}"

lemma suspendable_upd: "suspends c c' \<Longrightarrow> suspendable (V(km_id c \<mapsto> c')) = suspendable V - {km_id c}"
  using suspends_facts(6) [of c c'] by (auto simp: suspendable_def)

definition room :: "cascade \<Rightarrow> nat" where
  "room X = length (snd (fst X)) + card (suspendable (snd X))"

lemma child_step_room:
  assumes "child_step c X Y" "snd X (km_id c) = Some c" "finite (suspendable (snd X))"
  shows "finite (suspendable (snd Y)) \<and> room Y \<le> room X"
  using assms
proof (cases rule: child_step.cases)
  case (suspended c' errs q V)
  moreover have "Suc (card (suspendable V - {km_id c})) = card (suspendable V)"
    using suspended assms suspends_facts(5) [of c c'] by (intro card_Suc_Diff1) (auto simp: suspendable_def)
  ultimately show ?thesis using assms(3) by (simp add: room_def suspendable_upd)
next
  case (unsure c' errs q V e)
  then show ?thesis using assms(3) by (simp add: room_def suspendable_upd card_Diff1_le)
qed (use assms in \<open>auto simp: room_def\<close>)

definition only_suspends :: "(KeyId \<rightharpoonup> KeyMetadata) \<Rightarrow> (KeyId \<rightharpoonup> KeyMetadata) \<Rightarrow> bool" where
  "only_suspends V0 V \<longleftrightarrow> (\<forall>i. V i = V0 i \<or> (\<exists>m m'. V0 i = Some m \<and> V i = Some m' \<and> suspends m m'))"

lemma child_step_only:
  assumes "child_step c X Y" "snd X (km_id c) = Some c" "only_suspends V0 (snd X)"
  shows "only_suspends V0 (snd Y)"
proof -
  have "only_suspends V0 (V(km_id c \<mapsto> c'))" if "suspends c c'" "V (km_id c) = Some c" "only_suspends V0 V" for c' V
    unfolding only_suspends_def
  proof
    fix i
    have "V0 (km_id c) = Some c"
      using that suspends_facts(5) [OF that(1)] suspends_facts(6) unfolding only_suspends_def by (metis option.inject)
    then show "(V(km_id c \<mapsto> c')) i = V0 i \<or> (\<exists>m m'. V0 i = Some m \<and> (V(km_id c \<mapsto> c')) i = Some m' \<and> suspends m m')"
      using that by (cases "i = km_id c") (auto simp: only_suspends_def)
  qed
  then show ?thesis using assms by (auto elim!: child_step.cases)
qed

definition contained :: "(KeyId \<rightharpoonup> KeyMetadata) \<Rightarrow> KeyId set \<Rightarrow> KeyId set \<Rightarrow> cascade \<Rightarrow> bool" where
  "contained V0 P D X \<longleftrightarrow> (fst (fst X) = [] \<longrightarrow>
     (\<forall>i. snd X i \<noteq> V0 i \<longrightarrow> i \<in> D \<union> set (snd (fst X))) \<and>
     (\<forall>p\<in>P. \<forall>i m. snd X i = Some m \<and> parent_id m = Some p \<longrightarrow> stopped (km_state m)))"

lemma child_step_contained:
  assumes "child_step c X Y" "snd X (km_id c) = Some c" "contained V0 P D X"
  shows "contained V0 P D Y"
  using assms by (cases rule: child_step.cases) (auto simp: contained_def suspends_facts)

definition halted :: "KeyId \<Rightarrow> cascade \<Rightarrow> bool" where
  "halted i X \<longleftrightarrow> fst (fst X) \<noteq> [] \<or> (\<exists>m. snd X i = Some m \<and> stopped (km_state m))"

lemma child_step_halted:
  assumes "child_step c X Y" "snd X (km_id c) = Some c"
  shows "halted (km_id c) Y" "halted i X \<Longrightarrow> halted i Y"
  using assms by (auto simp: halted_def suspends_facts elim!: child_step.cases)

section \<open>The loop\<close>

context storage_backend
begin

lemma suspend_children_halted:
  assumes E: "k_sb E = SB"
  shows "suspend_children E pid cs (n, errs, q) k = ((n', errs', q'), k') \<Longrightarrow> sinv (storage k) \<Longrightarrow> distinct (map km_id cs) \<Longrightarrow>
    \<forall>c\<in>set cs. view E k (km_id c) = Some c \<Longrightarrow> c \<in> set cs \<Longrightarrow> halted (km_id c) ((errs', q'), view E k')"
proof (induction cs arbitrary: n errs q k)
  case (Cons d cs)
  obtain n1 errs1 q1 k1 where one: "suspend_children E pid [d] (n, errs, q) k = ((n1, errs1, q1), k1)"
    by (cases "suspend_children E pid [d] (n, errs, q) k") (metis prod_cases3)
  from suspend_one [OF E Cons.prems(2) one] have s: "sinv (storage k1)" "child_step d ((errs, q), view E k) ((errs1, q1), view E k1)" by simp_all
  have rest: "suspend_children E pid cs (n1, errs1, q1) k1 = ((n', errs', q'), k')"
    using Cons.prems(1) unfolding suspend_children_Cons [of E pid d cs] one by simp
  have v: "\<forall>c'\<in>set cs. view E k1 (km_id c') = Some c'"
    using child_step_other [OF s(2)] Cons.prems(3,4) by (metis distinct.simps(2) image_eqI list.set_intros(2) list.set_map list.simps(9))
  show ?case
  proof (cases "c = d")
    case True
    have "halted (km_id d) ((errs1, q1), view E k1)" using child_step_halted(1) [OF s(2)] Cons.prems(4) by simp
    then show ?thesis
      using suspend_children_inv [OF E, of "halted (km_id d)", OF child_step_halted(2) rest s(1)] Cons.prems(3) v True by auto
  next
    case False
    then show ?thesis using Cons.IH [OF rest s(1)] Cons.prems(3,5) v by auto
  qed
qed simp

lemma children_listed:
  assumes "k_sb E = SB" "sinv (storage k)" "sb_list_by_parent SB p (storage k) = Inr cs"
  shows "distinct (map km_id cs)" "c \<in> set cs \<longleftrightarrow> view E k (km_id c) = Some c \<and> parent_id c = Some p"
    "\<forall>c\<in>set cs. view E k (km_id c) = Some c"
  using list_by_parent_distinct [OF assms(2,3)] list_by_parent_ok [OF assms(2,3)] assms(1) by (auto simp: view_Some)

lemma cascade_only:
  assumes E: "k_sb E = SB"
  shows "cascade_loop fuel E (n, errs, q) k = Some (r, k') \<Longrightarrow> sinv (storage k) \<Longrightarrow> only_suspends V0 (view E k) \<Longrightarrow>
    sinv (storage k') \<and> only_suspends V0 (view E k')"
proof (induction fuel arbitrary: n errs q k)
  case (Suc fuel)
  show ?case
  proof (cases "q = []")
    case False
    show ?thesis
    proof (cases "sb_list_by_parent SB (last q) (storage k)")
      case (Inr cs)
      obtain n1 errs1 q1 k1 where p: "suspend_children E (last q) cs (n, errs, butlast q) k = ((n1, errs1, q1), k1)"
        by (cases "suspend_children E (last q) cs (n, errs, butlast q) k") (metis prod_cases3)
      have "sinv (storage k1) \<and> only_suspends V0 (view E k1)"
        using suspend_children_inv [OF E, of "\<lambda>X. only_suspends V0 (snd X)", OF _ p Suc.prems(2)]
          child_step_only children_listed [OF E Suc.prems(2) Inr] Suc.prems(3) by (metis snd_conv)
      then show ?thesis using Suc.IH [of n1 errs1 q1 k1] Suc.prems(1) False Inr p E by simp
    qed (use Suc.prems False E in auto)
  qed (use Suc.prems in auto)
qed simp

lemma cascade_ends:
  assumes E: "k_sb E = SB"
  shows "sinv (storage k) \<Longrightarrow> finite (suspendable (view E k)) \<Longrightarrow> length q + card (suspendable (view E k)) < fuel \<Longrightarrow>
    cascade_loop fuel E (n, errs, q) k \<noteq> None"
proof (induction fuel arbitrary: n errs q k)
  case (Suc fuel)
  show ?case
  proof (cases "q = []")
    case False
    show ?thesis
    proof (cases "sb_list_by_parent SB (last q) (storage k)")
      case (Inr cs)
      obtain n1 errs1 q1 k1 where p: "suspend_children E (last q) cs (n, errs, butlast q) k = ((n1, errs1, q1), k1)"
        by (cases "suspend_children E (last q) cs (n, errs, butlast q) k") (metis prod_cases3)
      let ?b = "length (butlast q) + card (suspendable (view E k))"
      define R where "R X \<longleftrightarrow> finite (suspendable (snd X)) \<and> room X \<le> ?b" for X
      have step: "R X" if "R (a, V)" "V (km_id c) = Some c" "child_step c (a, V) X" for c a V X
        using that child_step_room [of c "(a, V)" X] by (simp add: R_def)
      have "R ((errs, butlast q), view E k)" using Suc.prems(2) by (simp add: R_def room_def)
      then have "sinv (storage k1) \<and> R ((errs1, q1), view E k1)"
        by (intro suspend_children_inv [where R = R, OF E _ p Suc.prems(1) children_listed(1,3) [OF E Suc.prems(1) Inr]])
          (rule step)
      moreover have "Suc (length (butlast q)) = length q" using False by (cases q) simp_all
      ultimately have "length q1 + card (suspendable (view E k1)) < fuel" using Suc.prems(3) unfolding R_def room_def by (simp del: length_butlast)
      then show ?thesis using \<open>sinv (storage k1) \<and> _\<close> Suc.IH [of k1 q1 n1 errs1] False Inr p E by (simp add: R_def)
    qed (use Suc.prems False E in auto)
  qed simp
qed simp

lemma cascade_contained:
  assumes E: "k_sb E = SB"
  shows "cascade_loop fuel E (n, errs, q) k = Some (Inr (n', errs'), k') \<Longrightarrow> sinv (storage k) \<Longrightarrow>
    only_suspends V0 (view E k) \<Longrightarrow> contained V0 P P ((errs, q), view E k) \<Longrightarrow>
    \<exists>P'. P \<subseteq> P' \<and> (q \<noteq> [] \<longrightarrow> last q \<in> P') \<and> contained V0 P' P' ((errs', []), view E k')"
proof (induction fuel arbitrary: n errs q k P)
  case (Suc fuel)
  show ?case
  proof (cases "q = []")
    case False
    then obtain cs where cs: "sb_list_by_parent SB (last q) (storage k) = Inr cs"
      using Suc.prems(1) E by (cases "sb_list_by_parent SB (last q) (storage k)") auto
    obtain n1 errs1 q1 k1 where p: "suspend_children E (last q) cs (n, errs, butlast q) k = ((n1, errs1, q1), k1)"
      by (cases "suspend_children E (last q) cs (n, errs, butlast q) k") (metis prod_cases3)
    note l = children_listed [OF E Suc.prems(2) cs]
    note pass = suspend_children_inv [OF E _ p Suc.prems(2) l(1,3)]
    have q: "set q = insert (last q) (set (butlast q))" using False by (metis append_butlast_last_id list.set(1,2) rotate1.simps(2) set_rotate1)
    let ?P = "insert (last q) P"
    have inv1: "sinv (storage k1)" using pass [of "\<lambda>_. True"] by simp
    have only: "only_suspends (view E k) (view E k1)" "only_suspends V0 (view E k1)"
      using pass [of "\<lambda>X. only_suspends (view E k) (snd X)"] pass [of "\<lambda>X. only_suspends V0 (snd X)"] child_step_only Suc.prems(3)
      by (auto simp: only_suspends_def)
    have "contained V0 P ?P ((errs, butlast q), view E k)"
      using Suc.prems(4) q unfolding contained_def by auto blast
    then have c: "contained V0 P ?P ((errs1, q1), view E k1)"
      using pass [of "contained V0 P ?P"] child_step_contained by (metis snd_conv)
    have "stopped (km_state m)" if m: "errs1 = []" "view E k1 i = Some m" "parent_id m = Some (last q)" for i m
    proof -
      obtain m0 where m0: "view E k i = Some m0" "parent_id m0 = Some (last q)"
        using only(1) m(2,3) by (auto simp: only_suspends_def suspends_facts(3) elim!: allE [of _ i])
      then have "km_id m0 = i" using get_id [OF Suc.prems(2)] E by (simp add: view_Some)
      then have "halted i ((errs1, q1), view E k1)"
        using suspend_children_halted [OF E p Suc.prems(2) l(1,3), of m0] l(2) [of m0] m0 by simp
      then show ?thesis using m by (auto simp: halted_def)
    qed
    then have "contained V0 ?P ?P ((errs1, q1), view E k1)"
      using c unfolding contained_def fst_conv snd_conv by blast
    moreover have "cascade_loop fuel E (n1, errs1, q1) k1 = Some (Inr (n', errs'), k')"
      using Suc.prems(1) False cs p E by simp
    ultimately obtain P' where "?P \<subseteq> P'" "contained V0 P' P' ((errs', []), view E k')"
      using Suc.IH [of n1 errs1 q1 k1 ?P] inv1 only(2) by metis
    then show ?thesis by (intro exI [of _ P']) simp
  qed (use Suc.prems in auto)
qed simp

lemma revoke_view:
  assumes E: "k_sb E = SB" and inv: "sinv (storage k)" and run: "revoke E i reason k = (Inr u, k1)"
  shows "sinv (storage k1) \<and> (\<exists>m1. km_state m1 = Revoked \<and> view E k1 = (view E k)(i \<mapsto> m1))"
proof -
  obtain m where m: "sb_get SB i (storage k) = Inr (Some m)"
    and p: "sb_put SB (m\<lparr> km_state := Revoked, revoked_at := Some (int (clock k (tick k))), updated_at := int (clock k (Suc (tick k))) \<rparr>)
      (storage k) = (storage k1, Inr ())"
    using run E
    by (auto simp: revoke_def bnd_Inr ks_get_def Let_def now_def storage_put_def audit_key_def audit_event_run throw_def
        split: if_splits prod.splits option.splits dest!: sym [of _ "ok_or _ _"])
  have "km_id m = i" using get_id [OF inv m] .
  then have "sinv (storage k1) \<and> view E k1 = (view E k)(i \<mapsto> m\<lparr> km_state := Revoked,
      revoked_at := Some (int (clock k (tick k))), updated_at := int (clock k (Suc (tick k))) \<rparr>)"
    using view_put [OF E inv p refl] by simp
  then show ?thesis by (intro conjI exI [of _ "m\<lparr> km_state := Revoked, revoked_at := Some (int (clock k (tick k))),
    updated_at := int (clock k (Suc (tick k))) \<rparr>"]) simp_all
qed

lemma upd_dom: "upd sinv E Q k k' \<Longrightarrow> sinv (storage k) \<Longrightarrow> dom (view E k') \<subseteq> dom (view E k)"
  by (fastforce simp: upd_def)

lemma suspendable_dom: "suspendable V \<subseteq> dom V"
  by (auto simp: suspendable_def)

lemma revoke_cascade_ends:
  assumes E: "k_sb E = SB" and inv: "sinv (storage k)" and fin: "finite (dom (view E k))" and fuel: "card (dom (view E k)) + 1 < fuel"
  shows "revoke_cascade fuel E i reason k \<noteq> None"
proof (cases "revoke E i reason k")
  case (Pair r k1)
  then have "upd sinv E life_ok k k1" using evolvesD [OF revoke_upd [OF E]] by blast
  then have "sinv (storage k1)" "suspendable (view E k1) \<subseteq> dom (view E k)"
    using inv upd_dom [of E life_ok k k1] suspendable_dom [of "view E k1"] by (auto simp: upd_def)
  moreover from this have "card (suspendable (view E k1)) \<le> card (dom (view E k))" "finite (suspendable (view E k1))"
    using fin by (auto intro: card_mono finite_subset)
  ultimately have "cascade_loop fuel E (0, [], [i]) k1 \<noteq> None" using cascade_ends [OF E, of k1 "[i]" fuel 0 "[]"] fuel by simp
  then show ?thesis using Pair by (cases r) (auto simp: revoke_cascade_def)
qed

lemma revoke_cascade_result:
  assumes E: "k_sb E = SB" and inv: "sinv (storage k)"
    and run: "revoke_cascade fuel E i reason k = Some (Inr (r, n, errs), k')"
  obtains m1 P where "km_state m1 = Revoked" "only_suspends ((view E k)(i \<mapsto> m1)) (view E k')"
    "i \<in> P" "contained ((view E k)(i \<mapsto> m1)) P P ((errs, []), view E k')"
proof -
  obtain k1 where k1: "revoke E i reason k = (Inr (), k1)" "cascade_loop fuel E (0, [], [i]) k1 = Some (Inr (n, errs), k')"
    using run by (cases "revoke E i reason k"; cases "fst (revoke E i reason k)")
      (auto simp: revoke_cascade_def apfst_def map_prod_def split: sum.splits prod.splits, metis sum.exhaust surj_pair)
  obtain m1 where m1: "sinv (storage k1)" "km_state m1 = Revoked" "view E k1 = (view E k)(i \<mapsto> m1)"
    using revoke_view [OF E inv k1(1)] by blast
  have o: "only_suspends (view E k1) (view E k1)" by (simp add: only_suspends_def)
  have c: "contained (view E k1) {} {} (([], [i]), view E k1)" by (simp add: contained_def)
  obtain P where "i \<in> P" "contained (view E k1) P P ((errs, []), view E k')"
    using cascade_contained [OF E k1(2) m1(1) o c] by auto
  moreover have "only_suspends (view E k1) (view E k')" using cascade_only [OF E k1(2) m1(1) o] by simp
  ultimately show ?thesis using that m1 by metis
qed

end

section \<open>A store to try it on\<close>

definition demo_store :: InMemoryBackend where
  "demo_store = [(''d'', toy_key ''d'' Domain Active None []), (''k'', toy_key ''k'' KeyEncrypting Active (Some ''d'') []),
     (''e'', toy_key ''e'' DataEncrypting Active (Some ''k'') [])]"

lemma demo_sinv: "mem_sinv demo_store"
  by (simp add: mem_sinv_def demo_store_def toy_key_def)

lemma mem_view_finite: "k_sb E = InMemory \<Longrightarrow> finite (dom (view E k))"
  by (rule finite_subset [of _ "dom (map_of (storage k))"])
    (auto simp: view_Some InMemory_def mem_get_def finite_dom_map_of)

section \<open>Properties\<close>

text \<open>C11: the cascade ends. Whatever the parent links in the store are (cycles included), \<open>revoke_cascade\<close> returns once its
  loop is allowed one round more than there are stored keys: every key is put on the stack at most once.\<close>

theorem revoke_cascade_terminates:
  assumes "storage_backend (k_sb E) J" "J (storage k)" "finite (dom (view E k))"
  shows "\<exists>r k'. revoke_cascade (card (dom (view E k)) + 2) E i reason k = Some (r, k')"
  using storage_backend.revoke_cascade_ends [OF assms(1) refl assms(2,3)] by auto

theorem revoke_cascade_terminates_witness:
  "\<exists>r k'. revoke_cascade (card (dom (view toy_env (toy_keystore demo_store))) + 2) toy_env ''d'' ''lost''
     (toy_keystore demo_store) = Some (r, k')"
  by (rule revoke_cascade_terminates [of toy_env mem_sinv])
    (simp_all add: in_memory.storage_backend_axioms toy_keystore_def demo_sinv mem_view_finite)

text \<open>C5: a cascade that reports no error contains the revocation. The key is Revoked, and no key the cascade has touched, the
  revoked one and the suspended ones, has a child left that is not Suspended, Revoked or Destroyed.\<close>

theorem revoke_cascade_contains:
  assumes "storage_backend (k_sb E) J" "J (storage k)"
    and "revoke_cascade fuel E i reason k = Some (Inr (r, n, []), k')"
  shows "(\<exists>m. view E k' i = Some m \<and> km_state m = Revoked) \<and>
    (\<forall>p c m. (p = i \<or> view E k' p \<noteq> view E k p) \<and> view E k' c = Some m \<and> parent_id m = Some p \<longrightarrow> stopped (km_state m))"
proof -
  obtain m1 P where P: "km_state m1 = Revoked" "only_suspends ((view E k)(i \<mapsto> m1)) (view E k')"
    "i \<in> P" "contained ((view E k)(i \<mapsto> m1)) P P (([], []), view E k')"
    using storage_backend.revoke_cascade_result [OF assms(1) refl assms(2,3)] by metis
  have "view E k' i = Some m1"
    using P(1,2) by (auto simp: only_suspends_def suspends_def can_transition_iff elim!: allE [of _ i])
  moreover have "p \<in> P" if "p = i \<or> view E k' p \<noteq> view E k p" for p
    using that P(3,4) calculation by (auto simp: contained_def split: if_splits)
  ultimately show ?thesis using P(1,4) unfolding contained_def fst_conv snd_conv by blast
qed

lemma demo_cascade:
  "case revoke_cascade 5 toy_env ''d'' ''lost'' (toy_keystore demo_store) of
     Some (Inr (r, n, errs), _) \<Rightarrow> r = 1 \<and> n = 2 \<and> errs = [] | _ \<Rightarrow> False"
  by (simp add: revoke_cascade_def revoke_def ks_get_def bnd_def lift_def throw_def storage_get_def storage_put_def now_def
      audit_key_def audit_event_run toy_keystore_def demo_store_def toy_key_def InMemory_def mem_get_def mem_put_def
      mem_list_by_parent_def numeral_eq_Suc can_transition_iff)

theorem revoke_cascade_contains_witness:
  "\<exists>k' m m'. revoke_cascade 5 toy_env ''d'' ''lost'' (toy_keystore demo_store) = Some (Inr (1, 2, []), k') \<and>
     view toy_env k' ''d'' = Some m \<and> km_state m = Revoked"
proof -
  obtain k' where k': "revoke_cascade 5 toy_env ''d'' ''lost'' (toy_keystore demo_store) = Some (Inr (1, 2, []), k')"
    using demo_cascade by (auto split: option.splits prod.splits sum.splits)
  show ?thesis
    using revoke_cascade_contains [OF _ _ k', of mem_sinv] k'
    by (auto simp: in_memory.storage_backend_axioms toy_keystore_def demo_sinv)
qed

end
