(* ===== verification/Keystore_Ops.thy ===== *)
theory Keystore_Ops
  imports Keystore_Life
begin

text \<open>
  \<^verbatim>\<open>citadel-keystore/src/keystore.rs\<close>, third part: policy evaluation, encryption and decryption with stored keys, their
  capability-gated forms, and signing. An operation that evaluates a policy can panic (\<open>evaluate\<close> does, see \<open>Policy\<close>), so its
  errors are \<open>Failed\<close> with the message of the code's error, or \<open>Aborted\<close>. Decryption is three
  definitions: what precedes the replay claim, the claim, and what follows it.
\<close>

datatype fault = Failed string | Aborted panic

section \<open>Policies\<close>

definition evaluate_now :: "KeyPolicy \<Rightarrow> KeyMetadata \<Rightarrow> ('s, 'r, panic, PolicyVerdict) kop" where
  "evaluate_now policy meta = bnd now (\<lambda>t1. bnd now (\<lambda>t2. lift (evaluate policy meta t1 t2)))"

fun show_verdict_debug :: "PolicyVerdict \<Rightarrow> string" where
  "show_verdict_debug Compliant = ''Compliant''"
| "show_verdict_debug (RotationNeeded reason) = ''RotationNeeded { reason: '' @ debug_str reason @ '' }''"
| "show_verdict_debug (Warning reason) = ''Warning { reason: '' @ debug_str reason @ '' }''"
| "show_verdict_debug (UsageLimitExceeded count limit) =
     ''UsageLimitExceeded { count: '' @ show_nat (unat count) @ '', limit: '' @ show_nat (unat limit) @ '' }''"
| "show_verdict_debug (VExpired age_days limit_days) =
     ''Expired { age_days: '' @ show_int age_days @ '', limit_days: '' @ show_nat limit_days @ '' }''"

datatype ks_fault = KsError KeystoreError | KsAborted panic

definition evaluate_policy :: "('s, 'r) kenv \<Rightarrow> KeyId \<Rightarrow> ('s, 'r, ks_fault, PolicyVerdict) kop" where
  "evaluate_policy E kid =
    bnd (on_err KsError (ks_get E kid)) (\<lambda>meta.
    case policy_id meta of
      None \<Rightarrow> ret Compliant
    | Some pid \<Rightarrow>
        bnd (gets (\<lambda>k. map_of (policies k) pid)) (\<lambda>found.
        bnd (lift (ok_or found (KsError (PolicyNotFound pid)))) (\<lambda>policy.
        bnd (on_err KsAborted (evaluate_now policy meta)) (\<lambda>verdict.
        bnd (audit_key kid (key_type meta) (km_state meta) (PolicyEvaluated (show_verdict_debug verdict))) (\<lambda>_.
        ret verdict)))))"

definition evaluate_adaptive_policy :: "('s, 'r) kenv \<Rightarrow> KeyId \<Rightarrow> ('s, 'r, ks_fault, PolicyVerdict) kop" where
  "evaluate_adaptive_policy E kid =
    bnd (current_threat_level E) (\<lambda>level.
    bnd (on_err KsError (ks_get E kid)) (\<lambda>meta.
    case policy_id meta of
      None \<Rightarrow> ret Compliant
    | Some pid \<Rightarrow>
        bnd (gets (\<lambda>k. map_of (policies k) pid)) (\<lambda>found.
        bnd (lift (ok_or found (KsError (PolicyNotFound pid)))) (\<lambda>base.
        bnd (on_err KsAborted (evaluate_now (adapt base level) meta)) (\<lambda>verdict.
        bnd (audit_key kid (key_type meta) (km_state meta)
          (PolicyEvaluated (show_verdict_debug verdict @ '' (threat:'' @ level_label level @ '')''))) (\<lambda>_.
        ret verdict))))))"

fun rotation_due :: "(KeyPolicy \<Rightarrow> KeyPolicy) \<Rightarrow> (string \<Rightarrow> string) \<Rightarrow> KeyMetadata list \<Rightarrow> (KeyId \<times> string) list \<Rightarrow>
    ('s, 'r, ks_fault, (KeyId \<times> string) list) kop" where
  "rotation_due tune note [] due = ret due"
| "rotation_due tune note (meta # ms) due =
     bnd (gets (\<lambda>k. Option.bind (policy_id meta) (map_of (policies k)))) (\<lambda>p.
       case p of
         None \<Rightarrow> rotation_due tune note ms due
       | Some policy \<Rightarrow>
           bnd (on_err KsAborted (evaluate_now (tune policy) meta)) (\<lambda>verdict.
             case verdict of
               RotationNeeded reason \<Rightarrow> rotation_due tune note ms (due @ [(km_id meta, note reason)])
             | _ \<Rightarrow> rotation_due tune note ms due))"

definition check_rotation_due :: "('s, 'r) kenv \<Rightarrow> ('s, 'r, ks_fault, (KeyId \<times> string) list) kop" where
  "check_rotation_due E =
    bnd (on_err KsError (list_by_state E Active)) (\<lambda>active. rotation_due (\<lambda>p. p) (\<lambda>r. r) active [])"

definition check_adaptive_rotation_due :: "('s, 'r) kenv \<Rightarrow> ('s, 'r, ks_fault, (KeyId \<times> string) list) kop" where
  "check_adaptive_rotation_due E =
    bnd (current_threat_level E) (\<lambda>level.
    bnd (on_err KsError (list_by_state E Active)) (\<lambda>active.
    rotation_due (\<lambda>p. adapt p level) (\<lambda>r. r @ '' [threat:'' @ level_label level @ '']'') active []))"

definition policy_adaptation_summary :: "('s, 'r) kenv \<Rightarrow> PolicyId \<Rightarrow> ('s, 'r, 'e, AdaptationSummary option) kop" where
  "policy_adaptation_summary E pid =
    bnd (current_threat_level E) (\<lambda>level.
    gets (\<lambda>k. map_option (\<lambda>base. summarize base level) (map_of (policies k) pid)))"

section \<open>The threat interface\<close>

definition record_threat_event :: "('s, 'r) kenv \<Rightarrow> ThreatEvent \<Rightarrow> ('s, 'r, 'e, unit) kop" where
  "record_threat_event E ev k =
     on_threat (\<lambda>ta. (record_event (k_powf E) (\<lambda>i. int (clock_from k i)) ev ta, ())) k"

definition record_threat_events :: "('s, 'r) kenv \<Rightarrow> ThreatEvent list \<Rightarrow> ('s, 'r, 'e, unit) kop" where
  "record_threat_events E evs k =
     on_threat (\<lambda>ta. (record_events (k_powf E) (\<lambda>i. int (clock_from k i)) evs ta, ())) k"

definition reset_threat_state :: "('s, 'r, 'e, unit) kop" where
  "reset_threat_state k = on_threat (\<lambda>ta. (threat_reset (int (clock_from k 0)) ta, ())) k"

definition record_audit_event :: "AuditAction \<Rightarrow> ('s, 'r, 'e, unit) kop" where
  "record_audit_event act = audit_event (\<lambda>t. system_event t act)"

section \<open>Encryption\<close>

record EncryptedBlob =
  eb_key_id :: string
  eb_key_version :: u32
  ciphertext_hex :: string
  encrypted_at :: DateTime

fun show_key_type :: "KeyType \<Rightarrow> string" where
  "show_key_type Root = ''ROOT''"
| "show_key_type Domain = ''DOMAIN''"
| "show_key_type KeyEncrypting = ''KEK''"
| "show_key_type DataEncrypting = ''DEK''"
| "show_key_type HybridIdentity = ''HYBRID-ID''"
| "show_key_type Signing = ''SIGNING''"

definition domain_bound_aad :: "KeyId \<Rightarrow> bytes \<Rightarrow> bytes" where
  "domain_bound_aad domain_id aad = as_bytes domain_id @ as_bytes '':'' @ aad"

definition policy_gate :: "('s, 'r) kenv \<Rightarrow> KeyId \<Rightarrow> KeyMetadata \<Rightarrow> ('s, 'r, fault, unit) kop" where
  "policy_gate E key_id meta =
    bnd (effective_policy_for E meta) (\<lambda>p.
    case p of
      None \<Rightarrow> ret ()
    | Some adapted \<Rightarrow>
        bnd (on_err Aborted (evaluate_now adapted meta)) (\<lambda>verdict.
        let blocked = (\<lambda>verdict msg.
          bnd (audit_key key_id (key_type meta) (km_state meta) (PolicyEvaluated verdict)) (\<lambda>_. throw (Failed msg))) in
        case verdict of
          RotationNeeded reason \<Rightarrow>
            blocked (''BLOCKED: '' @ reason) (''policy violation: '' @ reason @ ''. Rotate key before encrypting.'')
        | UsageLimitExceeded count limit \<Rightarrow>
            let u = show_nat (unat count) @ ''/'' @ show_nat (unat limit) in
            blocked (''BLOCKED: usage '' @ u) (''policy violation: usage '' @ u @ '' exceeded. Rotate key before encrypting.'')
        | VExpired age_days limit_days \<Rightarrow>
            blocked (''BLOCKED: expired age='' @ show_int age_days @ ''d limit='' @ show_nat limit_days @ ''d'')
              (''policy violation: key expired after '' @ show_int age_days @ '' days; limit is '' @ show_nat limit_days @
               '' days. Rotate key before encrypting.'')
        | Warning reason \<Rightarrow> audit_key key_id (key_type meta) (km_state meta) (PolicyEvaluated (''WARNING: '' @ reason))
        | Compliant \<Rightarrow> ret ()))"

definition encrypt ::
  "('s, 'r) kenv \<Rightarrow> KeyId \<Rightarrow> bytes \<Rightarrow> bytes \<Rightarrow> bytes \<Rightarrow> ('s, 'r, fault, EncryptedBlob) kop" where
  "encrypt E key_id plaintext aad ctx =
    bnd (on_err (\<lambda>e. Failed (show_error e)) (ks_get E key_id)) (\<lambda>meta.
    if \<not> can_encrypt (km_state meta) then
      throw (Failed (''key '' @ key_id @ '' is '' @ state_label (km_state meta) @ '', cannot encrypt''))
    else if key_type meta \<noteq> DataEncrypting \<and> key_type meta \<noteq> HybridIdentity then
      throw (Failed (''key '' @ key_id @ '' is type '' @ show_key_type (key_type meta) @
        '', only DataEncrypting keys can encrypt user data''))
    else
    bnd (policy_gate E key_id meta) (\<lambda>_.
    bnd (lift (ok_or (current_key_version meta) (Failed ''no current version''))) (\<lambda>version.
    bnd (lift (map_err (\<lambda>e. Failed (''decode pk: '' @ e)) (hex_decode E (public_key_hex version)))) (\<lambda>pk_bytes.
    bnd (lift (map_err (\<lambda>_. Failed ''parse public key failed'') (PublicKey_from_bytes (k_prims E) pk_bytes))) (\<lambda>pk.
    bnd (on_err (\<lambda>e. Failed (''domain resolution failed: '' @ show_error e)) (resolve_domain_for_key E key_id)) (\<lambda>domain_id.
    bnd draw (\<lambda>r.
    bnd (lift (map_err (\<lambda>_. Failed ''seal: encoding error'')
      (Citadel_seal (k_crypto E) (k_prims E) (r_kem r) (r_env_nonce r) pk plaintext (domain_bound_aad domain_id aad) ctx)))
      (\<lambda>ciphertext.
    bnd now (\<lambda>t.
    let meta' = meta\<lparr> usage_count := usage_count meta + 1, updated_at := t \<rparr> in
    bnd (on_err (\<lambda>e. Failed (show_error e)) (storage_put E meta')) (\<lambda>_.
    bnd (audit_key key_id (key_type meta') (km_state meta') (EncryptionPerformed (current_version meta'))) (\<lambda>_.
    bnd now (\<lambda>t'.
    ret \<lparr> eb_key_id = key_id, eb_key_version = current_version meta', ciphertext_hex = hex_encode E ciphertext,
      encrypted_at = t' \<rparr>))))))))))))"

section \<open>Capabilities\<close>

definition validate_authz :: "AuthorizedContext \<Rightarrow> ('s, 'r, string, unit) kop" where
  "validate_authz authz k =
    (case enforcer k of
       Some e \<Rightarrow>
         (case validate (clock_from k) authz e of
            (e', r) \<Rightarrow> (map_err (\<lambda>m. ''capability validation failed at keystore boundary: '' @ m) r,
              k\<lparr> enforcer := Some e', tick := tick k + 2 \<rparr>))
     | None \<Rightarrow>
         (Inl (''keystore has no bound StateEnforcer '' @ em_dash @ '' call with_enforcer() before using '' @
            ''encrypt_authorized, decrypt_authorized, or sign_authorized. '' @
            ''Production keystores must always be bound to a live StateEnforcer.''), k))"

definition enforce_authorized_domain ::
  "('s, 'r) kenv \<Rightarrow> string option \<Rightarrow> KeyId \<Rightarrow> ('s, 'r, string, unit) kop" where
  "enforce_authorized_domain E authz_domain key_id =
    (case authz_domain of
       None \<Rightarrow> ret ()
     | Some domn \<Rightarrow>
         bnd (on_err (\<lambda>e. ''domain resolution failed for '' @ key_id @ '': '' @ show_error e)
           (resolve_domain_for_key E key_id)) (\<lambda>resolved.
         if resolved \<noteq> domn then
           throw (''P217 cross-domain operation rejected: key '' @ key_id @ '' is in domain '' @ resolved @
             '', not authorized domain '' @ domn)
         else ret ()))"

definition encrypt_authorized ::
  "('s, 'r) kenv \<Rightarrow> AuthorizedContext \<Rightarrow> bytes \<Rightarrow> bytes \<Rightarrow> bytes \<Rightarrow> ('s, 'r, fault, EncryptedBlob) kop" where
  "encrypt_authorized E authz plaintext aad ctx =
    bnd (on_err Failed (validate_authz authz)) (\<lambda>_.
    bnd (lift (map_err Failed (require_encrypt_for authz (ac_key_id authz)))) (\<lambda>_.
    bnd (on_err Failed (enforce_authorized_domain E (ac_domain_id authz) (ac_key_id authz))) (\<lambda>_.
    encrypt E (ac_key_id authz) plaintext aad ctx)))"

section \<open>Decryption\<close>

definition operation_failed :: fault where "operation_failed = Failed ''operation failed''"

definition replay_claim :: "('s, 'r) kenv \<Rightarrow> bytes \<Rightarrow> Duration \<Rightarrow> ('s, 'r, 'e, ReplayError + bool) kop" where
  "replay_claim E key ttl k =
    (case rs_claim (k_rs E) (clock_from k) key ttl (replay_cache k) of
       (r, res) \<Rightarrow> (Inr res, k\<lparr> replay_cache := r, tick := tick k + 4 \<rparr>))"

definition replay_release :: "('s, 'r) kenv \<Rightarrow> bytes \<Rightarrow> ('s, 'r, 'e, unit) kop" where
  "replay_release E key k =
    (case rs_release (k_rs E) (clock_from k) key (replay_cache k) of
       (r, res) \<Rightarrow> (Inr (), k\<lparr> replay_cache := r, tick := tick k + 4 \<rparr>))"

definition or_else :: "('s, 'r, 'e, 'a) kop \<Rightarrow> ('s, 'r, 'f, 'a) kop \<Rightarrow> ('s, 'r, 'f, 'a) kop" where
  "or_else m h k = (case m k of (Inl _, k') \<Rightarrow> h k' | (Inr x, k') \<Rightarrow> (Inr x, k'))"

definition release_and_fail :: "('s, 'r) kenv \<Rightarrow> bytes \<Rightarrow> ('s, 'r, fault, 'a) kop" where
  "release_and_fail E key = bnd (replay_release E key) (\<lambda>_. throw operation_failed)"

definition expiry_gate :: "('s, 'r) kenv \<Rightarrow> KeyId \<Rightarrow> KeyMetadata \<Rightarrow> ('s, 'r, fault, unit) kop" where
  "expiry_gate E key_id meta =
    bnd (effective_policy_for E meta) (\<lambda>p.
    case p of
      None \<Rightarrow> ret ()
    | Some adapted \<Rightarrow>
        bnd (on_err Aborted (evaluate_now adapted meta)) (\<lambda>verdict.
        case verdict of
          VExpired age_days limit_days \<Rightarrow>
            bnd (audit_key key_id (key_type meta) (km_state meta) (PolicyEvaluated
              (''BLOCKED DECRYPT: expired age='' @ show_int age_days @ ''d limit='' @ show_nat limit_days @ ''d''))) (\<lambda>_.
            throw operation_failed)
        | _ \<Rightarrow> ret ()))"

definition decrypt_prepare ::
  "('s, 'r) kenv \<Rightarrow> EncryptedBlob \<Rightarrow> ('s, 'r, fault, KeyMetadata \<times> KeyVersion \<times> bytes \<times> KeyId \<times> bytes) kop" where
  "decrypt_prepare E blob =
    (let key_id = eb_key_id blob in
    bnd (on_err (\<lambda>_. operation_failed) (ks_get E key_id)) (\<lambda>meta.
    if \<not> can_decrypt (km_state meta) then throw operation_failed else
    bnd (expiry_gate E key_id meta) (\<lambda>_.
    bnd (lift (ok_or (find (\<lambda>v. kv_version v = eb_key_version blob) (versions meta)) operation_failed)) (\<lambda>key_version.
    bnd (lift (map_err (\<lambda>_. operation_failed) (hex_decode E (ciphertext_hex blob)))) (\<lambda>ciphertext.
    if length ciphertext < AEAD_TAG_BYTES then throw operation_failed else
    bnd (on_err (\<lambda>_. operation_failed) (resolve_domain_for_key E key_id)) (\<lambda>domain_id.
    bnd (lift (map_err (\<lambda>_. operation_failed) (envelope_nonce ciphertext))) (\<lambda>nonce_bytes.
    let aead_tag = drop (length ciphertext - AEAD_TAG_BYTES) ciphertext in
    ret (meta, key_version, ciphertext, domain_id,
      derive_replay_key (k_crypto E) domain_id key_id (eb_key_version blob) nonce_bytes aead_tag))))))))"

definition decrypt_claim :: "('s, 'r) kenv \<Rightarrow> EncryptedBlob \<Rightarrow> KeyMetadata \<Rightarrow> bytes \<Rightarrow> ('s, 'r, fault, unit) kop" where
  "decrypt_claim E blob meta cache_key =
    bnd (replay_claim E cache_key (from_secs 86400)) (\<lambda>res.
    case res of
      Inr True \<Rightarrow> ret ()
    | _ \<Rightarrow>
        bnd (audit_key (eb_key_id blob) (key_type meta) (km_state meta) (ReplayDetected (eb_key_version blob))) (\<lambda>_.
        throw operation_failed))"

definition decrypt_claimed ::
  "('s, 'r) kenv \<Rightarrow> EncryptedBlob \<Rightarrow> bytes \<Rightarrow> bytes \<Rightarrow> KeyMetadata \<Rightarrow> KeyVersion \<Rightarrow> bytes \<Rightarrow> KeyId \<Rightarrow> bytes \<Rightarrow>
   ('s, 'r, fault, bytes) kop" where
  "decrypt_claimed E blob aad ctx meta key_version ciphertext domain_id cache_key =
    (let key_id = eb_key_id blob;
         v = eb_key_version blob in
    bnd (or_else (unwrap_key_version E key_id key_version 0) (release_and_fail E cache_key)) (\<lambda>sk_bytes.
    bnd (or_else (lift (SecretKey_from_bytes (k_prims E) sk_bytes)) (release_and_fail E cache_key)) (\<lambda>sk.
    bnd (or_else (lift (Citadel_open (k_crypto E) (k_prims E) sk ciphertext (domain_bound_aad domain_id aad) ctx))
      (bnd now (\<lambda>t.
       bnd (record_threat_event E (with_detail (ThreatEvent_new t DecryptionFailure 3)
         (''key='' @ key_id @ '', version='' @ show_nat (unat v)))) (\<lambda>_.
       bnd (audit_key key_id (key_type meta) (km_state meta) (DecryptionFailed v)) (\<lambda>_. release_and_fail E cache_key))))) (\<lambda>plaintext.
    bnd (audit_key key_id (key_type meta) (km_state meta) (DecryptionPerformed v)) (\<lambda>_.
    ret plaintext)))))"

definition decrypt ::
  "('s, 'r) kenv \<Rightarrow> EncryptedBlob \<Rightarrow> bytes \<Rightarrow> bytes \<Rightarrow> ('s, 'r, fault, bytes) kop" where
  "decrypt E blob aad ctx =
    bnd (decrypt_prepare E blob) (\<lambda>(meta, key_version, ciphertext, domain_id, cache_key).
    bnd (decrypt_claim E blob meta cache_key) (\<lambda>_.
    decrypt_claimed E blob aad ctx meta key_version ciphertext domain_id cache_key))"

definition decrypt_authorized ::
  "('s, 'r) kenv \<Rightarrow> AuthorizedContext \<Rightarrow> EncryptedBlob \<Rightarrow> bytes \<Rightarrow> bytes \<Rightarrow> ('s, 'r, fault, bytes) kop" where
  "decrypt_authorized E authz blob aad ctx =
    bnd (on_err Failed (validate_authz authz)) (\<lambda>_.
    bnd (lift (map_err Failed (require_decrypt_for authz (eb_key_id blob)))) (\<lambda>_.
    bnd (on_err Failed (enforce_authorized_domain E (ac_domain_id authz) (eb_key_id blob))) (\<lambda>_.
    decrypt E blob aad ctx)))"

end
