(* ===== verification/Keystore_Sign.thy ===== *)
theory Keystore_Sign
  imports Keystore_Ops
begin

text \<open>
  \<^verbatim>\<open>citadel-keystore/src/keystore.rs\<close>, last part: the constructors of the keystore and the signing operations.
\<close>

section \<open>Construction\<close>

text \<open>\<^verbatim>\<open>str::trim\<close> on ASCII text.\<close>

definition is_space :: "char \<Rightarrow> bool" where
  "is_space c = (c \<in> {CHR '' '', CHR 0x09, CHR 0x0A, CHR 0x0B, CHR 0x0C, CHR 0x0D})"

definition str_trim :: "string \<Rightarrow> string" where
  "str_trim s = rev (dropWhile is_space (rev (dropWhile is_space s)))"

definition load_master_key_from_env :: "('s, 'r) kenv \<Rightarrow> bytes option" where
  "load_master_key_from_env E =
    (case env_var E ''CITADEL_MASTER_KEY'' of
       None \<Rightarrow> None
     | Some hex_str \<Rightarrow>
         (case hex_decode E (str_trim hex_str) of
            Inl _ \<Rightarrow> None
          | Inr bytes \<Rightarrow> if length bytes = 32 then Some bytes else None))"

definition audit_plaintext_mode_if_active :: "('s, 'r) kenv \<Rightarrow> ('s, 'r, 'e, unit) kop" where
  "audit_plaintext_mode_if_active E =
    (if env_var E ''CITADEL_ALLOW_PLAINTEXT_KEYS'' \<noteq> Some ''1'' then ret ()
     else audit_event (\<lambda>t. system_event t (PlaintextModeActivated
       (if env_var E ''CITADEL_ENV'' = Some ''development'' then ''development'' else ''PRODUCTION (UNSAFE)''))))"

text \<open>The store, the sink, the clock and the random generator are what the caller passes in; the assessor starts at the first
  clock reading. \<open>rc\<close> is \<^verbatim>\<open>MemoryReplayStore::new(86400 s, true)\<close> behind the trait object, or what \<^verbatim>\<open>set_replay_store\<close>
  puts there afterwards.\<close>

definition base_keystore ::
  "'s \<Rightarrow> AuditEvent list \<Rightarrow> ThreatConfig \<Rightarrow> bytes option \<Rightarrow> string option \<Rightarrow> 'r \<Rightarrow> (nat \<Rightarrow> nat) \<Rightarrow> (nat \<Rightarrow> rnd) \<Rightarrow> ('s, 'r) Keystore" where
  "base_keystore st sink cfg mk provider rc clk rand =
    \<lparr> storage = st, audit = sink, policies = [], threat = (ThreatAssessor_new cfg (int (clk 0)))\<lparr> ta_audit := Some [] \<rparr>,
      master_key = mk, root_key_provider_name = provider, replay_cache = rc, enforcer = None,
      clock = clk, tick = 1, draws = rand, drawn = 0 \<rparr>"

definition env_provider :: "('s, 'r) kenv \<Rightarrow> string option" where
  "env_provider E = map_option (\<lambda>_. ''development-env-v1'') (env_var E ''CITADEL_MASTER_KEY'')"

definition Keystore_new ::
  "('s, 'r) kenv \<Rightarrow> 's \<Rightarrow> AuditEvent list \<Rightarrow> 'r \<Rightarrow> (nat \<Rightarrow> nat) \<Rightarrow> (nat \<Rightarrow> rnd) \<Rightarrow> ('s, 'r) Keystore" where
  "Keystore_new E st sink rc clk rand =
    snd (audit_plaintext_mode_if_active E
      (base_keystore st sink ThreatConfig_default (load_master_key_from_env E) (env_provider E) rc clk rand) :: (unit + unit) \<times> _)"

definition with_master_key ::
  "('s, 'r) kenv \<Rightarrow> 's \<Rightarrow> AuditEvent list \<Rightarrow> bytes \<Rightarrow> 'r \<Rightarrow> (nat \<Rightarrow> nat) \<Rightarrow> (nat \<Rightarrow> rnd) \<Rightarrow> ('s, 'r) Keystore" where
  "with_master_key E st sink mk rc clk rand =
    snd (audit_plaintext_mode_if_active E
      (base_keystore st sink ThreatConfig_default (Some mk) (Some ''explicit-development-v1'') rc clk rand) :: (unit + unit) \<times> _)"

text \<open>The provider is its name and the result of \<^verbatim>\<open>load_root_key\<close>.\<close>

definition with_root_key_provider ::
  "('s, 'r) kenv \<Rightarrow> 's \<Rightarrow> AuditEvent list \<Rightarrow> string \<Rightarrow> 'x + bytes \<Rightarrow> 'r \<Rightarrow> (nat \<Rightarrow> nat) \<Rightarrow> (nat \<Rightarrow> rnd) \<Rightarrow> 'x + ('s, 'r) Keystore" where
  "with_root_key_provider E st sink provider_name root_key rc clk rand =
    (case root_key of
       Inl e \<Rightarrow> Inl e
     | Inr mk \<Rightarrow> Inr ((with_master_key E st sink mk rc clk rand)\<lparr> root_key_provider_name := Some provider_name \<rparr>))"

definition with_threat_config ::
  "('s, 'r) kenv \<Rightarrow> 's \<Rightarrow> AuditEvent list \<Rightarrow> ThreatConfig \<Rightarrow> 'r \<Rightarrow> (nat \<Rightarrow> nat) \<Rightarrow> (nat \<Rightarrow> rnd) \<Rightarrow> ('s, 'r) Keystore" where
  "with_threat_config E st sink cfg rc clk rand =
    base_keystore st sink cfg (load_master_key_from_env E) (env_provider E) rc clk rand"

definition set_replay_store :: "'r \<Rightarrow> ('s, 'r, 'e, unit) kop" where
  "set_replay_store rc = modify (\<lambda>k. k\<lparr> replay_cache := rc \<rparr>)"

definition set_enforcer :: "StateEnforcer \<Rightarrow> ('s, 'r, 'e, unit) kop" where
  "set_enforcer e = modify (\<lambda>k. k\<lparr> enforcer := Some e \<rparr>)"

section \<open>Signing\<close>

record SignedPayload =
  sp_key_id :: string
  sp_key_version :: u32
  sp_signature_hex :: string
  signed_at :: DateTime

definition signing_parent_gate :: "('s, 'r) kenv \<Rightarrow> KeyId \<Rightarrow> ('s, 'r, KeystoreError, unit) kop" where
  "signing_parent_gate E parent =
    bnd (on_err (\<lambda>e. StorageError (''load parent for signing key: '' @ show_error e)) (storage_get E parent)) (\<lambda>found.
    bnd (lift (ok_or found (HierarchyViolation (''parent key '' @ parent @ '' not found'')))) (\<lambda>parent_meta.
    let parent_role = role_of_type (key_type parent_meta); flat_override = in_dev_mode E ''CITADEL_ALLOW_FLAT_DEKS'' in
    if \<not> can_wrap parent_role SigningKey \<and> \<not> flat_override then
      throw (HierarchyViolation (''Signing key parent must be KeyEncrypting (Kek). Got '' @
        show_key_type_debug (key_type parent_meta) @ '' ('' @ show_role_debug parent_role @ '').''))
    else ret ()))"

definition generate_signing_key ::
  "('s, 'r) kenv \<Rightarrow> string \<Rightarrow> PolicyId option \<Rightarrow> KeyId \<Rightarrow> ('s, 'r, KeystoreError, KeyId) kop" where
  "generate_signing_key E name pol parent =
    bnd (master_key_gate E) (\<lambda>_.
    bnd (signing_parent_gate E parent) (\<lambda>_.
    bnd draw (\<lambda>rid.
    bnd now (\<lambda>t.
    bnd draw (\<lambda>rk.
    let kid = hex_encode E (r_id rid) in
    bnd (lift (map_err (\<lambda>e. StorageError (''ML-DSA keypair generation failed: '' @ show_sign_error e))
      (generate_keypair (k_mldsa E) (r_seed rk)))) (\<lambda>(vk_bytes, seed_bytes).
    bnd (on_err StorageError (wrap_secret_key_for E kid 1 (Some parent) seed_bytes)) (\<lambda>(material, wid, wver).
    let version = \<lparr> kv_version = 1, kv_created_at = t, public_key_hex = hex_encode E vk_bytes,
          secret_key_material = material, wrapping_key_id = wid, wrapping_key_version = wver,
          wrap_nonce_hex = extract_wrap_nonce material, wrapping_mode = None \<rparr>;
        meta = \<lparr> km_id = kid, km_name = name, key_type = Signing, km_state = Pending, policy_id = pol,
          parent_id = Some parent, created_at = t, updated_at = t, activated_at = None, rotated_at = None,
          revoked_at = None, destroyed_at = None, versions = [version], current_version = 1, usage_count = 0, tags = [] \<rparr> in
    bnd (storage_put E meta) (\<lambda>_.
    bnd (audit_key kid Signing Pending KeyGenerated) (\<lambda>_.
    ret kid)))))))))"

definition sign_denied :: "KeyId \<Rightarrow> KeyMetadata \<Rightarrow> u32 \<Rightarrow> string \<Rightarrow> ('s, 'r, string, 'a) kop" where
  "sign_denied key_id meta ver reason =
    bnd (audit_key key_id (key_type meta) (km_state meta) (SigningFailed ver reason)) (\<lambda>_. throw reason)"

definition sign :: "('s, 'r) kenv \<Rightarrow> KeyId \<Rightarrow> bytes \<Rightarrow> ('s, 'r, string, SignedPayload) kop" where
  "sign E key_id msg =
    bnd (on_err show_error (ks_get E key_id)) (\<lambda>meta.
    if key_type meta \<noteq> Signing then
      sign_denied key_id meta (current_version meta) (''keystore denied: key '' @ key_id @ '' is type '' @
        show_key_type (key_type meta) @ '' '' @ em_dash @ '' sign() requires KeyType::Signing'')
    else if km_state meta \<noteq> Active then
      sign_denied key_id meta (current_version meta) (''keystore denied: key '' @ key_id @ '' is '' @
        state_label (km_state meta) @ '' '' @ em_dash @ '' signing requires Active state'')
    else
    bnd (lift (ok_or (current_key_version meta) ''no current key version'')) (\<lambda>kv.
    bnd (\<lambda>k. case unwrap_key_version E key_id kv 0 k of
           (Inl e, k') \<Rightarrow> sign_denied key_id meta (kv_version kv) (''unwrap signing key: '' @ e) k'
         | (Inr s, k') \<Rightarrow> (Inr s, k')) (\<lambda>seed_bytes.
    bnd (lift (map_err (\<lambda>e. ''ML-DSA sign failed: '' @ show_sign_error e)
      (sign_message (k_mldsa E) seed_bytes msg))) (\<lambda>sig_bytes.
    bnd (audit_key key_id (key_type meta) (km_state meta) (SigningPerformed (kv_version kv) (length msg))) (\<lambda>_.
    bnd now (\<lambda>t.
    ret \<lparr> sp_key_id = key_id, sp_key_version = kv_version kv, sp_signature_hex = hex_encode E sig_bytes,
      signed_at = t \<rparr>))))))"

definition sign_authorized ::
  "('s, 'r) kenv \<Rightarrow> AuthorizedContext \<Rightarrow> bytes \<Rightarrow> ('s, 'r, string, SignedPayload) kop" where
  "sign_authorized E authz msg =
    bnd (validate_authz authz) (\<lambda>_.
    bnd (lift (require_sign_for_payload (k_crypto E) (hex_encode E) authz (ac_key_id authz) msg)) (\<lambda>_.
    sign E (ac_key_id authz) msg))"

definition verify_signature :: "('s, 'r) kenv \<Rightarrow> KeyId \<Rightarrow> bytes \<Rightarrow> SignedPayload \<Rightarrow> ('s, 'r, string, bool) kop" where
  "verify_signature E key_id msg signed_payload =
    bnd (on_err show_error (ks_get E key_id)) (\<lambda>meta.
    if key_type meta \<noteq> Signing then
      throw (''key '' @ key_id @ '' is type '' @ show_key_type (key_type meta) @ '' '' @ em_dash @
        '' verify_signature() requires KeyType::Signing'')
    else if km_state meta \<notin> {Active, Rotated} then
      throw (''key '' @ key_id @ '' is '' @ state_label (km_state meta) @ '' '' @ em_dash @
        '' cannot verify (Revoked/Expired/Destroyed keys are terminal)'')
    else
    bnd (lift (ok_or (get_version meta (sp_key_version signed_payload))
      (''key '' @ key_id @ '' version '' @ show_nat (unat (sp_key_version signed_payload)) @ '' not found''))) (\<lambda>kv.
    bnd (lift (map_err (\<lambda>e. ''decode verifying key hex: '' @ e) (hex_decode E (public_key_hex kv)))) (\<lambda>vk_bytes.
    bnd (lift (map_err (\<lambda>e. ''decode signature hex: '' @ e) (hex_decode E (sp_signature_hex signed_payload)))) (\<lambda>sig_bytes.
    bnd (lift (map_err (\<lambda>e. ''ML-DSA verify failed: '' @ show_verify_error e)
      (verify_message (k_mldsa E) vk_bytes msg sig_bytes))) (\<lambda>valid.
    bnd (audit_key key_id (key_type meta) (km_state meta)
      (VerificationPerformed (sp_key_version signed_payload) valid)) (\<lambda>_.
    ret valid))))))"

end
