(* ===== verification/Keystore_Crypt.thy ===== *)
theory Keystore_Crypt
  imports Keystore_Sign
begin

text \<open>
  What encryption, decryption and their capability-gated forms guarantee: who may use which key, that decryption tells
  callers nothing about why it failed, that a ciphertext is decrypted once, and that it decrypts to what was encrypted. The
  keystore uses its replay store through the locale \<open>replay_store\<close> only.
\<close>

section \<open>Steps that leave stores alone\<close>

definition calm :: "('s, 'r) Keystore \<Rightarrow> ('s, 'r) Keystore \<Rightarrow> bool" where
  "calm k k' \<longleftrightarrow> storage k' = storage k \<and> replay_cache k' = replay_cache k \<and> master_key k' = master_key k \<and>
     policies k' = policies k \<and> enforcer k' = enforcer k \<and> draws k' = draws k \<and> clock k' = clock k \<and> tick k \<le> tick k'"

named_theorems calm_intros \<open>operations that only read, audit and assess\<close>

lemma calm_refl: "reflp calm"
  by (simp add: reflp_def calm_def)

lemma calm_trans: "transp calm"
  by (auto simp: transp_def calm_def)

lemma quiet_calm: "evolves quiet m \<Longrightarrow> evolves calm m"
  by (erule evolves_mono) (simp add: calm_def quiet_fields)

lemmas calm_bnd [calm_intros] = evolves_bnd [OF calm_trans]
lemmas calm_basic [calm_intros] = evolves_on_err evolves_pure [OF calm_refl]
lemmas calm_quiet [calm_intros] = quiet_calm [OF quiet_now] quiet_calm [OF quiet_draw]
  quiet_calm [OF quiet_audit_event] quiet_calm [OF quiet_audit_key] quiet_calm [OF unwrap_quiet]

lemma on_threat_calm [calm_intros]: "evolves calm (on_threat f)"
  by (simp add: evolves_def on_threat_def calm_def split: prod.split)

lemma current_threat_level_calm [calm_intros]: "evolves calm (current_threat_level E)"
  using on_threat_calm unfolding evolves_def current_threat_level_def by blast

lemma record_threat_event_calm [calm_intros]: "evolves calm (record_threat_event E ev)"
  using on_threat_calm unfolding evolves_def record_threat_event_def by blast

lemma ks_get_calm [calm_intros]: "evolves calm (ks_get E i)"
  unfolding ks_get_def by (intro calm_intros)

lemma effective_policy_calm [calm_intros]: "evolves calm (effective_policy_for E meta)"
  unfolding effective_policy_for_def by (intro calm_intros)

lemma evaluate_now_calm [calm_intros]: "evolves calm (evaluate_now p m)"
  unfolding evaluate_now_def by (intro calm_intros)

lemma resolve_loop_calm [calm_intros]: "evolves calm (resolve_loop E start cur n)"
  by (induction E start cur n rule: resolve_loop.induct) (auto intro!: calm_intros split: KeyType.split option.split)

lemma resolve_domain_calm [calm_intros]: "evolves calm (resolve_domain_for_key E i)"
  unfolding resolve_domain_for_key_def by (intro calm_intros)

lemma expiry_gate_calm [calm_intros]: "evolves calm (expiry_gate E i m)"
  unfolding expiry_gate_def by (auto intro!: calm_intros split: option.split PolicyVerdict.split)

lemma policy_gate_calm [calm_intros]: "evolves calm (policy_gate E i m)"
  unfolding policy_gate_def Let_def by (auto intro!: calm_intros split: option.split PolicyVerdict.split)

lemma decrypt_prepare_calm: "evolves calm (decrypt_prepare E blob)"
  unfolding decrypt_prepare_def Let_def by (auto intro!: calm_intros)

lemma calm_fields:
  assumes "calm k k'"
  shows "storage k' = storage k" "replay_cache k' = replay_cache k" "master_key k' = master_key k" "clock k' = clock k"
    "tick k \<le> tick k'" "enforcer k' = enforcer k"
  using assms by (simp_all add: calm_def)

section \<open>Domains\<close>

text \<open>Resolution reads the stored keys and nothing else.\<close>

lemma ks_get_run: "ks_get E i k = (case sb_get (k_sb E) i (storage k) of
    Inl e \<Rightarrow> Inl e | Inr found \<Rightarrow> ok_or found (KeyNotFound i), k)"
  by (simp add: ks_get_def bnd_def storage_get_def lift_def split: sum.split)

lemma resolve_loop_pure:
  "snd (resolve_loop E start cur n k) = k \<and> (storage k' = storage k \<longrightarrow>
     fst (resolve_loop E start cur n k') = fst (resolve_loop E start cur n k))"
proof (induction E start cur n rule: resolve_loop.induct)
  case (2 E start cur n)
  show ?case
  proof (cases "case sb_get (k_sb E) cur (storage k) of Inl e \<Rightarrow> Inl e | Inr found \<Rightarrow> ok_or found (KeyNotFound cur)")
    case (Inr m)
    then show ?thesis
      using "2.IH" by (cases "key_type m"; cases "parent_id m") (auto simp: bnd_def ks_get_run ret_def throw_def)
  qed (auto simp: bnd_def ks_get_run)
qed (simp add: throw_def)

lemma resolve_pure:
  "resolve_domain_for_key E i k = (fst (resolve_domain_for_key E i k), k)"
  "storage k' = storage k \<Longrightarrow> fst (resolve_domain_for_key E i k') = fst (resolve_domain_for_key E i k)"
  using resolve_loop_pure [of E i i MAX_DEPTH] unfolding resolve_domain_for_key_def by (metis prod.collapse, blast)

section \<open>Errors\<close>

definition fails_with :: "('e \<Rightarrow> bool) \<Rightarrow> ('s, 'r, 'e, 'a) kop \<Rightarrow> bool" where
  "fails_with P m \<longleftrightarrow> (\<forall>k e. fst (m k) = Inl e \<longrightarrow> P e)"

named_theorems fail_intros \<open>the errors of operations\<close>

lemma fails_bnd [fail_intros]: "fails_with P m \<Longrightarrow> (\<And>x. fails_with P (f x)) \<Longrightarrow> fails_with P (bnd m f)"
  unfolding fails_with_def bnd_def by (auto split: prod.splits sum.splits) (metis fst_conv)

lemma fails_on_err [fail_intros]: "(\<And>e. P (g e)) \<Longrightarrow> fails_with P (on_err g m)"
  by (auto simp: fails_with_def on_err_def split: prod.splits sum.splits)

lemma fails_basic [fail_intros]:
  "fails_with P (ret x)" "P e \<Longrightarrow> fails_with P (throw e)" "fails_with P now" "fails_with P draw" "fails_with P (gets h)"
  "fails_with P (audit_event ev)" "fails_with P (audit_key i kt st act)" "fails_with P (on_threat u)" "fails_with P (replay_claim E key ttl)"
  "fails_with P (replay_release E key)" "P e \<Longrightarrow> fails_with P (lift (ok_or opt e))" "(\<And>e. P (g e)) \<Longrightarrow> fails_with P (lift (map_err g r))"
  by (auto simp: fails_with_def ret_def throw_def now_def draw_def gets_def audit_key_def audit_event_run on_threat_def
      replay_claim_def replay_release_def lift_def split: prod.splits elim: ok_or.elims map_err.elims)

lemma fails_threat [fail_intros]:
  "fails_with P (current_threat_level E)" "fails_with P (record_threat_event E ev)"
  by (simp_all add: fails_with_def current_threat_level_def record_threat_event_def on_threat_def split: prod.split)

lemma fails_or_else [fail_intros]: "fails_with P h \<Longrightarrow> fails_with P (or_else m h)"
  unfolding fails_with_def or_else_def by (auto split: prod.splits sum.splits)

lemma fails_effective_policy [fail_intros]: "fails_with P (effective_policy_for E m)"
  unfolding effective_policy_for_def by (intro fail_intros)

abbreviation opaque :: "fault \<Rightarrow> bool" where
  "opaque e \<equiv> e = Failed ''operation failed'' \<or> e = Aborted Panic"

lemma opaque_intros: "opaque operation_failed" "opaque (Aborted x)"
  by (simp add: operation_failed_def) (cases x; simp)

lemma release_and_fail_opaque [fail_intros]: "fails_with opaque (release_and_fail E key)"
  unfolding release_and_fail_def by (intro fail_intros opaque_intros)

lemma decrypt_opaque: "fails_with opaque (decrypt E blob aad ctx)"
proof -
  have g: "fails_with opaque (expiry_gate E i m)" for i m
    unfolding expiry_gate_def by (auto intro!: fail_intros opaque_intros split: option.split PolicyVerdict.split)
  have p: "fails_with opaque (decrypt_prepare E blob)"
    unfolding decrypt_prepare_def Let_def by (auto intro!: fail_intros opaque_intros g)
  have c: "fails_with opaque (decrypt_claim E blob m key)" for m key
    unfolding decrypt_claim_def by (auto intro!: fail_intros opaque_intros split: sum.split bool.split)
  have o: "fails_with opaque (decrypt_claimed E blob aad ctx m kv ct d key)" for m kv ct d key
    unfolding decrypt_claimed_def Let_def by (intro fail_intros)
  show ?thesis unfolding decrypt_def by (auto intro!: fail_intros p c o split: prod.split)
qed

section \<open>Decryption and the replay store\<close>

definition replay_key_of :: "('s, 'r) kenv \<Rightarrow> EncryptedBlob \<Rightarrow> ('s, 'r) Keystore \<Rightarrow> bytes \<Rightarrow> bool" where
  "replay_key_of E blob k key \<longleftrightarrow> (\<exists>ct d n. hex_decode E (ciphertext_hex blob) = Inr ct \<and>
     fst (resolve_domain_for_key E (eb_key_id blob) k) = Inr d \<and> envelope_nonce ct = Inr n \<and>
     key = derive_replay_key (k_crypto E) d (eb_key_id blob) (eb_key_version blob) n (drop (length ct - AEAD_TAG_BYTES) ct))"

lemma replay_key_unique: "replay_key_of E blob k key \<Longrightarrow> storage k' = storage k \<Longrightarrow> replay_key_of E blob k' key' \<Longrightarrow> key' = key"
  using resolve_pure(2) [of k' k E "eb_key_id blob"] by (auto simp: replay_key_of_def)

lemma decrypt_prepare_ok:
  assumes "decrypt_prepare E blob k = (Inr (m, kv, ct, d, key), k1)"
  shows "calm k k1" "view E k (eb_key_id blob) = Some m" "can_decrypt (km_state m)" "replay_key_of E blob k key"
    "find (\<lambda>v. kv_version v = eb_key_version blob) (versions m) = Some kv" "hex_decode E (ciphertext_hex blob) = Inr ct"
    "fst (resolve_domain_for_key E (eb_key_id blob) k) = Inr d"
proof -
  show "calm k k1" by (rule evolvesD [OF decrypt_prepare_calm assms])
  from assms obtain k0 n where a: "ks_get E (eb_key_id blob) k = (Inr m, k)" "can_decrypt (km_state m)"
    "expiry_gate E (eb_key_id blob) m k = (Inr (), k0)" "resolve_domain_for_key E (eb_key_id blob) k0 = (Inr d, k1)"
    "envelope_nonce ct = Inr n"
    "key = derive_replay_key (k_crypto E) d (eb_key_id blob) (eb_key_version blob) n (drop (length ct - AEAD_TAG_BYTES) ct)"
    "find (\<lambda>v. kv_version v = eb_key_version blob) (versions m) = Some kv" "hex_decode E (ciphertext_hex blob) = Inr ct"
    by (auto simp: decrypt_prepare_def Let_def bnd_Inr ks_get_run split: if_splits)
  show "view E k (eb_key_id blob) = Some m"
    using a(1) by (auto simp: ks_get_run view_Some split: sum.splits)
  show "can_decrypt (km_state m)" by fact
  show d: "fst (resolve_domain_for_key E (eb_key_id blob) k) = Inr d"
    using resolve_pure(2) [of k0 k] calm_fields(1) [OF evolvesD [OF expiry_gate_calm a(3)]] a(4) by (metis fst_conv)
  show "replay_key_of E blob k key" using d a by (auto simp: replay_key_of_def)
  show "find (\<lambda>v. kv_version v = eb_key_version blob) (versions m) = Some kv" by fact
  show "hex_decode E (ciphertext_hex blob) = Inr ct" by fact
qed

text \<open>After the claim, a decryption succeeds and keeps it, or releases it.\<close>

definition released :: "('s, 'r) kenv \<Rightarrow> bytes \<Rightarrow> ('s, 'r) Keystore \<Rightarrow> ('s, 'r) Keystore" where
  "released E key k = k\<lparr> replay_cache := fst (rs_release (k_rs E) (clock_from k) key (replay_cache k)), tick := tick k + 4 \<rparr>"

definition settles :: "('s, 'r) kenv \<Rightarrow> bytes \<Rightarrow> ('s, 'r, fault, 'a) kop \<Rightarrow> bool" where
  "settles E key m \<longleftrightarrow> (\<forall>k. case m k of
     (Inr _, k') \<Rightarrow> calm k k'
   | (Inl e, k') \<Rightarrow> e = operation_failed \<and> (\<exists>k1. calm k k1 \<and> k' = released E key k1))"

lemma settles_bnd: "settles E key m \<Longrightarrow> (\<And>x. settles E key (f x)) \<Longrightarrow> settles E key (bnd m f)"
  unfolding settles_def
proof
  fix k
  assume m: "\<forall>k. case m k of (Inl e, k') \<Rightarrow> e = operation_failed \<and> (\<exists>k1. calm k k1 \<and> k' = released E key k1) | (Inr _, k') \<Rightarrow> calm k k'"
    and f: "\<And>x. \<forall>k. case f x k of (Inl e, k') \<Rightarrow> e = operation_failed \<and> (\<exists>k1. calm k k1 \<and> k' = released E key k1) | (Inr _, k') \<Rightarrow> calm k k'"
  obtain r k1 where mk: "m k = (r, k1)" by (cases "m k")
  show "case bnd m f k of (Inl e, k') \<Rightarrow> e = operation_failed \<and> (\<exists>k1. calm k k1 \<and> k' = released E key k1) | (Inr _, k') \<Rightarrow> calm k k'"
  proof (cases r)
    case (Inr x)
    then have "calm k k1" using m [rule_format, of k] mk by simp
    then show ?thesis using f [of x, rule_format, of k1] mk Inr calm_trans
      by (auto simp: bnd_def split: prod.splits sum.splits dest: transpD)
  qed (use m [rule_format, of k] mk in \<open>simp add: bnd_def\<close>)
qed

lemma settles_calm: "evolves calm m \<Longrightarrow> fails_with (\<lambda>_. False) m \<Longrightarrow> settles E key m"
  unfolding settles_def evolves_def fails_with_def
  by (intro allI) (metis (no_types, lifting) fst_conv old.prod.case snd_conv sum.exhaust sum.simps(6) surj_pair)

lemma settles_or_else: "evolves calm m \<Longrightarrow> settles E key h \<Longrightarrow> settles E key (or_else m h)"
  unfolding settles_def
proof
  fix k
  assume c: "evolves calm m"
    and h: "\<forall>k. case h k of (Inl e, k') \<Rightarrow> e = operation_failed \<and> (\<exists>k1. calm k k1 \<and> k' = released E key k1) | (Inr _, k') \<Rightarrow> calm k k'"
  obtain r k1 where mk: "m k = (r, k1)" by (cases "m k")
  have k1: "calm k k1" by (rule evolvesD [OF c mk])
  then show "case or_else m h k of (Inl e, k') \<Rightarrow> e = operation_failed \<and> (\<exists>k1. calm k k1 \<and> k' = released E key k1) | (Inr _, k') \<Rightarrow> calm k k'"
    using mk h [rule_format, of k1] calm_trans
    by (cases r) (auto simp: or_else_def split: prod.splits sum.splits dest: transpD)
qed

lemma settles_release: "settles E key (release_and_fail E key)"
  unfolding settles_def release_and_fail_def bnd_def replay_release_def throw_def released_def
  by (auto simp: split: prod.splits) (metis calm_refl fst_conv reflpD)

lemma decrypt_claimed_settles: "settles E key (decrypt_claimed E blob aad ctx m kv ct d key)"
  unfolding decrypt_claimed_def Let_def unwrap_key_version_def
  by (intro settles_bnd settles_or_else settles_release) (auto intro!: settles_calm calm_intros fail_intros)

abbreviation claimed :: "('s, 'r) kenv \<Rightarrow> bytes \<Rightarrow> ('s, 'r) Keystore \<Rightarrow> ('s, 'r) Keystore" where
  "claimed E key k \<equiv> k\<lparr> replay_cache := fst (rs_claim (k_rs E) (clock_from k) key (from_secs 86400) (replay_cache k)), tick := tick k + 4 \<rparr>"

abbreviation granted :: "('s, 'r) kenv \<Rightarrow> bytes \<Rightarrow> ('s, 'r) Keystore \<Rightarrow> bool" where
  "granted E key k \<equiv> snd (rs_claim (k_rs E) (clock_from k) key (from_secs 86400) (replay_cache k)) = Inr True"

text \<open>The four ways a decryption ends: before the claim, at the claim, with the plaintext, or releasing the claim.\<close>

inductive decrypts ::
  "('s, 'r) kenv \<Rightarrow> EncryptedBlob \<Rightarrow> ('s, 'r) Keystore \<Rightarrow> fault + bytes \<Rightarrow> ('s, 'r) Keystore \<Rightarrow> bool" for E blob k where
  early: "calm k k' \<Longrightarrow> decrypts E blob k (Inl e) k'"
| refused: "calm k k1 \<Longrightarrow> replay_key_of E blob k key \<Longrightarrow> \<not> granted E key k1 \<Longrightarrow> calm (claimed E key k1) k' \<Longrightarrow> decrypts E blob k (Inl e) k'"
| opened: "calm k k1 \<Longrightarrow> replay_key_of E blob k key \<Longrightarrow> granted E key k1 \<Longrightarrow> calm (claimed E key k1) k' \<Longrightarrow> decrypts E blob k (Inr pt) k'"
| given_back: "calm k k1 \<Longrightarrow> replay_key_of E blob k key \<Longrightarrow> granted E key k1 \<Longrightarrow> calm (claimed E key k1) k2 \<Longrightarrow>
    decrypts E blob k (Inl e) (released E key k2)"

lemma decrypts_okE:
  assumes "decrypts E blob k (Inr pt) k'"
  obtains k1 key where "calm k k1" "replay_key_of E blob k key" "granted E key k1" "calm (claimed E key k1) k'"
  using assms by (cases rule: decrypts.cases) auto

lemma decrypt_decrypts: "decrypt E blob aad ctx k = (res, k') \<Longrightarrow> decrypts E blob k res k'"
proof -
  assume run: "decrypt E blob aad ctx k = (res, k')"
  obtain p k1 where p: "decrypt_prepare E blob k = (p, k1)" by (cases "decrypt_prepare E blob k")
  show ?thesis
  proof (cases p)
    case (Inl e)
    then show ?thesis
      using run p decrypts.early [OF evolvesD [OF decrypt_prepare_calm p]] by (auto simp: decrypt_def bnd_def)
  next
    case (Inr y)
    then obtain m kv ct d key where y: "p = Inr (m, kv, ct, d, key)" by (cases y) auto
    note pre = decrypt_prepare_ok [OF p [unfolded y]]
    obtain rc out where rc: "rs_claim (k_rs E) (clock_from k1) key (from_secs 86400) (replay_cache k1) = (rc, out)" by fastforce
    let ?a = "audit_key (eb_key_id blob) (key_type m) (km_state m) (ReplayDetected (eb_key_version blob)) :: ('a, 'b, fault, unit) kop"
    show ?thesis
    proof (cases "granted E key k1")
      case True
      then have "decrypt E blob aad ctx k = decrypt_claimed E blob aad ctx m kv ct d key (claimed E key k1)"
        using p y rc by (simp add: decrypt_def bnd_def decrypt_claim_def replay_claim_def ret_def)
      then show ?thesis
        using decrypt_claimed_settles [of E key blob aad ctx m kv ct d, unfolded settles_def, rule_format, of "claimed E key k1"]
          run pre(1,4) True
        by (cases res) (auto intro: decrypts.opened decrypts.given_back)
    next
      case False
      then have "decrypt E blob aad ctx k = (Inl operation_failed, snd (?a (claimed E key k1)))"
        using p y rc
        by (simp add: decrypt_def bnd_def decrypt_claim_def replay_claim_def throw_def audit_key_def audit_event_run
            split: prod.splits sum.splits bool.splits)
      moreover have "evolves calm ?a" by (intro calm_intros)
      ultimately show ?thesis
        using run decrypts.refused [OF pre(1,4) False] by (metis evolves_def prod.inject)
    qed
  qed
qed

lemma mono_clock_from: "mono (clock k) \<Longrightarrow> mono (clock_from k)"
  by (simp add: mono_def clock_from_def)

text \<open>Within the window, no decryption removes the claim of another one.\<close>

context replay_store
begin

lemma decrypts_clock:
  "decrypts E blob k res k' \<Longrightarrow> storage k' = storage k \<and> clock k' = clock k \<and> tick k \<le> tick k'"
  by (auto simp: calm_def released_def elim!: decrypts.cases)

lemma decrypts_keeps:
  assumes "decrypts E blob k res k'" "k_rs E = S" "mono (clock k)" "inv (replay_cache k)" "clock k (tick k') \<le> T"
  shows "inv (replay_cache k') \<and> (live (replay_cache k) T x \<longrightarrow> live (replay_cache k') T x)"
  using assms
proof (cases rule: decrypts.cases)
  case (early e)
  then show ?thesis using assms by (simp add: calm_def)
next
  case (refused k1 key e)
  moreover have "clock_from k1 0 \<le> T"
    using refused assms monoD [OF assms(3), of "tick k1" "tick k'"] by (simp add: clock_from_def calm_def)
  ultimately show ?thesis using assms claim_inv claim_keeps by (simp add: calm_def)
next
  case (opened k1 key pt)
  moreover have "clock_from k1 0 \<le> T"
    using opened assms monoD [OF assms(3), of "tick k1" "tick k'"] by (simp add: clock_from_def calm_def)
  ultimately show ?thesis using assms claim_inv claim_keeps by (simp add: calm_def)
next
  case (given_back k1 key k2 e)
  have c: "clock_from k1 0 \<le> T"
    using given_back assms monoD [OF assms(3), of "tick k1" "tick k'"] by (simp add: clock_from_def calm_def released_def)
  have i: "inv (replay_cache k1)" "inv (replay_cache k2)" using given_back assms claim_inv by (simp_all add: calm_def)
  have "live (replay_cache k') T x" if l: "live (replay_cache k) T x"
  proof -
    have l1: "live (replay_cache k1) T x" using l given_back by (simp add: calm_def)
    then have "x \<noteq> key"
      using claim_refuses [OF i(1), of "clock_from k1" key] live_earlier [OF i(1) c] given_back assms(2) by blast
    moreover have "live (replay_cache k2) T x" using claim_keeps [of "replay_cache k1" "clock_from k1" T x key "from_secs 86400"] i(1) c l1 given_back assms(2) by (simp add: calm_def)
    ultimately show ?thesis using release_keeps [OF i(2)] given_back assms(2) by (simp add: released_def)
  qed
  then show ?thesis using release_inv [OF i(2)] given_back assms(2) by (simp add: released_def)
qed

lemma decrypts_takes:
  assumes "decrypts E blob k (Inr pt) k'" "k_rs E = S" "mono (clock k)" "inv (replay_cache k)"
    and w: "\<And>key. T < clock k (tick k) + window (replay_cache k) key (from_secs 86400)" and "clock k (tick k') \<le> T"
  obtains key where "replay_key_of E blob k key" "live (replay_cache k') T key" "inv (replay_cache k')"
proof -
  obtain k1 key where 1: "calm k k1" "replay_key_of E blob k key" "granted E key k1" "calm (claimed E key k1) k'"
    using decrypts_okE [OF assms(1)] .
  have f: "replay_cache k1 = replay_cache k" "clock k1 = clock k" "tick k \<le> tick k1" "tick k1 \<le> tick k'"
    "replay_cache k' = fst (rs_claim S (clock_from k1) key (from_secs 86400) (replay_cache k))"
    using 1 assms(2) by (simp_all add: calm_def)
  have "clock k (tick k) \<le> clock k (tick k1)" "clock k (tick k1) \<le> clock k (tick k')" using f monoD [OF assms(3)] by auto
  then have c: "clock_from k1 0 \<le> T" "T < clock_from k1 0 + window (replay_cache k) key (from_secs 86400)"
    using f(2) w [of key] assms(6) by (simp_all add: clock_from_def)
  have "mono (clock_from k1)" using mono_clock_from [of k1] f(2) assms(3) by simp
  then have "live (replay_cache k') T key"
    using claim_takes [of "replay_cache k" "clock_from k1" key "from_secs 86400" T] assms(4) c 1(3) f assms(2) by simp
  then show ?thesis using that 1(2) claim_inv [OF assms(4)] f(5) by simp
qed

lemma decrypts_refuses:
  assumes "decrypts E blob k res k'" "k_rs E = S" "mono (clock k)" "inv (replay_cache k)" "clock k (tick k') \<le> T"
    and "replay_key_of E blob k key" "live (replay_cache k) T key"
  shows "\<exists>e. res = Inl e"
proof (cases res)
  case (Inr pt)
  obtain k1 key' where 1: "calm k k1" "replay_key_of E blob k key'" "granted E key' k1" "calm (claimed E key' k1) k'"
    using decrypts_okE [OF assms(1) [unfolded Inr]] .
  have "key' = key" by (rule replay_key_unique [OF assms(6) refl 1(2)])
  moreover have "clock_from k1 0 \<le> T"
    using 1 assms monoD [OF assms(3), of "tick k1" "tick k'"] by (simp add: clock_from_def calm_def)
  ultimately show ?thesis
    using claim_refuses [OF assms(4), of "clock_from k1" key] live_earlier [OF assms(4) _ assms(7)] 1 assms(2)
    by (simp add: calm_def)
qed simp

end

fun decrypt_all :: "('s, 'r) kenv \<Rightarrow> (EncryptedBlob \<times> bytes \<times> bytes) list \<Rightarrow> ('s, 'r) Keystore \<Rightarrow> ('s, 'r) Keystore" where
  "decrypt_all E [] k = k"
| "decrypt_all E ((b, a, c) # calls) k = decrypt_all E calls (snd (decrypt E b a c k))"

context replay_store
begin

lemma decrypt_all_clock:
  "storage (decrypt_all E calls k) = storage k \<and> clock (decrypt_all E calls k) = clock k \<and> tick k \<le> tick (decrypt_all E calls k)"
proof (induction E calls k rule: decrypt_all.induct)
  case (2 E b a c calls k)
  then show ?case using decrypts_clock [OF decrypt_decrypts, of E b a c k] by (cases "decrypt E b a c k") fastforce
qed simp

lemma decrypt_all_keeps:
  "k_rs E = S \<Longrightarrow> mono (clock k) \<Longrightarrow> inv (replay_cache k) \<Longrightarrow> clock k (tick (decrypt_all E calls k)) \<le> T \<Longrightarrow>
    inv (replay_cache (decrypt_all E calls k)) \<and> (live (replay_cache k) T x \<longrightarrow> live (replay_cache (decrypt_all E calls k)) T x)"
proof (induction E calls k rule: decrypt_all.induct)
  case (2 E b a c calls k)
  obtain r k1 where d: "decrypt E b a c k = (r, k1)" by fastforce
  note dd = decrypt_decrypts [OF d]
  note c1 = decrypts_clock [OF dd] decrypt_all_clock [of E calls k1]
  have "clock k (tick k1) \<le> T"
    using monoD [OF "2.prems"(2), of "tick k1" "tick (decrypt_all E calls k1)"] c1 "2.prems"(4) d by simp
  from decrypts_keeps [OF dd "2.prems"(1-3) this, of x] have "inv (replay_cache k1)"
    "live (replay_cache k) T x \<longrightarrow> live (replay_cache k1) T x" by simp_all
  then show ?case using "2.IH" "2.prems" d c1 by simp
qed simp

lemma decrypt_once_only:
  assumes "k_rs E = S" "inv (replay_cache k)" "mono (clock k)" "decrypt E blob aad ctx k = (Inr pt, k1)"
    and "decrypt E blob aad' ctx' (decrypt_all E calls k1) = (res, k3)"
    and w: "\<And>key. clock k (tick k3) < clock k (tick k) + window (replay_cache k) key (from_secs 86400)"
  shows "\<exists>e. res = Inl e"
proof -
  let ?k2 = "decrypt_all E calls k1" and ?T = "clock k (tick k3)"
  note d1 = decrypt_decrypts [OF assms(4)] and d3 = decrypt_decrypts [OF assms(5)]
  note c = decrypts_clock [OF d1] decrypt_all_clock [of E calls k1] decrypts_clock [OF d3]
  have le: "clock k (tick k1) \<le> ?T" "clock k (tick ?k2) \<le> ?T" using c monoD [OF assms(3)] by (auto intro: order_trans)
  obtain key where key: "replay_key_of E blob k key" "live (replay_cache k1) ?T key" "inv (replay_cache k1)"
    using decrypts_takes [OF d1 assms(1,3,2) w le(1)] by blast
  then have "live (replay_cache ?k2) ?T key" "inv (replay_cache ?k2)"
    using decrypt_all_keeps [of E k1 calls ?T key] assms(1,3) c le(2) by simp_all
  moreover have "replay_key_of E blob ?k2 key"
    using key(1) c resolve_pure(2) [of ?k2 k] by (simp add: replay_key_of_def)
  ultimately show ?thesis using decrypts_refuses [OF d3 assms(1), of ?T key] assms(3) c by simp
qed

end

section \<open>Encryption\<close>

lemma encrypt_ok:
  assumes "encrypt E kid pt aad ctx k = (Inr blob, k1)"
  obtains m kv pkb pk d r ct where "view E k kid = Some m" "km_state m = Active" "key_type m \<in> {DataEncrypting, HybridIdentity}"
    "current_key_version m = Some kv" "hex_decode E (public_key_hex kv) = Inr pkb" "PublicKey_from_bytes (k_prims E) pkb = Inr pk"
    "fst (resolve_domain_for_key E kid k) = Inr d" "\<exists>j. r = draws k j"
    "Citadel_seal (k_crypto E) (k_prims E) (r_kem r) (r_env_nonce r) pk pt (domain_bound_aad d aad) ctx = Inr ct"
    "eb_key_id blob = kid" "eb_key_version blob = current_version m" "ciphertext_hex blob = hex_encode E ct"
proof -
  from assms obtain m kv pkb pk d ct k0 k2 where a: "ks_get E kid k = (Inr m, k)" "can_encrypt (km_state m)"
    "key_type m \<in> {DataEncrypting, HybridIdentity}" "policy_gate E kid m k = (Inr (), k0)" "current_key_version m = Some kv"
    "hex_decode E (public_key_hex kv) = Inr pkb" "PublicKey_from_bytes (k_prims E) pkb = Inr pk"
    "resolve_domain_for_key E kid k0 = (Inr d, k2)"
    "Citadel_seal (k_crypto E) (k_prims E) (r_kem (draws k2 (drawn k2))) (r_env_nonce (draws k2 (drawn k2))) pk pt
       (domain_bound_aad d aad) ctx = Inr ct"
    "eb_key_id blob = kid" "eb_key_version blob = current_version m" "ciphertext_hex blob = hex_encode E ct"
    by (auto simp: encrypt_def Let_def bnd_Inr ks_get_run draw_def now_def split: if_splits)
  have c: "calm k k0" by (rule evolvesD [OF policy_gate_calm a(4)])
  have "k2 = k0" using a(8) resolve_pure(1) [of E kid k0] by simp
  moreover have "fst (resolve_domain_for_key E kid k) = Inr d"
    using resolve_pure(2) [of k0 k] c a(8) by (metis calm_fields(1) fst_conv)
  ultimately show ?thesis
    using that [of m kv pkb pk d "draws k2 (drawn k2)" ct] a c
    by (auto simp: view_Some ks_get_run can_encrypt_iff calm_def split: sum.splits)
qed

text \<open>\<open>opens_for\<close>: at \<open>k\<close>, version \<open>ver\<close> of the key may decrypt, and its secret unwraps to the one of the public key \<open>pkh\<close>.\<close>

definition opens_for :: "('s, 'r) kenv \<Rightarrow> ('s, 'r) Keystore \<Rightarrow> KeyId \<Rightarrow> u32 \<Rightarrow> string \<Rightarrow> ('s, 'r) Keystore \<Rightarrow> bool" where
  "opens_for E k kid ver pkh k1 \<longleftrightarrow> (\<exists>m kv skb sk. view E k kid = Some m \<and> can_decrypt (km_state m) \<and>
     expiry_gate E kid m k = (Inr (), k1) \<and> find (\<lambda>v. kv_version v = ver) (versions m) = Some kv \<and>
     unwrap_key_version E kid kv 0 k = (Inr skb, k) \<and> SecretKey_from_bytes (k_prims E) skb = Inr sk \<and>
     pkh = hex_encode E (PublicKey_to_bytes (SecretKey_public_key (k_prims E) sk)))"

lemma public_key_roundtrip:
  "prims_ok P \<Longrightarrow> PublicKey_from_bytes P (PublicKey_to_bytes (SecretKey_public_key P sk)) = Inr (SecretKey_public_key P sk)"
  by (simp add: PublicKey_from_bytes_def PublicKey_to_bytes_def SecretKey_public_key_def
      PublicKey_from_parts_mlkem_def prims_ok_def wire_consts)

lemma opened_has_nonce: "Citadel_open X P sk ct aad ctx = Inr pt \<Longrightarrow> (\<exists>n. envelope_nonce ct = Inr n) \<and> AEAD_TAG_BYTES \<le> length ct"
  by (cases "starts_with ct MAGIC")
    (auto simp: Citadel_open_def engine_decrypt_def envelope_nonce_def v2_open_def v2_decode_iff decode_wire_eq_Inr v2_layout_def
      wire_consts split: if_splits)

lemma decrypt_run_ok:
  assumes "hex_ok E" "opens_for E k (eb_key_id blob) (eb_key_version blob) pkh k1"
    and "hex_decode E (ciphertext_hex blob) = Inr ct" "fst (resolve_domain_for_key E (eb_key_id blob) k) = Inr d"
    and open_ok: "\<And>sk. pkh = hex_encode E (PublicKey_to_bytes (SecretKey_public_key (k_prims E) sk)) \<Longrightarrow>
      Citadel_open (k_crypto E) (k_prims E) sk ct (domain_bound_aad d aad) ctx = Inr pt"
    and grant: "\<And>key. replay_key_of E blob k key \<Longrightarrow> granted E key k1"
  shows "fst (decrypt E blob aad ctx k) = Inr pt"
proof -
  obtain m kv skb sk where o: "view E k (eb_key_id blob) = Some m" "can_decrypt (km_state m)"
    "expiry_gate E (eb_key_id blob) m k = (Inr (), k1)" "find (\<lambda>v. kv_version v = eb_key_version blob) (versions m) = Some kv"
    "unwrap_key_version E (eb_key_id blob) kv 0 k = (Inr skb, k)" "SecretKey_from_bytes (k_prims E) skb = Inr sk"
    "pkh = hex_encode E (PublicKey_to_bytes (SecretKey_public_key (k_prims E) sk))"
    using assms(2) unfolding opens_for_def by blast
  have op: "Citadel_open (k_crypto E) (k_prims E) sk ct (domain_bound_aad d aad) ctx = Inr pt" by (rule open_ok [OF o(7)])
  obtain n where n: "envelope_nonce ct = Inr n" "AEAD_TAG_BYTES \<le> length ct" using opened_has_nonce [OF op] by blast
  have c: "calm k k1" by (rule evolvesD [OF expiry_gate_calm o(3)])
  let ?key = "derive_replay_key (k_crypto E) d (eb_key_id blob) (eb_key_version blob) n (drop (length ct - AEAD_TAG_BYTES) ct)"
  have "resolve_domain_for_key E (eb_key_id blob) k1 = (Inr d, k1)"
    using resolve_pure(1) [of E "eb_key_id blob" k1] resolve_pure(2) [of k1 k E "eb_key_id blob"] c assms(4) by (simp add: calm_fields)
  then have p: "decrypt_prepare E blob k = (Inr (m, kv, ct, d, ?key), k1)"
    using o(1-4) assms(3) n by (simp add: decrypt_prepare_def Let_def bnd_def on_err_def ks_get_run view_Some lift_def ret_def)
  have g: "granted E ?key k1" by (rule grant [OF decrypt_prepare_ok(4) [OF p]])
  obtain rc where rc: "rs_claim (k_rs E) (clock_from k1) ?key (from_secs 86400) (replay_cache k1) = (rc, Inr True)"
    using g by (metis prod.collapse)
  have u: "unwrap_key_version E (eb_key_id blob) kv 0 (claimed E ?key k1) = (Inr skb, claimed E ?key k1)"
    unfolding unwrap_key_version_def
    by (rule unwrap_ok_cong [OF o(5) [unfolded unwrap_key_version_def]]) (simp_all add: calm_fields [OF c])
  show ?thesis
    using p rc u o(6) op
    by (simp add: decrypt_def bnd_def decrypt_claim_def replay_claim_def ret_def decrypt_claimed_def Let_def or_else_def lift_def
        audit_key_def audit_event_run)
qed

lemma decrypt_encrypt:
  assumes "crypto_ok (k_crypto E)" "prims_ok (k_prims E)" "hex_ok E"
    and "\<And>j. \<exists>n. r_env_nonce (draws k j) = Some n \<and> length n = 12"
    and "encrypt E kid pt aad ctx k = (Inr blob, k1)"
    and "view E k kid = Some m" "current_key_version m = Some kv"
    and "opens_for E k2 kid (current_version m) (public_key_hex kv) k3"
    and "fst (resolve_domain_for_key E kid k2) = fst (resolve_domain_for_key E kid k)"
    and "\<And>key. replay_key_of E blob k2 key \<Longrightarrow> granted E key k3"
  shows "fst (decrypt E blob aad ctx k2) = Inr pt"
proof -
  obtain pkb pk d r ct where e: "hex_decode E (public_key_hex kv) = Inr pkb" "PublicKey_from_bytes (k_prims E) pkb = Inr pk"
    "fst (resolve_domain_for_key E kid k) = Inr d" "\<exists>j. r = draws k j"
    "Citadel_seal (k_crypto E) (k_prims E) (r_kem r) (r_env_nonce r) pk pt (domain_bound_aad d aad) ctx = Inr ct"
    "eb_key_id blob = kid" "eb_key_version blob = current_version m" "ciphertext_hex blob = hex_encode E ct"
    using encrypt_ok [OF assms(5)] assms(6,7) by (metis option.inject)
  obtain n where n: "r_env_nonce r = Some n" "length n = 12" using assms(4) e(4) by blast
  have "Citadel_open (k_crypto E) (k_prims E) sk ct (domain_bound_aad d aad) ctx = Inr pt"
    if "public_key_hex kv = hex_encode E (PublicKey_to_bytes (SecretKey_public_key (k_prims E) sk))" for sk
  proof -
    have "pkb = PublicKey_to_bytes (SecretKey_public_key (k_prims E) sk)" using e(1) that assms(3) by (simp add: hex_ok_def)
    then have "pk = SecretKey_public_key (k_prims E) sk" using e(2) public_key_roundtrip [OF assms(2), of sk] by simp
    then show ?thesis using Citadel_open_seal [OF assms(1,2) n(2)] e(5) n(1) by simp
  qed
  then show ?thesis
    using assms(3,8-10) e by (intro decrypt_run_ok [of E k2 blob "public_key_hex kv" k3 ct d]) (simp_all add: hex_ok_def)
qed

section \<open>A store to encrypt with\<close>

definition demo_version :: KeyVersion where
  "demo_version = \<lparr> kv_version = 1, kv_created_at = 0,
     public_key_hex = toy_hex (PublicKey_to_bytes (SecretKey_public_key toy_prims toy_sk)),
     secret_key_material = Plaintext (toy_hex (SecretKey_to_bytes toy_prims toy_sk)), wrapping_key_id = None,
     wrapping_key_version = None, wrap_nonce_hex = None, wrapping_mode = None \<rparr>"

definition demo_keys2 :: InMemoryBackend where
  "demo_keys2 = [(''d'', toy_key ''d'' Domain Active None []),
     (''e'', toy_key ''e'' DataEncrypting Active (Some ''d'') [demo_version])]"

lemma no_policy_gates:
  assumes "policy_id m = None"
  shows "expiry_gate E i m k = (Inr (), snd (current_threat_level E k :: (fault + ThreatLevel) \<times> ('s, 'r) Keystore))"
    "policy_gate E i m k = (Inr (), snd (current_threat_level E k :: (fault + ThreatLevel) \<times> ('s, 'r) Keystore))"
proof -
  obtain l k1 where "current_threat_level E k = (Inr l :: fault + ThreatLevel, k1)"
    by (cases "current_level (k_powf E) (\<lambda>i. int (clock_from k i)) ((threat k)\<lparr> ta_audit := Some [] \<rparr>)")
      (simp add: current_threat_level_def on_threat_def)
  then show "expiry_gate E i m k = (Inr (), snd (current_threat_level E k :: (fault + ThreatLevel) \<times> ('s, 'r) Keystore))"
    "policy_gate E i m k = (Inr (), snd (current_threat_level E k :: (fault + ThreatLevel) \<times> ('s, 'r) Keystore))"
    using assms by (simp_all add: expiry_gate_def policy_gate_def effective_policy_for_def bnd_def gets_def ret_def)
qed

lemma demo_view:
  "storage k = demo_keys2 \<Longrightarrow> view toy_env k ''e'' = Some (toy_key ''e'' DataEncrypting Active (Some ''d'') [demo_version])"
  "storage k = demo_keys2 \<Longrightarrow> resolve_domain_for_key toy_env ''e'' k = (Inr ''d'', k)"
  by (simp_all add: view_def InMemory_def mem_get_def demo_keys2_def resolve_domain_for_key_def MAX_DEPTH_def numeral_eq_Suc
      bnd_def ks_get_run toy_key_def ret_def)

lemma toy_sk_roundtrip: "SecretKey_from_bytes toy_prims (SecretKey_to_bytes toy_prims toy_sk) = Inr toy_sk"
  by (simp add: SecretKey_from_bytes_def SecretKey_to_bytes_def toy_prims_def toy_sk_def pad_to_def wire_consts Let_def)

lemma toy_hex_roundtrip [simp]: "hex_decode toy_env (toy_hex b) = Inr b" "hex_encode toy_env = toy_hex"
  using toy_hex_ok by (simp_all add: hex_ok_def toy_env_def)

lemma demo_opens:
  assumes "storage k = demo_keys2"
  shows "opens_for toy_env k ''e'' 1 (public_key_hex demo_version)
    (snd (current_threat_level toy_env k :: (fault + ThreatLevel) \<times> _))"
  unfolding opens_for_def
  by (intro exI [of _ "toy_key ''e'' DataEncrypting Active (Some ''d'') [demo_version]"] exI [of _ demo_version]
      exI [of _ "SecretKey_to_bytes toy_prims toy_sk"] exI [of _ toy_sk])
    (simp add: demo_view assms no_policy_gates toy_key_def toy_sk_roundtrip unwrap_key_version_def demo_version_def unwrap_simple_iff)

lemma demo_encrypts:
  assumes "storage k = demo_keys2" "draws k = toy_rnd"
  shows "\<exists>blob k1. encrypt toy_env ''e'' [1, 2, 3] [7] [8] k = (Inr blob, k1)"
proof -
  let ?k = "snd (current_threat_level toy_env k :: (fault + ThreatLevel) \<times> (InMemoryBackend, MemoryReplayStore) Keystore)"
  have c: "calm k ?k" using current_threat_level_calm [of toy_env] unfolding evolves_def by blast
  obtain ss kc where "hybrid_encapsulate toy_prims (SecretKey_public_key toy_prims toy_sk) toy_rand = Inr (ss, kc)"
    using toy_encapsulate [of "SecretKey_public_key toy_prims toy_sk"]
    by (auto simp: toy_kem_def HybridX25519MlKem768Provider_def)
  from Citadel_seal_total [OF toy_crypto_ok toy_prims_ok _ _ _ _ this, of "replicate 12 0" "[1, 2, 3]" "domain_bound_aad ''d'' [7]" "[8]"]
  obtain ct where "Citadel_seal toy_crypto toy_prims toy_rand (Some (replicate 12 0)) (SecretKey_public_key toy_prims toy_sk)
      [1, 2, 3] (domain_bound_aad ''d'' [7]) [8] = Inr ct" by (auto simp: wire_consts domain_bound_aad_def as_bytes_def)
  moreover have "resolve_domain_for_key toy_env ''e'' ?k = (Inr ''d'', ?k)" by (rule demo_view) (simp add: calm_fields [OF c] assms)
  ultimately show ?thesis
    using demo_view(1) [OF assms(1)] c assms
    by (simp add: encrypt_def bnd_def on_err_def ks_get_run view_Some lift_def ret_def no_policy_gates toy_key_def
        current_key_version_def demo_version_def public_key_roundtrip [OF toy_prims_ok] draw_def now_def Let_def calm_def toy_rnd_def
        storage_put_def InMemory_def mem_put_def audit_key_def audit_event_run)
qed

lemma demo_granted:
  assumes "replay_cache k = MemoryReplayStore_with_defaults"
  shows "granted toy_env key (snd (current_threat_level toy_env k :: (fault + ThreatLevel) \<times> _))"
proof -
  have "calm k (snd (current_threat_level toy_env k :: (fault + ThreatLevel) \<times> _))"
    using current_threat_level_calm [of toy_env] unfolding evolves_def by blast
  from calm_fields(2) [OF this] show ?thesis
    using assms by (simp add: MemoryReplay_def mem_claim_def evict_expired_def MemoryReplayStore_with_defaults_def
        MemoryReplayStore_new_def al_retain_def Let_def)
qed

lemma demo_decrypts:
  assumes "storage k = demo_keys2" "draws k = toy_rnd" "replay_cache k = MemoryReplayStore_with_defaults"
  shows "\<exists>blob. fst (decrypt toy_env blob [7] [8] k) = Inr [1, 2, 3]"
proof -
  let ?k3 = "snd (current_threat_level toy_env k :: (fault + ThreatLevel) \<times> _)"
  obtain blob k1 where b: "encrypt toy_env ''e'' [1, 2, 3] [7] [8] k = (Inr blob, k1)" using demo_encrypts [OF assms(1,2)] by blast
  have "fst (decrypt toy_env blob [7] [8] k) = Inr [1, 2, 3]"
    using assms demo_opens [OF assms(1)] demo_granted [OF assms(3)]
    by (intro decrypt_encrypt [OF _ _ toy_hex_ok _ b demo_view(1) [OF assms(1)], of demo_version k ?k3])
      (simp_all add: toy_crypto_ok toy_prims_ok toy_rnd_def toy_key_def current_key_version_def demo_version_def)
  then show ?thesis by blast
qed

section \<open>Properties\<close>

text \<open>C2: what was encrypted is decrypted. A blob that \<open>encrypt\<close> returned decrypts, at any later time, to the plaintext under the
  same associated data and context, provided that the key version may still decrypt and unwraps to the secret of the public
  key that was used, that the key still belongs to the same domain, and that the replay store grants the claim.\<close>

theorem encrypt_decrypt_roundtrip:
  assumes "crypto_ok (k_crypto E)" "prims_ok (k_prims E)" "hex_ok E"
    and "\<And>j. \<exists>n. r_env_nonce (draws k j) = Some n \<and> length n = 12"
    and "encrypt E kid pt aad ctx k = (Inr blob, k1)"
    and "view E k kid = Some m" "current_key_version m = Some kv"
    and "opens_for E k2 kid (current_version m) (public_key_hex kv) k3"
    and "fst (resolve_domain_for_key E kid k2) = fst (resolve_domain_for_key E kid k)"
    and "\<And>key. replay_key_of E blob k2 key \<Longrightarrow> granted E key k3"
  shows "fst (decrypt E blob aad ctx k2) = Inr pt"
  using assms by (rule decrypt_encrypt)

theorem encrypt_decrypt_roundtrip_witness:
  "\<exists>blob k1. encrypt toy_env ''e'' [1, 2, 3] [7] [8] (toy_keystore demo_keys2) = (Inr blob, k1) \<and>
     fst (decrypt toy_env blob [7] [8] (toy_keystore demo_keys2)) = Inr [1, 2, 3]"
proof -
  let ?k = "toy_keystore demo_keys2" and ?k3 = "snd (current_threat_level toy_env (toy_keystore demo_keys2) :: (fault + ThreatLevel) \<times> _)"
  have st: "storage ?k = demo_keys2" "draws ?k = toy_rnd" by (simp_all add: toy_keystore_def)
  have MRS: "replay_cache ?k = MemoryReplayStore_with_defaults" by (simp add: toy_keystore_def)
  obtain blob k1 where b: "encrypt toy_env ''e'' [1, 2, 3] [7] [8] ?k = (Inr blob, k1)" using demo_encrypts [OF st] by blast
  have "fst (decrypt toy_env blob [7] [8] ?k) = Inr [1, 2, 3]"
    using st demo_opens [OF st(1)] demo_granted [of ?k] MRS
    by (intro encrypt_decrypt_roundtrip [OF _ _ toy_hex_ok _ b demo_view(1) [OF st(1)], of demo_version ?k ?k3])
      (simp_all add: toy_crypto_ok toy_prims_ok toy_rnd_def toy_key_def current_key_version_def demo_version_def)
  with b show ?thesis by blast
qed

text \<open>C10: decryption does not say why it failed. Every error that \<open>decrypt\<close> returns, from the missing key to the forged tag, is the
  same message; the only other outcome is the panic of policy evaluation.\<close>

theorem decrypt_errors_uniform:
  "fst (decrypt E blob aad ctx k) = Inl e \<Longrightarrow> e = Failed ''operation failed'' \<or> e = Aborted Panic"
  using decrypt_opaque [of E blob aad ctx] unfolding fails_with_def by blast

theorem decrypt_errors_uniform_witness:
  "fst (decrypt toy_env \<lparr> eb_key_id = ''x'', eb_key_version = 1, ciphertext_hex = '''', encrypted_at = 0 \<rparr> [] []
     (toy_keystore demo_keys2)) = Inl (Failed ''operation failed'')"
proof -
  have r: "fst (decrypt toy_env \<lparr> eb_key_id = ''x'', eb_key_version = 1, ciphertext_hex = '''', encrypted_at = 0 \<rparr> [] []
     (toy_keystore demo_keys2)) = Inl operation_failed"
    by (simp add: decrypt_def decrypt_prepare_def bnd_def on_err_def ks_get_run toy_keystore_def demo_keys2_def InMemory_def mem_get_def Let_def)
  from decrypt_errors_uniform [OF this] r show ?thesis by (auto simp: operation_failed_def)
qed

text \<open>C3: a ciphertext is decrypted once. After a successful decryption, and whatever other decryptions are attempted meanwhile
  (failing ones, which release their claims, included), decrypting the blob again fails within the retention window of the
  replay store, for every store that keeps the replay contract.\<close>

theorem decrypt_once:
  assumes "replay_store (k_rs E) rinv live win" "rinv (replay_cache k)" "mono (clock k)"
    and "decrypt E blob aad ctx k = (Inr pt, k1)"
    and "\<And>key. clock k (tick (snd (decrypt E blob aad' ctx' (decrypt_all E calls k1)))) <
      clock k (tick k) + win (replay_cache k) key (from_secs 86400)"
  shows "\<exists>e. fst (decrypt E blob aad' ctx' (decrypt_all E calls k1)) = Inl e"
  using replay_store.decrypt_once_only [OF assms(1) refl assms(2-4) prod.collapse [symmetric] assms(5)] .

theorem decrypt_once_witness:
  "\<exists>blob k1 e. decrypt toy_env blob [7] [8] ((toy_keystore demo_keys2)\<lparr> clock := \<lambda>_. 0 \<rparr>) = (Inr [1, 2, 3], k1) \<and>
     fst (decrypt toy_env blob [7] [8] (decrypt_all toy_env [(blob, [], [])] k1)) = Inl e"
proof -
  let ?k = "(toy_keystore demo_keys2)\<lparr> clock := \<lambda>_. 0 \<rparr>"
  have st: "storage ?k = demo_keys2" "draws ?k = toy_rnd" "replay_cache ?k = MemoryReplayStore_with_defaults" "mono (clock ?k)"
    by (simp_all add: toy_keystore_def mono_def)
  obtain blob where b: "fst (decrypt toy_env blob [7] [8] ?k) = Inr [1, 2, 3]" using demo_decrypts [OF st(1-3)] by blast
  then obtain k1 where d: "decrypt toy_env blob [7] [8] ?k = (Inr [1, 2, 3], k1)" by (metis prod.collapse)
  have "\<exists>e. fst (decrypt toy_env blob [7] [8] (decrypt_all toy_env [(blob, [], [])] k1)) = Inl e"
    by (rule decrypt_once [OF _ _ st(4) d, of mem_inv mem_live "\<lambda>r k ttl. mem_ttl r"])
      (simp_all add: memory.replay_store_axioms st(3) mem_inv_def MemoryReplayStore_with_defaults_def
        MemoryReplayStore_new_def from_secs_def NS_PER_SEC_def)
  with d show ?thesis by blast
qed

lemma validate_authz_Inr:
  "validate_authz authz k = (Inr u, k') \<longleftrightarrow> (\<exists>e e'. enforcer k = Some e \<and> validate (clock_from k) authz e = (e', Inr ()) \<and>
     k' = k\<lparr> enforcer := Some e', tick := tick k + 2 \<rparr>)"
  by (auto simp: validate_authz_def split: option.splits prod.splits elim: map_err.elims)

lemma enforce_domain_Inr:
  "enforce_authorized_domain E dm kid k = (Inr u, k') \<longleftrightarrow>
     k' = k \<and> (\<forall>d. dm = Some d \<longrightarrow> fst (resolve_domain_for_key E kid k) = Inr d)"
  using resolve_pure(1) [of E kid k]
  by (cases dm; cases "fst (resolve_domain_for_key E kid k)")
    (auto simp: enforce_authorized_domain_def bnd_def on_err_def ret_def throw_def)

lemma view_enforcer [simp]: "view E (k\<lparr> enforcer := e, tick := t \<rparr>) = view E k"
  by (rule view_cong) simp

lemma resolve_enforcer [simp]:
  "fst (resolve_domain_for_key E i (k\<lparr> enforcer := e, tick := t \<rparr>)) = fst (resolve_domain_for_key E i k)"
  by (rule resolve_pure) simp

lemma sign_ok:
  assumes "sign E kid msg k = (Inr sp, k')"
  shows "\<exists>m. view E k kid = Some m \<and> km_state m = Active \<and> key_type m = Signing"
  using assms by (auto simp: sign_def bnd_Inr ks_get_run sign_denied_def view_Some split: if_splits sum.splits)

text \<open>A context that passed the keystore boundary, for an operation on a key: what it proves about both.\<close>

definition admitted :: "('s, 'r) kenv \<Rightarrow> AuthorizedContext \<Rightarrow> OperationType \<Rightarrow> KeyId \<Rightarrow> ('s, 'r) Keystore \<Rightarrow> KeyMetadata \<Rightarrow> bool" where
  "admitted E authz op kid k m \<longleftrightarrow> (\<exists>e e'. enforcer k = Some e \<and> validate (clock_from k) authz e = (e', Inr ())) \<and>
     operation authz = op \<and> ac_key_id authz = kid \<and> view E k kid = Some m"

definition demo_authz :: AuthorizedContext where
  "demo_authz = AuthorizedContext_new 0 \<lparr> ct_nonce = 7, enforcer_generation = 1 \<rparr> OpEncrypt ''e'' None LActive (EncryptParams None)"

definition demo_enforcer :: StateEnforcer where
  "demo_enforcer = enf_run toy_crypto [Register ''e'' None, AuthEncrypt 7 (\<lambda>_. 0) ''e'' None None]
     (fst (with_config None None 1 60000 5000))"

lemma demo_authz_validates: "snd (validate (\<lambda>_. 0) demo_authz demo_enforcer) = Inr ()"
  by (simp add: demo_authz_def demo_enforcer_def with_config_def register_key_def authorize_encrypt_def validate_key_def issue_def
      generate_capability_token_def validate_def validate_capability_def AuthorizedContext_new_def fresh_tokens_def
      al_retain_def CAPABILITY_TOKEN_TTL_NANOS_def as_millis_u64_def saturating_sub_def al_del_def Let_def)

definition demo_keystore :: "(InMemoryBackend, MemoryReplayStore) Keystore" where
  "demo_keystore = (toy_keystore demo_keys2)\<lparr> clock := (\<lambda>_. 0), enforcer := Some demo_enforcer \<rparr>"

lemma demo_authorized: "\<exists>blob k'. encrypt_authorized toy_env demo_authz [1, 2, 3] [7] [8] demo_keystore = (Inr blob, k')"
proof -
  have c: "clock_from demo_keystore = (\<lambda>_. 0)" by (simp add: fun_eq_iff clock_from_def demo_keystore_def)
  let ?e' = "fst (validate (\<lambda>_. 0) demo_authz demo_enforcer)"
  let ?k = "demo_keystore\<lparr> enforcer := Some ?e', tick := tick demo_keystore + 2 \<rparr>"
  have "validate_authz demo_authz demo_keystore = (Inr (), ?k)"
  proof -
    have "enforcer demo_keystore = Some demo_enforcer" by (simp add: demo_keystore_def)
    then show ?thesis using demo_authz_validates by (auto simp: validate_authz_def c split: prod.split)
  qed
  moreover obtain blob k' where "encrypt toy_env ''e'' [1, 2, 3] [7] [8] ?k = (Inr blob, k')"
    using demo_encrypts [of ?k] by (auto simp: demo_keystore_def toy_keystore_def)
  ultimately show ?thesis
    by (simp add: encrypt_authorized_def bnd_def on_err_def lift_def require_encrypt_for_def demo_authz_def AuthorizedContext_new_def
        enforce_authorized_domain_def ret_def)
qed

text \<open>C6: no authorized operation without authority. An authorized encryption, decryption or signature succeeds only when
  an enforcer is bound and has validated the context, the context is for that operation and that key, and the stored key
  has the type and state the operation needs; a domain-scoped context reaches keys of its domain only, and a signing context
  signs the message it was issued for only.\<close>

theorem authorized_operations_gated:
  "(encrypt_authorized E authz pt aad ctx k = (Inr blob, k') \<longrightarrow>
      (\<exists>m. admitted E authz OpEncrypt (ac_key_id authz) k m \<and> km_state m = Active \<and>
         key_type m \<in> {DataEncrypting, HybridIdentity} \<and>
         (\<forall>d. ac_domain_id authz = Some d \<longrightarrow> fst (resolve_domain_for_key E (ac_key_id authz) k) = Inr d))) \<and>
   (decrypt_authorized E authz b aad ctx k = (Inr pt', k') \<longrightarrow>
      (\<exists>m. admitted E authz OpDecrypt (eb_key_id b) k m \<and> km_state m \<in> {Active, Rotated} \<and>
         (\<forall>d. ac_domain_id authz = Some d \<longrightarrow> fst (resolve_domain_for_key E (eb_key_id b) k) = Inr d))) \<and>
   (sign_authorized E authz msg k = (Inr sp, k') \<longrightarrow>
      (\<exists>m. admitted E authz OpSign (ac_key_id authz) k m \<and> km_state m = Active \<and> key_type m = Signing \<and>
         operation_params authz = SignParams (sha256_digest (k_crypto E) msg)))"
proof (intro conjI impI)
  assume r: "encrypt_authorized E authz pt aad ctx k = (Inr blob, k')"
  then obtain e e' where v: "enforcer k = Some e" "validate (clock_from k) authz e = (e', Inr ())"
    and q: "require_encrypt_for authz (ac_key_id authz) = Inr ()"
    and d: "\<And>d. ac_domain_id authz = Some d \<Longrightarrow> fst (resolve_domain_for_key E (ac_key_id authz) k) = Inr d"
    and en: "encrypt E (ac_key_id authz) pt aad ctx (k\<lparr> enforcer := Some e', tick := tick k + 2 \<rparr>) = (Inr blob, k')"
    by (auto simp: encrypt_authorized_def bnd_Inr validate_authz_Inr enforce_domain_Inr)
  obtain m where "view E k (ac_key_id authz) = Some m" "km_state m = Active" "key_type m \<in> {DataEncrypting, HybridIdentity}"
    using encrypt_ok [OF en] by (metis view_enforcer)
  then show "\<exists>m. admitted E authz OpEncrypt (ac_key_id authz) k m \<and> km_state m = Active \<and>
      key_type m \<in> {DataEncrypting, HybridIdentity} \<and>
      (\<forall>d. ac_domain_id authz = Some d \<longrightarrow> fst (resolve_domain_for_key E (ac_key_id authz) k) = Inr d)"
    using v q d by (auto simp: admitted_def require_encrypt_for_def split: if_splits)
next
  assume r: "decrypt_authorized E authz b aad ctx k = (Inr pt', k')"
  then obtain e e' where v: "enforcer k = Some e" "validate (clock_from k) authz e = (e', Inr ())"
    and q: "require_decrypt_for authz (eb_key_id b) = Inr ()"
    and d: "\<And>d. ac_domain_id authz = Some d \<Longrightarrow> fst (resolve_domain_for_key E (eb_key_id b) k) = Inr d"
    and en: "decrypt E b aad ctx (k\<lparr> enforcer := Some e', tick := tick k + 2 \<rparr>) = (Inr pt', k')"
    by (auto simp: decrypt_authorized_def bnd_Inr validate_authz_Inr enforce_domain_Inr)
  obtain m kv ct dm key k1 where p: "decrypt_prepare E b (k\<lparr> enforcer := Some e', tick := tick k + 2 \<rparr>) = (Inr (m, kv, ct, dm, key), k1)"
    using en by (auto simp: decrypt_def bnd_Inr)
  have "view E k (eb_key_id b) = Some m" "can_decrypt (km_state m)"
    using decrypt_prepare_ok(2,3) [OF p] by simp_all
  then show "\<exists>m. admitted E authz OpDecrypt (eb_key_id b) k m \<and> km_state m \<in> {Active, Rotated} \<and>
      (\<forall>d. ac_domain_id authz = Some d \<longrightarrow> fst (resolve_domain_for_key E (eb_key_id b) k) = Inr d)"
    using v q d by (auto simp: admitted_def require_decrypt_for_def can_decrypt_iff split: if_splits)
next
  assume r: "sign_authorized E authz msg k = (Inr sp, k')"
  then obtain e e' where v: "enforcer k = Some e" "validate (clock_from k) authz e = (e', Inr ())"
    and q: "require_sign_for_payload (k_crypto E) (hex_encode E) authz (ac_key_id authz) msg = Inr ()"
    and en: "sign E (ac_key_id authz) msg (k\<lparr> enforcer := Some e', tick := tick k + 2 \<rparr>) = (Inr sp, k')"
    by (auto simp: sign_authorized_def bnd_Inr validate_authz_Inr)
  from sign_ok [OF en] show "\<exists>m. admitted E authz OpSign (ac_key_id authz) k m \<and> km_state m = Active \<and> key_type m = Signing \<and>
      operation_params authz = SignParams (sha256_digest (k_crypto E) msg)"
    using v q by (auto simp: admitted_def require_sign_for_payload_def require_sign_for_def Let_def split: if_splits OperationParams.splits)
qed

theorem authorized_operations_gated_witness:
  "\<exists>m. admitted toy_env demo_authz OpEncrypt ''e'' demo_keystore m \<and> km_state m = Active"
proof -
  obtain blob k' where e: "encrypt_authorized toy_env demo_authz [1, 2, 3] [7] [8] demo_keystore = (Inr blob, k')"
    using demo_authorized by blast
  have "ac_key_id demo_authz = ''e''" by (simp add: demo_authz_def AuthorizedContext_new_def)
  then show ?thesis
    using authorized_operations_gated [THEN conjunct1, THEN mp, OF e] by auto
qed

text \<open>C7: a context works once. After an authorized operation has succeeded with a context, every authorized operation with that
  context fails at the boundary, in every later state in which the bound enforcer has evolved by its own operations and has not
  drawn the same nonce again.\<close>

theorem authorized_context_single_use:
  assumes "fst (encrypt_authorized E authz pt aad ctx k) = Inr blob \<or> fst (decrypt_authorized E authz b aad ctx k) = Inr pt' \<or>
      fst (sign_authorized E authz msg k) = Inr sp"
    and "enforcer k = Some e" "enforcer k2 = Some (enf_run X ops (fst (validate (clock_from k) authz e)))"
    and "\<forall>op \<in> set ops. \<forall>t. op_draw op \<noteq> Some (ct_nonce (capability authz), t)"
  shows "let denied = ''capability validation failed at keystore boundary: StateEnforcer denied: capability token is invalid or forged'' in
    fst (encrypt_authorized E authz pt2 aad2 ctx2 k2) = Inl (Failed denied) \<and>
    fst (decrypt_authorized E authz b2 aad2 ctx2 k2) = Inl (Failed denied) \<and> fst (sign_authorized E authz msg2 k2) = Inl denied"
proof -
  have "\<exists>u k'. validate_authz authz k = (Inr u, k')"
    using assms(1)
    by (cases "validate_authz authz k"; cases "fst (validate_authz authz k)")
      (auto simp: encrypt_authorized_def decrypt_authorized_def sign_authorized_def bnd_def on_err_def)
  then have "validate (clock_from k) authz e = (fst (validate (clock_from k) authz e), Inr ())"
    using assms(2) by (auto simp: validate_authz_Inr)
  from validated_is_spent [OF this refl assms(4), of "clock_from k2" X]
  obtain e3 where "validate (clock_from k2) authz (enf_run X ops (fst (validate (clock_from k) authz e))) =
      (e3, Inl ''StateEnforcer denied: capability token is invalid or forged'')" by (metis prod.collapse)
  then show ?thesis
    using assms(3)
    by (simp add: encrypt_authorized_def decrypt_authorized_def sign_authorized_def bnd_def on_err_def validate_authz_def)
qed

theorem authorized_context_single_use_witness:
  "fst (encrypt_authorized toy_env demo_authz [4] [5] [6]
     (demo_keystore\<lparr> enforcer := Some (fst (validate (\<lambda>_. 0) demo_authz demo_enforcer)) \<rparr>)) =
   Inl (Failed ''capability validation failed at keystore boundary: StateEnforcer denied: capability token is invalid or forged'')"
proof -
  obtain blob k' where "encrypt_authorized toy_env demo_authz [1, 2, 3] [7] [8] demo_keystore = (Inr blob, k')"
    using demo_authorized by blast
  then have "fst (encrypt_authorized toy_env demo_authz [1, 2, 3] [7] [8] demo_keystore) = Inr blob" by simp
  moreover have "clock_from demo_keystore = (\<lambda>_. 0)" "enforcer demo_keystore = Some demo_enforcer"
    by (simp_all add: fun_eq_iff clock_from_def demo_keystore_def)
  ultimately show ?thesis
    using authorized_context_single_use [of toy_env demo_authz "[1, 2, 3]" "[7]" "[8]" demo_keystore blob
        _ _ _ _ demo_enforcer "demo_keystore\<lparr> enforcer := Some (fst (validate (\<lambda>_. 0) demo_authz demo_enforcer)) \<rparr>" toy_crypto "[]"
        "[4]" "[5]" "[6]"]
    by (simp add: Let_def)
qed

end
