(* ===== verification/Keystore_Run.thy ===== *)
theory Keystore_Run
  imports Keystore_Cascade Keystore_Crypt
begin

text \<open>
  Runs of the keystore. \<open>ks_step E i\<close> is one call of any public operation that changes the state, where key generation does not draw
  the identifier \<open>i\<close> again. Every step keeps the identity of the key \<open>i\<close> and moves it along the life-cycle table
  only, so the fate of a key over any run follows by rule induction.
\<close>

section \<open>What a step may do to a key\<close>

definition keeps :: "('s \<Rightarrow> bool) \<Rightarrow> ('s, 'r) kenv \<Rightarrow> KeyId \<Rightarrow> ('s, 'r) Keystore \<Rightarrow> ('s, 'r) Keystore \<Rightarrow> bool" where
  "keeps J E i k k' \<longleftrightarrow> (J (storage k) \<longrightarrow> J (storage k') \<and>
     (\<forall>m'. view E k' i = Some m' \<longrightarrow> (\<exists>m. view E k i = Some m \<and> life_ok\<^sup>*\<^sup>* m m')))"

lemma keeps_refl: "reflp (keeps J E i)"
  by (auto simp: reflp_def keeps_def)

lemma keeps_trans: "transp (keeps J E i)"
  unfolding transp_def keeps_def by (meson rtranclp_trans)

lemma upd_keeps: "upd J E life_ok k k' \<Longrightarrow> keeps J E i k k'"
  unfolding upd_def keeps_def by (metis rtranclp.rtrancl_refl r_into_rtranclp)

lemma same_keeps: "storage k' = storage k \<Longrightarrow> keeps J E i k k'"
  using upd_keeps [OF upd_same] .

lemma store_keeps: "evolves store_same m \<Longrightarrow> evolves (keeps J E i) m"
  by (erule evolves_mono) (simp add: store_same_def same_keeps)

named_theorems keep_intros \<open>operations that keep a key on its life cycle\<close>

lemmas keep_bnd [keep_intros] = evolves_bnd [OF keeps_trans]

definition touches :: "('s, 'r) kenv \<Rightarrow> KeyId \<Rightarrow> ('s, 'r) Keystore \<Rightarrow> ('s, 'r) Keystore \<Rightarrow> bool" where
  "touches E j k k' \<longleftrightarrow> storage k' = storage k \<or> (\<exists>m. km_id m = j \<and> storage k' = fst (sb_put (k_sb E) m (storage k)))"

lemma touches_same: "evolves store_same op \<Longrightarrow> evolves (touches E j) op"
  by (erule evolves_mono) (simp add: store_same_def touches_def)

lemma touches_bnd:
  assumes "evolves store_same a" "\<And>x. evolves (touches E j) (f x)"
  shows "evolves (touches E j) (bnd a f)"
  unfolding evolves_def
proof
  fix k
  obtain r k1 where a: "a k = (r, k1)" by (cases "a k")
  have s: "storage k1 = storage k" using evolvesD [OF assms(1) a] by (simp add: store_same_def)
  show "touches E j k (snd (bnd a f k))"
  proof (cases r)
    case (Inr x)
    then show ?thesis using assms(2) [of x, unfolded evolves_def, rule_format, of k1] a s by (simp add: bnd_def touches_def)
  qed (use a s in \<open>simp add: bnd_def touches_def\<close>)
qed

lemma touches_put:
  fixes E :: "('s, 'r) kenv"
  assumes "km_id m = j" "\<And>x. evolves store_same (f x)"
  shows "evolves (touches E j) (bnd (storage_put E m) f)"
  unfolding evolves_def
proof
  fix k :: "('s, 'r) Keystore"
  obtain s r where p: "sb_put (k_sb E) m (storage k) = (s, r)" by fastforce
  have "storage (snd (bnd (storage_put E m) f k)) = s"
    using p assms(2) by (cases r) (simp_all add: bnd_def storage_put_def evolves_def store_same_def)
  then show "touches E j k (snd (bnd (storage_put E m) f k))" using p assms(1) by (auto simp: touches_def)
qed

text \<open>The gates before a key is generated change nothing, so its identifier comes from the next draw.\<close>

lemma gates_pure:
  "snd (master_key_gate E k) = k" "snd (hierarchy_gate E kt parent k) = k" "snd (signing_parent_gate E p k) = k"
  by (auto simp: master_key_gate_def hierarchy_gate_def signing_parent_gate_def bnd_def gets_def throw_def ret_def on_err_def
      storage_get_def lift_def Let_def split: option.split sum.split prod.split)

lemma touches_pure: "snd (m k) = k \<Longrightarrow> (\<And>x. touches E j k (snd (f x k))) \<Longrightarrow> touches E j k (snd (bnd m f k))"
  by (cases "m k") (auto simp: bnd_def touches_def split: sum.split)

lemma draw_touches:
  assumes "\<And>r. evolves (touches E (hex_encode E (r_id r))) (f r)"
  shows "touches E (hex_encode E (r_id (draws k (drawn k)))) k (snd (bnd draw f k))"
proof -
  let ?r = "draws k (drawn k)"
  have "touches E (hex_encode E (r_id ?r)) (k\<lparr> drawn := drawn k + 1 \<rparr>) (snd (f ?r (k\<lparr> drawn := drawn k + 1 \<rparr>)))"
    using assms [of ?r] by (simp add: evolves_def)
  then show ?thesis by (simp add: bnd_def draw_def touches_def)
qed

lemma generate_touches: "touches E (hex_encode E (r_id (draws k (drawn k)))) k (snd (generate E nm kt pol parent k))"
proof (cases "kt = Signing")
  case False
  then show ?thesis
    unfolding generate_def Let_def
    by (auto intro!: touches_pure draw_touches touches_bnd touches_put store_intros simp: gates_pure split: prod.split)
qed (simp add: generate_def throw_def touches_def)

lemma generate_signing_touches:
  "touches E (hex_encode E (r_id (draws k (drawn k)))) k (snd (generate_signing_key E nm pol parent k))"
  unfolding generate_signing_key_def Let_def
  by (auto intro!: touches_pure draw_touches touches_bnd touches_put store_intros simp: gates_pure split: prod.split)

context storage_backend
begin

lemma touches_keeps:
  assumes E: "k_sb E = SB" and t: "touches E j k k'" and "j \<noteq> i"
  shows "keeps sinv E i k k'"
proof -
  consider "storage k' = storage k" | m where "km_id m = j" "storage k' = fst (sb_put SB m (storage k))"
    using t E by (auto simp: touches_def)
  then show ?thesis
  proof cases
    case 2
    show ?thesis
      unfolding keeps_def
    proof (intro impI conjI allI)
      assume inv: "sinv (storage k)"
      show "sinv (storage k')" using put_inv [OF inv] 2 by simp
      have "view E k' i = view E k i" using put_other [OF inv, of i m] 2 assms(3) E by (simp add: view_def)
      then show "\<exists>m. view E k i = Some m \<and> life_ok\<^sup>*\<^sup>* m m'" if "view E k' i = Some m'" for m'
        using that by (intro exI [of _ m']) simp
    qed
  qed (rule same_keeps)
qed

lemma only_suspends_keeps: "only_suspends (view E k) (view E k') \<Longrightarrow> sinv (storage k') \<Longrightarrow> keeps sinv E i k k'"
  unfolding keeps_def only_suspends_def
  by (metis option.inject r_into_rtranclp rtranclp.rtrancl_refl suspends_facts(4))

lemma cascade_keeps:
  assumes E: "k_sb E = SB" and run: "revoke_cascade fuel E j reason k = Some (r, k')"
  shows "keeps sinv E i k k'"
proof -
  obtain r1 k1 where rv: "revoke E j reason k = (r1, k1)" by fastforce
  have 1: "keeps sinv E i k k1" using upd_keeps evolvesD [OF revoke_upd [OF E] rv] by blast
  have "k' = k1 \<or> (\<exists>r2. cascade_loop fuel E (0, [], [j]) k1 = Some (r2, k'))"
    using run rv by (cases r1) (auto simp: revoke_cascade_def)
  then have "keeps sinv E i k1 k'" if "sinv (storage k1)"
  proof
    assume "\<exists>r2. cascade_loop fuel E (0, [], [j]) k1 = Some (r2, k')"
    then obtain r2 where "cascade_loop fuel E (0, [], [j]) k1 = Some (r2, k')" ..
    from cascade_only [OF E this that, of "view E k1"] show ?thesis
      by (auto intro!: only_suspends_keeps simp: only_suspends_def)
  qed (simp add: same_keeps)
  then show ?thesis
  proof (cases "sinv (storage k)")
    case True
    then have "sinv (storage k1)" using 1 by (simp add: keeps_def)
    then show ?thesis using transpD [OF keeps_trans 1] \<open>_ \<Longrightarrow> keeps sinv E i k1 k'\<close> by blast
  qed (simp add: keeps_def)
qed

lemma expire_each_keeps: "k_sb E = SB \<Longrightarrow> evolves (keeps sinv E i) (expire_each E ms rep)"
proof (induction ms arbitrary: rep)
  case (Cons m ms)
  have e: "keeps sinv E i k k'" if "expire E j k = (r, k')" for j k r k'
    using upd_keeps evolvesD [OF expire_upd [OF Cons.prems] that] by blast
  have "evolves (keeps sinv E i) (\<lambda>k. case expire E (km_id m) k of
      (Inr src, k') \<Rightarrow> expire_each E ms (f src) k' | (Inl e, k') \<Rightarrow> expire_each E ms (g e) k')" for f g
    unfolding evolves_def
    using e Cons.IH [OF Cons.prems, unfolded evolves_def] transpD [OF keeps_trans]
    by (auto split: prod.split sum.split) blast+
  then show ?case
    using Cons.IH [OF Cons.prems] store_keeps [OF check_expiration_store]
    by (auto intro!: keep_bnd split: ExpirationDecision.split)
qed (auto intro!: store_keeps store_intros)

lemma list_by_state_store: "evolves store_same (list_by_state E st)"
  by (simp add: evolves_def list_by_state_def store_same_def)

lemma expire_due_keeps: "k_sb E = SB \<Longrightarrow> evolves (keeps sinv E i) (expire_due_keys E)"
  unfolding expire_due_keys_def
  by (intro keep_bnd expire_each_keeps) (auto intro!: store_keeps store_intros list_by_state_store)

lemma upd_get_err:
  assumes E: "k_sb E = SB" and f: "\<And>m. km_id m = j \<Longrightarrow> safe sinv E Q m (f m)"
  shows "evolves (upd sinv E Q) (bnd (on_err g (ks_get E j)) f)"
  unfolding evolves_def
proof
  fix k
  show "upd sinv E Q k (snd (bnd (on_err g (ks_get E j)) f k))"
  proof (cases "sinv (storage k) \<and> view E k j \<noteq> None")
    case True
    then obtain m where m: "view E k j = Some m" by blast
    then have "bnd (on_err g (ks_get E j)) f k = f m k" by (simp add: bnd_def on_err_def ks_get_run view_Some)
    moreover have "km_id m = j" using m True get_id E by (auto simp: view_Some)
    ultimately show ?thesis using f [of m] m by (simp add: safe_def)
  next
    case False
    then show ?thesis
      by (auto simp: upd_def bnd_def on_err_def ks_get_run view_def split: sum.splits option.splits)
  qed
qed

lemma safe_put_err:
  assumes "k_sb E = SB" "km_id m' = km_id m" "Q m m'" "\<And>x. evolves store_same (f x)"
  shows "safe sinv E Q m (bnd (on_err g (storage_put E m')) f)"
proof -
  have "storage (snd (bnd (on_err g (storage_put E m')) f k)) = storage (snd (bnd (storage_put E m') ret k))" for k
    using assms(4) by (auto simp: bnd_def on_err_def storage_put_def evolves_def store_same_def ret_def split: prod.split sum.split)
  moreover have "safe sinv E Q m (bnd (storage_put E m') ret)" using assms(1-3)
    by (intro safe_put store_intros) simp_all
  ultimately show ?thesis unfolding safe_def upd_def by (simp add: view_def)
qed

lemma evaluate_now_store: "evolves store_same (evaluate_now p m)"
  unfolding evaluate_now_def by (intro store_intros)

lemma policy_gate_store: "evolves store_same (policy_gate E j m)"
  unfolding policy_gate_def Let_def
  by (auto intro!: store_intros evaluate_now_store split: option.split PolicyVerdict.split)

lemma resolve_domain_store: "evolves store_same (resolve_domain_for_key E j)"
  unfolding resolve_domain_for_key_def by (intro store_intros)

lemma encrypt_upd:
  assumes E: "k_sb E = SB"
  shows "evolves (upd sinv E life_ok) (encrypt E kid pt aad ctx)"
  unfolding encrypt_def Let_def
  by (rule upd_get_err [OF E])
    (auto intro!: safe_throw safe_bnd [OF policy_gate_store] safe_bnd [OF evolves_on_err [OF resolve_domain_store]]
      safe_steps(1-3) safe_put_err [OF E] store_intros
      simp: life_ok_def can_encrypt_iff)

end

section \<open>Runs\<close>

lemma decrypt_store: "evolves store_same (decrypt E blob aad ctx)"
  unfolding evolves_def
proof
  fix k
  show "store_same k (snd (decrypt E blob aad ctx k))"
    using decrypt_decrypts [of E blob aad ctx k, OF prod.collapse [symmetric]]
    by (auto simp: store_same_def calm_def released_def elim!: decrypts.cases)
qed

lemma validate_authz_store [store_intros]: "evolves store_same (validate_authz authz)"
  by (simp add: evolves_def validate_authz_def store_same_def split: option.split prod.split)

lemma enforce_domain_store [store_intros]: "evolves store_same (enforce_authorized_domain E dm kid)"
  unfolding enforce_authorized_domain_def resolve_domain_for_key_def by (auto intro!: store_intros split: option.split)

lemma sign_denied_store: "evolves store_same (sign_denied kid m v r)"
  unfolding sign_denied_def by (intro store_intros)

lemma sign_store: "evolves store_same (sign E kid msg)"
proof -
  note d = sign_denied_store
  have u: "evolves store_same (\<lambda>k. case unwrap_key_version E kid kv 0 k of
      (Inl e, k') \<Rightarrow> sign_denied kid m v (f e) k' | (Inr s, k') \<Rightarrow> (Inr s, k'))" for kv m v f
    unfolding evolves_def
  proof
    fix k
    obtain r k1 where w: "unwrap_key_version E kid kv 0 k = (r, k1)" by fastforce
    have "store_same k k1"
      using evolvesD [OF quiet_store_same [OF unwrap_quiet]] w unfolding unwrap_key_version_def by blast
    then show "store_same k (snd (case unwrap_key_version E kid kv 0 k of
        (Inl e, k') \<Rightarrow> sign_denied kid m v (f e) k' | (Inr s, k') \<Rightarrow> (Inr s, k')))"
      using w by (cases r) (simp_all add: store_same_def evolvesD [OF sign_denied_store, unfolded store_same_def, OF prod.collapse [symmetric]])
  qed
  show ?thesis unfolding sign_def by (auto intro!: store_intros d u)
qed

lemma verify_store: "evolves store_same (verify_signature E kid msg sp)"
  unfolding verify_signature_def by (auto intro!: store_intros)

lemma modify_store [store_intros]: "(\<And>k. storage (f k) = storage k) \<Longrightarrow> evolves store_same (modify f)"
  by (simp add: evolves_def modify_def store_same_def)

lemma threat_store [store_intros]:
  "evolves store_same (record_threat_event E ev)" "evolves store_same (record_threat_events E evs)"
  "evolves store_same reset_threat_state"
  by (simp_all add: evolves_def record_threat_event_def record_threat_events_def reset_threat_state_def on_threat_def
      store_same_def split: prod.split)

inductive ks_step :: "('s, 'r) kenv \<Rightarrow> KeyId \<Rightarrow> ('s, 'r) Keystore \<Rightarrow> ('s, 'r) Keystore \<Rightarrow> bool" for E i where
  generate: "hex_encode E (r_id (draws k (drawn k))) \<noteq> i \<Longrightarrow> ks_step E i k (snd (generate E nm kt pol parent k))"
| generate_signing: "hex_encode E (r_id (draws k (drawn k))) \<noteq> i \<Longrightarrow> ks_step E i k (snd (generate_signing_key E nm pol p k))"
| activate: "ks_step E i k (snd (activate E j k))"
| rotate: "ks_step E i k (snd (rotate E j k))"
| rewrap: "ks_step E i k (snd (rewrap E j parent k))"
| revoke: "ks_step E i k (snd (revoke E j reason k))"
| cascade: "revoke_cascade fuel E j reason k = Some (r, k') \<Longrightarrow> ks_step E i k k'"
| expire: "ks_step E i k (snd (expire E j k))"
| expire_due: "ks_step E i k (snd (expire_due_keys E k))"
| destroy: "ks_step E i k (snd (destroy E j k))"
| encrypt: "ks_step E i k (snd (encrypt E j pt aad ctx k))"
| encrypt_authorized: "ks_step E i k (snd (encrypt_authorized E authz pt aad ctx k))"
| decrypt: "ks_step E i k (snd (decrypt E blob aad ctx k))"
| decrypt_authorized: "ks_step E i k (snd (decrypt_authorized E authz blob aad ctx k))"
| sign: "ks_step E i k (snd (sign E j msg k))"
| sign_authorized: "ks_step E i k (snd (sign_authorized E authz msg k))"
| verify: "ks_step E i k (snd (verify_signature E j msg sp k))"
| register_policy: "ks_step E i k (snd (register_policy p k :: (unit + unit) \<times> _))"
| threat_event: "ks_step E i k (snd (record_threat_event E ev k :: (unit + unit) \<times> _))"
| threat_events: "ks_step E i k (snd (record_threat_events E evs k :: (unit + unit) \<times> _))"
| threat_reset: "ks_step E i k (snd (reset_threat_state k :: (unit + unit) \<times> _))"
| set_replay: "ks_step E i k (snd (set_replay_store rc k :: (unit + unit) \<times> _))"
| set_enforcer: "ks_step E i k (snd (set_enforcer e k :: (unit + unit) \<times> _))"

context storage_backend
begin

lemma evolves_keeps_upd: "evolves (upd sinv E life_ok) op \<Longrightarrow> keeps sinv E i k (snd (op k))"
  using upd_keeps unfolding evolves_def by blast

lemma evolves_keeps_store: "evolves store_same op \<Longrightarrow> keeps sinv E i k (snd (op k))"
  using store_keeps [of op sinv E i] unfolding evolves_def by blast

lemma encrypt_authorized_keeps: "k_sb E = SB \<Longrightarrow> evolves (keeps sinv E i) (encrypt_authorized E authz pt aad ctx)"
  unfolding encrypt_authorized_def
  by (intro keep_bnd evolves_mono [OF encrypt_upd upd_keeps] store_keeps store_intros)

lemma step_keeps:
  assumes E: "k_sb E = SB" and "ks_step E i k k'"
  shows "keeps sinv E i k k'"
  using assms(2)
proof (cases rule: ks_step.cases)
  case (generate nm kt pol parent)
  then show ?thesis using touches_keeps [OF E generate_touches] by simp
next
  case (generate_signing nm pol p)
  then show ?thesis using touches_keeps [OF E generate_signing_touches] by simp
next
  case (cascade fuel j reason r)
  then show ?thesis by (intro cascade_keeps [OF E])
next
  case expire_due
  then show ?thesis using expire_due_keeps [OF E] by (simp add: evolves_def)
next
  case (encrypt_authorized authz pt aad ctx)
  then show ?thesis using encrypt_authorized_keeps [OF E] by (simp add: evolves_def)
next
  case (decrypt_authorized authz blob aad ctx)
  then show ?thesis
    unfolding decrypt_authorized_def by (auto intro!: evolves_keeps_store store_intros decrypt_store)
next
  case (sign_authorized authz msg)
  then show ?thesis unfolding sign_authorized_def by (auto intro!: evolves_keeps_store store_intros sign_store)
next
  case (register_policy p)
  then show ?thesis unfolding register_policy_def by (auto intro!: evolves_keeps_store store_intros)
next
  case (set_replay rc)
  then show ?thesis unfolding set_replay_store_def by (auto intro!: evolves_keeps_store store_intros)
next
  case (set_enforcer e)
  then show ?thesis unfolding set_enforcer_def by (auto intro!: evolves_keeps_store store_intros)
qed (auto intro: evolves_keeps_upd [OF activate_upd [OF E]] evolves_keeps_upd [OF rotate_upd [OF E]]
    evolves_keeps_upd [OF rewrap_upd [OF E]] evolves_keeps_upd [OF revoke_upd [OF E]] evolves_keeps_upd [OF expire_upd [OF E]]
    evolves_keeps_upd [OF destroy_upd [OF E]] evolves_keeps_upd [OF encrypt_upd [OF E]] evolves_keeps_store decrypt_store
    sign_store verify_store threat_store)

lemma run_keeps:
  assumes "k_sb E = SB" "(ks_step E i)\<^sup>*\<^sup>* k k'"
  shows "keeps sinv E i k k'"
  using assms(2)
proof (induction rule: rtranclp_induct)
  case (step y z)
  then show ?case using step_keeps [OF assms(1)] transpD [OF keeps_trans] by blast
qed (simp add: reflpD [OF keeps_refl])

end

section \<open>The fate of a key\<close>

definition advances :: "KeyMetadata \<Rightarrow> KeyMetadata \<Rightarrow> bool" where
  "advances m m' \<longleftrightarrow> km_id m' = km_id m \<and> key_type m' = key_type m \<and> parent_id m' = parent_id m \<and>
     can_transition_to\<^sup>*\<^sup>* (km_state m) (km_state m') \<and>
     (km_state m' = Destroyed \<and> (km_state m = Destroyed \<longrightarrow> purged m) \<longrightarrow> purged m')"

lemma life_ok_advances: "life_ok\<^sup>*\<^sup>* m m' \<Longrightarrow> advances m m'"
proof (induction rule: rtranclp_induct)
  case (step x y)
  then have "can_transition_to\<^sup>*\<^sup>* (km_state x) (km_state y)" by (auto simp: life_ok_def)
  then have "can_transition_to\<^sup>*\<^sup>* (km_state m) (km_state y)" using step.IH rtranclp_trans unfolding advances_def by metis
  then show ?case using step.hyps(2) step.IH by (simp add: advances_def life_ok_def)
qed (simp add: advances_def)

lemma terminal_stays: "can_transition_to\<^sup>*\<^sup>* s t \<Longrightarrow> s \<in> {Revoked, Expired, Destroyed} \<Longrightarrow> t = s \<or> t = Destroyed"
  by (induction rule: rtranclp_induct) (auto simp: can_transition_iff)

text \<open>C4: a key never leaves its life cycle. Over any run of the keystore that does not draw its identifier again, a key keeps its
  identity, its type and its parent, its state moves along the transition table only, a revoked or expired key can at most become
  destroyed, and once destroyed no version of it holds key material.\<close>

theorem key_life_cycle:
  assumes "storage_backend (k_sb E) J" "J (storage k)" "(ks_step E i)\<^sup>*\<^sup>* k k'"
    and "view E k i = Some m" "view E k' i = Some m'"
  shows "advances m m' \<and> (km_state m \<in> {Revoked, Expired, Destroyed} \<longrightarrow> km_state m' \<in> {km_state m, Destroyed})"
proof -
  have "keeps J E i k k'" by (rule storage_backend.run_keeps [OF assms(1) refl assms(3)])
  then have "advances m m'" using assms(2,4,5) life_ok_advances by (auto simp: keeps_def)
  then show ?thesis using terminal_stays by (auto simp: advances_def)
qed

theorem key_life_cycle_witness:
  "\<exists>k' m'. (ks_step toy_env ''d'')\<^sup>*\<^sup>* (toy_keystore demo_store) k' \<and> view toy_env k' ''d'' = Some m' \<and>
     advances (toy_key ''d'' Domain Active None []) m' \<and> km_state m' = Destroyed"
proof -
  let ?k = "toy_keystore demo_store"
  define k1 where "k1 = snd (revoke toy_env ''d'' ''lost'' ?k)"
  define k2 where "k2 = snd (destroy toy_env ''d'' k1)"
  note d = revoke_def destroy_def ks_get_def bnd_def lift_def throw_def storage_get_def storage_put_def storage_overwrite_def now_def
    audit_key_def audit_event_run toy_keystore_def demo_store_def toy_key_def InMemory_def mem_get_def mem_put_def
    default_overwrite_key_file_def can_transition_iff Let_def
  have "(ks_step toy_env ''d'')\<^sup>*\<^sup>* ?k k2"
    unfolding k2_def k1_def by (meson ks_step.revoke ks_step.destroy r_into_rtranclp rtranclp.rtrancl_into_rtrancl)
  moreover obtain m' where m': "view toy_env k2 ''d'' = Some m'" "km_state m' = Destroyed"
    by (simp add: k2_def k1_def view_def d)
  moreover have "view toy_env ?k ''d'' = Some (toy_key ''d'' Domain Active None [])"
    by (simp add: view_def toy_keystore_def demo_store_def InMemory_def mem_get_def)
  ultimately show ?thesis
    using key_life_cycle [of toy_env mem_sinv ?k "''d''" k2 "toy_key ''d'' Domain Active None []" m']
    by (auto simp: in_memory.storage_backend_axioms toy_keystore_def demo_sinv)
qed

end
