(* ===== verification/Custody.thy ===== *)
theory Custody
  imports Keystore_Sign
begin

text \<open>
  \<^verbatim>\<open>citadel-keystore/src/root_key_provider.rs\<close>: the owner-only key file that supplies the root wrapping key, the quality checks on
  key bytes and the configuration gate of the local pilot; and the twin of the quality checks that the API server applies to
  \<^verbatim>\<open>CITADEL_MASTER_KEY\<close> (\<^verbatim>\<open>citadel-api/src/main.rs\<close>, \<open>validate_master_key\<close>).

  The record \<open>host\<close> is what the code sees of the machine: the nodes of the file system by path, the text of
  \<^verbatim>\<open>/proc/self/status\<close>, the file mode mask, and the texts of I/O errors. A path is a string.
\<close>

unbundle bit_operations_syntax

section \<open>The host\<close>

datatype node_kind = Regular | Directory | Symlink | Special

record node =
  n_kind :: node_kind
  n_mode :: u32
  n_uid :: u32
  n_nlink :: nat
  n_data :: bytes

record host =
  nodes :: "(string \<times> node) list"
  proc_status :: "string + string"
  umask :: u32
  fsuid :: u32
  io_error :: "string \<Rightarrow> string"
  write_error :: "string option"

text \<open>A sequence of file operations, each of which fails with an error text or succeeds, as the list of outcomes says; an empty list
  means that everything succeeds. The first failure ends the sequence, with the message its step makes of the error.\<close>

fun io_run :: "(string \<Rightarrow> string) list \<Rightarrow> string option list \<Rightarrow> (string + unit) \<times> string option list" where
  "io_run [] rs = (Inr (), rs)"
| "io_run (f # fs) rs = (case rs of Some e # rs' \<Rightarrow> (Inl (f e), rs') | _ \<Rightarrow> io_run fs (tl rs))"

text \<open>\<^verbatim>\<open>Path::parent\<close>: the path without its last component; a root or an empty path has none.\<close>

definition strip_slashes :: "string \<Rightarrow> string" where
  "strip_slashes p = rev (dropWhile (\<lambda>c. c = CHR ''/'') (rev p))"

definition path_parent :: "string \<Rightarrow> string option" where
  "path_parent p =
    (let q = strip_slashes p; d = rev (dropWhile (\<lambda>c. c \<noteq> CHR ''/'') (rev q)) in
     if q = [] then None
     else if d \<noteq> [] \<and> strip_slashes d = [] then Some ''/'' else Some (strip_slashes d))"

fun show_oct :: "nat \<Rightarrow> string" where
  "show_oct n = (if n < 8 then show_nat n else show_oct (n div 8) @ show_nat (n mod 8))"

declare show_oct.simps [simp del]

definition show_oct4 :: "nat \<Rightarrow> string" where
  "show_oct4 n = (let s = show_oct n in replicate (4 - length s) CHR ''0'' @ s)"

fun split_on :: "(char \<Rightarrow> bool) \<Rightarrow> string \<Rightarrow> string list" where
  "split_on P [] = [[]]"
| "split_on P (c # cs) =
     (if P c then [] # split_on P cs
      else case split_on P cs of [] \<Rightarrow> [[c]] | w # ws \<Rightarrow> (c # w) # ws)"

definition split_whitespace :: "string \<Rightarrow> string list" where
  "split_whitespace s = filter (\<lambda>w. w \<noteq> []) (split_on is_space s)"

definition digit_of :: "char \<Rightarrow> nat option" where
  "digit_of c = (let n = (of_char c :: nat) in if 48 \<le> n \<and> n \<le> 57 then Some (n - 48) else None)"

fun digits_value :: "string \<Rightarrow> nat \<Rightarrow> nat option" where
  "digits_value [] acc = Some acc"
| "digits_value (c # cs) acc = (case digit_of c of None \<Rightarrow> None | Some d \<Rightarrow> digits_value cs (10 * acc + d))"

text \<open>\<^verbatim>\<open>str::parse::<u32>\<close> with the messages of \<^verbatim>\<open>ParseIntError\<close>.\<close>

definition parse_u32 :: "string \<Rightarrow> string + u32" where
  "parse_u32 s =
    (let ds = (case s of CHR ''+'' # cs \<Rightarrow> if cs = [] then s else cs | _ \<Rightarrow> s) in
     if s = [] then Inl ''cannot parse integer from empty string''
     else case digits_value ds 0 of
       None \<Rightarrow> Inl ''invalid digit found in string''
     | Some n \<Rightarrow> if n < 2 ^ 32 then Inr (word_of_nat n) else Inl ''number too large to fit in target type'')"

section \<open>Checks\<close>

definition effective_uid :: "host \<Rightarrow> string + u32" where
  "effective_uid h =
    and_then (map_err (\<lambda>e. ''read /proc/self/status: '' @ e) (proc_status h)) (\<lambda>status.
    and_then (ok_or (find (\<lambda>line. starts_with line ''Uid:'') (split_on (\<lambda>c. c = CHR 0x0A) status))
      ''effective UID is unavailable'') (\<lambda>line.
    let ws = split_whitespace line in
    and_then (if 2 < length ws then Inr (ws ! 2) else Inl ''effective UID is malformed'') (\<lambda>w.
    map_err (\<lambda>e. ''effective UID is malformed: '' @ e) (parse_u32 w))))"

definition validate_parent :: "host \<Rightarrow> string \<Rightarrow> string + unit" where
  "validate_parent h path =
    and_then (ok_or (path_parent path) ''root-key path has no parent directory'') (\<lambda>parent.
    and_then (ok_or (map_of (nodes h) parent) (''inspect '' @ parent @ '': '' @ io_error h parent)) (\<lambda>md.
    if n_kind md \<noteq> Directory then Inl (parent @ '' must be a real directory, not a symlink'')
    else
      let mode = n_mode md AND 4095;
          sticky_world_writable = (mode AND 512 \<noteq> 0 \<and> mode AND 2 \<noteq> 0) in
      if mode AND 18 \<noteq> 0 \<and> \<not> sticky_world_writable then
        Inl (parent @ '' is group/world writable (mode '' @ show_oct (unat mode) @ '')'')
      else
        and_then (effective_uid h) (\<lambda>euid.
        if n_uid md \<noteq> euid \<and> n_uid md \<noteq> 0 then
          Inl (parent @ '' owner '' @ show_nat (unat (n_uid md)) @ '' is neither effective uid '' @
            show_nat (unat euid) @ '' nor root'')
        else Inr ())))"

definition validate_open_file :: "host \<Rightarrow> node \<Rightarrow> string \<Rightarrow> string + unit" where
  "validate_open_file h md path =
    (if n_kind md \<noteq> Regular then Inl (path @ '' is not a regular file'')
     else
       let mode = n_mode md AND 511 in
       if mode AND 63 \<noteq> 0 \<or> mode AND 256 = 0 then
         Inl (path @ '' must be owner-readable with no group/world permissions, found '' @ show_oct4 (unat mode))
       else
         and_then (effective_uid h) (\<lambda>euid.
         if n_uid md \<noteq> euid then
           Inl (path @ '' must be owned by effective uid '' @ show_nat (unat euid) @ '', found '' @ show_nat (unat (n_uid md)))
         else if length (n_data md) \<noteq> 32 then
           Inl (path @ '' must contain exactly 32 raw bytes, found '' @ show_nat (length (n_data md)))
         else if n_nlink md \<noteq> 1 then
           Inl (path @ '' must have exactly one hard link, found '' @ show_nat (n_nlink md))
         else Inr ()))"

definition repeats_with :: "bytes \<Rightarrow> nat \<Rightarrow> bool" where
  "repeats_with key period = list_all (\<lambda>i. key ! i = key ! (i mod period)) [0..<length key]"

definition validate_key_material :: "bytes \<Rightarrow> string + unit" where
  "validate_key_material key =
    (if length (remdups key) < 16 then Inl ''root-key material has insufficient byte diversity''
     else if list_all (\<lambda>(a, b). b - a = key ! 1 - key ! 0) (zip key (tl key)) then
       Inl ''root-key material is an arithmetic byte sequence''
     else if list_ex (repeats_with key) [1..<17] then Inl ''root-key material repeats with a short period''
     else Inr ())"

section \<open>The provider\<close>

text \<open>\<^verbatim>\<open>O_NOFOLLOW\<close> makes the open of a symlink fail. The data is read from the opened node, so the second check of its length
  cannot fail here.\<close>

definition open_nofollow :: "host \<Rightarrow> string \<Rightarrow> string + node" where
  "open_nofollow h path =
    (case map_of (nodes h) path of
       Some md \<Rightarrow> if n_kind md = Symlink then Inl (''open '' @ path @ '': '' @ io_error h path) else Inr md
     | None \<Rightarrow> Inl (''open '' @ path @ '': '' @ io_error h path))"

definition load_root_key :: "host \<Rightarrow> string \<Rightarrow> string + bytes" where
  "load_root_key h path =
    and_then (validate_parent h path) (\<lambda>_.
    and_then (open_nofollow h path) (\<lambda>file.
    and_then (validate_open_file h file path) (\<lambda>_.
    let key = take 32 (n_data file) in
    if length key < 32 then Inl (''read '' @ path @ '': failed to fill whole buffer'')
    else if drop 32 (n_data file) \<noteq> [] then Inl (path @ '' must contain exactly 32 raw bytes'')
    else and_then (validate_key_material key) (\<lambda>_. Inr key))))"

text \<open>The provider is its path. \<open>Provider_create\<close> draws the key; \<^verbatim>\<open>create_new\<close> never replaces an existing node.\<close>

definition Provider_open :: "host \<Rightarrow> string \<Rightarrow> string + string" where
  "Provider_open h path = and_then (load_root_key h path) (\<lambda>_. Inr path)"

definition Provider_create :: "host \<Rightarrow> bytes \<Rightarrow> string \<Rightarrow> (string + string) \<times> host" where
  "Provider_create h key path =
    (case validate_parent h path of
       Inl e \<Rightarrow> (Inl e, h)
     | Inr _ \<Rightarrow>
         (case map_of (nodes h) path of
            Some _ \<Rightarrow> (Inl (''create '' @ path @ '': '' @ io_error h path), h)
          | None \<Rightarrow>
              let file = \<lparr> n_kind = Regular, n_mode = 384 AND NOT (umask h), n_uid = fsuid h, n_nlink = 1, n_data = [] \<rparr> in
              (case write_error h of
                 Some e \<Rightarrow> (Inl (''write '' @ path @ '': '' @ e), h\<lparr> nodes := (path, file) # nodes h \<rparr>)
               | None \<Rightarrow>
                   let h' = h\<lparr> nodes := (path, file\<lparr> n_data := key \<rparr>) # nodes h \<rparr>
                   in (Provider_open h' path, h'))))"

section \<open>The local pilot\<close>

record LocalPilotConfig =
  root_key_file :: string
  lp_replay_store :: string

definition forbidden_vars :: "string list" where
  "forbidden_vars = [''CITADEL_MASTER_KEY'', ''CITADEL_ALLOW_PLAINTEXT_KEYS'', ''CITADEL_ALLOW_FLAT_DEKS'', ''CITADEL_API_KEY'']"

definition validate_pairs :: "(string \<times> string) list \<Rightarrow> string + LocalPilotConfig" where
  "validate_pairs pairs =
    (let values = map_of (rev pairs) in
     if values ''CITADEL_PROFILE'' \<noteq> Some ''local-pilot'' then Inl ''local pilot requires CITADEL_PROFILE=local-pilot''
     else case find (\<lambda>v. values v \<noteq> None) forbidden_vars of
       Some forbidden \<Rightarrow> Inl (forbidden @ '' is forbidden in local-pilot mode'')
     | None \<Rightarrow>
         if values ''CITADEL_ENV'' = Some ''development'' then
           Inl ''CITADEL_ENV=development is forbidden in local-pilot mode''
         else case values ''CITADEL_ROOT_KEY_FILE'' of
           None \<Rightarrow> Inl ''CITADEL_ROOT_KEY_FILE is required''
         | Some f \<Rightarrow>
             if f = [] then Inl ''CITADEL_ROOT_KEY_FILE is required''
             else case values ''CITADEL_REPLAY_STORE'' of
               None \<Rightarrow> Inl ''local pilot requires CITADEL_REPLAY_STORE=file or redis''
             | Some r \<Rightarrow>
                 if r \<in> {''file'', ''redis''} then Inr \<lparr> root_key_file = f, lp_replay_store = r \<rparr>
                 else Inl ''local pilot requires CITADEL_REPLAY_STORE=file or redis'')"

section \<open>The check of the API server\<close>

definition is_arithmetic_progression :: "bytes \<Rightarrow> bool" where
  "is_arithmetic_progression bytes =
    (if length bytes < 3 then False
     else let stride = bytes ! 1 - bytes ! 0 in list_all (\<lambda>(a, b). b - a = stride) (zip bytes (tl bytes)))"

definition shortest_repeating_period :: "bytes \<Rightarrow> nat option" where
  "shortest_repeating_period bytes = find (\<lambda>p. p < length bytes \<and> repeats_with bytes p) [1..<17]"

text \<open>Every failed check is a panic of the server.\<close>

definition validate_master_key :: "(string \<Rightarrow> string + bytes) \<Rightarrow> string \<Rightarrow> panic + bytes" where
  "validate_master_key unhex hex_str =
    (case unhex (str_trim hex_str) of
       Inl _ \<Rightarrow> Inl Panic
     | Inr bytes \<Rightarrow>
         if length bytes \<noteq> 32 then Inl Panic
         else if length (remdups bytes) < 16 then Inl Panic
         else if list_all (\<lambda>b. b = 0) bytes \<or> list_all (\<lambda>b. b = bytes ! 0) bytes then Inl Panic
         else if is_arithmetic_progression bytes then Inl Panic
         else if shortest_repeating_period bytes \<noteq> None then Inl Panic
         else Inr bytes)"

section \<open>Lemmas\<close>

text \<open>What the three checks on key bytes exclude: too few distinct bytes, a constant stride, a period up to 16.\<close>

definition strided :: "bytes \<Rightarrow> bool" where
  "strided key \<longleftrightarrow> (\<exists>d. \<forall>i. Suc i < length key \<longrightarrow> key ! Suc i = key ! i + d)"

definition periodic :: "nat \<Rightarrow> bytes \<Rightarrow> bool" where
  "periodic p key \<longleftrightarrow> (\<forall>i < length key. key ! i = key ! (i mod p))"

definition sound_key :: "bytes \<Rightarrow> bool" where
  "sound_key key \<longleftrightarrow> 16 \<le> card (set key) \<and> \<not> strided key \<and> (\<forall>p \<in> {1..16}. \<not> periodic p key)"

lemma repeats_with_iff: "repeats_with key p \<longleftrightarrow> periodic p key"
  by (auto simp: repeats_with_def periodic_def list_all_iff)

lemma strides_iff:
  "list_all (\<lambda>(a, b). b - a = s) (zip key (tl key)) \<longleftrightarrow> (\<forall>i. Suc i < length key \<longrightarrow> key ! Suc i - key ! i = s)"
  by (simp add: list_all_length nth_tl less_diff_conv)

lemma strided_iff: "strided key \<longleftrightarrow> (\<exists>d. \<forall>i. Suc i < length key \<longrightarrow> key ! Suc i - key ! i = d)"
  by (simp add: strided_def diff_eq_eq add.commute)

lemma stride_iff:
  assumes "1 < length key"
  shows "list_all (\<lambda>(a, b). b - a = key ! 1 - key ! 0) (zip key (tl key)) \<longleftrightarrow> strided key"
  unfolding strides_iff strided_iff using assms One_nat_def by metis

lemma short_period_iff: "list_ex (repeats_with key) [1..<17] \<longleftrightarrow> (\<exists>p \<in> {1..16}. periodic p key)"
proof -
  have "set [1..<17] = {1..16 :: nat}" by auto
  then show ?thesis by (simp only: list_ex_iff) (simp add: repeats_with_iff)
qed

lemma validate_key_material_iff: "length key = 32 \<Longrightarrow> validate_key_material key = Inr () \<longleftrightarrow> sound_key key"
  unfolding validate_key_material_def sound_key_def short_period_iff length_remdups_card_conv
  using stride_iff [of key] by (auto simp del: atLeastAtMost_iff)

lemma mask_bits: "(w AND 511) AND 63 = w AND (63 :: u32)" "(w AND 511) AND 256 = w AND (256 :: u32)"
  by (simp_all add: and.assoc)

definition trusted_parent :: "host \<Rightarrow> string \<Rightarrow> bool" where
  "trusted_parent h path \<longleftrightarrow> (\<exists>parent md euid. path_parent path = Some parent \<and> map_of (nodes h) parent = Some md \<and>
     n_kind md = Directory \<and> effective_uid h = Inr euid \<and> n_uid md \<in> {euid, 0} \<and>
     (n_mode md AND 18 = 0 \<or> n_mode md AND 512 \<noteq> 0 \<and> n_mode md AND 2 \<noteq> 0))"

lemma mask_parent:
  "(w AND 4095) AND 18 = w AND (18 :: u32)" "(w AND 4095) AND 512 = w AND (512 :: u32)" "(w AND 4095) AND 2 = w AND (2 :: u32)"
  by (simp_all add: and.assoc)

lemma validate_parent_iff: "validate_parent h path = Inr () \<longleftrightarrow> trusted_parent h path"
  by (auto simp: validate_parent_def trusted_parent_def Let_def mask_parent)

definition custody_file :: "host \<Rightarrow> node \<Rightarrow> bool" where
  "custody_file h f \<longleftrightarrow> n_kind f = Regular \<and> n_mode f AND 63 = 0 \<and> n_mode f AND 256 \<noteq> 0 \<and>
     effective_uid h = Inr (n_uid f) \<and> n_nlink f = 1 \<and> length (n_data f) = 32"

lemma validate_open_file_iff: "validate_open_file h f path = Inr () \<longleftrightarrow> custody_file h f"
  by (auto simp: validate_open_file_def custody_file_def Let_def mask_bits)

lemma load_root_key_iff:
  "load_root_key h path = Inr key \<longleftrightarrow> trusted_parent h path \<and>
     (\<exists>f. map_of (nodes h) path = Some f \<and> custody_file h f \<and> n_data f = key \<and> sound_key key)"
proof -
  have k: "validate_key_material (take 32 (n_data f)) = Inr u \<longleftrightarrow> sound_key (n_data f)" if "custody_file h f" for f and u :: unit
    using that validate_key_material_iff [of "n_data f"] by (auto simp: custody_file_def)
  show ?thesis
    using k by (auto simp: load_root_key_def validate_parent_iff validate_open_file_iff open_nofollow_def Let_def
        split: option.splits if_splits) (auto simp: custody_file_def)
qed

section \<open>Properties\<close>

text \<open>C21: the key file is accepted exactly when it can be trusted. Loading returns a key if and only if the parent is a real
  directory of the effective user or of root that others cannot write (or a sticky one), and the path is a regular file,
  not a symlink, of the effective user, readable by it alone, with one link and exactly 32 bytes; the key is those bytes, and they
  are no arithmetic sequence, have no period up to 16 and at least 16 distinct values.\<close>

theorem root_key_loaded_iff:
  "load_root_key h path = Inr key \<longleftrightarrow> trusted_parent h path \<and>
     (\<exists>f. map_of (nodes h) path = Some f \<and> custody_file h f \<and> n_data f = key \<and> sound_key key)"
  by (rule load_root_key_iff)

text \<open>The server and the key store apply one standard. The check that the API server makes of \<^verbatim>\<open>CITADEL_MASTER_KEY\<close> accepts
  exactly the 32-byte keys that the check of the key-file provider accepts; its test for equal bytes is implied by the others.\<close>

lemma key_checks_agree:
  "validate_master_key unhex s = Inr key \<longleftrightarrow>
     unhex (str_trim s) = Inr key \<and> length key = 32 \<and> validate_key_material key = Inr ()"
proof -
  have const: "length (remdups b) < 16" if "list_all (\<lambda>x. x = c) b" for b :: bytes and c
  proof -
    have "set b \<subseteq> {c}" using that by (auto simp: list_all_iff)
    then have "card (set b) \<le> 1" using card_mono [of "{c}" "set b"] by simp
    then show ?thesis by (simp add: length_remdups_card_conv)
  qed
  have per: "shortest_repeating_period b = None \<longleftrightarrow> \<not> list_ex (repeats_with b) [1..<17]" if "length b = 32" for b
    using that by (auto simp: shortest_repeating_period_def find_None_iff list_ex_iff)
  show ?thesis
    using const [of _ key]
    by (auto simp: validate_master_key_def validate_key_material_def is_arithmetic_progression_def per Let_def
        split: sum.splits if_splits)
qed

text \<open>Creating a provider writes a file that loads, and touches nothing else.\<close>

lemma provider_create_loads:
  "Provider_create h key path = (Inr p, h') \<Longrightarrow>
     p = path \<and> load_root_key h' path = Inr key \<and> map_of (nodes h) path = None \<and>
     (\<forall>q. q \<noteq> path \<longrightarrow> map_of (nodes h') q = map_of (nodes h) q)"
  by (auto simp: Provider_create_def Provider_open_def load_root_key_iff Let_def split: sum.splits option.splits)

lemma validate_pairs_Inr:
  assumes "validate_pairs pairs = Inr cfg"
  shows "map_of (rev pairs) ''CITADEL_MASTER_KEY'' = None" "map_of (rev pairs) ''CITADEL_ENV'' \<noteq> Some ''development''"
    "map_of (rev pairs) ''CITADEL_ALLOW_PLAINTEXT_KEYS'' = None" "map_of (rev pairs) ''CITADEL_ROOT_KEY_FILE'' = Some (root_key_file cfg)"
    "lp_replay_store cfg \<in> {''file'', ''redis''}"
proof -
  have "find (\<lambda>v. map_of (rev pairs) v \<noteq> None) forbidden_vars = None"
    using assms by (auto simp: validate_pairs_def Let_def split: if_splits option.splits)
  then have "\<forall>v \<in> set forbidden_vars. map_of (rev pairs) v = None" by (auto simp: find_None_iff)
  then show "map_of (rev pairs) ''CITADEL_MASTER_KEY'' = None" "map_of (rev pairs) ''CITADEL_ALLOW_PLAINTEXT_KEYS'' = None"
    by (simp_all add: forbidden_vars_def)
  show "map_of (rev pairs) ''CITADEL_ENV'' \<noteq> Some ''development''"
    "map_of (rev pairs) ''CITADEL_ROOT_KEY_FILE'' = Some (root_key_file cfg)" "lp_replay_store cfg \<in> {''file'', ''redis''}"
    using assms by (auto simp: validate_pairs_def Let_def split: if_splits option.splits)
qed

lemma wrap_master_encrypted:
  "wrap_with_master_key E kid ver sk k = (Inr m, k') \<Longrightarrow> master_key k \<noteq> None \<Longrightarrow> is_encrypted m"
  by (auto simp: wrap_with_master_key_def bnd_Inr Let_def split: option.splits)

lemma wrap_citadel_wrapped: "wrap_with_citadel_key E kid ver pid pv pk sk k = (Inr m, k') \<Longrightarrow> is_citadel_wrapped m"
  by (auto simp: wrap_with_citadel_key_def bnd_Inr)

lemma wrap_secret_wrapped:
  assumes "wrap_secret_key_for E kid ver parent sk k = (Inr (m, w, v), k')" "master_key k \<noteq> None"
  shows "is_wrapped m"
  using assms
  by (auto simp: wrap_secret_key_for_def bnd_Inr Let_def is_wrapped_def split: option.splits if_splits
      dest: wrap_master_encrypted wrap_citadel_wrapped)

text \<open>A local pilot never stores a secret key in the clear. When the configuration gate accepts the environment and the keystore
  gets its master key from the provider, no development override is in force, the master key does not come from the
  environment, and in every state that still has the master key, wrapping yields encrypted material only.\<close>

lemma local_pilot_hardened:
  assumes "validate_pairs pairs = Inr cfg" "env_var E = map_of (rev pairs)"
    and "with_root_key_provider E st sink provider (load_root_key h (root_key_file cfg)) rc clk rand = Inr k"
  shows "\<not> in_dev_mode E var \<and> load_master_key_from_env E = None \<and> lp_replay_store cfg \<in> {''file'', ''redis''} \<and>
    (\<exists>key. master_key k = Some key \<and> sound_key key) \<and>
    (master_key k1 = master_key k \<and> wrap_secret_key_for E kid ver parent sk k1 = (Inr (m, w, v), k2) \<longrightarrow> is_wrapped m)"
proof -
  obtain key where key: "load_root_key h (root_key_file cfg) = Inr key" "master_key k = Some key"
    using assms(3)
    by (auto simp: with_root_key_provider_def with_master_key_def base_keystore_def audit_plaintext_mode_if_active_def
        audit_event_run ret_def split: sum.splits if_splits)
  then have "sound_key key" by (auto simp: load_root_key_iff)
  then show ?thesis
    using key(2) validate_pairs_Inr [OF assms(1)] assms(2) wrap_secret_wrapped [of E kid ver parent sk k1 m w v k2]
    by (auto simp: in_dev_mode_def load_master_key_from_env_def)
qed

definition demo_pairs :: "(string \<times> string) list" where
  "demo_pairs = [(''CITADEL_PROFILE'', ''local-pilot''), (''CITADEL_ROOT_KEY_FILE'', ''/k/root''), (''CITADEL_REPLAY_STORE'', ''file'')]"

definition demo_root_key :: bytes where
  "demo_root_key = map (\<lambda>i. word_of_nat (i * i)) [0..<32]"

definition demo_host :: host where
  "demo_host = \<lparr> nodes = [(''/k'', \<lparr> n_kind = Directory, n_mode = 448, n_uid = 7, n_nlink = 2, n_data = [] \<rparr>),
       (''/k/root'', \<lparr> n_kind = Regular, n_mode = 384, n_uid = 7, n_nlink = 1, n_data = demo_root_key \<rparr>)],
     proc_status = Inr ''Uid: 7 7 7 7'', umask = 0, fsuid = 7, io_error = (\<lambda>_. ''error''), write_error = None \<rparr>"

lemma demo_root_key_bytes:
  "demo_root_key = [0, 1, 4, 9, 16, 25, 36, 49, 64, 81, 100, 121, 144, 169, 196, 225, 0, 33, 68, 105, 144, 185, 228, 17, 64, 113, 164,
     217, 16, 73, 132, 193]"
  by (simp add: demo_root_key_def upt_rec)

lemma demo_root_key_valid: "validate_key_material demo_root_key = Inr ()"
proof -
  have "length (remdups demo_root_key) = 28"
    "\<not> list_all (\<lambda>(a, b). b - a = demo_root_key ! 1 - demo_root_key ! 0) (zip demo_root_key (tl demo_root_key))"
    unfolding demo_root_key_bytes by simp_all
  moreover have "list_ex (repeats_with demo_root_key) [1..<17] = False"
    unfolding demo_root_key_bytes repeats_with_def by (simp add: upt_rec)
  ultimately show ?thesis unfolding validate_key_material_def by simp
qed

lemma demo_root_key_loads: "load_root_key demo_host ''/k/root'' = Inr demo_root_key"
proof -
  have "effective_uid demo_host = Inr 7"
    by (simp add: effective_uid_def demo_host_def starts_with_def split_whitespace_def is_space_def parse_u32_def digit_of_def)
  moreover have "path_parent ''/k/root'' = Some ''/k''" by (simp add: path_parent_def strip_slashes_def)
  moreover have "sound_key demo_root_key" "length demo_root_key = 32"
    using demo_root_key_valid validate_key_material_iff [of demo_root_key] by (simp_all add: demo_root_key_def)
  ultimately show ?thesis by (simp add: load_root_key_iff trusted_parent_def custody_file_def demo_host_def)
qed

lemma local_pilot_hardened_witness:
  "load_master_key_from_env (toy_env\<lparr> env_var := map_of (rev demo_pairs) \<rparr>) = None \<and>
   \<not> in_dev_mode (toy_env\<lparr> env_var := map_of (rev demo_pairs) \<rparr>) ''CITADEL_ALLOW_PLAINTEXT_KEYS''"
proof -
  let ?E = "toy_env\<lparr> env_var := map_of (rev demo_pairs) \<rparr>"
  have v: "validate_pairs demo_pairs = Inr \<lparr> root_key_file = ''/k/root'', lp_replay_store = ''file'' \<rparr>" by code_simp
  obtain k where "with_root_key_provider ?E [] [] ''linux-file-v1'' (load_root_key demo_host ''/k/root'')
      MemoryReplayStore_with_defaults (\<lambda>n. n) toy_rnd = Inr k"
    by (simp add: demo_root_key_loads with_root_key_provider_def)
  then show ?thesis using local_pilot_hardened [OF v, of ?E] by auto
qed

end
