(* ===== verification/Rate_Limit.thy ===== *)
theory Rate_Limit
  imports F64 Policy
begin

text \<open>
  \<^verbatim>\<open>citadel-api/src/main.rs\<close>: the three-tier token-bucket rate limiter. Instants are clock readings in nanoseconds; the arithmetic
  is the double arithmetic of \<open>F64\<close>. An address is its text.
\<close>

section \<open>The limiter\<close>

record TokenBucket =
  tokens :: rat
  last_refill :: nat

record RateLimiter =
  ip_buckets :: "(string \<times> TokenBucket) list"
  key_buckets :: "(string \<times> TokenBucket) list"
  global_bucket :: TokenBucket
  rps_per_ip :: rat
  rps_per_key :: rat
  rps_global :: rat
  burst :: u32

text \<open>The products \<^verbatim>\<open>burst * 5\<close> and \<^verbatim>\<open>burst * 10\<close> are computed in 32 bits.\<close>

definition f64_of_u32 :: "u32 \<Rightarrow> rat" where "f64_of_u32 w = f64_of_nat (unat w)"

definition RateLimiter_new :: "nat \<Rightarrow> rat \<Rightarrow> u32 \<Rightarrow> RateLimiter" where
  "RateLimiter_new now rps b =
    \<lparr> ip_buckets = [], key_buckets = [], global_bucket = \<lparr> tokens = f64_of_u32 (b * 10), last_refill = now \<rparr>,
      rps_per_ip = rps, rps_per_key = f64_mul rps 5, rps_global = f64_mul rps 50, burst = b \<rparr>"

definition as_secs_f64 :: "nat \<Rightarrow> rat" where
  "as_secs_f64 d = f64_add (f64_of_nat (d div 1000000000)) (f64_div (f64_of_nat (d mod 1000000000)) 1000000000)"

text \<open>Refill, then take a token if there is one. \<^verbatim>\<open>Instant::duration_since\<close> saturates at zero.\<close>

definition take_token :: "nat \<Rightarrow> rat \<Rightarrow> rat \<Rightarrow> TokenBucket \<Rightarrow> TokenBucket \<times> bool" where
  "take_token now rate cap bucket =
    (let elapsed = as_secs_f64 (now - last_refill bucket);
         b = \<lparr> tokens = min (f64_add (tokens bucket) (f64_mul elapsed rate)) cap, last_refill = now \<rparr> in
     if tokens b < 1 then (b, False) else (b\<lparr> tokens := f64_sub (tokens b) 1 \<rparr>, True))"

definition entry_or :: "string \<Rightarrow> TokenBucket \<Rightarrow> (string \<times> TokenBucket) list \<Rightarrow> TokenBucket" where
  "entry_or i b buckets = (case map_of buckets i of Some b' \<Rightarrow> b' | None \<Rightarrow> b)"

definition rl_check :: "nat \<Rightarrow> string \<Rightarrow> string option \<Rightarrow> RateLimiter \<Rightarrow> RateLimiter \<times> bool" where
  "rl_check now ip key_id r =
    (let cap1 = f64_of_u32 (burst r);
         (b1, ok1) = take_token now (rps_per_ip r) cap1 (entry_or ip \<lparr> tokens = cap1, last_refill = now \<rparr> (ip_buckets r));
         r1 = r\<lparr> ip_buckets := al_put ip b1 (ip_buckets r) \<rparr> in
     if \<not> ok1 then (r1, False)
     else
       let (r2, ok2) = (case key_id of
             None \<Rightarrow> (r1, True)
           | Some key \<Rightarrow>
               let cap2 = f64_of_u32 (burst r * 5);
                   (b2, ok2) = take_token now (rps_per_key r) cap2 (entry_or key \<lparr> tokens = cap2, last_refill = now \<rparr> (key_buckets r1))
               in (r1\<lparr> key_buckets := al_put key b2 (key_buckets r1) \<rparr>, ok2)) in
       if \<not> ok2 then (r2, False)
       else
         let (b3, ok3) = take_token now (rps_global r) (f64_of_u32 (burst r * 10)) (global_bucket r2)
         in (r2\<lparr> global_bucket := b3 \<rparr>, ok3))"

definition cleanup_rate_limiter :: "nat \<Rightarrow> RateLimiter \<Rightarrow> RateLimiter" where
  "cleanup_rate_limiter now r =
    (let fresh = al_retain (\<lambda>b. (now - last_refill b) div 1000000000 < 300) in
     r\<lparr> ip_buckets := fresh (ip_buckets r), key_buckets := fresh (key_buckets r) \<rparr>)"

section \<open>Rounding\<close>

text \<open>Rounding adds at most one part in \<open>2\<^sup>5\<^sup>2\<close>.\<close>

definition ulp :: rat where "ulp = 1 + 1 / 2 ^ 52"

lemma ulp_ge_1 [simp]: "1 \<le> ulp" "0 < ulp" "0 \<le> ulp"
  by (simp_all add: ulp_def)

lemma round_even_near: "of_int (round_even x) \<le> x + 1 / 2"
proof -
  have f: "of_int (floor x) \<le> x" by simp
  show ?thesis
  proof (cases "x - of_int (floor x) < 1 / 2")
    case True
    then have "round_even x = floor x" by (simp add: round_even_def Let_def)
    then show ?thesis using f by linarith
  next
    case False
    then have "of_int (floor x + 1) \<le> x + 1 / 2" by simp
    moreover have "round_even x \<le> floor x + 1" by (auto simp: round_even_def Let_def)
    ultimately show ?thesis by (meson of_int_le_iff order_trans)
  qed
qed

lemma f64_le_ulp: "0 \<le> x \<Longrightarrow> f64 x \<le> ulp * x"
proof (cases "x = 0")
  case False
  assume "0 \<le> x"
  with False have x: "0 < x" by simp
  let ?u = "(2::rat) powi (binexp x - 52)"
  have u: "0 < ?u" by simp
  have "(2::rat) powi binexp x = 2 ^ 52 * ?u" by (simp add: power_int_diff)
  with binexp_bounds [OF x] have ux: "?u \<le> x / 2 ^ 52" by (simp add: pos_le_divide_eq)
  have "f64 x = of_int (round_even (x / ?u)) * ?u" using x by (simp add: f64_def Let_def)
  also have "\<dots> \<le> (x / ?u + 1 / 2) * ?u" using u round_even_near by (intro mult_right_mono) simp_all
  also have "\<dots> = x + ?u / 2" using u by (simp add: distrib_right)
  also have "\<dots> \<le> x + x / 2 ^ 52" using ux u by linarith
  also have "\<dots> = ulp * x" by (simp add: ulp_def distrib_right)
  finally show ?thesis .
qed (simp add: f64_def)

definition secs :: "nat \<Rightarrow> rat" where "secs d = of_nat d / 1000000000"

lemma secs_nonneg [simp]: "0 \<le> secs d"
  by (simp add: secs_def)

lemma as_secs_f64_bounds: "0 \<le> as_secs_f64 d" "as_secs_f64 d \<le> ulp ^ 3 * secs d"
proof -
  let ?s = "of_nat (d div 1000000000) :: rat" and ?n = "of_nat (d mod 1000000000) :: rat"
  have n: "f64_div (f64 ?n) 1000000000 \<le> ulp ^ 2 * (?n / 1000000000)" "0 \<le> f64_div (f64 ?n) 1000000000"
  proof -
    have "f64_div (f64 ?n) 1000000000 \<le> ulp * (f64 ?n / 1000000000)"
      unfolding f64_div_def by (intro f64_le_ulp) (simp add: f64_nonneg)
    also have "\<dots> \<le> ulp * (ulp * ?n / 1000000000)" by (intro mult_left_mono divide_right_mono f64_le_ulp) simp_all
    finally show "f64_div (f64 ?n) 1000000000 \<le> ulp ^ 2 * (?n / 1000000000)" by (simp add: power2_eq_square mult.assoc)
    show "0 \<le> f64_div (f64 ?n) 1000000000" unfolding f64_div_def by (intro f64_nonneg) (simp add: f64_nonneg)
  qed
  have s: "f64 ?s \<le> ulp ^ 2 * ?s"
  proof -
    have "f64 ?s \<le> ulp * ?s" by (simp add: f64_le_ulp)
    also have "\<dots> \<le> ulp * ulp * ?s" by (intro mult_right_mono) simp_all
    finally show ?thesis by (simp add: power2_eq_square)
  qed
  have d: "?s + ?n / 1000000000 = secs d"
  proof -
    have "d = d div 1000000000 * 1000000000 + d mod 1000000000" by simp
    then have "(of_nat d :: rat) = ?s * 1000000000 + ?n" by (metis of_nat_add of_nat_mult of_nat_numeral)
    then show ?thesis by (simp add: secs_def add_divide_distrib)
  qed
  show "0 \<le> as_secs_f64 d"
    unfolding as_secs_f64_def f64_add_def f64_of_nat_def using n(2) by (intro f64_nonneg) (simp add: f64_nonneg)
  have "as_secs_f64 d \<le> ulp * (f64 ?s + f64_div (f64 ?n) 1000000000)"
    unfolding as_secs_f64_def f64_add_def f64_of_nat_def using n(2) by (intro f64_le_ulp) (simp add: f64_nonneg)
  also have "\<dots> \<le> ulp * (ulp ^ 2 * ?s + ulp ^ 2 * (?n / 1000000000))"
    using n(1) s by (intro mult_left_mono add_mono) simp_all
  also have "\<dots> = ulp ^ 3 * secs d" by (simp add: d [symmetric] power3_eq_cube power2_eq_square distrib_left mult.assoc)
  finally show "as_secs_f64 d \<le> ulp ^ 3 * secs d" .
qed

text \<open>What one step can add to a bucket, and that a granted token leaves it.\<close>

lemma take_token_step:
  assumes "take_token t rate cap b = (b', ok)" "0 \<le> tokens b" "0 \<le> rate" "0 \<le> cap"
  shows "0 \<le> tokens b' \<and> last_refill b' = t \<and>
    tokens b' + (if ok then 1 else 0) \<le> ulp ^ 2 * (tokens b + ulp ^ 4 * rate * secs (t - last_refill b))"
proof -
  let ?e = "as_secs_f64 (t - last_refill b)" and ?s = "secs (t - last_refill b)"
  let ?t1 = "min (f64_add (tokens b) (f64_mul ?e rate)) cap"
  have e: "0 \<le> ?e" "?e \<le> ulp ^ 3 * ?s" by (rule as_secs_f64_bounds)+
  have m: "0 \<le> f64_mul ?e rate" "f64_mul ?e rate \<le> ulp ^ 4 * rate * ?s"
  proof -
    show "0 \<le> f64_mul ?e rate" unfolding f64_mul_def using e assms(3) by (intro f64_nonneg) simp
    have "f64_mul ?e rate \<le> ulp * (?e * rate)" unfolding f64_mul_def using e assms(3) by (intro f64_le_ulp) simp
    also have "\<dots> \<le> ulp * (ulp ^ 3 * ?s * rate)" using e assms(3) by (intro mult_left_mono mult_right_mono) simp_all
    finally show "f64_mul ?e rate \<le> ulp ^ 4 * rate * ?s" by (simp add: power4_eq_xxxx power3_eq_cube mult_ac)
  qed
  have a: "0 \<le> f64_add (tokens b) (f64_mul ?e rate)"
    unfolding f64_add_def using m assms(2) by (intro f64_nonneg) simp
  have "f64_add (tokens b) (f64_mul ?e rate) \<le> ulp * (tokens b + f64_mul ?e rate)"
    unfolding f64_add_def using m assms(2) by (intro f64_le_ulp) simp
  also have "\<dots> \<le> ulp * (tokens b + ulp ^ 4 * rate * ?s)" using m by (intro mult_left_mono) simp_all
  finally have t1: "?t1 \<le> ulp * (tokens b + ulp ^ 4 * rate * ?s)" "0 \<le> ?t1" using a assms(4) by auto
  have up: "x \<le> ulp * x" if "0 \<le> x" for x using mult_right_mono [OF ulp_ge_1(1) that] by simp
  have "0 \<le> ulp * (tokens b + ulp ^ 4 * rate * ?s)" using assms(2,3) by simp
  from order_trans [OF t1(1) up [OF this]]
  have big: "?t1 \<le> ulp ^ 2 * (tokens b + ulp ^ 4 * rate * ?s)" unfolding power2_eq_square mult.assoc .
  show ?thesis
  proof (cases "?t1 < 1")
    case True
    then show ?thesis using assms(1) t1(2) big by (auto simp: take_token_def Let_def)
  next
    case False
    then have b': "b' = \<lparr> tokens = f64 (?t1 - 1), last_refill = t \<rparr>" "ok"
      using assms(1) by (auto simp: take_token_def Let_def f64_sub_def)
    have "f64 (?t1 - 1) \<le> ulp * (?t1 - 1)" using False by (intro f64_le_ulp) linarith
    then have "f64 (?t1 - 1) + 1 \<le> ulp * ?t1" using ulp_ge_1(1) unfolding right_diff_distrib by linarith
    also have "\<dots> \<le> ulp * (ulp * (tokens b + ulp ^ 4 * rate * ?s))" using t1(1) by (intro mult_left_mono) simp_all
    finally have "f64 (?t1 - 1) + 1 \<le> ulp * (ulp * (tokens b + ulp ^ 4 * rate * ?s))" .
    moreover have "0 \<le> f64 (?t1 - 1)" using False by (intro f64_nonneg) linarith
    ultimately show ?thesis using b' by (simp add: power2_eq_square mult.assoc)
  qed
qed

section \<open>Runs\<close>

text \<open>A run is a sequence of events in the order of their clock readings: checks of requests (instant, address, API key), and the
  cleanups that the background task of the server runs every minute. The outcomes are listed in order; a cleanup admits nothing.\<close>

datatype rl_event =
    Check nat string "string option"
  | Cleanup nat

fun rl_at :: "rl_event \<Rightarrow> nat" where
  "rl_at (Check t ip key) = t"
| "rl_at (Cleanup t) = t"

fun rl_address :: "rl_event \<Rightarrow> string option" where
  "rl_address (Check t ip key) = Some ip"
| "rl_address (Cleanup t) = None"

fun rl_step :: "rl_event \<Rightarrow> RateLimiter \<Rightarrow> RateLimiter \<times> bool" where
  "rl_step (Check t ip key) r = rl_check t ip key r"
| "rl_step (Cleanup t) r = (cleanup_rate_limiter t r, False)"

fun rl_run :: "rl_event list \<Rightarrow> RateLimiter \<Rightarrow> bool list" where
  "rl_run [] r = []"
| "rl_run (ev # evs) r = (case rl_step ev r of (r', ok) \<Rightarrow> ok # rl_run evs r')"

definition admitted_from :: "string \<Rightarrow> rl_event list \<Rightarrow> RateLimiter \<Rightarrow> nat" where
  "admitted_from ip evs r = length (filter (\<lambda>(ev, ok). ok \<and> rl_address ev = Some ip) (zip evs (rl_run evs r)))"

definition admitted_total :: "rl_event list \<Rightarrow> RateLimiter \<Rightarrow> nat" where
  "admitted_total evs r = length (filter (\<lambda>ok. ok) (rl_run evs r))"

lemma rl_check_config:
  "rl_check t ip key r = (r', ok) \<Longrightarrow> rps_per_ip r' = rps_per_ip r \<and> rps_global r' = rps_global r \<and> burst r' = burst r"
  by (auto simp: rl_check_def Let_def split: prod.splits option.splits if_splits)

lemma rl_check_ip:
  assumes "rl_check t ip key r = (r', ok)"
  shows "\<exists>b ok1. take_token t (rps_per_ip r) (f64_of_u32 (burst r))
      (entry_or ip \<lparr> tokens = f64_of_u32 (burst r), last_refill = t \<rparr> (ip_buckets r)) = (b, ok1) \<and>
    map_of (ip_buckets r') = (map_of (ip_buckets r))(ip \<mapsto> b) \<and> (ok \<longrightarrow> ok1) \<and>
    (distinct (al_keys (ip_buckets r)) \<longrightarrow> distinct (al_keys (ip_buckets r')))"
  using assms by (auto simp: rl_check_def Let_def split: prod.splits option.splits if_splits)

lemma rl_check_global:
  assumes "rl_check t ip key r = (r', ok)"
  shows "global_bucket r' = global_bucket r \<and> \<not> ok \<or>
    take_token t (rps_global r) (f64_of_u32 (burst r * 10)) (global_bucket r) = (global_bucket r', ok)"
  using assms by (auto simp: rl_check_def Let_def split: prod.splits option.splits if_splits)

lemma f64_of_u32_nonneg [simp]: "0 \<le> f64_of_u32 w"
  unfolding f64_of_u32_def f64_of_nat_def by (rule f64_nonneg) (rule of_nat_0_le_iff)

text \<open>The induction step of both bounds.\<close>

lemma bucket_bound_step:
  assumes "n \<le> ulp ^ (2 * k) * (tok' + c * secs (e - t))" "tok' + g \<le> ulp ^ 2 * (tok + c * secs (t - base))" "0 \<le> g"
    and "base \<le> t" "t \<le> e" "0 \<le> c"
  shows "g + n \<le> ulp ^ (2 * Suc k) * (tok + c * secs (e - base))"
proof -
  have p: "1 \<le> ulp ^ m" for m by (simp add: one_le_power)
  have "g + n \<le> ulp ^ (2 * k) * g + ulp ^ (2 * k) * (tok' + c * secs (e - t))"
    using assms(1,3) mult_right_mono [OF p assms(3), of "2 * k"] by simp
  also have "\<dots> = ulp ^ (2 * k) * (tok' + g + c * secs (e - t))" by (simp add: algebra_simps)
  also have "\<dots> \<le> ulp ^ (2 * k) * (ulp ^ 2 * (tok + c * secs (t - base)) + ulp ^ 2 * (c * secs (e - t)))"
    using assms(2,6) mult_right_mono [OF p, of "c * secs (e - t)" 2] by (intro mult_left_mono add_mono) simp_all
  also have "\<dots> = ulp ^ (2 * Suc k) * (tok + c * (secs (t - base) + secs (e - t)))"
    by (simp add: power2_eq_square algebra_simps)
  also have "secs (t - base) + secs (e - t) = secs (e - base)"
    using assms(4,5) by (simp add: secs_def add_divide_distrib [symmetric] of_nat_diff)
  finally show ?thesis .
qed

lemma cleanup_fields:
  "rps_per_ip (cleanup_rate_limiter t r) = rps_per_ip r" "rps_global (cleanup_rate_limiter t r) = rps_global r"
  "burst (cleanup_rate_limiter t r) = burst r" "global_bucket (cleanup_rate_limiter t r) = global_bucket r"
  "ip_buckets (cleanup_rate_limiter t r) = al_retain (\<lambda>b. (t - last_refill b) div 1000000000 < 300) (ip_buckets r)"
  by (simp_all add: cleanup_rate_limiter_def Let_def)

text \<open>A cleanup drops a bucket that was not used for five minutes; the bucket that replaces it is full, so the drop is worth a burst and
  is paid for by the idle time when \<open>c\<close> times 300 seconds refill a burst.\<close>

lemma dropped_bucket:
  assumes "\<not> (t - base) div 1000000000 < 300" "t \<le> e" "cap \<le> c * 300" "0 \<le> c" "0 \<le> tok" "0 \<le> cap"
  shows "ulp ^ (2 * n) * (cap + c * secs (e - t)) \<le> ulp ^ (2 * Suc n) * (tok + c * secs (e - base))"
proof -
  have "300 * 1000000000 \<le> t - base" using assms(1) by (simp add: not_less less_eq_div_iff_mult_less_eq)
  then have "(300 * 1000000000 :: rat) \<le> of_nat (t - base)" by (metis of_nat_le_iff of_nat_mult of_nat_numeral)
  then have idle: "300 \<le> secs (t - base)" by (simp add: secs_def)
  have "secs (e - base) = secs (e - t) + secs (t - base)"
    using assms(2) \<open>300 * 1000000000 \<le> t - base\<close> by (simp add: secs_def add_divide_distrib [symmetric] of_nat_diff)
  then have "c * secs (e - t) + c * 300 \<le> c * secs (e - base)"
    using mult_left_mono [OF idle assms(4)] by (simp add: distrib_left)
  then have "cap + c * secs (e - t) \<le> tok + c * secs (e - base)" using assms(3,5) by linarith
  then have "ulp ^ (2 * n) * (cap + c * secs (e - t)) \<le> ulp ^ (2 * n) * (tok + c * secs (e - base))"
    by (intro mult_left_mono) simp_all
  also have "\<dots> \<le> ulp ^ (2 * Suc n) * (tok + c * secs (e - base))"
    using assms(4,5) by (intro mult_right_mono power_increasing) simp_all
  finally show ?thesis .
qed

lemma admitted_from_bound:
  assumes "sorted (map rl_at evs)" "\<forall>q \<in> set evs. base \<le> rl_at q \<and> rl_at q \<le> e" "0 \<le> rps_per_ip r" "base \<le> e"
    and "case map_of (ip_buckets r) ip of None \<Rightarrow> tok = f64_of_u32 (burst r) | Some b \<Rightarrow> tok = tokens b \<and> base = last_refill b"
    and "0 \<le> tok" "distinct (al_keys (ip_buckets r))"
    and "ulp ^ 4 * rps_per_ip r \<le> c" "f64_of_u32 (burst r) \<le> c * 300"
  shows "of_nat (admitted_from ip evs r) \<le> ulp ^ (2 * length evs) * (tok + c * secs (e - base))"
  using assms
proof (induction evs arbitrary: r tok base)
  case Nil
  have "0 \<le> ulp ^ 4 * rps_per_ip r" using Nil.prems(3) by simp
  then have "0 \<le> c" using Nil.prems(8) by linarith
  then show ?case using Nil.prems(6) by (simp add: admitted_from_def)
next
  case (Cons ev evs)
  have rate: "0 \<le> c"
  proof -
    have "0 \<le> ulp ^ 4 * rps_per_ip r" using Cons.prems(3) by simp
    then show ?thesis using Cons.prems(8) by linarith
  qed
  define t where "t = rl_at ev"
  have later: "\<forall>q \<in> set evs. t \<le> rl_at q \<and> rl_at q \<le> e" "\<forall>q \<in> set evs. base \<le> rl_at q \<and> rl_at q \<le> e"
    "sorted (map rl_at evs)" "t \<le> e" "base \<le> t"
    using Cons.prems(1,2) by (auto simp: t_def)
  have weaken: "x \<le> ulp ^ (2 * length (ev # evs)) * (tok + c * secs (e - base))"
    if "x \<le> ulp ^ (2 * length evs) * (tok + c * secs (e - base))" for x
  proof -
    note that
    also have "ulp ^ (2 * length evs) * (tok + c * secs (e - base)) \<le> ulp ^ (2 * length (ev # evs)) * (tok + c * secs (e - base))"
      using Cons.prems(6) rate by (intro mult_right_mono power_increasing) auto
    finally show ?thesis .
  qed
  show ?case
  proof (cases ev)
    case (Cleanup t')
    then have t': "t' = t" by (simp add: t_def)
    let ?r = "cleanup_rate_limiter t r"
    have count: "admitted_from ip (ev # evs) r = admitted_from ip evs ?r" by (simp add: admitted_from_def Cleanup t')
    have d: "distinct (al_keys (ip_buckets ?r))" using Cons.prems(7) by (simp add: cleanup_fields)
    note m = map_of_al_retain [OF Cons.prems(7)]
    show ?thesis
    proof (cases "map_of (ip_buckets r) ip \<noteq> None \<and> map_of (ip_buckets ?r) ip = None")
      case True
      then obtain b where b: "map_of (ip_buckets r) ip = Some b" "\<not> (t - last_refill b) div 1000000000 < 300"
        by (auto simp: cleanup_fields m split: if_splits)
      have "of_nat (admitted_from ip evs ?r) \<le> ulp ^ (2 * length evs) * (f64_of_u32 (burst r) + c * secs (e - t))"
        using Cons.IH [OF later(3,1) _ later(4) _ f64_of_u32_nonneg d] Cons.prems(3,8,9) True by (simp add: cleanup_fields(1-4))
      also have "\<dots> \<le> ulp ^ (2 * Suc (length evs)) * (tok + c * secs (e - base))"
        by (rule dropped_bucket) (use b Cons.prems(5,6,9) later rate in auto)
      finally show ?thesis unfolding count by simp
    next
      case False
      then have "map_of (ip_buckets ?r) ip = map_of (ip_buckets r) ip"
        by (auto simp: cleanup_fields m split: option.splits if_splits)
      then have "of_nat (admitted_from ip evs ?r) \<le> ulp ^ (2 * length evs) * (tok + c * secs (e - base))"
        using Cons.IH [OF later(3,2) _ Cons.prems(4) _ Cons.prems(6) d] Cons.prems(3,5,8,9)
        by (simp add: cleanup_fields(1-4) split: option.splits)
      then show ?thesis unfolding count by (rule weaken)
    qed
  next
    case (Check t' i key)
    then have t': "t' = t" by (simp add: t_def)
    obtain r' ok where chk: "rl_check t i key r = (r', ok)" by (cases "rl_check t i key r")
    obtain b ok1 where b: "take_token t (rps_per_ip r) (f64_of_u32 (burst r))
        (entry_or i \<lparr> tokens = f64_of_u32 (burst r), last_refill = t \<rparr> (ip_buckets r)) = (b, ok1)"
      "map_of (ip_buckets r') = (map_of (ip_buckets r))(i \<mapsto> b)" "ok \<longrightarrow> ok1" "distinct (al_keys (ip_buckets r'))"
      using rl_check_ip [OF chk] Cons.prems(7) by blast
    note cfg = rl_check_config [OF chk]
    have count: "admitted_from ip (ev # evs) r = (if ok \<and> i = ip then 1 else 0) + admitted_from ip evs r'"
      by (simp add: admitted_from_def Check t' chk)
    show ?thesis
    proof (cases "i = ip")
      case True
      let ?b0 = "entry_or i \<lparr> tokens = f64_of_u32 (burst r), last_refill = t \<rparr> (ip_buckets r)"
      have b0: "0 \<le> tokens ?b0" "tokens ?b0 = tok" "secs (t - last_refill ?b0) \<le> secs (t - base)"
        using Cons.prems(5,6) True by (auto simp: entry_or_def secs_def split: option.splits)
      from take_token_step [OF b(1) b0(1) Cons.prems(3)]
      have st: "0 \<le> tokens b" "last_refill b = t"
        "tokens b + (if ok1 then 1 else 0) \<le> ulp ^ 2 * (tok + ulp ^ 4 * rps_per_ip r * secs (t - last_refill ?b0))"
        using b0(2) by auto
      have "tokens b + (if ok then 1 else 0) \<le> tokens b + (if ok1 then 1 else 0)" using b(3) by simp
      also note st(3)
      also have "ulp ^ 2 * (tok + ulp ^ 4 * rps_per_ip r * secs (t - last_refill ?b0)) \<le> ulp ^ 2 * (tok + c * secs (t - base))"
        using b0(3) rate Cons.prems(8) by (intro mult_left_mono add_left_mono mult_mono) simp_all
      finally have one: "tokens b + (if ok then 1 else 0) \<le> ulp ^ 2 * (tok + c * secs (t - base))" .
      have "of_nat (admitted_from ip evs r') \<le> ulp ^ (2 * length evs) * (tokens b + c * secs (e - t))"
        using Cons.IH [OF later(3,1) _ later(4) _ st(1) b(4)] Cons.prems(3,8,9) st b(2) True cfg by simp
      then have "(if ok then 1 else 0) + of_nat (admitted_from ip evs r') \<le>
          ulp ^ (2 * Suc (length evs)) * (tok + c * secs (e - base))"
        by (intro bucket_bound_step [OF _ one _ later(5,4) rate]) simp_all
      then show ?thesis using True by (simp add: count split: if_splits)
    next
      case False
      then have "of_nat (admitted_from ip evs r') \<le> ulp ^ (2 * length evs) * (tok + c * secs (e - base))"
        using Cons.IH [OF later(3,2) _ Cons.prems(4) _ Cons.prems(6) b(4)] Cons.prems(3,5,8,9) b(2) cfg
        by (simp split: option.splits)
      then show ?thesis using False weaken by (simp add: count)
    qed
  qed
qed

lemma rl_step_config:
  "rl_step ev r = (r', ok) \<Longrightarrow> rps_global r' = rps_global r \<and> burst r' = burst r"
  using rl_check_config by (cases ev) (auto simp: cleanup_fields)

lemma rl_step_global:
  assumes "rl_step ev r = (r', ok)"
  shows "global_bucket r' = global_bucket r \<and> \<not> ok \<or>
    take_token (rl_at ev) (rps_global r) (f64_of_u32 (burst r * 10)) (global_bucket r) = (global_bucket r', ok)"
  using assms rl_check_global by (cases ev) (auto simp: cleanup_fields)

lemma admitted_total_bound:
  assumes "sorted (map rl_at evs)" "\<forall>q \<in> set evs. last_refill (global_bucket r) \<le> rl_at q \<and> rl_at q \<le> e" "0 \<le> rps_global r"
    and "0 \<le> tokens (global_bucket r)" "last_refill (global_bucket r) \<le> e"
  shows "of_nat (admitted_total evs r) \<le>
    ulp ^ (2 * length evs) * (tokens (global_bucket r) + ulp ^ 4 * rps_global r * secs (e - last_refill (global_bucket r)))"
  using assms
proof (induction evs arbitrary: r)
  case Nil
  then show ?case by (simp add: admitted_total_def)
next
  case (Cons q evs)
  define t where q: "t = rl_at q"
  obtain r' ok where c: "rl_step q r = (r', ok)" by (cases "rl_step q r")
  note cfg = rl_step_config [OF c]
  let ?g = "global_bucket r" and ?g' = "global_bucket r'"
  have later: "\<forall>q' \<in> set evs. t \<le> rl_at q'" "sorted (map rl_at evs)" "t \<le> e" "last_refill ?g \<le> t"
    using Cons.prems q by auto
  have count: "admitted_total (q # evs) r = (if ok then 1 else 0) + admitted_total evs r'"
    by (simp add: admitted_total_def c)
  have rate: "0 \<le> ulp ^ 4 * rps_global r" using Cons.prems(3) by simp
  from rl_step_global [OF c, folded q] show ?case
  proof
    assume s: "?g' = ?g \<and> \<not> ok"
    have "of_nat (admitted_total evs r') \<le> ulp ^ (2 * length evs) * (tokens ?g + ulp ^ 4 * rps_global r * secs (e - last_refill ?g))"
      using Cons.IH [of r'] Cons.prems later s cfg by auto
    also have "\<dots> \<le> ulp ^ (2 * length (q # evs)) * (tokens ?g + ulp ^ 4 * rps_global r * secs (e - last_refill ?g))"
      using Cons.prems(4) rate by (intro mult_right_mono power_increasing) auto
    finally show ?thesis using s by (simp add: count)
  next
    assume tk: "take_token t (rps_global r) (f64_of_u32 (burst r * 10)) ?g = (?g', ok)"
    have st: "0 \<le> tokens ?g'" "last_refill ?g' = t"
      "tokens ?g' + (if ok then 1 else 0) \<le> ulp ^ 2 * (tokens ?g + ulp ^ 4 * rps_global r * secs (t - last_refill ?g))"
      using take_token_step [OF tk Cons.prems(4,3)] by auto
    have "of_nat (admitted_total evs r') \<le> ulp ^ (2 * length evs) * (tokens ?g' + ulp ^ 4 * rps_global r * secs (e - t))"
      using Cons.IH [of r'] Cons.prems(2,3) later st cfg by auto
    then have "(if ok then 1 else 0) + of_nat (admitted_total evs r') \<le>
        ulp ^ (2 * Suc (length evs)) * (tokens ?g + ulp ^ 4 * rps_global r * secs (e - last_refill ?g))"
      by (intro bucket_bound_step [OF _ st(3) _ later(4,3) rate]) simp_all
    then show ?thesis by (simp add: count split: if_splits)
  qed
qed

section \<open>Windows\<close>

text \<open>What every reachable limiter keeps: its buckets are listed once each and hold no negative amount.\<close>

definition lim_inv :: "RateLimiter \<Rightarrow> bool" where
  "lim_inv r \<longleftrightarrow> distinct (al_keys (ip_buckets r)) \<and> (\<forall>i b. map_of (ip_buckets r) i = Some b \<longrightarrow> 0 \<le> tokens b) \<and>
     0 \<le> tokens (global_bucket r) \<and> 0 \<le> rps_per_ip r \<and> 0 \<le> rps_global r"

definition rl_exec :: "rl_event list \<Rightarrow> RateLimiter \<Rightarrow> RateLimiter" where
  "rl_exec evs r = fold (\<lambda>ev r. fst (rl_step ev r)) evs r"

text \<open>Whatever a bucket held, after a refill it is not above its capacity.\<close>

lemma take_token_capped:
  assumes "take_token t rate cap b = (b', ok)" "0 \<le> cap"
  shows "tokens b' + (if ok then 1 else 0) \<le> ulp * cap"
proof -
  let ?x = "min (f64_add (tokens b) (f64_mul (as_secs_f64 (t - last_refill b)) rate)) cap"
  have x: "?x \<le> cap" by simp
  have cap: "cap \<le> ulp * cap" using mult_right_mono [OF ulp_ge_1(1) assms(2)] by simp
  show ?thesis
  proof (cases "?x < 1")
    case True
    then show ?thesis using assms(1) order_trans [OF x cap] by (auto simp: take_token_def Let_def)
  next
    case False
    then have b': "tokens b' = f64 (?x - 1)" "ok" using assms(1) by (auto simp: take_token_def Let_def f64_sub_def)
    have "f64 (?x - 1) \<le> ulp * (?x - 1)" using False by (intro f64_le_ulp) linarith
    then have "f64 (?x - 1) + 1 \<le> ulp * ?x" using ulp_ge_1(1) unfolding right_diff_distrib by linarith
    also have "\<dots> \<le> ulp * cap" using x by (intro mult_left_mono) simp_all
    finally show ?thesis using b' by simp
  qed
qed

lemma rl_step_inv:
  assumes "lim_inv r" "rl_step ev r = (r', ok)"
  shows "lim_inv r' \<and> rps_per_ip r' = rps_per_ip r \<and> rps_global r' = rps_global r \<and> burst r' = burst r"
proof (cases ev)
  case (Cleanup t)
  then have r': "r' = cleanup_rate_limiter t r" using assms(2) by simp
  have d: "distinct (al_keys (ip_buckets r))" using assms(1) by (simp add: lim_inv_def)
  show ?thesis
    using assms(1) unfolding r' lim_inv_def cleanup_fields map_of_al_retain [OF d] by (auto split: option.splits if_splits)
next
  case (Check t i key)
  then have chk: "rl_check t i key r = (r', ok)" using assms(2) by simp
  note cfg = rl_check_config [OF chk]
  obtain b ok1 where b: "take_token t (rps_per_ip r) (f64_of_u32 (burst r))
      (entry_or i \<lparr> tokens = f64_of_u32 (burst r), last_refill = t \<rparr> (ip_buckets r)) = (b, ok1)"
    "map_of (ip_buckets r') = (map_of (ip_buckets r))(i \<mapsto> b)" "distinct (al_keys (ip_buckets r'))"
    using rl_check_ip [OF chk] assms(1) unfolding lim_inv_def by blast
  have "0 \<le> tokens (entry_or i \<lparr> tokens = f64_of_u32 (burst r), last_refill = t \<rparr> (ip_buckets r))"
    using assms(1) by (auto simp: entry_or_def lim_inv_def split: option.split)
  then have "0 \<le> tokens b" using take_token_step [OF b(1)] assms(1) by (simp add: lim_inv_def)
  moreover have "0 \<le> tokens (global_bucket r')"
    using rl_check_global [OF chk] take_token_step [of t "rps_global r" _ "global_bucket r" "global_bucket r'" ok] assms(1)
    by (auto simp: lim_inv_def)
  ultimately show ?thesis using b cfg assms(1) by (auto simp: lim_inv_def)
qed

lemma rl_exec_inv:
  "lim_inv r \<Longrightarrow> lim_inv (rl_exec evs r) \<and> rps_per_ip (rl_exec evs r) = rps_per_ip r \<and>
     rps_global (rl_exec evs r) = rps_global r \<and> burst (rl_exec evs r) = burst r"
proof (induction evs arbitrary: r)
  case (Cons ev evs)
  obtain r' ok where s: "rl_step ev r = (r', ok)" by (cases "rl_step ev r")
  show ?case using Cons.IH [of r'] rl_step_inv [OF Cons.prems s] by (simp add: rl_exec_def s)
qed (simp add: rl_exec_def)

lemma pad_bound:
  "0 \<le> y \<Longrightarrow> x \<le> ulp ^ (2 * n) * y \<Longrightarrow> x \<le> ulp ^ (2 * Suc n) * y"
  by (erule order_trans, intro mult_right_mono power_increasing) simp_all

text \<open>In a window that starts at \<open>t1\<close>, whatever came before.\<close>

lemma window_from:
  assumes "sorted (map rl_at evs)" "\<forall>q \<in> set evs. t1 \<le> rl_at q \<and> rl_at q \<le> e" "lim_inv r"
    and "ulp ^ 4 * rps_per_ip r \<le> c" "f64_of_u32 (burst r) \<le> c * 300" "0 \<le> c"
  shows "of_nat (admitted_from ip evs r) \<le> ulp ^ (2 * length evs) * (f64_of_u32 (burst r) + c * secs (e - t1))"
  using assms
proof (induction evs arbitrary: r)
  case Nil
  then show ?case by (simp add: admitted_from_def)
next
  case (Cons ev evs)
  obtain r' ok where s: "rl_step ev r = (r', ok)" by (cases "rl_step ev r")
  note inv = rl_step_inv [OF Cons.prems(3) s]
  have count: "admitted_from ip (ev # evs) r = (if ok \<and> rl_address ev = Some ip then 1 else 0) + admitted_from ip evs r'"
    by (simp add: admitted_from_def s)
  have IH: "of_nat (admitted_from ip evs r') \<le> ulp ^ (2 * length evs) * (f64_of_u32 (burst r) + c * secs (e - t1))"
    using Cons.IH [of r'] Cons.prems inv by simp
  show ?case
  proof (cases "rl_address ev = Some ip")
    case False
    have "of_nat (admitted_from ip (ev # evs) r) \<le> ulp ^ (2 * length evs) * (f64_of_u32 (burst r) + c * secs (e - t1))"
      using False IH by (simp add: count)
    moreover have "0 \<le> f64_of_u32 (burst r) + c * secs (e - t1)" using Cons.prems(6) by (intro add_nonneg_nonneg mult_nonneg_nonneg) simp_all
    ultimately show ?thesis using pad_bound by simp
  next
    case True
    then obtain t key where ev: "ev = Check t ip key" by (cases ev) auto
    then have chk: "rl_check t ip key r = (r', ok)" using s by simp
    obtain b ok1 where b: "take_token t (rps_per_ip r) (f64_of_u32 (burst r))
        (entry_or ip \<lparr> tokens = f64_of_u32 (burst r), last_refill = t \<rparr> (ip_buckets r)) = (b, ok1)"
      "map_of (ip_buckets r') = (map_of (ip_buckets r))(ip \<mapsto> b)" "ok \<longrightarrow> ok1"
      using rl_check_ip [OF chk] by blast
    have t: "t1 \<le> t" "t \<le> e" "\<forall>q \<in> set evs. t \<le> rl_at q \<and> rl_at q \<le> e" "sorted (map rl_at evs)"
      using Cons.prems(1,2) ev by auto
    have lb: "0 \<le> tokens b" "last_refill b = t"
    proof -
      have "0 \<le> tokens (entry_or ip \<lparr> tokens = f64_of_u32 (burst r), last_refill = t \<rparr> (ip_buckets r))"
        using Cons.prems(3) by (auto simp: entry_or_def lim_inv_def split: option.split)
      then show "0 \<le> tokens b" "last_refill b = t" using take_token_step [OF b(1)] Cons.prems(3) by (simp_all add: lim_inv_def)
    qed
    have "0 \<le> c * secs (t - t1)" using Cons.prems(6) by (intro mult_nonneg_nonneg) simp_all
    have "ulp * (f64_of_u32 (burst r)) \<le> ulp ^ 2 * f64_of_u32 (burst r)"
      unfolding power2_eq_square using ulp_ge_1(1) by (intro mult_right_mono) simp_all
    also have "\<dots> \<le> ulp ^ 2 * (f64_of_u32 (burst r) + c * secs (t - t1))"
      using \<open>0 \<le> c * secs (t - t1)\<close> by (intro mult_left_mono) simp_all
    finally have one: "tokens b + (if ok then 1 else 0) \<le> ulp ^ 2 * (f64_of_u32 (burst r) + c * secs (t - t1))"
      using take_token_capped [OF b(1) f64_of_u32_nonneg] b(3) by (auto split: if_splits)
    have "of_nat (admitted_from ip evs r') \<le> ulp ^ (2 * length evs) * (tokens b + c * secs (e - t))"
      by (rule admitted_from_bound) (use t b(2) lb inv Cons.prems(4,5) in \<open>simp_all add: lim_inv_def\<close>)
    then have "(if ok then 1 else 0) + of_nat (admitted_from ip evs r') \<le>
        ulp ^ (2 * Suc (length evs)) * (f64_of_u32 (burst r) + c * secs (e - t1))"
      by (intro bucket_bound_step [OF _ one _ t(1,2) Cons.prems(6)]) simp_all
    then show ?thesis using True by (simp add: count split: if_splits)
  qed
qed

lemma window_total:
  assumes "sorted (map rl_at evs)" "\<forall>q \<in> set evs. t1 \<le> rl_at q \<and> rl_at q \<le> e" "lim_inv r"
  shows "of_nat (admitted_total evs r) \<le>
    ulp ^ (2 * length evs) * (f64_of_u32 (burst r * 10) + ulp ^ 4 * rps_global r * secs (e - t1))"
  using assms
proof (induction evs arbitrary: r)
  case Nil
  then show ?case by (simp add: admitted_total_def lim_inv_def)
next
  case (Cons ev evs)
  define t where "t = rl_at ev"
  obtain r' ok where s: "rl_step ev r = (r', ok)" by (cases "rl_step ev r")
  note inv = rl_step_inv [OF Cons.prems(3) s]
  have count: "admitted_total (ev # evs) r = (if ok then 1 else 0) + admitted_total evs r'"
    by (simp add: admitted_total_def s)
  have rate: "0 \<le> ulp ^ 4 * rps_global r" using Cons.prems(3) by (simp add: lim_inv_def)
  have t: "t1 \<le> t" "t \<le> e" "\<forall>q \<in> set evs. t \<le> rl_at q \<and> rl_at q \<le> e" "sorted (map rl_at evs)"
    using Cons.prems(1,2) by (auto simp: t_def)
  let ?cap = "f64_of_u32 (burst r * 10)"
  from rl_step_global [OF s, folded t_def] show ?case
  proof
    assume d: "global_bucket r' = global_bucket r \<and> \<not> ok"
    have "of_nat (admitted_total (ev # evs) r) \<le> ulp ^ (2 * length evs) * (?cap + ulp ^ 4 * rps_global r * secs (e - t1))"
      using Cons.IH [of r'] Cons.prems(2) inv t d by (simp add: count)
    moreover have "0 \<le> ?cap + ulp ^ 4 * rps_global r * secs (e - t1)"
      using rate by (intro add_nonneg_nonneg mult_nonneg_nonneg [OF rate]) simp_all
    ultimately show ?thesis using pad_bound by simp
  next
    assume tk: "take_token t (rps_global r) ?cap (global_bucket r) = (global_bucket r', ok)"
    have lb: "0 \<le> tokens (global_bucket r')" "last_refill (global_bucket r') = t"
      using take_token_step [OF tk] Cons.prems(3) by (simp_all add: lim_inv_def)
    have "0 \<le> ulp ^ 4 * rps_global r * secs (t - t1)" by (intro mult_nonneg_nonneg [OF rate]) simp
    have "ulp * ?cap \<le> ulp ^ 2 * ?cap" unfolding power2_eq_square using ulp_ge_1(1) by (intro mult_right_mono) simp_all
    also have "\<dots> \<le> ulp ^ 2 * (?cap + ulp ^ 4 * rps_global r * secs (t - t1))"
      using \<open>0 \<le> ulp ^ 4 * rps_global r * secs (t - t1)\<close> by (intro mult_left_mono) simp_all
    finally have one: "tokens (global_bucket r') + (if ok then 1 else 0) \<le> ulp ^ 2 * (?cap + ulp ^ 4 * rps_global r * secs (t - t1))"
      using take_token_capped [OF tk f64_of_u32_nonneg] by linarith
    have "of_nat (admitted_total evs r') \<le>
        ulp ^ (2 * length evs) * (tokens (global_bucket r') + ulp ^ 4 * rps_global r' * secs (e - last_refill (global_bucket r')))"
      by (rule admitted_total_bound) (use t lb inv Cons.prems(3) in \<open>simp_all add: lim_inv_def\<close>)
    then have "of_nat (admitted_total evs r') \<le>
        ulp ^ (2 * length evs) * (tokens (global_bucket r') + ulp ^ 4 * rps_global r * secs (e - t))"
      using lb inv by simp
    then have "(if ok then 1 else 0) + of_nat (admitted_total evs r') \<le>
        ulp ^ (2 * Suc (length evs)) * (?cap + ulp ^ 4 * rps_global r * secs (e - t1))"
      by (intro bucket_bound_step [OF _ one _ t(1,2) rate]) simp_all
    then show ?thesis by (simp add: count split: if_splits)
  qed
qed

text \<open>Small integers are doubles.\<close>

lemma f64_of_small_nat:
  assumes "n < 2 ^ 53"
  shows "f64_of_nat n = of_nat n"
proof (cases "n = 0")
  case False
  let ?x = "of_nat n :: rat" and ?k = "binexp (of_nat n)"
  have x: "0 < ?x" using False by simp
  have "(2::rat) powi ?k \<le> ?x" using binexp_bounds [OF x] by simp
  also have "?x < 2 powi 53" using assms by (metis of_nat_less_iff of_nat_numeral of_nat_power power_int_numeral)
  finally have lt: "(2::rat) powi ?k < 2 powi 53" .
  have "?k < 53"
  proof (rule ccontr)
    assume "\<not> ?k < 53"
    then have "(2::rat) powi 53 \<le> 2 powi ?k" by (intro power_int_increasing) simp_all
    with lt show False by simp
  qed
  then obtain j where j: "52 - ?k = int j" using zero_le_imp_eq_int [of "52 - ?k"] by auto
  have "?x / 2 powi (?k - 52) = of_int (int n * 2 ^ j)"
  proof -
    have "(2::rat) powi (?k - 52) = inverse (2 powi (52 - ?k))" by (metis minus_diff_eq power_int_minus)
    then show ?thesis by (simp add: j divide_inverse)
  qed
  moreover have "round_even (of_int m) = m" for m by (simp add: round_even_def Let_def)
  ultimately have "round_even (?x / 2 powi (?k - 52)) = int n * 2 ^ j" by metis
  with \<open>?x / 2 powi (?k - 52) = of_int (int n * 2 ^ j)\<close> show ?thesis
    unfolding f64_of_nat_def f64_def Let_def using x by (simp add: field_simps)
qed (simp add: f64_of_nat_def f64_def)


text \<open>A bucket with a token, asked at the instant of its last refill.\<close>

lemma still_bucket_admits:
  assumes "1 \<le> n" "n \<le> c" "n < 2 ^ 53"
  shows "take_token t rate (of_nat c) \<lparr> tokens = of_nat n, last_refill = t \<rparr> = (\<lparr> tokens = of_nat (n - 1), last_refill = t \<rparr>, True)"
proof -
  have s: "f64 (of_nat n - 1) = of_nat (n - 1)" "f64 (of_nat n) = of_nat n"
    using assms f64_of_small_nat [of "n - 1"] f64_of_small_nat [of n] by (simp_all add: f64_of_nat_def of_nat_diff)
  have z: "f64 0 = 0" by (simp add: f64_def)
  show ?thesis
    using assms(1,2) by (simp add: take_token_def as_secs_f64_def f64_add_def f64_sub_def f64_mul_def f64_div_def f64_of_nat_def s z Let_def)
qed

text \<open>The cleanup can hand out a second burst: with no refill at all, an address that used up its burst has a full one five minutes later.\<close>

lemma cleanup_renews_burst:
  "rl_run [Check 0 ip None, Check 0 ip None, Check 300000000000 ip None] (RateLimiter_new 0 0 1) = [True, False, False] \<and>
   rl_run [Check 0 ip None, Check 0 ip None, Cleanup 300000000000, Check 300000000000 ip None] (RateLimiter_new 0 0 1) =
     [True, False, False, True]"
proof -
  have z0: "f64 0 = 0" by (simp add: f64_def)
  have z: "f64 1 = 1" "f64_of_u32 1 = 1" "f64_of_u32 10 = 10" "f64 10 = 10" "f64 9 = 9"
    using f64_of_small_nat [of 1] f64_of_small_nat [of 10] f64_of_small_nat [of 9] by (simp_all add: f64_of_u32_def f64_of_nat_def)
  show ?thesis
    by (simp add: rl_check_def RateLimiter_new_def entry_or_def Let_def take_token_def f64_add_def f64_sub_def f64_mul_def z0 z
        cleanup_rate_limiter_def al_retain_def)
qed

section \<open>Property\<close>

text \<open>C36: the limiter bounds what it lets through in every window of time. After any run of checks and cleanups on a new limiter, and
  for any further checks and cleanups between the instants \<open>t1\<close> and \<open>e\<close>, in the order of their instants, whatever addresses and keys the
  checks are for, at most \<open>burst + rate \<times> (e - t1)\<close> requests of one address are admitted, where \<open>rate\<close> is \<open>rps\<close>, or one burst in 300
  seconds if that is more (a bucket that is idle so long is dropped, and the next one starts full); and, in total, at most
  \<open>10 burst + 50 rps \<times> (e - t1)\<close>. Both hold up to the rounding of doubles, a factor \<open>1 + 2\<^sup>-\<^sup>5\<^sup>2\<close> per operation (ten bursts
  must fit in 32 bits).\<close>

theorem rate_limit_bound:
  assumes "sorted (map rl_at evs)" "list_all (\<lambda>q. t1 \<le> rl_at q \<and> rl_at q \<le> e) evs" "0 \<le> rps" "unat b * 10 < 2 ^ 32"
  shows "of_nat (admitted_from ip evs (rl_exec before (RateLimiter_new t0 rps b))) \<le>
      ulp ^ (2 * length evs) * (of_nat (unat b) + ulp ^ 4 * max rps (of_nat (unat b) / 300) * secs (e - t1)) \<and>
    of_nat (admitted_total evs (rl_exec before (RateLimiter_new t0 rps b))) \<le>
      ulp ^ (2 * length evs) * (10 * of_nat (unat b) + ulp ^ 5 * (50 * rps) * secs (e - t1))"
proof
  let ?n = "RateLimiter_new t0 rps b" and ?R = "max rps (of_nat (unat b) / 300)"
  let ?r = "rl_exec before ?n"
  have evs: "\<forall>q \<in> set evs. t1 \<le> rl_at q \<and> rl_at q \<le> e" using assms(2) by (simp add: list_all_iff)
  have w: "unat (b * 10) = unat b * 10" using assms(4) by (simp add: unat_mult_lem [THEN iffD1])
  have cap: "f64_of_u32 b = of_nat (unat b)" "f64_of_u32 (b * 10) = 10 * of_nat (unat b)"
    using f64_of_small_nat [of "unat b"] f64_of_small_nat [of "unat b * 10"] assms(4)
    by (simp_all add: f64_of_u32_def w)
  have g: "0 \<le> f64_mul rps 50" "f64_mul rps 50 \<le> ulp * (50 * rps)"
    using assms(3) f64_le_ulp [of "rps * 50"] f64_nonneg [of "rps * 50"] by (simp_all add: f64_mul_def mult.commute)
  have "lim_inv ?n" using assms(3) g(1) by (simp add: lim_inv_def RateLimiter_new_def)
  from rl_exec_inv [OF this, of before]
  have r: "lim_inv ?r" "rps_per_ip ?r = rps" "rps_global ?r = f64_mul rps 50" "burst ?r = b"
    by (simp_all add: RateLimiter_new_def)
  have R: "rps \<le> ?R" "of_nat (unat b) / 300 \<le> ?R" "0 \<le> ?R" using assms(3) by simp_all
  have "1 * ?R \<le> ulp ^ 4 * ?R" using R(3) by (intro mult_right_mono one_le_power) simp_all
  then have c: "of_nat (unat b) \<le> ulp ^ 4 * ?R * 300" using R(2) by linarith
  have "ulp ^ 4 * rps \<le> ulp ^ 4 * ?R" using R(1) by (intro mult_left_mono) simp_all
  then show "of_nat (admitted_from ip evs ?r) \<le> ulp ^ (2 * length evs) * (of_nat (unat b) + ulp ^ 4 * ?R * secs (e - t1))"
    using window_from [OF assms(1) evs r(1), of "ulp ^ 4 * ?R" ip] c R(3) unfolding r cap by simp
  have "of_nat (admitted_total evs ?r) \<le>
      ulp ^ (2 * length evs) * (10 * of_nat (unat b) + ulp ^ 4 * f64_mul rps 50 * secs (e - t1))"
    using window_total [OF assms(1) evs r(1)] unfolding r cap .
  also have "\<dots> \<le> ulp ^ (2 * length evs) * (10 * of_nat (unat b) + ulp ^ 4 * (ulp * (50 * rps)) * secs (e - t1))"
    using g(2) by (intro mult_left_mono add_left_mono mult_right_mono) simp_all
  also have "\<dots> = ulp ^ (2 * length evs) * (10 * of_nat (unat b) + ulp ^ 5 * (50 * rps) * secs (e - t1))"
    by (simp add: numeral_eq_Suc mult_ac)
  finally show "of_nat (admitted_total evs ?r) \<le>
      ulp ^ (2 * length evs) * (10 * of_nat (unat b) + ulp ^ 5 * (50 * rps) * secs (e - t1))" .
qed

theorem rate_limit_bound_witness:
  "of_nat (admitted_from ''127.0.0.1'' [Check 7 ''127.0.0.1'' None, Cleanup 9, Check 12 ''127.0.0.1'' None]
      (rl_exec [Check 3 ''127.0.0.1'' None] (RateLimiter_new 0 20 1))) \<le> ulp ^ 6 * (1 + ulp ^ 4 * 20 * secs 5)"
  using rate_limit_bound [of "[Check 7 ''127.0.0.1'' None, Cleanup 9, Check 12 ''127.0.0.1'' None]" 7 12 20 1 "''127.0.0.1''"
      "[Check 3 ''127.0.0.1'' None]" 0] by simp

end
