(* ===== verification/Api_Keys.thy ===== *)
theory Api_Keys
  imports Custody Keystore_Run
begin

text \<open>
  \<^verbatim>\<open>citadel-api/src/main.rs\<close>, first part: scopes, the store of API keys with its file, the three-tier rate limiter, the
  hashing of API keys, and the routes that administer API keys. A response is a status code and a body; the request identifier
  that error bodies carry for log correlation is not modelled. An \<^verbatim>\<open>Instant\<close> is a reading of the clock in nanoseconds.
\<close>

section \<open>Scopes\<close>

datatype Scope = Read | EncryptScope | Manage | Admin

definition Scope_from_str :: "string \<Rightarrow> Scope option" where
  "Scope_from_str s =
    (if s = ''read'' then Some Read else if s = ''encrypt'' then Some EncryptScope
     else if s = ''manage'' then Some Manage else if s = ''admin'' then Some Admin else None)"

fun Scope_as_str :: "Scope \<Rightarrow> string" where
  "Scope_as_str Read = ''read''"
| "Scope_as_str EncryptScope = ''encrypt''"
| "Scope_as_str Manage = ''manage''"
| "Scope_as_str Admin = ''admin''"

fun show_scope_debug :: "Scope \<Rightarrow> string" where
  "show_scope_debug Read = ''Read''"
| "show_scope_debug EncryptScope = ''Encrypt''"
| "show_scope_debug Manage = ''Manage''"
| "show_scope_debug Admin = ''Admin''"

definition has_scope :: "Scope list \<Rightarrow> Scope \<Rightarrow> bool" where
  "has_scope grants required \<longleftrightarrow> (if Admin \<in> set grants then True else required \<in> set grants)"

definition ends_with :: "string \<Rightarrow> string \<Rightarrow> bool" where
  "ends_with s t \<longleftrightarrow> length t \<le> length s \<and> drop (length s - length t) s = t"

definition required_scope :: "string \<Rightarrow> string \<Rightarrow> Scope option" where
  "required_scope path verb =
    (if path = ''/'' \<or> path = ''/health'' then None
     else if path = ''/api/auth/whoami'' then Some Read
     else if starts_with path ''/api/auth/'' then Some Admin
     else if ends_with path ''/encrypt'' \<or> path = ''/api/decrypt'' then Some EncryptScope
     else if ends_with path ''/sign'' \<or> path = ''/api/assertions/issue'' then Some EncryptScope
     else if path = ''/api/verify'' \<or> ends_with path ''/verifying-key'' \<or> path = ''/api/assertions/verify'' then Some Read
     else if verb = ''POST'' \<or> verb = ''DELETE'' then Some Manage
     else Some Read)"

section \<open>API keys\<close>

record ApiKeyEntry =
  ake_id :: string
  ake_name :: string
  key_hash :: string
  ake_scopes :: "Scope list"
  ake_created_at :: string
  active :: bool
  last_used :: "string option"
  allowed_domains :: "string list option"

type_synonym ApiKeyStore = "ApiKeyEntry list"

record ApiKeyInfo =
  aki_id :: string
  aki_name :: string
  aki_scopes :: "Scope list"
  aki_created_at :: string
  aki_active :: bool
  aki_last_used :: "string option"
  aki_allowed_domains :: "string list option"

text \<open>What the server takes from its environment: the variables, the host, the hash functions, hexadecimal and JSON coding and the
  text of a time stamp.\<close>

record api_env =
  ae_vars :: "(string \<times> string) list"
  ae_host :: host
  ae_crypto :: crypto
  ae_hex_encode :: "bytes \<Rightarrow> string"
  ae_hex_decode :: "string \<Rightarrow> string + bytes"
  ae_json :: "ApiKeyStore \<Rightarrow> string + string"
  ae_parse :: "string \<Rightarrow> string + ApiKeyStore"
  ae_rfc3339 :: "DateTime \<Rightarrow> string"

text \<open>\<^verbatim>\<open>std::fs::read_to_string\<close> of the key file. The server exits when the file cannot be read or parsed: \<open>None\<close>.\<close>

datatype file_read = NotFound | Unreadable string | Contents string

definition ApiKeyStore_load :: "api_env \<Rightarrow> file_read \<Rightarrow> ApiKeyStore option" where
  "ApiKeyStore_load A f =
    (case f of
       Contents data \<Rightarrow> (case ae_parse A data of Inr store \<Rightarrow> Some store | Inl _ \<Rightarrow> None)
     | NotFound \<Rightarrow> Some []
     | Unreadable _ \<Rightarrow> None)"

definition ApiKeyStore_save :: "api_env \<Rightarrow> string \<Rightarrow> ApiKeyStore \<Rightarrow> disk \<Rightarrow> (string + unit) \<times> disk" where
  "ApiKeyStore_save A path store d =
    (let tmp = path @ ''.tmp'' in
     case ae_json A store of
       Inl e \<Rightarrow> (Inl (''serialize: '' @ e), d)
     | Inr data \<Rightarrow>
         (case io_run [\<lambda>e. ''open tmp '' @ tmp @ '': '' @ e, \<lambda>e. ''chmod '' @ tmp @ '': '' @ e, \<lambda>e. ''write '' @ tmp @ '': '' @ e,
            \<lambda>e. ''fsync '' @ tmp @ '': '' @ e, \<lambda>e. ''rename '' @ tmp @ '' '' @ right_arrow @ '' '' @ path @ '': '' @ e] (io_results d) of
            (Inr _, rs) \<Rightarrow> (Inr (), \<lparr> contents = Some data, io_results = rs \<rparr>)
          | (Inl e, rs) \<Rightarrow> (Inl e, d\<lparr> io_results := rs \<rparr>)))"

definition authenticate :: "api_env \<Rightarrow> bytes \<Rightarrow> ApiKeyStore \<Rightarrow> ApiKeyEntry option" where
  "authenticate A provided_hash store =
    (let provided_hex = ae_hex_encode A provided_hash in
     find (\<lambda>k. active k \<and> length (key_hash k) = length provided_hex \<and> key_hash k = provided_hex) store)"

definition add_key :: "ApiKeyEntry \<Rightarrow> ApiKeyStore \<Rightarrow> ApiKeyStore" where
  "add_key entry store = store @ [entry]"

fun update_first :: "('a \<Rightarrow> bool) \<Rightarrow> ('a \<Rightarrow> 'a) \<Rightarrow> 'a list \<Rightarrow> 'a list" where
  "update_first P f [] = []"
| "update_first P f (x # xs) = (if P x then f x # xs else x # update_first P f xs)"

definition deactivate :: "string \<Rightarrow> ApiKeyStore \<Rightarrow> ApiKeyStore \<times> bool" where
  "deactivate i store =
    (update_first (\<lambda>k. ake_id k = i) (\<lambda>k. k\<lparr> active := False \<rparr>) store, list_ex (\<lambda>k. ake_id k = i) store)"

definition touch :: "api_env \<Rightarrow> DateTime \<Rightarrow> string \<Rightarrow> ApiKeyStore \<Rightarrow> ApiKeyStore" where
  "touch A t i = update_first (\<lambda>k. ake_id k = i) (\<lambda>k. k\<lparr> last_used := Some (ae_rfc3339 A t) \<rparr>)"

definition list_info :: "ApiKeyStore \<Rightarrow> ApiKeyInfo list" where
  "list_info = map (\<lambda>k. \<lparr> aki_id = ake_id k, aki_name = ake_name k, aki_scopes = ake_scopes k, aki_created_at = ake_created_at k,
     aki_active = active k, aki_last_used = last_used k, aki_allowed_domains = allowed_domains k \<rparr>)"

definition var_of :: "api_env \<Rightarrow> string \<Rightarrow> string option" where
  "var_of A = map_of (rev (ae_vars A))"

definition hash_api_key :: "api_env \<Rightarrow> string \<Rightarrow> panic + bytes" where
  "hash_api_key A key =
    (if var_of A ''CITADEL_PROFILE'' = Some ''local-pilot'' then
       map_err (\<lambda>_. Panic)
         (and_then (validate_pairs (ae_vars A)) (\<lambda>config.
          and_then (Provider_open (ae_host A) (root_key_file config)) (\<lambda>provider.
          and_then (load_root_key (ae_host A) provider) (\<lambda>root_key.
          Inr (hmac_sha256 (ae_crypto A) root_key (as_bytes key))))))
     else
       let master_key_str = (case var_of A ''CITADEL_MASTER_KEY'' of Some s \<Rightarrow> s | None \<Rightarrow> ''citadel-api-pepper-not-configured'') in
       and_then (if master_key_str = ''citadel-api-pepper-not-configured'' then Inr (as_bytes master_key_str)
                 else validate_master_key (ae_hex_decode A) master_key_str) (\<lambda>master_key_bytes.
       Inr (hmac_sha256 (ae_crypto A) master_key_bytes (as_bytes key))))"

section \<open>Responses\<close>

record AuthContext =
  au_key_id :: string
  au_key_name :: string
  au_scopes :: "Scope list"
  au_allowed_domains :: "string list option"

record KeyResponse =
  kr_id :: string
  kr_name :: string
  kr_key_type :: string
  kr_state :: string
  kr_version :: u32
  kr_usage_count :: u64
  kr_created_at :: DateTime
  kr_updated_at :: DateTime
  kr_policy_id :: "string option"
  kr_parent_id :: "string option"

datatype Body =
    ErrorBody string
  | KeyBody KeyResponse
  | KeysBody "KeyResponse list"
  | KeyIdBody string
  | StatusBody string
  | RotatedBody string
  | BlobBody EncryptedBlob
  | PlaintextBody bytes
  | SignedBody SignedPayload
  | ValidBody bool string u32
  | VerifyingKeyBody string u32 string string string nat
  | AssertionBody CitadelAssertion
  | ClaimsBody VerifiedClaims
  | InvalidBody string
  | ApiKeysBody "ApiKeyInfo list"
  | CreatedBody string string string "Scope list"
  | WhoamiBody AuthContext bool
  | ThreatBody ThreatLevel
  | SystemBody ThreatLevel nat nat
  | PoliciesBody "AdaptationSummary list"
  | ReportBody nat nat nat
  | PageBody

record Response =
  status :: nat
  body :: Body

definition reply :: "nat \<Rightarrow> Body \<Rightarrow> Response" where "reply s b = \<lparr> status = s, body = b \<rparr>"
definition deny :: "nat \<Rightarrow> string \<Rightarrow> Response" where "deny s msg = reply s (ErrorBody msg)"
definition err :: "string \<Rightarrow> Response" where "err msg = deny 400 msg"
definition err500 :: "string \<Rightarrow> Response" where "err500 msg = deny 500 msg"

definition is_global_admin :: "AuthContext \<Rightarrow> bool" where
  "is_global_admin auth \<longleftrightarrow> au_allowed_domains auth = None \<and> Admin \<in> set (au_scopes auth)"

definition require_global_admin :: "AuthContext \<Rightarrow> Response + unit" where
  "require_global_admin auth =
    (if is_global_admin auth then Inr ()
     else Inl (deny 403 ''this endpoint exposes/mutates global state and requires a global admin key''))"

section \<open>Administration of API keys\<close>

datatype ApiKeyAction =
    CreateApiKey "Scope list" "string list option"
  | ListApiKeys
  | RevokeApiKey ApiKeyEntry

definition authorize_api_key_admin_action :: "AuthContext \<Rightarrow> ApiKeyAction \<Rightarrow> Response + unit" where
  "authorize_api_key_admin_action auth act =
    (if is_global_admin auth then Inr ()
     else case act of
       CreateApiKey scopes domains \<Rightarrow>
         (case domains of
            None \<Rightarrow> Inl (deny 403 ''scoped admin cannot create global API keys'')
          | Some target_domains \<Rightarrow>
              if Admin \<in> set scopes then Inl (deny 403 ''scoped admin cannot create admin API keys'')
              else
                let foreign = (case au_allowed_domains auth of None \<Rightarrow> None
                      | Some admin_domains \<Rightarrow> find (\<lambda>d. d \<notin> set admin_domains) target_domains) in
                case foreign of
                  Some d \<Rightarrow> Inl (deny 403 (''scoped admin cannot create API key for domain '' @ CHR 0x27 # d @ CHR 0x27 #
                    '' outside allowed domains''))
                | None \<Rightarrow>
                    (case find (\<lambda>s. s \<notin> set (au_scopes auth)) scopes of
                       Some s \<Rightarrow> Inl (deny 403 (''scoped admin cannot grant scope '' @ CHR 0x27 # show_scope_debug s @ CHR 0x27 #
                         '' they do not have''))
                     | None \<Rightarrow> Inr ()))
     | ListApiKeys \<Rightarrow> Inr ()
     | RevokeApiKey target \<Rightarrow>
         if allowed_domains target = None \<and> Admin \<in> set (ake_scopes target) then
           Inl (deny 403 ''scoped admin cannot revoke global admin API keys'')
         else case allowed_domains target of
           None \<Rightarrow> Inr ()
         | Some target_domains \<Rightarrow>
             (case au_allowed_domains auth of
                Some admin_domains \<Rightarrow>
                  if list_all (\<lambda>d. d \<in> set admin_domains) target_domains then Inr ()
                  else Inl (deny 403 ''scoped admin cannot revoke API key outside allowed domains'')
              | None \<Rightarrow> Inl (deny 403 ''invalid admin configuration'')))"

definition list_api_keys :: "AuthContext \<Rightarrow> ApiKeyStore \<Rightarrow> Response" where
  "list_api_keys auth store =
    (case authorize_api_key_admin_action auth ListApiKeys of
       Inl r \<Rightarrow> r
     | Inr _ \<Rightarrow>
         let all_keys = list_info store in
         if is_global_admin auth then reply 200 (ApiKeysBody all_keys)
         else case au_allowed_domains auth of
           Some admin_domains \<Rightarrow>
             reply 200 (ApiKeysBody (filter (\<lambda>info. case aki_allowed_domains info of
               Some key_domains \<Rightarrow> list_all (\<lambda>d. d \<in> set admin_domains) key_domains | None \<Rightarrow> False) all_keys))
         | None \<Rightarrow> reply 200 (ApiKeysBody []))"

record CreateApiKeyReq =
  cr_name :: string
  cr_scopes :: "string list"
  cr_allowed_domains :: "string list option"

fun parse_scopes :: "string list \<Rightarrow> Scope list \<Rightarrow> Response + Scope list" where
  "parse_scopes [] scopes = Inr scopes"
| "parse_scopes (s # ss) scopes =
     (case Scope_from_str s of
        Some scope \<Rightarrow> parse_scopes ss (if scope \<in> set scopes then scopes else scopes @ [scope])
      | None \<Rightarrow> Inl (err (''invalid scope '' @ CHR 0x27 # s @ CHR 0x27 # '' - valid: read, encrypt, manage, admin'')))"

definition scoping_rules :: "string list option \<Rightarrow> bool \<Rightarrow> Response + unit" where
  "scoping_rules domains is_admin =
    (case (domains, is_admin) of
       (Some ds, True) \<Rightarrow>
         if ds = [] then Inl (err ''empty allowed_domains list is invalid - use null for global admin or specify domains'') else Inr ()
     | (None, False) \<Rightarrow> Inl (err ''non-admin API keys must be scoped to at least one domain'')
     | (Some ds, False) \<Rightarrow>
         if ds = [] then Inl (err ''empty allowed_domains list is invalid - specify at least one domain'') else Inr ()
     | _ \<Rightarrow> Inr ())"

text \<open>The state the administration routes change. The random bytes and the time are arguments; \<open>None\<close> is a panic (of the
  hashing, when the master key is not valid).\<close>

record ApiState =
  api_keys :: ApiKeyStore
  api_keys_path :: string
  ak_disk :: disk

definition create_entry :: "api_env \<Rightarrow> bytes \<Rightarrow> bytes \<Rightarrow> DateTime \<Rightarrow> CreateApiKeyReq \<Rightarrow> Scope list \<Rightarrow> panic + string \<times> ApiKeyEntry" where
  "create_entry A key_bytes id_bytes t req scopes =
    (let plaintext_key = ae_hex_encode A key_bytes in
     and_then (hash_api_key A plaintext_key) (\<lambda>h.
     Inr (plaintext_key, \<lparr> ake_id = ''ck_'' @ ae_hex_encode A id_bytes, ake_name = cr_name req, key_hash = ae_hex_encode A h,
       ake_scopes = scopes, ake_created_at = ae_rfc3339 A t, active = True, last_used = None,
       allowed_domains = cr_allowed_domains req \<rparr>)))"

definition create_api_key ::
  "api_env \<Rightarrow> bytes \<Rightarrow> bytes \<Rightarrow> DateTime \<Rightarrow> AuthContext \<Rightarrow> CreateApiKeyReq \<Rightarrow> ApiState \<Rightarrow> Response option \<times> ApiState" where
  "create_api_key A key_bytes id_bytes t auth req s =
    (if cr_name req = [] \<or> length (cr_name req) > 100 then (Some (err ''name must be 1-100 characters''), s)
     else case parse_scopes (cr_scopes req) [] of
       Inl r \<Rightarrow> (Some r, s)
     | Inr scopes \<Rightarrow>
         if scopes = [] then (Some (err ''at least one scope required''), s)
         else case authorize_api_key_admin_action auth (CreateApiKey scopes (cr_allowed_domains req)) of
           Inl r \<Rightarrow> (Some r, s)
         | Inr _ \<Rightarrow>
             (case scoping_rules (cr_allowed_domains req) (Admin \<in> set scopes) of
                Inl r \<Rightarrow> (Some r, s)
              | Inr _ \<Rightarrow>
                  (case create_entry A key_bytes id_bytes t req scopes of
                     Inl _ \<Rightarrow> (None, s)
                   | Inr (plaintext_key, entry) \<Rightarrow>
                       let store = add_key entry (api_keys s);
                           (saved, d) = ApiKeyStore_save A (api_keys_path s) store (ak_disk s);
                           s' = s\<lparr> api_keys := store, ak_disk := d \<rparr> in
                       (case saved of
                          Inl e \<Rightarrow> (Some (err500 (''failed to save: '' @ e)), s')
                        | Inr _ \<Rightarrow> (Some (reply 201 (CreatedBody (ake_id entry) (cr_name req) plaintext_key scopes)), s')))))"

definition revoke_api_key :: "api_env \<Rightarrow> AuthContext \<Rightarrow> string \<Rightarrow> ApiState \<Rightarrow> Response \<times> ApiState" where
  "revoke_api_key A auth i s =
    (case find (\<lambda>k. ake_id k = i) (api_keys s) of
       None \<Rightarrow> (err (''API key '' @ CHR 0x27 # i @ CHR 0x27 # '' not found''), s)
     | Some target \<Rightarrow>
         (case authorize_api_key_admin_action auth (RevokeApiKey target) of
            Inl r \<Rightarrow> (r, s)
          | Inr _ \<Rightarrow>
              if \<not> active target then (err (''API key '' @ CHR 0x27 # i @ CHR 0x27 # '' already revoked''), s)
              else if Admin \<in> set (ake_scopes target) \<and>
                length (filter (\<lambda>k. ake_id k \<noteq> i \<and> active k \<and> Admin \<in> set (ake_scopes k)) (api_keys s)) = 0 then
                (err ''cannot revoke the last admin key'', s)
              else
                let store = fst (deactivate i (api_keys s));
                    (saved, d) = ApiKeyStore_save A (api_keys_path s) store (ak_disk s);
                    s' = s\<lparr> api_keys := store, ak_disk := d \<rparr> in
                (case saved of
                   Inl e \<Rightarrow> (err500 (''failed to save: '' @ e), s')
                 | Inr _ \<Rightarrow> (reply 200 (StatusBody ''revoked''), s'))))"

definition whoami :: "AuthContext option \<Rightarrow> Response" where
  "whoami ext =
    (case ext of Some ctx \<Rightarrow> reply 200 (WhoamiBody ctx (is_global_admin ctx)) | None \<Rightarrow> deny 401 ''authentication required'')"

section \<open>Runs of the administration routes\<close>

text \<open>A step is one call of a route that changes the store, by the caller \<open>auth\<close>, or the update of the time of last use.\<close>

inductive admin_step :: "api_env \<Rightarrow> AuthContext \<Rightarrow> ApiState \<Rightarrow> ApiState \<Rightarrow> bool" for A where
  create: "admin_step A auth s (snd (create_api_key A kb ib t auth req s))"
| revoke: "admin_step A auth s (snd (revoke_api_key A auth i s))"

inductive store_step :: "api_env \<Rightarrow> ApiState \<Rightarrow> ApiState \<Rightarrow> bool" for A where
  admin: "admin_step A auth s s' \<Longrightarrow> store_step A s s'"
| touched: "store_step A s (s\<lparr> api_keys := touch A t i (api_keys s), ak_disk := d \<rparr>)"

text \<open>\<open>subsumed auth k\<close>: the authority of a key is part of the caller's. \<open>revocable ds k\<close>: the key acts inside the domains \<open>ds\<close>, or is a
  global key without administration rights, of which a well-formed store has none.\<close>

definition subsumed :: "AuthContext \<Rightarrow> ApiKeyEntry \<Rightarrow> bool" where
  "subsumed auth k \<longleftrightarrow> (\<exists>ds. allowed_domains k = Some ds \<and> ds \<noteq> [] \<and> Admin \<notin> set (ake_scopes k) \<and>
     set (ake_scopes k) \<subseteq> set (au_scopes auth) \<and> (\<forall>ads. au_allowed_domains auth = Some ads \<longrightarrow> set ds \<subseteq> set ads))"

definition revocable :: "string list \<Rightarrow> ApiKeyEntry \<Rightarrow> bool" where
  "revocable ads k \<longleftrightarrow> (case allowed_domains k of Some ds \<Rightarrow> set ds \<subseteq> set ads | None \<Rightarrow> Admin \<notin> set (ake_scopes k))"

definition bounded_change :: "AuthContext \<Rightarrow> string list \<Rightarrow> ApiKeyStore \<Rightarrow> ApiKeyStore \<Rightarrow> bool" where
  "bounded_change auth ads store store' \<longleftrightarrow> (\<exists>old new. store' = old @ new \<and>
     list_all2 (\<lambda>k k'. k' = k \<or> k' = k\<lparr> active := False \<rparr> \<and> revocable ads k) store old \<and> (\<forall>k \<in> set new. subsumed auth k))"

definition key_wf :: "ApiKeyEntry \<Rightarrow> bool" where
  "key_wf k \<longleftrightarrow> allowed_domains k \<noteq> Some [] \<and> (allowed_domains k = None \<longrightarrow> Admin \<in> set (ake_scopes k))"

definition store_wf :: "ApiKeyStore \<Rightarrow> bool" where
  "store_wf store \<longleftrightarrow> list_all key_wf store \<and> list_ex (\<lambda>k. active k \<and> Admin \<in> set (ake_scopes k)) store"

section \<open>Lemmas\<close>

lemma set_update_first: "set (update_first P f xs) \<subseteq> set xs \<union> f ` {x \<in> set xs. P x}"
  by (induction xs) auto

lemma update_first_keeps: "x \<in> set xs \<Longrightarrow> \<not> P x \<Longrightarrow> x \<in> set (update_first P f xs)"
  by (induction xs) auto

lemma update_first_found:
  "find P xs = Some x \<Longrightarrow> list_all2 (\<lambda>a b. b = a \<or> a = x \<and> b = f x) xs (update_first P f xs)"
  by (induction xs) (auto simp: list_all2_same split: if_splits)

lemma update_first_changed:
  assumes "find P xs = Some x" "y \<in> set xs" "y \<noteq> x"
  shows "y \<in> set (update_first P f xs)"
  using assms by (induction xs) (auto split: if_splits)

lemma parse_scopes_acc: "parse_scopes ss acc = Inr scopes \<Longrightarrow> set acc \<subseteq> set scopes"
  by (induction ss arbitrary: acc) (auto split: option.splits if_splits, (fastforce dest: in_mono)+)

lemma authorize_create_within:
  assumes "authorize_api_key_admin_action auth (CreateApiKey scopes domains) = Inr ()" "\<not> is_global_admin auth"
  shows "\<exists>ds. domains = Some ds \<and> Admin \<notin> set scopes \<and> set scopes \<subseteq> set (au_scopes auth) \<and>
    (\<forall>ads. au_allowed_domains auth = Some ads \<longrightarrow> set ds \<subseteq> set ads)"
  using assms
  by (auto simp: authorize_api_key_admin_action_def Let_def find_None_iff split: option.splits if_splits)

lemma authorize_revoke_revocable:
  assumes "authorize_api_key_admin_action auth (RevokeApiKey k) = Inr ()" "\<not> is_global_admin auth"
    and "au_allowed_domains auth = Some ads"
  shows "revocable ads k"
  using assms
  by (auto simp: authorize_api_key_admin_action_def revocable_def list_all_iff split: option.splits if_splits)

lemma create_store_cases:
  obtains "api_keys (snd (create_api_key A kb ib t auth req s)) = api_keys s"
  | entry where "api_keys (snd (create_api_key A kb ib t auth req s)) = api_keys s @ [entry]"
      "authorize_api_key_admin_action auth (CreateApiKey (ake_scopes entry) (allowed_domains entry)) = Inr ()"
      "scoping_rules (allowed_domains entry) (Admin \<in> set (ake_scopes entry)) = Inr ()" "active entry"
proof (cases "api_keys (snd (create_api_key A kb ib t auth req s)) = api_keys s")
  case False
  then obtain scopes pk entry where
    "authorize_api_key_admin_action auth (CreateApiKey scopes (cr_allowed_domains req)) = Inr ()"
    "scoping_rules (cr_allowed_domains req) (Admin \<in> set scopes) = Inr ()"
    "create_entry A kb ib t req scopes = Inr (pk, entry)"
    "api_keys (snd (create_api_key A kb ib t auth req s)) = api_keys s @ [entry]"
    by (auto simp: create_api_key_def Let_def add_key_def split: if_splits sum.splits prod.splits)
  then show ?thesis using that(2) [of entry] by (auto simp: create_entry_def Let_def)
qed (use that(1) in blast)

lemma revoke_store_cases:
  obtains "api_keys (snd (revoke_api_key A auth i s)) = api_keys s"
  | target where "find (\<lambda>k. ake_id k = i) (api_keys s) = Some target"
      "authorize_api_key_admin_action auth (RevokeApiKey target) = Inr ()" "active target"
      "Admin \<in> set (ake_scopes target) \<Longrightarrow>
         \<exists>k \<in> set (api_keys s). ake_id k \<noteq> i \<and> active k \<and> Admin \<in> set (ake_scopes k)"
      "api_keys (snd (revoke_api_key A auth i s)) =
         update_first (\<lambda>k. ake_id k = i) (\<lambda>k. k\<lparr> active := False \<rparr>) (api_keys s)"
proof (cases "api_keys (snd (revoke_api_key A auth i s)) = api_keys s")
  case False
  then obtain target where t: "find (\<lambda>k. ake_id k = i) (api_keys s) = Some target"
    "authorize_api_key_admin_action auth (RevokeApiKey target) = Inr ()" "active target"
    "\<not> (Admin \<in> set (ake_scopes target) \<and>
       length (filter (\<lambda>k. ake_id k \<noteq> i \<and> active k \<and> Admin \<in> set (ake_scopes k)) (api_keys s)) = 0)"
    by (auto simp: revoke_api_key_def split: option.splits sum.splits if_splits)
  then have "api_keys (snd (revoke_api_key A auth i s)) =
      update_first (\<lambda>k. ake_id k = i) (\<lambda>k. k\<lparr> active := False \<rparr>) (api_keys s)"
    by (auto simp: revoke_api_key_def deactivate_def Let_def split: sum.splits prod.splits if_splits)
  moreover have "\<exists>k \<in> set (api_keys s). ake_id k \<noteq> i \<and> active k \<and> Admin \<in> set (ake_scopes k)"
    if "Admin \<in> set (ake_scopes target)" using t(4) that by (auto simp: filter_empty_conv)
  ultimately show ?thesis using that(2) t(1-3) by blast
qed (use that(1) in blast)

lemma bounded_change_refl: "bounded_change auth ads store store"
  unfolding bounded_change_def by (intro exI [of _ store] exI [of _ "[]"]) (simp add: list_all2_same)

lemma subsumed_inactive: "subsumed auth (k\<lparr> active := a \<rparr>) = subsumed auth k" "revocable ads (k\<lparr> active := a \<rparr>) = revocable ads k"
  by (simp_all add: subsumed_def revocable_def split: option.split)

text \<open>A later revocation acts on the two parts of the store separately.\<close>

lemma bounded_change_revoke:
  assumes "bounded_change auth ads store store1" "find P store1 = Some k" "revocable ads k"
  shows "bounded_change auth ads store (update_first P (\<lambda>k. k\<lparr> active := False \<rparr>) store1)"
proof -
  let ?R = "\<lambda>k k'. k' = k \<or> k' = k\<lparr> active := False \<rparr> \<and> revocable ads k"
  let ?s2 = "update_first P (\<lambda>k. k\<lparr> active := False \<rparr>) store1"
  obtain old new where o: "store1 = old @ new" "list_all2 ?R store old" "\<forall>k \<in> set new. subsumed auth k"
    using assms(1) by (auto simp: bounded_change_def)
  from update_first_found [OF assms(2)] have "list_all2 ?R store1 ?s2"
    by (rule list_all2_mono) (use assms(3) in auto)
  then obtain old2 new2 where s2: "?s2 = old2 @ new2" "list_all2 ?R old old2" "list_all2 ?R new new2"
    unfolding o(1) list_all2_append1 by auto
  have "list_all2 ?R store old2"
    by (rule list_all2_trans [OF _ o(2) s2(2)]) (auto simp: subsumed_inactive)
  moreover have "subsumed auth k" if k: "k \<in> set new2" for k
  proof -
    obtain j where j: "j < length new2" "k = new2 ! j" using k by (metis in_set_conv_nth)
    then have "?R (new ! j) k" "new ! j \<in> set new" using list_all2_nthD2 [OF s2(3)] list_all2_lengthD [OF s2(3)] by auto
    with o(3) show ?thesis by (auto simp: subsumed_inactive)
  qed
  ultimately show ?thesis unfolding bounded_change_def s2(1) by blast
qed

lemma admin_step_bounded:
  assumes "admin_step A auth s s'" "\<not> is_global_admin auth" "au_allowed_domains auth = Some ads"
    and "bounded_change auth ads store (api_keys s)"
  shows "bounded_change auth ads store (api_keys s')"
  using assms(1)
proof cases
  case (create kb ib t req)
  show ?thesis
  proof (cases rule: create_store_cases [of A kb ib t auth req s])
    case 1
    then show ?thesis using create assms(4) by simp
  next
    case (2 entry)
    obtain ds where "allowed_domains entry = Some ds" "Admin \<notin> set (ake_scopes entry)"
      "set (ake_scopes entry) \<subseteq> set (au_scopes auth)" "set ds \<subseteq> set ads"
      using authorize_create_within [OF 2(2) assms(2)] assms(3) by auto
    then have "subsumed auth entry" using 2(3) assms(3) by (auto simp: subsumed_def scoping_rules_def split: if_splits)
    moreover obtain old new where "api_keys s = old @ new"
      "list_all2 (\<lambda>k k'. k' = k \<or> k' = k\<lparr> active := False \<rparr> \<and> revocable ads k) store old" "\<forall>k \<in> set new. subsumed auth k"
      using assms(4) by (auto simp: bounded_change_def)
    ultimately show ?thesis
      unfolding bounded_change_def create 2(1) by (intro exI [of _ old] exI [of _ "new @ [entry]"]) auto
  qed
next
  case (revoke i)
  show ?thesis
  proof (cases rule: revoke_store_cases [of A auth i s])
    case 1
    then show ?thesis using revoke assms(4) by simp
  next
    case (2 target)
    then show ?thesis
      using bounded_change_revoke [OF assms(4) 2(1) authorize_revoke_revocable [OF 2(2) assms(2,3)]] revoke by simp
  qed
qed

lemma key_wf_inactive: "key_wf (k\<lparr> active := a \<rparr>) = key_wf k" "key_wf (k\<lparr> last_used := u \<rparr>) = key_wf k"
  by (simp_all add: key_wf_def)

lemma store_wf_iff:
  "store_wf store \<longleftrightarrow> (\<forall>k \<in> set store. key_wf k) \<and> (\<exists>k \<in> set store. active k \<and> Admin \<in> set (ake_scopes k))"
  by (simp add: store_wf_def list_all_iff list_ex_iff)

lemma touch_wf: "store_wf store \<Longrightarrow> store_wf (touch A t i store)"
proof -
  let ?f = "\<lambda>k. k\<lparr> last_used := Some (ae_rfc3339 A t) \<rparr>"
  have "(\<forall>k \<in> set store. key_wf k) \<longrightarrow> (\<forall>k \<in> set (touch A t i store). key_wf k)"
    using set_update_first [of "\<lambda>k. ake_id k = i" ?f store] key_wf_inactive(2) unfolding touch_def by blast
  moreover have "(\<exists>k \<in> set store. active k \<and> Admin \<in> set (ake_scopes k)) \<longrightarrow>
      (\<exists>k \<in> set (touch A t i store). active k \<and> Admin \<in> set (ake_scopes k))"
    unfolding touch_def by (induction store) auto
  ultimately show "store_wf store \<Longrightarrow> store_wf (touch A t i store)" by (auto simp: store_wf_iff)
qed

lemma scoping_rules_wf:
  "scoping_rules (allowed_domains k) (Admin \<in> set (ake_scopes k)) = Inr () \<Longrightarrow> key_wf k"
  by (auto simp: scoping_rules_def key_wf_def split: option.splits if_splits bool.splits)

lemma revoke_wf:
  assumes "store_wf store" "find (\<lambda>k. ake_id k = i) store = Some target"
    and "Admin \<in> set (ake_scopes target) \<Longrightarrow> \<exists>k \<in> set store. ake_id k \<noteq> i \<and> active k \<and> Admin \<in> set (ake_scopes k)"
  shows "store_wf (update_first (\<lambda>k. ake_id k = i) (\<lambda>k. k\<lparr> active := False \<rparr>) store)" (is "store_wf ?s'")
proof -
  have "\<forall>k \<in> set ?s'. key_wf k"
    using assms(1) set_update_first [of "\<lambda>k. ake_id k = i" "\<lambda>k. k\<lparr> active := False \<rparr>" store] key_wf_inactive(1)
    unfolding store_wf_iff by blast
  moreover obtain k where "k \<in> set store" "k \<noteq> target" "active k" "Admin \<in> set (ake_scopes k)"
    using assms by (auto simp: store_wf_iff find_Some_iff)
  then have "\<exists>k \<in> set ?s'. active k \<and> Admin \<in> set (ake_scopes k)"
    using update_first_changed [OF assms(2), of k] by blast
  ultimately show ?thesis by (simp add: store_wf_iff)
qed

lemma store_step_wf: "store_step A s s' \<Longrightarrow> store_wf (api_keys s) \<Longrightarrow> store_wf (api_keys s')"
proof (induction rule: store_step.induct)
  case (admin auth s s')
  from admin(1) show ?case
  proof cases
    case (create kb ib t req)
    then show ?thesis
      using admin(2) scoping_rules_wf
      by (cases rule: create_store_cases [of A kb ib t auth req s]) (auto simp: store_wf_iff)
  next
    case (revoke i)
    then show ?thesis
      using admin(2) by (cases rule: revoke_store_cases [of A auth i s]) (simp_all add: revoke_wf)
  qed
qed (simp add: touch_wf)

section \<open>Properties\<close>

text \<open>C20: an administrator of some domains cannot widen anybody's authority. Whatever sequence of create and revoke calls a caller
  makes whose key is confined to domains, every key that the store has gained acts inside the caller's domains with a part of the
  caller's scopes, never \<open>Admin\<close>, and an old key is unchanged, or switched off and confined to the caller's domains.\<close>

theorem scoped_admin_contained:
  assumes "(admin_step A auth)\<^sup>*\<^sup>* s s'" "au_allowed_domains auth = Some ads"
  shows "bounded_change auth ads (api_keys s) (api_keys s')"
proof -
  have g: "\<not> is_global_admin auth" using assms(2) by (simp add: is_global_admin_def)
  from assms(1) show ?thesis
    by (induction rule: rtranclp_induct) (auto intro: bounded_change_refl admin_step_bounded [OF _ g assms(2)])
qed

definition demo_admin :: ApiKeyEntry where
  "demo_admin = \<lparr> ake_id = ''ck_a'', ake_name = ''a'', key_hash = ''h'', ake_scopes = [Admin], ake_created_at = '''', active = True,
     last_used = None, allowed_domains = None \<rparr>"

definition demo_api_state :: ApiState where
  "demo_api_state = \<lparr> api_keys = [demo_admin, demo_admin\<lparr> ake_id := ''ck_b'', allowed_domains := Some [''d''] \<rparr>],
     api_keys_path = ''keys'', ak_disk = \<lparr> contents = None, io_results = [] \<rparr> \<rparr>"

definition demo_auth :: AuthContext where
  "demo_auth = \<lparr> au_key_id = ''ck_b'', au_key_name = ''a'', au_scopes = [Admin], au_allowed_domains = Some [''d''] \<rparr>"

definition demo_api :: api_env where
  "demo_api = \<lparr> ae_vars = [], ae_host = demo_host, ae_crypto = toy_crypto, ae_hex_encode = toy_hex, ae_hex_decode = (\<lambda>s. Inr (toy_unhex s)),
     ae_json = (\<lambda>_. Inr ''[]''), ae_parse = (\<lambda>_. Inr []), ae_rfc3339 = (\<lambda>_. ''now'') \<rparr>"

theorem scoped_admin_contained_witness:
  "bounded_change demo_auth [''d''] (api_keys demo_api_state) (api_keys (snd (revoke_api_key demo_api demo_auth ''ck_a'' demo_api_state)))"
  by (rule scoped_admin_contained [OF r_into_rtranclp [of "admin_step demo_api demo_auth", OF admin_step.revoke]])
    (simp add: demo_auth_def)

text \<open>The store of API keys stays well-formed under every use of its routes, by any callers: a key without domains is an admin
  key, no key has an empty list of domains, and some admin key is active.\<close>

lemma api_key_store_invariant:
  assumes "(store_step A)\<^sup>*\<^sup>* s s'" "store_wf (api_keys s)"
  shows "store_wf (api_keys s')"
  using assms by (induction rule: rtranclp_induct) (auto intro: store_step_wf)

lemma api_key_store_invariant_witness:
  "store_wf (api_keys (snd (revoke_api_key demo_api demo_auth ''ck_b'' demo_api_state)))"
proof (rule api_key_store_invariant [OF r_into_rtranclp [of "store_step demo_api"]])
  show "store_step demo_api demo_api_state (snd (revoke_api_key demo_api demo_auth ''ck_b'' demo_api_state))"
    by (rule store_step.admin [OF admin_step.revoke])
  show "store_wf (api_keys demo_api_state)" by (simp add: demo_api_state_def demo_admin_def store_wf_def key_wf_def)
qed

text \<open>The protection of the last administrator counts administrators of single domains: the last global one can be revoked.\<close>

lemma last_global_admin_revocable:
  "let auth = \<lparr> au_key_id = ''ck_a'', au_key_name = ''a'', au_scopes = [Admin], au_allowed_domains = None \<rparr>;
       r = revoke_api_key demo_api auth ''ck_a'' demo_api_state in
   status (fst r) = 200 \<and> list_all (\<lambda>k. allowed_domains k = None \<longrightarrow> \<not> active k) (api_keys (snd r))"
  by (simp add: revoke_api_key_def demo_api_state_def demo_admin_def authorize_api_key_admin_action_def is_global_admin_def
      deactivate_def ApiKeyStore_save_def demo_api_def reply_def)

end
