(* ===== verification/Api_Routes.thy ===== *)
theory Api_Routes
  imports Api_Keys Rate_Limit
begin

text \<open>
  \<^verbatim>\<open>citadel-api/src/main.rs\<close>, second part: the domain gate, the routes on keys, and the two middlewares in front of them. A
  handler is an operation on the keystore that ends with a response; \<open>Inl (Reply r)\<close> is an early return of \<open>r\<close> and \<open>Inl Crashed\<close> a
  panic. \<^verbatim>\<open>build_app\<close> hands one shared enforcer to the server state and to the keystore, so a handler reaches it in the keystore. The
  dummy decryptions and the response deadline that hide timing are not modelled, nor is the text of the time stamps in bodies.
\<close>

datatype halt = Reply Response | Crashed

type_synonym ('s, 'r) handler = "('s, 'r, halt, Response) kop"

section \<open>Domains\<close>

datatype Operation =
    ReadKey | ListKeys | EncryptOp | DecryptOp | CreateRoot | CreateDomain | CreateKek | CreateDek | CreateSigningKey
  | ActivateKey | RotateKey | RevokeKeyOp | DestroyKey

definition domain_denied :: "Operation \<Rightarrow> KeyId \<Rightarrow> Response" where
  "domain_denied opn target_domain =
    (case opn of
       DecryptOp \<Rightarrow> deny 400 ''operation failed''
     | EncryptOp \<Rightarrow> deny 403 (''access denied for domain '' @ target_domain)
     | _ \<Rightarrow> deny 403 (''API key not allowed for domain '' @ target_domain))"

definition authorize_domain_access ::
  "('s, 'r) kenv \<Rightarrow> AuthContext \<Rightarrow> Operation \<Rightarrow> KeyId option \<Rightarrow> ('s, 'r, Response, KeyId option) kop" where
  "authorize_domain_access E auth opn target =
    (if is_global_admin auth then ret None
     else if opn = ListKeys then ret None
     else if opn \<in> {CreateRoot, CreateDomain} then throw (deny 403 ''creating Root or Domain requires global admin access'')
     else
       bnd (lift (ok_or target (deny 500 ''target_key_id required for this operation''))) (\<lambda>key_id.
       bnd (on_err (\<lambda>e. deny 400 (if opn = DecryptOp then ''operation failed'' else ''cannot resolve domain: '' @ show_error e))
         (resolve_domain_for_key E key_id)) (\<lambda>target_domain.
       case au_allowed_domains auth of
         Some allowed \<Rightarrow> if target_domain \<in> set allowed then ret (Some target_domain) else throw (domain_denied opn target_domain)
       | None \<Rightarrow> ret (Some target_domain))))"

definition caller_can_read_key :: "AuthContext \<Rightarrow> string option \<Rightarrow> bool" where
  "caller_can_read_key auth key_domain =
    (case (key_domain, au_allowed_domains auth) of
       (None, _) \<Rightarrow> True
     | (Some _, None) \<Rightarrow> True
     | (Some kd, Some allowed) \<Rightarrow> list_ex (\<lambda>d. d = kd) allowed)"

text \<open>\<open>attempt\<close> is \<^verbatim>\<open>Result::ok\<close>.\<close>

definition attempt :: "('s, 'r, 'f, 'a) kop \<Rightarrow> ('s, 'r, 'e, 'a option) kop" where
  "attempt m k = (case m k of (Inl _, k') \<Rightarrow> (Inr None, k') | (Inr x, k') \<Rightarrow> (Inr (Some x), k'))"

definition lookup_readable_key_or_deny ::
  "('s, 'r) kenv \<Rightarrow> AuthContext \<Rightarrow> KeyId \<Rightarrow> ('s, 'r, Response, KeyMetadata) kop" where
  "lookup_readable_key_or_deny E auth key_id =
    bnd (on_err (\<lambda>e. if is_global_admin auth then deny 404 (show_error e) else deny 403 ''access denied'') (ks_get E key_id)) (\<lambda>meta.
    bnd (attempt (resolve_domain_for_key E key_id)) (\<lambda>key_domain.
    if \<not> caller_can_read_key auth key_domain then throw (deny 403 ''access denied'') else ret meta))"

section \<open>Helpers\<close>

definition ascii_lower :: "string \<Rightarrow> string" where
  "ascii_lower = map (\<lambda>c. let n = (of_char c :: nat) in if 65 \<le> n \<and> n \<le> 90 then char_of (n + 32) else c)"

definition parse_key_type :: "string \<Rightarrow> KeyType option" where
  "parse_key_type s =
    (let l = ascii_lower s in
     if l = ''root'' then Some Root
     else if l = ''domain'' then Some Domain
     else if l = ''kek'' \<or> l = ''keyencrypting'' then Some KeyEncrypting
     else if l = ''dek'' \<or> l = ''dataencrypting'' then Some DataEncrypting
     else if l = ''hybrid-id'' \<or> l = ''hybrididentity'' then Some HybridIdentity
     else if l = ''signing'' \<or> l = ''sign'' then Some Signing
     else None)"

definition parse_threat_kind :: "string \<Rightarrow> ThreatEventKind option" where
  "parse_threat_kind s = map_of
    [(''DecryptionFailure'', DecryptionFailure), (''RapidAccessPattern'', RapidAccessPattern), (''AnomalousAccess'', AnomalousAccess),
     (''ExternalAdvisory'', ExternalAdvisory), (''AuthFailure'', AuthFailure), (''KeyEnumeration'', KeyEnumeration),
     (''ManualEscalation'', ManualEscalation), (''ManualDeescalation'', ManualDeescalation)] s"

definition key_to_response :: "KeyMetadata \<Rightarrow> KeyResponse" where
  "key_to_response m =
    \<lparr> kr_id = km_id m, kr_name = km_name m, kr_key_type = show_key_type_debug (key_type m), kr_state = state_label (km_state m),
      kr_version = (if versions m = [] then 0 else kv_version (last (versions m))), kr_usage_count = usage_count m,
      kr_created_at = created_at m, kr_updated_at = updated_at m, kr_policy_id = policy_id m, kr_parent_id = parent_id m \<rparr>"

fun str_contains :: "string \<Rightarrow> string \<Rightarrow> bool" where
  "str_contains [] pat = (pat = [])"
| "str_contains (c # cs) pat = (starts_with (c # cs) pat \<or> str_contains cs pat)"

text \<open>A call of the enforcer; the nonce of the capability is 16 random bytes in little-endian order.\<close>

definition on_enforcer ::
  "(u128 \<Rightarrow> (nat \<Rightarrow> nat) \<Rightarrow> StateEnforcer \<Rightarrow> StateEnforcer \<times> (DenialReason + 'a)) \<Rightarrow> ('s, 'r, DenialReason, 'a) kop" where
  "on_enforcer f k =
    (case enforcer k of
       None \<Rightarrow> (Inl (MissingContext ''no StateEnforcer is bound''), k)
     | Some e \<Rightarrow>
         (case f (word_of_nat (be_nat (rev (r_id (draws k (drawn k)))))) (clock_from k) e of
            (e', r) \<Rightarrow> (r, k\<lparr> enforcer := Some e', tick := tick k + 2, drawn := drawn k + 1 \<rparr>)))"

definition update_enforcer :: "(StateEnforcer \<Rightarrow> StateEnforcer) \<Rightarrow> ('s, 'r, 'e, unit) kop" where
  "update_enforcer f = modify (\<lambda>k. k\<lparr> enforcer := map_option f (enforcer k) \<rparr>)"

definition enforcer_denied :: "DenialReason \<Rightarrow> halt" where
  "enforcer_denied reason = Reply (deny 403 (''StateEnforcer denied: '' @ show_denial reason))"

definition bad_request :: "KeystoreError \<Rightarrow> halt" where "bad_request e = Reply (err (show_error e))"

section \<open>Routes on keys\<close>

fun visible_keys :: "('s, 'r) kenv \<Rightarrow> AuthContext \<Rightarrow> KeyMetadata list \<Rightarrow> ('s, 'r, 'e, KeyResponse list) kop" where
  "visible_keys E auth [] = ret []"
| "visible_keys E auth (key # keys) =
     bnd (attempt (resolve_domain_for_key E (km_id key))) (\<lambda>domn.
     bnd (visible_keys E auth keys) (\<lambda>rest.
     ret (case (domn, au_allowed_domains auth) of
        (Some d, Some allowed) \<Rightarrow> if d \<in> set allowed then key_to_response key # rest else rest
      | _ \<Rightarrow> rest)))"

definition list_keys_handler :: "('s, 'r) kenv \<Rightarrow> AuthContext \<Rightarrow> ('s, 'r) handler" where
  "list_keys_handler E auth =
    bnd (on_err (\<lambda>e. Reply (err500 (show_error e))) (list_keys E)) (\<lambda>keys.
    if is_global_admin auth then ret (reply 200 (KeysBody (map key_to_response keys)))
    else bnd (visible_keys E auth keys) (\<lambda>shown. ret (reply 200 (KeysBody shown))))"

definition get_key :: "('s, 'r) kenv \<Rightarrow> AuthContext \<Rightarrow> KeyId \<Rightarrow> ('s, 'r) handler" where
  "get_key E auth key_id =
    bnd (on_err Reply (authorize_domain_access E auth ReadKey (Some key_id))) (\<lambda>_.
    bnd (on_err bad_request (ks_get E key_id)) (\<lambda>m.
    ret (reply 200 (KeyBody (key_to_response m)))))"

record GenerateKeyReq =
  gk_name :: string
  gk_key_type :: string
  gk_policy_id :: "string option"
  gk_parent_id :: "string option"

fun create_operation :: "KeyType \<Rightarrow> Operation" where
  "create_operation Root = CreateRoot"
| "create_operation Domain = CreateDomain"
| "create_operation KeyEncrypting = CreateKek"
| "create_operation DataEncrypting = CreateDek"
| "create_operation HybridIdentity = CreateDek"
| "create_operation Signing = CreateSigningKey"

definition generate_key :: "('s, 'r) kenv \<Rightarrow> AuthContext \<Rightarrow> GenerateKeyReq \<Rightarrow> ('s, 'r) handler" where
  "generate_key E auth req =
    bnd (lift (ok_or (parse_key_type (gk_key_type req)) (Reply (err (''invalid key_type: '' @ gk_key_type req))))) (\<lambda>kt.
    bnd (on_err Reply (authorize_domain_access E auth (create_operation kt) (gk_parent_id req))) (\<lambda>_.
    bnd (if kt = Signing then
           (case gk_parent_id req of
              None \<Rightarrow> throw (Reply (err ''KeyType::Signing requires a parent_id (must be a KeyEncrypting key)''))
            | Some parent_kek \<Rightarrow> on_err bad_request (generate_signing_key E (gk_name req) (gk_policy_id req) parent_kek))
         else on_err bad_request (generate E (gk_name req) kt (gk_policy_id req) (gk_parent_id req))) (\<lambda>kid.
    bnd (attempt (resolve_domain_for_key E kid)) (\<lambda>actual_domain.
    bnd (update_enforcer (register_key kid actual_domain)) (\<lambda>_.
    ret (reply 201 (KeyIdBody kid)))))))"

definition activate_key :: "('s, 'r) kenv \<Rightarrow> AuthContext \<Rightarrow> KeyId \<Rightarrow> ('s, 'r) handler" where
  "activate_key E auth key_id =
    bnd (on_err Reply (authorize_domain_access E auth ActivateKey (Some key_id))) (\<lambda>resolved.
    bnd (on_err enforcer_denied (on_enforcer (\<lambda>r c. authorize_api_request r c key_id resolved ''/api/keys/:id/activate'' ''POST''))) (\<lambda>_.
    bnd (on_err bad_request (activate E key_id)) (\<lambda>_.
    ret (reply 200 (StatusBody ''activated'')))))"

definition rotate_key :: "('s, 'r) kenv \<Rightarrow> AuthContext \<Rightarrow> KeyId \<Rightarrow> ('s, 'r) handler" where
  "rotate_key E auth key_id =
    bnd now (\<lambda>t.
    let new_key_id_str = key_id @ ''-rotated-'' @ show_int (t div 1000000000) in
    bnd (on_err Reply (authorize_domain_access E auth RotateKey (Some key_id))) (\<lambda>resolved.
    bnd (on_err enforcer_denied (on_enforcer (\<lambda>r c. authorize_key_rotation r c key_id new_key_id_str resolved))) (\<lambda>_.
    bnd (on_err bad_request (rotate E key_id)) (\<lambda>new_id.
    bnd (update_enforcer (register_key new_id resolved)) (\<lambda>_.
    ret (reply 200 (RotatedBody new_id)))))))"

definition revoke_key_handler :: "('s, 'r) kenv \<Rightarrow> AuthContext \<Rightarrow> KeyId \<Rightarrow> string \<Rightarrow> ('s, 'r) handler" where
  "revoke_key_handler E auth key_id reason =
    bnd (on_err Reply (authorize_domain_access E auth RevokeKeyOp (Some key_id))) (\<lambda>resolved.
    bnd (on_err enforcer_denied (on_enforcer (\<lambda>r c. authorize_api_request r c key_id resolved ''/api/keys/:id/revoke'' ''POST''))) (\<lambda>_.
    bnd (on_err bad_request (revoke E key_id reason)) (\<lambda>_.
    bnd (update_enforcer (State_Enforcer.revoke_key key_id)) (\<lambda>_.
    ret (reply 200 (StatusBody ''revoked''))))))"

definition destroy_key :: "('s, 'r) kenv \<Rightarrow> AuthContext \<Rightarrow> KeyId \<Rightarrow> ('s, 'r) handler" where
  "destroy_key E auth key_id =
    bnd (on_err Reply (authorize_domain_access E auth DestroyKey (Some key_id))) (\<lambda>_.
    bnd (on_err bad_request (destroy E key_id)) (\<lambda>_.
    bnd (update_enforcer (State_Enforcer.revoke_key key_id)) (\<lambda>_.
    ret (reply 200 (StatusBody ''destroyed'')))))"

record EncryptReq =
  er_plaintext :: string
  er_aad :: string
  er_context :: string

fun encrypt_failed :: "fault \<Rightarrow> halt" where
  "encrypt_failed (Failed m) =
     (let msg = ''encrypt: '' @ m in
      Reply (if str_contains msg ''policy'' \<or> str_contains msg ''compliance'' then deny 403 msg else err msg))"
| "encrypt_failed (Aborted _) = Crashed"

definition encrypt_data :: "('s, 'r) kenv \<Rightarrow> AuthContext \<Rightarrow> KeyId \<Rightarrow> EncryptReq \<Rightarrow> ('s, 'r) handler" where
  "encrypt_data E auth key_id req =
    bnd (on_err Reply (authorize_domain_access E auth EncryptOp (Some key_id))) (\<lambda>resolved.
    bnd (on_err enforcer_denied (on_enforcer (\<lambda>r c. authorize_encrypt r c key_id resolved None))) (\<lambda>authz.
    bnd (on_err encrypt_failed (encrypt_authorized E authz (as_bytes (er_plaintext req)) (as_bytes (er_aad req)) (as_bytes (er_context req))))
      (\<lambda>blob.
    ret (reply 200 (BlobBody blob)))))"

record DecryptReq =
  dr_blob :: EncryptedBlob
  dr_aad :: string
  dr_context :: string

definition opaque_reply :: halt where "opaque_reply = Reply (deny 400 ''operation failed'')"

fun decrypt_failed :: "fault \<Rightarrow> halt" where
  "decrypt_failed (Failed _) = opaque_reply"
| "decrypt_failed (Aborted _) = Crashed"

text \<open>\<open>None\<close> is a body that is not JSON or not of the form of a request. The plaintext is sent with \<^verbatim>\<open>String::from_utf8_lossy\<close>.\<close>

definition decrypt_data :: "('s, 'r) kenv \<Rightarrow> AuthContext \<Rightarrow> DecryptReq option \<Rightarrow> ('s, 'r) handler" where
  "decrypt_data E auth parsed =
    (case parsed of
       None \<Rightarrow> throw opaque_reply
     | Some req \<Rightarrow>
         let key_id = eb_key_id (dr_blob req) in
         bnd (on_err Reply (authorize_domain_access E auth DecryptOp (Some key_id))) (\<lambda>resolved.
         bnd (on_err (\<lambda>_. opaque_reply) (on_enforcer (\<lambda>r c. authorize_decrypt r c key_id resolved))) (\<lambda>authz.
         bnd (on_err decrypt_failed (decrypt_authorized E authz (dr_blob req) (as_bytes (dr_aad req)) (as_bytes (dr_context req)))) (\<lambda>pt.
         ret (reply 200 (PlaintextBody pt))))))"

section \<open>Routes on signatures and assertions\<close>

definition sign_failed :: "string \<Rightarrow> halt" where
  "sign_failed m =
    (let msg = ''SignError: '' @ m in
     Reply (if str_contains msg ''StateEnforcer'' \<or> str_contains msg ''revoked'' \<or> str_contains msg ''Active'' then deny 403 msg
       else if str_contains msg ''KeyType'' \<or> str_contains msg ''Signing'' then deny 400 msg else err msg))"

definition sign_data :: "('s, 'r) kenv \<Rightarrow> AuthContext \<Rightarrow> KeyId \<Rightarrow> string \<Rightarrow> ('s, 'r) handler" where
  "sign_data E auth key_id payload_hex =
    bnd (lift (map_err (\<lambda>e. Reply (deny 400 (''invalid payload_hex: '' @ e))) (hex_decode E payload_hex))) (\<lambda>payload.
    bnd (on_err Reply (authorize_domain_access E auth ReadKey (Some key_id))) (\<lambda>resolved.
    bnd (on_err enforcer_denied (on_enforcer (\<lambda>r c. authorize_sign (k_crypto E) r c key_id resolved payload))) (\<lambda>authz.
    bnd (on_err sign_failed (sign_authorized E authz payload)) (\<lambda>signed.
    ret (reply 200 (SignedBody signed))))))"

record VerifyReq =
  vr_key_id :: string
  vr_key_version :: u32
  vr_payload_hex :: string
  vr_signature_hex :: string

definition verify_failed :: "string \<Rightarrow> halt" where
  "verify_failed m =
    (let msg = ''VerifyError: '' @ m in Reply (if str_contains msg ''not found'' then deny 404 msg else deny 400 msg))"

definition verify_signature_handler :: "('s, 'r) kenv \<Rightarrow> AuthContext \<Rightarrow> VerifyReq \<Rightarrow> ('s, 'r) handler" where
  "verify_signature_handler E auth req =
    bnd (on_err Reply (lookup_readable_key_or_deny E auth (vr_key_id req))) (\<lambda>_.
    bnd (lift (map_err (\<lambda>e. Reply (deny 400 (''invalid payload_hex: '' @ e))) (hex_decode E (vr_payload_hex req)))) (\<lambda>payload.
    bnd now (\<lambda>t.
    bnd (on_err verify_failed (verify_signature E (vr_key_id req) payload
      \<lparr> sp_key_id = vr_key_id req, sp_key_version = vr_key_version req, sp_signature_hex = vr_signature_hex req, signed_at = t \<rparr>)) (\<lambda>valid.
    ret (reply 200 (ValidBody valid (vr_key_id req) (vr_key_version req)))))))"

definition get_verifying_key :: "('s, 'r) kenv \<Rightarrow> AuthContext \<Rightarrow> KeyId \<Rightarrow> ('s, 'r) handler" where
  "get_verifying_key E auth key_id =
    bnd (on_err Reply (lookup_readable_key_or_deny E auth key_id)) (\<lambda>meta.
    if key_type meta \<noteq> Signing then
      throw (Reply (deny 400 (''key '' @ key_id @ '' is type '' @ show_key_type (key_type meta) @ '' '' @ em_dash @
        '' verifying-key only available for Signing keys'')))
    else case current_key_version meta of
      None \<Rightarrow> throw (Reply (err ''no current key version''))
    | Some kv \<Rightarrow>
        bnd (lift (map_err (\<lambda>e. Reply (err (''decode verifying key: '' @ e))) (hex_decode E (public_key_hex kv)))) (\<lambda>vk_bytes.
        ret (reply 200 (VerifyingKeyBody key_id (kv_version kv) (show_key_type (key_type meta)) (state_label (km_state meta))
          (public_key_hex kv) (length vk_bytes)))))"

definition show_assertion_error :: "string \<Rightarrow> string" where
  "show_assertion_error e = ''AssertionError: '' @ e"

record AssertionIssueReq =
  ai_signing_key_id :: string
  ai_ttl_secs :: u64
  ai_public_claims :: Value
  ai_sealed_claims_hex :: "string option"
  ai_sealed_claims_key_id :: "string option"
  ai_sealed_claims_key_version :: "u32 option"

definition issue_assertion :: "('s, 'r) kenv \<Rightarrow> signer_env \<Rightarrow> AuthContext \<Rightarrow> AssertionIssueReq \<Rightarrow> ('s, 'r) handler" where
  "issue_assertion E S auth req =
    (let key_id = ai_signing_key_id req in
    bnd (on_err Reply (authorize_domain_access E auth ReadKey (Some key_id))) (\<lambda>resolved.
    bnd (on_err (\<lambda>e. Reply (deny 404 (show_error e))) (ks_get E key_id)) (\<lambda>meta.
    if key_type meta \<noteq> Signing then
      throw (Reply (deny 400 (''key '' @ key_id @ '' is type '' @ show_key_type (key_type meta) @ '' '' @ em_dash @
        '' assertion issue requires a Signing key'')))
    else
    bnd now (\<lambda>t.
    bnd draw (\<lambda>r.
    bnd (lift (map_err (\<lambda>e. Reply (err (show_assertion_error e))) (build_unsigned S (t div 1000000000) (r_id r) key_id (current_version meta)
      (ai_public_claims req) (ai_ttl_secs req) (ai_sealed_claims_hex req) (ai_sealed_claims_key_id req)
      (ai_sealed_claims_key_version req)))) (\<lambda>unsigned.
    bnd (lift (map_err (\<lambda>e. Reply (err (show_assertion_error e))) (canonical_signing_input S unsigned))) (\<lambda>signing_input.
    bnd (on_err enforcer_denied (on_enforcer (\<lambda>r c. authorize_sign (k_crypto E) r c key_id resolved signing_input))) (\<lambda>authz.
    bnd (on_err (\<lambda>m. Reply (deny 403 (''SignError: '' @ m))) (sign_authorized E authz signing_input)) (\<lambda>signed.
    ret (reply 200 (AssertionBody (unsigned\<lparr> signature_hex := sp_signature_hex signed \<rparr>))))))))))))"

definition verify_assertion ::
  "('s, 'r) kenv \<Rightarrow> signer_env \<Rightarrow> AuthContext \<Rightarrow> CitadelAssertion \<Rightarrow> KeyId \<Rightarrow> ('s, 'r) handler" where
  "verify_assertion E S auth assertion key_id =
    bnd (on_err Reply (lookup_readable_key_or_deny E auth key_id)) (\<lambda>meta.
    bnd (lift (ok_or (current_key_version meta) (Reply (err ''no current key version'')))) (\<lambda>kv.
    bnd (lift (map_err (\<lambda>e. Reply (err (''decode verifying key: '' @ e))) (hex_decode E (public_key_hex kv)))) (\<lambda>vk_bytes.
    bnd now (\<lambda>t. bnd now (\<lambda>t1. bnd now (\<lambda>t2.
    case cna_verify S (t div 1000000000) t1 t2 assertion vk_bytes of
      Inr verified \<Rightarrow> ret (reply 200 (ClaimsBody verified))
    | Inl e \<Rightarrow> throw (Reply (reply 422 (InvalidBody (show_assertion_error e))))))))))"

section \<open>Global routes\<close>

definition global :: "AuthContext \<Rightarrow> ('s, 'r) handler \<Rightarrow> ('s, 'r) handler" where
  "global auth h = bnd (lift (map_err Reply (require_global_admin auth))) (\<lambda>_. h)"

definition get_status :: "('s, 'r) kenv \<Rightarrow> AuthContext \<Rightarrow> ('s, 'r) handler" where
  "get_status E auth = global auth
    (bnd (current_threat_level E) (\<lambda>level.
     bnd (on_err (\<lambda>e. Reply (err500 (show_error e))) (list_keys E)) (\<lambda>all_keys.
     ret (reply 200 (SystemBody level (length all_keys) (length (filter (\<lambda>k. km_state k = Active) all_keys)))))))"

definition post_threat_event :: "('s, 'r) kenv \<Rightarrow> AuthContext \<Rightarrow> string \<Rightarrow> rat \<Rightarrow> string option \<Rightarrow> ('s, 'r) handler" where
  "post_threat_event E auth kind_str sev note = global auth
    (bnd (lift (ok_or (parse_threat_kind kind_str) (Reply (err (''unknown threat kind: '' @ kind_str))))) (\<lambda>tk.
     bnd now (\<lambda>t.
     let event = ThreatEvent_new t tk sev in
     bnd (record_threat_event E (case note of Some d \<Rightarrow> with_detail event d | None \<Rightarrow> event)) (\<lambda>_.
     bnd (current_threat_level E) (\<lambda>level.
     ret (reply 200 (ThreatBody level)))))))"

definition reset_threat :: "('s, 'r) kenv \<Rightarrow> AuthContext \<Rightarrow> ('s, 'r) handler" where
  "reset_threat E auth = global auth
    (bnd reset_threat_state (\<lambda>_. bnd (current_threat_level E) (\<lambda>level. ret (reply 200 (ThreatBody level)))))"

definition get_threat :: "('s, 'r) kenv \<Rightarrow> AuthContext \<Rightarrow> ('s, 'r) handler" where
  "get_threat E auth = global auth (bnd (current_threat_level E) (\<lambda>level. ret (reply 200 (ThreatBody level))))"

definition get_policies :: "('s, 'r) kenv \<Rightarrow> AuthContext \<Rightarrow> ('s, 'r) handler" where
  "get_policies E auth = global auth
    (bnd (policy_adaptation_summary E ''default-dek'') (\<lambda>dek.
     bnd (policy_adaptation_summary E ''default-kek'') (\<lambda>kek.
     ret (reply 200 (PoliciesBody (List.map_filter (\<lambda>x. x) [dek, kek]))))))"

definition expire_due :: "('s, 'r) kenv \<Rightarrow> AuthContext \<Rightarrow> ('s, 'r) handler" where
  "expire_due E auth = global auth
    (bnd (on_err (\<lambda>e. Reply (err500 (show_error e))) (expire_due_keys E)) (\<lambda>report.
     ret (reply 200 (ReportBody (length (rep_expired report)) (length (rep_warnings report)) (rep_skipped report)))))"

section \<open>The server\<close>

record ('s, 'r) AppState =
  app_keystore :: "('s, 'r) Keystore"
  app_api :: ApiState
  app_limiter :: RateLimiter

record Request =
  rq_addr :: "string option"
  rq_method :: string
  rq_path :: string
  rq_authorization :: "string option"
  rq_body :: string

datatype Endpoint =
    EpDashboard | EpHealth | EpStatus | EpListKeys | EpGenerate | EpGetKey KeyId | EpActivate KeyId | EpRotate KeyId | EpRevoke KeyId
  | EpDestroy KeyId | EpEncrypt KeyId | EpDecrypt | EpSign KeyId | EpVerify | EpIssue | EpVerifyAssertion | EpVerifyingKey KeyId
  | EpThreat | EpThreatEvent | EpThreatReset | EpPolicies | EpExpire | EpListApiKeys | EpCreateApiKey | EpRevokeApiKey string | EpWhoami

text \<open>The routing table. A parameter matches one segment that is not empty; its percent-decoding is not modelled. The route
  \<^verbatim>\<open>/api/metrics\<close> and the HEAD method, which the framework serves with the handlers of GET, are not modelled; a path whose method does not
  match is answered like an unknown path (404, where the framework sends 405).\<close>

definition route :: "string \<Rightarrow> string \<Rightarrow> Endpoint option" where
  "route verb path =
    (case (verb, split_on (\<lambda>c. c = CHR ''/'') path) of
       (m, [a, b]) \<Rightarrow>
         if m = ''GET'' \<and> a = [] \<and> b = [] then Some EpDashboard
         else if m = ''GET'' \<and> a = [] \<and> b = ''health'' then Some EpHealth else None
     | (m, [a, b, c]) \<Rightarrow>
         if a \<noteq> [] \<or> b \<noteq> ''api'' then None
         else if m = ''GET'' then
           (if c = ''status'' then Some EpStatus else if c = ''keys'' then Some EpListKeys else if c = ''threat'' then Some EpThreat
            else if c = ''policies'' then Some EpPolicies else None)
         else if m = ''POST'' then
           (if c = ''keys'' then Some EpGenerate else if c = ''decrypt'' then Some EpDecrypt else if c = ''verify'' then Some EpVerify
            else if c = ''expire'' then Some EpExpire else None)
         else None
     | (m, [a, b, c, d]) \<Rightarrow>
         if a \<noteq> [] \<or> b \<noteq> ''api'' then None
         else if c = ''keys'' \<and> d \<noteq> [] \<and> m = ''GET'' then Some (EpGetKey d)
         else if c = ''assertions'' \<and> d = ''issue'' \<and> m = ''POST'' then Some EpIssue
         else if c = ''assertions'' \<and> d = ''verify'' \<and> m = ''POST'' then Some EpVerifyAssertion
         else if c = ''threat'' \<and> d = ''event'' \<and> m = ''POST'' then Some EpThreatEvent
         else if c = ''threat'' \<and> d = ''reset'' \<and> m = ''POST'' then Some EpThreatReset
         else if c = ''auth'' \<and> d = ''keys'' \<and> m = ''GET'' then Some EpListApiKeys
         else if c = ''auth'' \<and> d = ''keys'' \<and> m = ''POST'' then Some EpCreateApiKey
         else if c = ''auth'' \<and> d = ''whoami'' \<and> m = ''GET'' then Some EpWhoami
         else None
     | (m, [a, b, c, d, e]) \<Rightarrow>
         if a \<noteq> [] \<or> b \<noteq> ''api'' \<or> d = [] then
           (if a = [] \<and> b = ''api'' \<and> c = ''auth'' \<and> d = ''keys'' \<and> e \<noteq> [] \<and> m = ''DELETE'' then Some (EpRevokeApiKey e) else None)
         else if c = ''keys'' \<and> m = ''POST'' then
           (if e = ''activate'' then Some (EpActivate d) else if e = ''rotate'' then Some (EpRotate d)
            else if e = ''revoke'' then Some (EpRevoke d) else if e = ''destroy'' then Some (EpDestroy d)
            else if e = ''encrypt'' then Some (EpEncrypt d) else if e = ''sign'' then Some (EpSign d) else None)
         else if c = ''keys'' \<and> e = ''verifying-key'' \<and> m = ''GET'' then Some (EpVerifyingKey d)
         else if c = ''auth'' \<and> d = ''keys'' \<and> e \<noteq> [] \<and> m = ''DELETE'' then Some (EpRevokeApiKey e)
         else None
     | _ \<Rightarrow> None)"

text \<open>The bodies the extractors of the web framework decode; a body they reject is answered by the framework.\<close>

record extractors =
  x_generate :: "string \<Rightarrow> Response + GenerateKeyReq"
  x_revoke :: "string \<Rightarrow> Response + string"
  x_encrypt :: "string \<Rightarrow> Response + EncryptReq"
  x_decrypt :: "string \<Rightarrow> DecryptReq option"
  x_sign :: "string \<Rightarrow> Response + string"
  x_verify :: "string \<Rightarrow> Response + VerifyReq"
  x_issue :: "string \<Rightarrow> Response + AssertionIssueReq"
  x_verify_assertion :: "string \<Rightarrow> Response + (CitadelAssertion \<times> string)"
  x_threat :: "string \<Rightarrow> Response + (string \<times> rat \<times> string option)"
  x_create_key :: "string \<Rightarrow> Response + CreateApiKeyReq"

definition with_body :: "Response + 'b \<Rightarrow> ('b \<Rightarrow> ('s, 'r) handler) \<Rightarrow> ('s, 'r) handler" where
  "with_body b h = bnd (lift (map_err Reply b)) h"

fun key_route :: "('s, 'r) kenv \<Rightarrow> signer_env \<Rightarrow> extractors \<Rightarrow> AuthContext \<Rightarrow> string \<Rightarrow> Endpoint \<Rightarrow> ('s, 'r) handler" where
  "key_route E S B auth bd EpListKeys = list_keys_handler E auth"
| "key_route E S B auth bd EpGenerate = with_body (x_generate B bd) (generate_key E auth)"
| "key_route E S B auth bd (EpGetKey i) = get_key E auth i"
| "key_route E S B auth bd (EpActivate i) = activate_key E auth i"
| "key_route E S B auth bd (EpRotate i) = rotate_key E auth i"
| "key_route E S B auth bd (EpRevoke i) = with_body (x_revoke B bd) (revoke_key_handler E auth i)"
| "key_route E S B auth bd (EpDestroy i) = destroy_key E auth i"
| "key_route E S B auth bd (EpEncrypt i) = with_body (x_encrypt B bd) (encrypt_data E auth i)"
| "key_route E S B auth bd EpDecrypt = decrypt_data E auth (x_decrypt B bd)"
| "key_route E S B auth bd (EpSign i) = with_body (x_sign B bd) (sign_data E auth i)"
| "key_route E S B auth bd EpVerify = with_body (x_verify B bd) (verify_signature_handler E auth)"
| "key_route E S B auth bd (EpVerifyingKey i) = get_verifying_key E auth i"
| "key_route E S B auth bd EpIssue = with_body (x_issue B bd) (issue_assertion E S auth)"
| "key_route E S B auth bd EpVerifyAssertion = with_body (x_verify_assertion B bd) (\<lambda>(a, i). verify_assertion E S auth a i)"
| "key_route E S B auth bd EpStatus = get_status E auth"
| "key_route E S B auth bd EpThreat = get_threat E auth"
| "key_route E S B auth bd EpThreatEvent = with_body (x_threat B bd) (\<lambda>(k, s, d). post_threat_event E auth k s d)"
| "key_route E S B auth bd EpThreatReset = reset_threat E auth"
| "key_route E S B auth bd EpPolicies = get_policies E auth"
| "key_route E S B auth bd EpExpire = expire_due E auth"
| "key_route E S B auth bd EpWhoami = ret (whoami (Some auth))"
| "key_route E S B auth bd _ = throw (Reply (deny 404 ''''))"

text \<open>What a handler answers; \<open>None\<close> is a panic.\<close>

fun answer :: "halt + Response \<Rightarrow> Response option" where
  "answer (Inr r) = Some r"
| "answer (Inl (Reply r)) = Some r"
| "answer (Inl Crashed) = None"

definition on_app_keystore :: "('s, 'r) handler \<Rightarrow> ('s, 'r) AppState \<Rightarrow> Response option \<times> ('s, 'r) AppState" where
  "on_app_keystore h s = (case h (app_keystore s) of (r, k) \<Rightarrow> (answer r, s\<lparr> app_keystore := k \<rparr>))"

definition app_now :: "('s, 'r) AppState \<Rightarrow> nat" where "app_now s = clock (app_keystore s) (tick (app_keystore s))"

definition app_draw :: "('s, 'r) AppState \<Rightarrow> rnd" where "app_draw s = draws (app_keystore s) (drawn (app_keystore s))"

definition advance :: "('s, 'r) AppState \<Rightarrow> ('s, 'r) AppState" where
  "advance s = s\<lparr> app_keystore := (app_keystore s)\<lparr> tick := tick (app_keystore s) + 1, drawn := drawn (app_keystore s) + 1 \<rparr> \<rparr>"

definition dispatch ::
  "('s, 'r) kenv \<Rightarrow> signer_env \<Rightarrow> api_env \<Rightarrow> extractors \<Rightarrow> AuthContext \<Rightarrow> Request \<Rightarrow> ('s, 'r) AppState \<Rightarrow>
   Response option \<times> ('s, 'r) AppState" where
  "dispatch E S A B auth rq s =
    (case route (rq_method rq) (rq_path rq) of
       None \<Rightarrow> (Some (deny 404 ''''), s)
     | Some EpListApiKeys \<Rightarrow> (Some (list_api_keys auth (api_keys (app_api s))), s)
     | Some EpCreateApiKey \<Rightarrow>
         (case x_create_key B (rq_body rq) of
            Inl r \<Rightarrow> (Some r, s)
          | Inr req \<Rightarrow>
              (case create_api_key A (r_seed (app_draw s)) (r_id (app_draw s)) (int (app_now s)) auth req (app_api s) of
                 (r, st) \<Rightarrow> (r, advance (s\<lparr> app_api := st \<rparr>))))
     | Some (EpRevokeApiKey i) \<Rightarrow> (case revoke_api_key A auth i (app_api s) of (r, st) \<Rightarrow> (Some r, s\<lparr> app_api := st \<rparr>))
     | Some ep \<Rightarrow> on_app_keystore (key_route E S B auth (rq_body rq) ep) s)"

text \<open>Authentication. The update of the time of last use runs in a task of its own; here it runs before the handler.\<close>

definition auth_middleware ::
  "('s, 'r) kenv \<Rightarrow> api_env \<Rightarrow> Request \<Rightarrow> (AuthContext option \<Rightarrow> ('s, 'r) AppState \<Rightarrow> Response option \<times> ('s, 'r) AppState) \<Rightarrow>
   ('s, 'r) AppState \<Rightarrow> Response option \<times> ('s, 'r) AppState" where
  "auth_middleware E A rq next_handler s =
    (let ip = (case rq_addr rq of Some a \<Rightarrow> a | None \<Rightarrow> ''127.0.0.1''); store = api_keys (app_api s) in
     case required_scope (rq_path rq) (rq_method rq) of
       None \<Rightarrow> next_handler None s
     | Some required \<Rightarrow>
         if store = [] then
           (Some (deny 503 ''Server is not configured: no API keys are registered. Set CITADEL_API_KEY_HASH and restart.''), s)
         else case rq_authorization rq of
           Some val \<Rightarrow>
             if starts_with val ''Bearer '' then
               (case hash_api_key A (drop 7 val) of
                  Inl _ \<Rightarrow> (None, s)
                | Inr provided_hash \<Rightarrow>
                    (case authenticate A provided_hash store of
                       Some entry \<Rightarrow>
                         let (lim, ok) = rl_check (app_now s) ip (Some (ake_id entry)) (app_limiter s);
                             s1 = advance (s\<lparr> app_limiter := lim \<rparr>) in
                         if \<not> ok then (Some (deny 429 ''rate limit exceeded for this API key or system capacity reached''), s1)
                         else if \<not> has_scope (ake_scopes entry) required then
                           (Some (deny 403 (''insufficient scope: requires '' @ CHR 0x27 # Scope_as_str required @ CHR 0x27 # '' permission'')), s1)
                         else
                           let store' = touch A (int (app_now s1)) (ake_id entry) store;
                               d = snd (ApiKeyStore_save A (api_keys_path (app_api s1)) store' (ak_disk (app_api s1)));
                               s2 = advance (s1\<lparr> app_api := (app_api s1)\<lparr> api_keys := store', ak_disk := d \<rparr> \<rparr>) in
                           next_handler (Some \<lparr> au_key_id = ake_id entry, au_key_name = ake_name entry, au_scopes = ake_scopes entry,
                             au_allowed_domains = allowed_domains entry \<rparr>) s2
                     | None \<Rightarrow>
                         let reason = ''invalid API key from '' @ ip;
                             event = with_detail (ThreatEvent_new (int (app_now s)) AuthFailure (f64 (1 / 2))) reason;
                             op = bnd (record_threat_event E event) (\<lambda>_. record_audit_event (AuthFailed reason None)) in
                         (Some (deny 401 ''authentication failed''),
                          s\<lparr> app_keystore := snd (op (app_keystore (advance s)) :: (unit + unit) \<times> _) \<rparr>)))
             else (Some (deny 401 ''missing Authorization header (use: Bearer <api-key>)''), s)
         | None \<Rightarrow> (Some (deny 401 ''missing Authorization header (use: Bearer <api-key>)''), s))"

definition rate_limit_middleware ::
  "('s, 'r) kenv \<Rightarrow> Request \<Rightarrow> (('s, 'r) AppState \<Rightarrow> Response option \<times> ('s, 'r) AppState) \<Rightarrow>
   ('s, 'r) AppState \<Rightarrow> Response option \<times> ('s, 'r) AppState" where
  "rate_limit_middleware E rq next_handler s =
    (if rq_path rq = ''/health'' then next_handler s
     else
       let ip = (case rq_addr rq of Some a \<Rightarrow> a | None \<Rightarrow> ''127.0.0.1'');
           (lim, ok) = rl_check (app_now s) ip None (app_limiter s);
           s1 = advance (s\<lparr> app_limiter := lim \<rparr>) in
       if \<not> ok then
         let event = with_detail (ThreatEvent_new (int (app_now s1)) RapidAccessPattern (f64 (3 / 10))) (''rate limit exceeded: '' @ ip) in
         (Some (deny 429 ''rate limit exceeded''),
          s1\<lparr> app_keystore := snd (record_threat_event E event (app_keystore (advance s1)) :: (unit + unit) \<times> _) \<rparr>)
       else next_handler s1)"

text \<open>The two pages that need no authentication, and everything else.\<close>

definition serve ::
  "('s, 'r) kenv \<Rightarrow> signer_env \<Rightarrow> api_env \<Rightarrow> extractors \<Rightarrow> Request \<Rightarrow> ('s, 'r) AppState \<Rightarrow> Response option \<times> ('s, 'r) AppState" where
  "serve E S A B rq =
    rate_limit_middleware E rq (auth_middleware E A rq (\<lambda>ext s.
      case ext of
        Some auth \<Rightarrow> dispatch E S A B auth rq s
      | None \<Rightarrow>
          (if route (rq_method rq) (rq_path rq) \<in> {Some EpDashboard, Some EpHealth} then (Some (reply 200 PageBody), s)
           else (Some (deny 404 ''''), s))))"

end
