(* ===== verification/Api_Guard.thy ===== *)
theory Api_Guard
  imports Api_Routes
begin

text \<open>
  What the server guarantees: a protected route runs only for an active API key with the scope the route requires, a key scoped to
  some domains reaches only keys of these domains, and a failed decryption always has the same answer.
\<close>

section \<open>Authentication\<close>

definition presents :: "api_env \<Rightarrow> ApiKeyStore \<Rightarrow> Request \<Rightarrow> Scope \<Rightarrow> bool" where
  "presents A store rq required \<longleftrightarrow>
    (\<exists>e \<in> set store. \<exists>token h. rq_authorization rq = Some (''Bearer '' @ token) \<and> hash_api_key A token = Inr h \<and>
       active e \<and> key_hash e = ae_hex_encode A h \<and> has_scope (ake_scopes e) required)"

definition refused :: "('s, 'r) AppState \<Rightarrow> Response option \<times> ('s, 'r) AppState \<Rightarrow> bool" where
  "refused s out \<longleftrightarrow>
    storage (app_keystore (snd out)) = storage (app_keystore s) \<and> app_api (snd out) = app_api s \<and>
    (case fst out of Some r \<Rightarrow> 400 \<le> status r | None \<Rightarrow> True)"

lemma starts_with_drop: "starts_with val p \<Longrightarrow> val = p @ drop (length p) val"
  by (auto simp: starts_with_def) (metis append_take_drop_id)

lemma authenticate_Some:
  "authenticate A h store = Some e \<Longrightarrow> e \<in> set store \<and> active e \<and> key_hash e = ae_hex_encode A h"
  by (auto simp: authenticate_def Let_def find_Some_iff)

lemma advance_simps [simp]:
  "storage (app_keystore (advance s)) = storage (app_keystore s)" "app_api (advance s) = app_api s" "app_limiter (advance s) = app_limiter s"
  by (simp_all add: advance_def)

lemma store_sameD: "evolves store_same m \<Longrightarrow> storage (snd (m k)) = storage k"
  by (simp add: evolves_def store_same_def)

lemma record_threat_event_same: "storage (snd (record_threat_event E ev k)) = storage k"
  by (rule store_sameD) (rule store_intros)

lemma record_audit_event_store: "evolves store_same (record_audit_event act)"
  unfolding record_audit_event_def by (auto intro!: store_intros)

lemma refused_advance [simp]: "refused (advance (s\<lparr> app_limiter := l \<rparr>)) out = refused s out"
  by (simp add: refused_def)

lemma auth_middleware_refuses:
  assumes req: "required_scope (rq_path rq) (rq_method rq) = Some required"
    and no: "\<not> presents A (api_keys (app_api s)) rq required"
  shows "refused s (auth_middleware E A rq h s)"
proof (cases "api_keys (app_api s) = [] \<or> rq_authorization rq = None")
  case True
  then consider "api_keys (app_api s) = []" | "api_keys (app_api s) \<noteq> []" "rq_authorization rq = None" by auto
  then show ?thesis by cases (simp_all add: auth_middleware_def req refused_def deny_def reply_def)
next
  case False
  then obtain val where val: "rq_authorization rq = Some val" and ne: "api_keys (app_api s) \<noteq> []" by auto
  show ?thesis
  proof (cases "starts_with val ''Bearer ''")
    case False
    then show ?thesis by (simp add: auth_middleware_def req val ne refused_def deny_def reply_def)
  next
    case True
    have len: "length ''Bearer '' = 7" by simp
    have tok: "val = ''Bearer '' @ drop 7 val" using starts_with_drop [OF True] unfolding len .
    have scope: "\<not> has_scope (ake_scopes e) required"
      if "hash_api_key A (drop 7 val) = Inr hh" "authenticate A hh (api_keys (app_api s)) = Some e" for hh e
    proof
      assume "has_scope (ake_scopes e) required"
      moreover have "rq_authorization rq = Some (''Bearer '' @ drop 7 val)" using val tok by simp
      ultimately show False using that authenticate_Some [OF that(2)] no unfolding presents_def by blast
    qed
    show ?thesis
      by (auto simp: auth_middleware_def req val ne True Let_def refused_def deny_def reply_def scope
          store_sameD [OF store_bnd [OF threat_store(1) record_audit_event_store]]
          split: sum.split option.split prod.split)
  qed
qed

lemma serve_refuses:
  assumes "required_scope (rq_path rq) (rq_method rq) = Some required"
    and "\<not> presents A (api_keys (app_api s)) rq required"
  shows "refused s (serve E S A B rq s)"
proof -
  have inner: "refused s (auth_middleware E A rq h (advance (s\<lparr> app_limiter := l \<rparr>)))" for l h
    using auth_middleware_refuses [OF assms(1), of A "advance (s\<lparr> app_limiter := l \<rparr>)" E h] assms(2) by simp
  have "rq_path rq \<noteq> ''/health''" using assms(1) by (auto simp: required_scope_def)
  then show ?thesis
    by (auto simp: serve_def rate_limit_middleware_def Let_def inner split: prod.split)
       (simp add: refused_def deny_def reply_def record_threat_event_same)
qed

text \<open>C9: A request to a protected path that changes a stored key or the table of API keys, or that is answered with a success, carries
  a bearer token whose hash is the hash of an active API key of the table, and that API key has the scope the path requires.\<close>

theorem request_authenticated:
  assumes "required_scope (rq_path rq) (rq_method rq) = Some required"
    and "serve E S A B rq s = (r, s')"
    and "storage (app_keystore s') \<noteq> storage (app_keystore s) \<or> app_api s' \<noteq> app_api s \<or> (\<exists>p. r = Some p \<and> status p < 400)"
  shows "presents A (api_keys (app_api s)) rq required"
proof (rule ccontr)
  assume "\<not> presents A (api_keys (app_api s)) rq required"
  from serve_refuses [OF assms(1) this, of E S B] show False using assms(2,3) by (auto simp: refused_def)
qed

definition demo_token_hash :: string where
  "demo_token_hash = toy_hex (hmac_sha256 toy_crypto (as_bytes ''citadel-api-pepper-not-configured'') (as_bytes ''t''))"

definition demo_entry :: ApiKeyEntry where "demo_entry = demo_admin\<lparr> key_hash := demo_token_hash \<rparr>"

definition demo_app :: "(InMemoryBackend, MemoryReplayStore) AppState" where
  "demo_app = \<lparr> app_keystore = demo_keystore, app_api = demo_api_state\<lparr> api_keys := [demo_entry] \<rparr>,
     app_limiter = RateLimiter_new 0 20 8 \<rparr>"

definition demo_request :: "string \<Rightarrow> string \<Rightarrow> string \<Rightarrow> Request" where
  "demo_request verb path payload = \<lparr> rq_addr = None, rq_method = verb, rq_path = path, rq_authorization = Some ''Bearer t'', rq_body = payload \<rparr>"

definition demo_extractors :: extractors where
  "demo_extractors = \<lparr> x_generate = (\<lambda>_. Inl (err '''')), x_revoke = Inr, x_encrypt = (\<lambda>_. Inl (err '''')), x_decrypt = (\<lambda>_. None),
     x_sign = Inr, x_verify = (\<lambda>_. Inl (err '''')), x_issue = (\<lambda>_. Inl (err '''')), x_verify_assertion = (\<lambda>_. Inl (err '''')),
     x_threat = (\<lambda>_. Inl (err '''')), x_create_key = (\<lambda>_. Inl (err '''')) \<rparr>"

lemma demo_bursts: "f64_of_u32 8 = 8" "f64_of_u32 40 = 40" "f64_of_u32 80 = 80"
  using f64_of_small_nat [of 8] f64_of_small_nat [of 40] f64_of_small_nat [of 80] by (simp_all add: f64_of_u32_def)

lemma demo_limiter_admits:
  "\<exists>l1 l2. rl_check 0 ip None (RateLimiter_new 0 20 8) = (l1, True) \<and> rl_check 0 ip (Some i) l1 = (l2, True)"
  using still_bucket_admits [of 8 8 0] still_bucket_admits [of 7 8 0] still_bucket_admits [of 40 40 0]
    still_bucket_admits [of 80 80 0] still_bucket_admits [of 79 80 0]
  by (simp add: rl_check_def RateLimiter_new_def demo_bursts entry_or_def Let_def)

lemma demo_api_hash: "hash_api_key demo_api ''t'' = Inr (hmac_sha256 toy_crypto (as_bytes ''citadel-api-pepper-not-configured'') (as_bytes ''t''))"
  by (simp add: hash_api_key_def var_of_def demo_api_def)

lemma demo_clock: "app_now (demo_app\<lparr> app_limiter := l \<rparr>) = 0" "app_now (advance (demo_app\<lparr> app_limiter := l \<rparr>)) = 0" "app_now demo_app = 0"
  by (simp_all add: app_now_def demo_app_def demo_keystore_def advance_def)

lemma demo_whoami:
  "\<exists>p s'. serve toy_env toy_signer demo_api demo_extractors (demo_request ''GET'' ''/api/auth/whoami'' []) demo_app = (Some p, s') \<and> status p = 200"
proof -
  obtain l1 l2 where l: "rl_check 0 ''127.0.0.1'' None (RateLimiter_new 0 20 8) = (l1, True)"
      "rl_check 0 ''127.0.0.1'' (Some ''ck_a'') l1 = (l2, True)"
    using demo_limiter_admits by blast
  have rt: "route ''GET'' ''/api/auth/whoami'' = Some EpWhoami" by (simp add: route_def)
  have st: "api_keys (app_api demo_app) = [demo_entry]" "app_limiter demo_app = RateLimiter_new 0 20 8"
    by (simp_all add: demo_app_def)
  have au: "authenticate demo_api (hmac_sha256 toy_crypto (as_bytes ''citadel-api-pepper-not-configured'') (as_bytes ''t''))
      [demo_entry] = Some demo_entry"
    by (simp add: authenticate_def demo_api_def demo_entry_def demo_admin_def demo_token_hash_def)
  have en: "ake_id demo_entry = ''ck_a''" "ake_scopes demo_entry = [Admin]" by (simp_all add: demo_entry_def demo_admin_def)
  show ?thesis
    using l
    by (simp add: serve_def rate_limit_middleware_def auth_middleware_def demo_request_def required_scope_def st demo_clock demo_api_hash
        starts_with_def au en has_scope_def dispatch_def rt on_app_keystore_def ret_def whoami_def reply_def Let_def split: prod.split)
qed

theorem request_authenticated_witness:
  "presents demo_api (api_keys (app_api demo_app)) (demo_request ''GET'' ''/api/auth/whoami'' []) Read"
proof -
  obtain p s' where "serve toy_env toy_signer demo_api demo_extractors (demo_request ''GET'' ''/api/auth/whoami'' []) demo_app = (Some p, s')"
    "status p = 200"
    using demo_whoami by blast
  then show ?thesis
    by (intro request_authenticated [of "demo_request ''GET'' ''/api/auth/whoami'' []" Read toy_env toy_signer demo_api demo_extractors demo_app])
       (auto simp: demo_request_def required_scope_def)
qed

end
