(* ===== verification/Api_Isolation.thy ===== *)
theory Api_Isolation
  imports Api_Guard
begin

text \<open>
  Isolation of tenants: what a caller whose API key is confined to some domains can reach and change through the routes of the server.
\<close>

section \<open>Operations that change one key\<close>

definition confined :: "('s \<Rightarrow> bool) \<Rightarrow> ('s, 'r) kenv \<Rightarrow> KeyId set \<Rightarrow> ('s, 'r) Keystore \<Rightarrow> ('s, 'r) Keystore \<Rightarrow> bool" where
  "confined J E D k k' \<longleftrightarrow> (J (storage k) \<longrightarrow> J (storage k') \<and> (\<forall>j. j \<notin> D \<longrightarrow> view E k' j = view E k j))"

named_theorems confined_intros \<open>operations that change at most the keys of a set\<close>

lemma confined_trans: "transp (confined J E D)"
  by (auto simp: transp_def confined_def)

lemma confined_refl: "reflp (confined J E D)"
  by (auto simp: reflp_def confined_def)

lemma confined_same: "storage k' = storage k \<Longrightarrow> confined J E D k k'"
  using view_cong [of k' k E] by (simp add: confined_def)

lemma confined_store: "evolves store_same m \<Longrightarrow> evolves (confined J E D) m"
  by (erule evolves_mono) (simp add: store_same_def confined_same)

lemmas confined_bnd [confined_intros] = evolves_bnd [OF confined_trans]
lemmas confined_basic [confined_intros] = evolves_on_err evolves_pure [OF confined_refl]
lemmas confined_steps [confined_intros] = store_quiet [THEN confined_store] master_key_gate_store [THEN confined_store]

lemma transition_id: "transition m t k = (Inr m', k') \<Longrightarrow> km_id m' = km_id m"
  by (auto simp: transition_def throw_def bnd_def now_def ret_def split: if_splits)

lemma confined_transition:
  assumes "\<And>m'. km_id m' = km_id m \<Longrightarrow> evolves (confined J E D) (f m')"
  shows "evolves (confined J E D) (bnd (transition m t) f)"
proof (cases "can_transition_to (km_state m) t")
  case True
  then have "bnd (transition m t) f = bnd now (\<lambda>s. f (m\<lparr> km_state := t, updated_at := s \<rparr>))"
    by (simp add: fun_eq_iff transition_def bnd_def now_def ret_def)
  then show ?thesis using assms by (auto intro!: confined_intros)
qed (simp add: transition_def evolves_def bnd_def throw_def confined_def)

context storage_backend
begin

lemmas confined_gates = policy_gate_store [THEN confined_store] resolve_domain_store [THEN confined_store]

lemma confined_get_err:
  assumes "k_sb E = SB" "\<And>m. km_id m = i \<Longrightarrow> evolves (confined sinv E D) (f m)"
  shows "evolves (confined sinv E D) (bnd (on_err g (ks_get E i)) f)"
  unfolding evolves_def
proof
  fix k
  show "confined sinv E D k (snd (bnd (on_err g (ks_get E i)) f k))"
  proof (cases "sinv (storage k) \<and> view E k i \<noteq> None")
    case True
    then obtain m where m: "view E k i = Some m" by blast
    then have "bnd (on_err g (ks_get E i)) f k = f m k" by (simp add: bnd_def on_err_def ks_get_run view_Some)
    moreover have "km_id m = i" using m True get_id assms(1) by (auto simp: view_Some)
    ultimately show ?thesis using assms(2) [of m] by (simp add: evolves_def)
  qed (auto simp: confined_def bnd_def on_err_def ks_get_run view_def split: sum.splits option.splits)
qed

lemma confined_get:
  assumes "k_sb E = SB" "\<And>m. km_id m = i \<Longrightarrow> evolves (confined sinv E D) (f m)"
  shows "evolves (confined sinv E D) (bnd (ks_get E i) f)"
proof -
  have "on_err (\<lambda>e. e) (ks_get E i) = ks_get E i" by (simp add: fun_eq_iff on_err_def split: prod.split sum.split)
  then show ?thesis using confined_get_err [where g = "\<lambda>e. e" and f = f and i = i and D = D, OF assms(1)] assms(2) by simp
qed

lemma confined_put: "k_sb E = SB \<Longrightarrow> km_id m \<in> D \<Longrightarrow> evolves (confined sinv E D) (storage_put E m)"
  unfolding evolves_def confined_def storage_put_def
  using put_inv [of _ m] put_other [of _ _ m] by (auto simp: view_def split: prod.split) (metis fst_conv)+

lemma confined_overwrite: "k_sb E = SB \<Longrightarrow> i \<in> D \<Longrightarrow> evolves (confined sinv E D) (storage_overwrite E i)"
  unfolding evolves_def confined_def storage_overwrite_def
  using overwrite_inv [of _ i] overwrite_other [of _ _ i] by (auto simp: view_def split: prod.split) (metis fst_conv)+

lemma activate_confined: "k_sb E = SB \<Longrightarrow> evolves (confined sinv E {i}) (activate E i)"
  unfolding activate_def Let_def
  by (intro confined_get confined_transition confined_put confined_intros) simp_all

lemma rotate_confined: "k_sb E = SB \<Longrightarrow> evolves (confined sinv E {i}) (rotate E i)"
  unfolding rotate_def Let_def
  by (intro confined_get) (auto intro!: confined_put confined_intros split: prod.split)

lemma revoke_confined: "k_sb E = SB \<Longrightarrow> evolves (confined sinv E {i}) (revoke E i r)"
  unfolding revoke_def Let_def
  by (intro confined_get) (auto intro!: confined_put confined_intros)

lemma destroy_confined: "k_sb E = SB \<Longrightarrow> evolves (confined sinv E {i}) (destroy E i)"
  unfolding destroy_def Let_def
  by (intro confined_get) (auto intro!: confined_put confined_overwrite confined_intros)

lemma encrypt_confined: "k_sb E = SB \<Longrightarrow> evolves (confined sinv E {i}) (encrypt E i pt aad ctx)"
  unfolding encrypt_def Let_def
  by (intro confined_get_err)
    (auto intro!: confined_put confined_gates confined_intros)

lemma touches_confined: "k_sb E = SB \<Longrightarrow> touches E j k k' \<Longrightarrow> confined sinv E {j} k k'"
  unfolding touches_def confined_def using put_inv put_other by (auto simp: view_def)

end

section \<open>The domain gate\<close>

definition in_domain :: "('s, 'r) kenv \<Rightarrow> ('s, 'r) Keystore \<Rightarrow> string list \<Rightarrow> KeyId \<Rightarrow> bool" where
  "in_domain E k ds i \<longleftrightarrow> (\<exists>d \<in> set ds. fst (resolve_domain_for_key E i k) = Inr d)"

lemma ks_get_pure: "snd (ks_get E i k) = k"
  by (simp add: ks_get_run split: sum.split option.split)

lemma resolve_domain_pure: "snd (resolve_domain_for_key E i k) = k"
  using resolve_pure(1) [of E i k] by (metis snd_conv)

lemma authorize_domain_pure: "snd (authorize_domain_access E auth opn target k) = k"
proof -
  have p: "snd (bnd (on_err g (resolve_domain_for_key E i)) f k) = k" if "\<And>d. snd (f d k) = k" for g i f
    using resolve_domain_pure [of E i k] that
    by (cases "resolve_domain_for_key E i k") (auto simp: bnd_def on_err_def split: sum.split)
  show ?thesis
    by (auto simp: authorize_domain_access_def ret_def throw_def lift_def bnd_def [of "lift _"] intro!: p split: option.split sum.split)
qed

lemma authorize_domain_scoped:
  assumes "au_allowed_domains auth = Some ds" "opn \<noteq> ListKeys" "authorize_domain_access E auth opn target k = (Inr x, k1)"
  shows "\<exists>i. target = Some i \<and> in_domain E k ds i"
proof -
  have g: "\<not> is_global_admin auth" using assms(1) by (simp add: is_global_admin_def)
  obtain i where t: "target = Some i"
    using assms g by (cases target) (auto simp: authorize_domain_access_def lift_def bnd_def throw_def split: if_splits)
  obtain r where r: "resolve_domain_for_key E i k = (r, k)"
    using resolve_domain_pure [of E i k] by (cases "resolve_domain_for_key E i k") simp
  show ?thesis
    using assms g t r
    by (cases r) (auto simp: authorize_domain_access_def lift_def bnd_def throw_def on_err_def ret_def in_domain_def split: if_splits)
qed

text \<open>A call that is refused and changes no key, or runs for a key of the caller's domains and changes at most the keys of \<open>D\<close>.\<close>

definition contained :: "('s \<Rightarrow> bool) \<Rightarrow> ('s, 'r) kenv \<Rightarrow> string list \<Rightarrow> KeyId option \<Rightarrow> KeyId set \<Rightarrow> ('s, 'r) Keystore \<Rightarrow>
    (halt + Response) \<times> ('s, 'r) Keystore \<Rightarrow> bool" where
  "contained J E ds target D k out \<longleftrightarrow>
     storage (snd out) = storage k \<and> (\<forall>p. fst out \<noteq> Inr p) \<or>
     (\<exists>i. target = Some i \<and> in_domain E k ds i) \<and> confined J E D k (snd out)"

lemma contained_gate:
  assumes "au_allowed_domains auth = Some ds" "opn \<noteq> ListKeys" "\<And>x. confined J E D k (snd (f x k))"
  shows "contained J E ds target D k (bnd (on_err Reply (authorize_domain_access E auth opn target)) f k)"
proof -
  obtain r where r: "authorize_domain_access E auth opn target k = (r, k)"
    using authorize_domain_pure [of E auth opn target k] by (cases "authorize_domain_access E auth opn target k") simp
  show ?thesis
  proof (cases r)
    case (Inl e)
    then show ?thesis using r by (simp add: contained_def bnd_def on_err_def)
  next
    case (Inr x)
    then have "bnd (on_err Reply (authorize_domain_access E auth opn target)) f k = f x k" using r by (simp add: bnd_def on_err_def)
    then show ?thesis
      using authorize_domain_scoped [OF assms(1,2) r [unfolded Inr]] assms(3) by (simp add: contained_def)
  qed
qed

lemma in_domain_cong: "storage k' = storage k \<Longrightarrow> in_domain E k' ds i = in_domain E k ds i"
  using resolve_pure(2) [of k' k E i] by (simp add: in_domain_def)

lemma contained_cong: "storage k1 = storage k \<Longrightarrow> contained J E ds t D k1 out = contained J E ds t D k out"
  using view_cong [of k1 k E] in_domain_cong [of k1 k E ds]
  by (simp add: contained_def confined_def)

lemma contained_pre:
  assumes "evolves store_same m" "\<And>x k1. contained J E ds t D k1 (f x k1)"
  shows "contained J E ds t D k (bnd m f k)"
proof -
  obtain r k1 where m: "m k = (r, k1)" by (cases "m k")
  then have s: "storage k1 = storage k" using assms(1) by (metis evolvesD store_same_def)
  show ?thesis
  proof (cases r)
    case (Inr x)
    then show ?thesis using m assms(2) [of k1 x] contained_cong [OF s] by (simp add: bnd_def)
  qed (use m s in \<open>simp add: bnd_def contained_def\<close>)
qed

lemma confinedD: "evolves (confined J E D) m \<Longrightarrow> confined J E D k (snd (m k))"
  by (simp add: evolves_def)

section \<open>Routes\<close>

lemma on_enforcer_store [store_intros]: "evolves store_same (on_enforcer f)"
  by (simp add: evolves_def on_enforcer_def store_same_def split: option.split prod.split)

lemma update_enforcer_store [store_intros]: "evolves store_same (update_enforcer f)"
  unfolding update_enforcer_def by (rule store_intros) simp

lemma attempt_store [store_intros]: "evolves store_same m \<Longrightarrow> evolves store_same (attempt m)"
  by (auto simp: evolves_def attempt_def store_same_def split: prod.splits sum.splits) (metis snd_conv)+

lemmas server_steps = on_enforcer_store [THEN confined_store] update_enforcer_store [THEN confined_store]
  attempt_store [OF in_memory.resolve_domain_store, THEN confined_store]

lemma confined_bnd_result:
  assumes "evolves store_same a" "\<And>x k k1. a k = (Inr x, k1) \<Longrightarrow> evolves (confined J E D) (f x)"
  shows "evolves (confined J E D) (bnd a f)"
  unfolding evolves_def
proof
  fix k
  obtain r k1 where a: "a k = (r, k1)" by (cases "a k")
  then have "storage k1 = storage k" using assms(1) by (metis evolvesD store_same_def)
  then have c: "confined J E D k k1" by (rule confined_same)
  show "confined J E D k (snd (bnd a f k))"
  proof (cases r)
    case (Inr x)
    then have "confined J E D k1 (snd (f x k1))" using assms(2) a by (simp add: evolves_def)
    then show ?thesis using a Inr transpD [OF confined_trans c] by (simp add: bnd_def)
  qed (use a c in \<open>simp add: bnd_def\<close>)
qed

lemma confined_then:
  assumes "confined J E D k (snd (m k))" "\<And>x. evolves store_same (f x)"
  shows "confined J E D k (snd (bnd m f k))"
proof -
  obtain r k1 where m: "m k = (r, k1)" by (cases "m k")
  show ?thesis
  proof (cases r)
    case (Inr x)
    have "confined J E D k1 (snd (f x k1))" using assms(2) by (intro confinedD confined_store)
    then show ?thesis using assms(1) m Inr transpD [OF confined_trans] by (fastforce simp: bnd_def)
  qed (use assms(1) m in \<open>simp add: bnd_def\<close>)
qed

lemma authorize_encrypt_key:
  "on_err g (on_enforcer (\<lambda>r c. authorize_encrypt r c i dm None)) k = (Inr authz, k1) \<Longrightarrow> ac_key_id authz = i"
  by (auto simp: on_enforcer_def on_err_def authorize_encrypt_def issue_def AuthorizedContext_new_def split: option.splits prod.splits sum.splits)

context storage_backend
begin

lemma get_contained: "k_sb E = SB \<Longrightarrow> au_allowed_domains auth = Some ds \<Longrightarrow> contained sinv E ds (Some i) {i} k (get_key E auth i k)"
  unfolding get_key_def by (intro contained_gate confinedD confined_store) (auto intro!: store_intros)

lemma activate_contained: "k_sb E = SB \<Longrightarrow> au_allowed_domains auth = Some ds \<Longrightarrow> contained sinv E ds (Some i) {i} k (activate_key E auth i k)"
  unfolding activate_key_def by (intro contained_gate confinedD) (auto intro!: server_steps confined_intros activate_confined)

lemma revoke_contained:
  "k_sb E = SB \<Longrightarrow> au_allowed_domains auth = Some ds \<Longrightarrow> contained sinv E ds (Some i) {i} k (revoke_key_handler E auth i r k)"
  unfolding revoke_key_handler_def by (intro contained_gate confinedD) (auto intro!: server_steps confined_intros revoke_confined)

lemma destroy_contained: "k_sb E = SB \<Longrightarrow> au_allowed_domains auth = Some ds \<Longrightarrow> contained sinv E ds (Some i) {i} k (destroy_key E auth i k)"
  unfolding destroy_key_def by (intro contained_gate confinedD) (auto intro!: server_steps confined_intros destroy_confined)

lemma rotate_contained: "k_sb E = SB \<Longrightarrow> au_allowed_domains auth = Some ds \<Longrightarrow> contained sinv E ds (Some i) {i} k (rotate_key E auth i k)"
  unfolding rotate_key_def Let_def
  by (intro contained_pre contained_gate confinedD quiet_store_same [OF quiet_now])
    (auto intro!: server_steps confined_intros rotate_confined)

lemma encrypt_authorized_confined: "k_sb E = SB \<Longrightarrow> ac_key_id authz = i \<Longrightarrow> evolves (confined sinv E {i}) (encrypt_authorized E authz pt aad ctx)"
  unfolding encrypt_authorized_def
  by (auto intro!: confined_bnd evolves_on_err confined_basic validate_authz_store [THEN confined_store]
      enforce_domain_store [THEN confined_store] encrypt_confined)

lemma encrypt_contained:
  assumes E: "k_sb E = SB" and "au_allowed_domains auth = Some ds"
  shows "contained sinv E ds (Some i) {i} k (encrypt_data E auth i req k)"
  unfolding encrypt_data_def
proof (rule contained_gate [OF assms(2)], simp, rule confinedD, rule confined_bnd_result, rule evolves_on_err, rule on_enforcer_store)
  fix x authz k k1
  assume "on_err enforcer_denied (on_enforcer (\<lambda>r c. authorize_encrypt r c i x None)) k = (Inr authz, k1)"
  then have "ac_key_id authz = i" by (rule authorize_encrypt_key)
  then show "evolves (confined sinv E {i}) (bnd (on_err encrypt_failed (encrypt_authorized E authz (as_bytes (er_plaintext req))
      (as_bytes (er_aad req)) (as_bytes (er_context req)))) (\<lambda>blob. ret (reply 200 (BlobBody blob))))"
    by (intro confined_bnd confined_basic encrypt_authorized_confined [OF E])
qed

lemma generate_contained:
  assumes "k_sb E = SB" "au_allowed_domains auth = Some ds"
  shows "contained sinv E ds (gk_parent_id req) {hex_encode E (r_id (draws k (drawn k)))} k (generate_key E auth req k)"
proof -
  note new = touches_confined [OF assms(1) generate_touches] touches_confined [OF assms(1) generate_signing_touches]
  show ?thesis
    unfolding generate_key_def
    by (cases "parse_key_type (gk_key_type req)")
      (auto simp: bnd_def [of "lift _"] lift_def throw_def confined_same contained_def [of _ _ _ _ _ _ "(Inl _, _)"] split: option.split
        intro!: contained_gate [OF assms(2)] confined_then new store_intros resolve_domain_store elim: create_operation.elims)
qed

end

text \<open>Routes that leave the stored keys alone.\<close>

lemma decrypt_authorized_store: "evolves store_same (decrypt_authorized E authz blob aad ctx)"
  unfolding decrypt_authorized_def by (auto intro!: store_intros decrypt_store)

lemma sign_authorized_store: "evolves store_same (sign_authorized E authz msg)"
  unfolding sign_authorized_def by (auto intro!: store_intros sign_store)

lemma lookup_readable_store [store_intros]: "evolves store_same (lookup_readable_key_or_deny E auth i)"
  unfolding lookup_readable_key_or_deny_def by (auto intro!: store_intros in_memory.resolve_domain_store)

lemma visible_keys_store [store_intros]: "evolves store_same (visible_keys E auth ms)"
  by (induction E auth ms rule: visible_keys.induct) (auto intro!: store_intros in_memory.resolve_domain_store)

lemma list_keys_store [store_intros]: "evolves store_same (list_keys E)"
  by (simp add: evolves_def list_keys_def store_same_def)

lemma reading_routes_store:
  "evolves store_same (list_keys_handler E auth)" "evolves store_same (verify_signature_handler E auth req)"
  "evolves store_same (get_verifying_key E auth i)" "evolves store_same (verify_assertion E S auth a i)"
  unfolding list_keys_handler_def verify_signature_handler_def get_verifying_key_def verify_assertion_def
  by (auto intro!: store_intros verify_store split: option.split sum.split)

lemma decrypt_contained:
  "au_allowed_domains auth = Some ds \<Longrightarrow> contained J E ds (map_option (\<lambda>r. eb_key_id (dr_blob r)) p) {} k (decrypt_data E auth p k)"
  unfolding decrypt_data_def Let_def
  by (cases p) (auto simp: throw_def contained_def [of _ _ _ _ _ _ "(Inl _, _)"]
      intro!: contained_gate confinedD confined_store store_intros decrypt_authorized_store)

lemma sign_contained: "au_allowed_domains auth = Some ds \<Longrightarrow> contained J E ds (Some i) {} k (sign_data E auth i p k)"
  unfolding sign_data_def
  by (intro contained_pre contained_gate confinedD confined_store) (auto intro!: store_intros sign_authorized_store)

lemma issue_contained: "au_allowed_domains auth = Some ds \<Longrightarrow> contained J E ds (Some (ai_signing_key_id req)) {} k (issue_assertion E S auth req k)"
  unfolding issue_assertion_def Let_def
  by (intro contained_gate confinedD confined_store) (auto intro!: store_intros sign_authorized_store)

lemma global_contained: "au_allowed_domains auth = Some ds \<Longrightarrow> contained J E ds t D k (global auth h k)"
  by (simp add: global_def require_global_admin_def is_global_admin_def bnd_def lift_def contained_def)

section \<open>What a scoped caller reads\<close>

lemma attempt_resolve: "attempt (resolve_domain_for_key E i) k =
    (Inr (case fst (resolve_domain_for_key E i k) of Inr d \<Rightarrow> Some d | Inl _ \<Rightarrow> None), k)"
  using resolve_domain_pure [of E i k] by (cases "resolve_domain_for_key E i k") (simp add: attempt_def split: sum.split)

lemma visible_keys_in_domain:
  assumes "au_allowed_domains auth = Some ds"
  shows "\<exists>shown. visible_keys E auth ms k = (Inr shown :: 'e + KeyResponse list, k) \<and> list_all (\<lambda>x. in_domain E k ds (kr_id x)) shown"
proof (induction ms)
  case (Cons m ms)
  then obtain shown where IH: "visible_keys E auth ms k = (Inr shown :: 'e + KeyResponse list, k)" "list_all (\<lambda>x. in_domain E k ds (kr_id x)) shown" by blast
  show ?case
    using IH assms
    by (auto simp: bnd_def attempt_resolve ret_def in_domain_def key_to_response_def split: sum.split option.split)
qed (simp add: ret_def)

lemma list_keys_in_domain:
  assumes "au_allowed_domains auth = Some ds" "list_keys_handler E auth k = (Inr p, k')"
  shows "\<exists>shown. p = reply 200 (KeysBody shown) \<and> list_all (\<lambda>x. in_domain E k ds (kr_id x)) shown"
proof -
  have g: "\<not> is_global_admin auth" using assms(1) by (simp add: is_global_admin_def)
  from assms(2) obtain ms where ms: "sb_list (k_sb E) (storage k) = Inr ms"
    by (cases "sb_list (k_sb E) (storage k)") (simp_all add: list_keys_handler_def list_keys_def bnd_def on_err_def)
  obtain shown where "visible_keys E auth ms k = (Inr shown :: halt + KeyResponse list, k)" "list_all (\<lambda>x. in_domain E k ds (kr_id x)) shown"
    using visible_keys_in_domain [OF assms(1)] by blast
  then show ?thesis
    using assms(2) g ms by (auto simp: list_keys_handler_def list_keys_def bnd_def on_err_def ret_def)
qed

text \<open>A stored key that no domain can be found for: the walk up its parents ends in an error (it meets a Root key, a key without a parent, a
  key that cannot be read, or more than ten keys).\<close>

definition no_domain :: "('s, 'r) kenv \<Rightarrow> ('s, 'r) Keystore \<Rightarrow> KeyId \<Rightarrow> bool" where
  "no_domain E k i \<longleftrightarrow> is_ok (fst (ks_get E i k)) \<and> \<not> is_ok (fst (resolve_domain_for_key E i k))"

lemma lookup_readable:
  assumes "au_allowed_domains auth = Some ds" "bnd (on_err g (lookup_readable_key_or_deny E auth i)) f k = (Inr p, k')"
  shows "in_domain E k ds i \<or> no_domain E k i"
proof -
  obtain r where r: "ks_get E i k = (r, k)" using ks_get_pure [of E i k] by (cases "ks_get E i k") simp
  show ?thesis
    using assms r
    by (cases r) (auto simp: lookup_readable_key_or_deny_def bnd_def on_err_def attempt_resolve caller_can_read_key_def throw_def ret_def
        in_domain_def no_domain_def list_ex_iff split: sum.splits if_splits)
qed

text \<open>The key a route is about, for the routes behind the domain gate.\<close>

fun reaches :: "extractors \<Rightarrow> string \<Rightarrow> Endpoint \<Rightarrow> KeyId option" where
  "reaches B bd (EpGetKey i) = Some i"
| "reaches B bd (EpActivate i) = Some i"
| "reaches B bd (EpRotate i) = Some i"
| "reaches B bd (EpRevoke i) = Some i"
| "reaches B bd (EpDestroy i) = Some i"
| "reaches B bd (EpEncrypt i) = Some i"
| "reaches B bd (EpSign i) = Some i"
| "reaches B bd EpGenerate = (case x_generate B bd of Inr req \<Rightarrow> gk_parent_id req | Inl _ \<Rightarrow> None)"
| "reaches B bd EpDecrypt = map_option (\<lambda>r. eb_key_id (dr_blob r)) (x_decrypt B bd)"
| "reaches B bd EpIssue = (case x_issue B bd of Inr req \<Rightarrow> Some (ai_signing_key_id req) | Inl _ \<Rightarrow> None)"
| "reaches B bd _ = None"

text \<open>The key that a route on public key material looks up.\<close>

fun looks_up :: "extractors \<Rightarrow> string \<Rightarrow> Endpoint \<Rightarrow> KeyId option" where
  "looks_up B bd (EpVerifyingKey i) = Some i"
| "looks_up B bd EpVerify = (case x_verify B bd of Inr req \<Rightarrow> Some (vr_key_id req) | Inl _ \<Rightarrow> None)"
| "looks_up B bd EpVerifyAssertion = (case x_verify_assertion B bd of Inr (a, i) \<Rightarrow> Some i | Inl _ \<Rightarrow> None)"
| "looks_up B bd _ = None"

lemma with_body_Inr: "with_body b h k = (Inr p, k') \<Longrightarrow> \<exists>x. b = Inr x \<and> h x k = (Inr p, k')"
  by (cases b) (auto simp: with_body_def bnd_def lift_def)

lemma gate_Inr:
  fixes f :: "KeyId option \<Rightarrow> ('s, 'r) handler"
  assumes "au_allowed_domains auth = Some ds" "opn \<noteq> ListKeys" "bnd (on_err Reply (authorize_domain_access E auth opn target)) f k = (Inr p, k')"
  shows "\<exists>i. target = Some i \<and> in_domain E k ds i"
  using contained_gate [OF assms(1,2), of "\<lambda>_. False" E "{}" k f target] assms(3) by (auto simp: contained_def confined_def)

lemma create_operation_neq [simp]: "create_operation kt \<noteq> ListKeys"
  by (cases kt) simp_all

lemma lift_success: "bnd (lift r) f k = (Inr p, k') \<Longrightarrow> \<exists>x. r = Inr x \<and> f x k = (Inr p, k')"
  by (cases r) (simp_all add: bnd_def lift_def)

lemma gated_routes:
  assumes "au_allowed_domains auth = Some ds"
  shows "get_key E auth i k = (Inr p, k') \<Longrightarrow> in_domain E k ds i"
    and "activate_key E auth i k = (Inr p, k') \<Longrightarrow> in_domain E k ds i"
    and "rotate_key E auth i k = (Inr p, k') \<Longrightarrow> in_domain E k ds i"
    and "revoke_key_handler E auth i reason k = (Inr p, k') \<Longrightarrow> in_domain E k ds i"
    and "destroy_key E auth i k = (Inr p, k') \<Longrightarrow> in_domain E k ds i"
    and "encrypt_data E auth i ereq k = (Inr p, k') \<Longrightarrow> in_domain E k ds i"
    and "sign_data E auth i hexed k = (Inr p, k') \<Longrightarrow> in_domain E k ds i"
    and "issue_assertion E S auth ireq k = (Inr p, k') \<Longrightarrow> in_domain E k ds (ai_signing_key_id ireq)"
    and "decrypt_data E auth (Some dreq) k = (Inr p, k') \<Longrightarrow> in_domain E k ds (eb_key_id (dr_blob dreq))"
    and "generate_key E auth greq k = (Inr p, k') \<Longrightarrow> \<exists>i. gk_parent_id greq = Some i \<and> in_domain E k ds i"
proof -
  note gate = gate_Inr [OF assms]
  show "get_key E auth i k = (Inr p, k') \<Longrightarrow> in_domain E k ds i" unfolding get_key_def by (drule gate [rotated]) auto
  show "activate_key E auth i k = (Inr p, k') \<Longrightarrow> in_domain E k ds i" unfolding activate_key_def by (drule gate [rotated]) auto
  show "revoke_key_handler E auth i reason k = (Inr p, k') \<Longrightarrow> in_domain E k ds i" unfolding revoke_key_handler_def by (drule gate [rotated]) auto
  show "destroy_key E auth i k = (Inr p, k') \<Longrightarrow> in_domain E k ds i" unfolding destroy_key_def by (drule gate [rotated]) auto
  show "encrypt_data E auth i ereq k = (Inr p, k') \<Longrightarrow> in_domain E k ds i" unfolding encrypt_data_def by (drule gate [rotated]) auto
  show "sign_data E auth i hexed k = (Inr p, k') \<Longrightarrow> in_domain E k ds i"
    unfolding sign_data_def by (drule lift_success) (auto dest!: gate [rotated])
  show "issue_assertion E S auth ireq k = (Inr p, k') \<Longrightarrow> in_domain E k ds (ai_signing_key_id ireq)"
    unfolding issue_assertion_def Let_def by (drule gate [rotated]) auto
  show "decrypt_data E auth (Some dreq) k = (Inr p, k') \<Longrightarrow> in_domain E k ds (eb_key_id (dr_blob dreq))"
    by (simp add: decrypt_data_def Let_def) (drule gate [rotated], auto)
  show "generate_key E auth greq k = (Inr p, k') \<Longrightarrow> \<exists>i. gk_parent_id greq = Some i \<and> in_domain E k ds i"
    unfolding generate_key_def by (drule lift_success) (auto dest!: gate [rotated])
  show "in_domain E k ds i" if "rotate_key E auth i k = (Inr p, k')"
  proof -
    have "in_domain E (k\<lparr> tick := tick k + 1 \<rparr>) ds i"
      using that by (simp add: rotate_key_def bnd_def [of now] now_def) (drule gate [rotated], auto)
    then show ?thesis using in_domain_cong [of "k\<lparr> tick := tick k + 1 \<rparr>" k E ds i] by simp
  qed
qed

lemma global_Inr: "au_allowed_domains auth = Some ds \<Longrightarrow> global auth h k \<noteq> (Inr p, k')"
  by (simp add: global_def require_global_admin_def is_global_admin_def bnd_def lift_def)

lemmas global_routes = get_status_def get_threat_def post_threat_event_def reset_threat_def get_policies_def expire_due_def

text \<open>C12: what a caller whose API key is confined to the domains \<open>ds\<close> is answered with success. Either the route is one behind the domain
  gate and its key (for a new key, the parent) belongs to one of the domains; or it is the list of keys, cut down to keys of these
  domains; or it is one of the three routes on public key material (verifying key, verification of a signature or of an assertion) and
  the key belongs to one of the domains or is stored without a domain that can be resolved, which the server documents as a global key,
  readable by any authenticated caller; or it is whoami, which returns the caller's own data. In particular no route on
  global state succeeds, and none on a key that resolves to another domain.\<close>

theorem tenant_reads:
  assumes "au_allowed_domains auth = Some ds" "key_route E S B auth bd ep k = (Inr p, k')"
  shows "(\<exists>i. reaches B bd ep = Some i \<and> in_domain E k ds i) \<or>
    ep = EpListKeys \<and> (\<exists>shown. p = reply 200 (KeysBody shown) \<and> list_all (\<lambda>x. in_domain E k ds (kr_id x)) shown) \<or>
    (\<exists>i. looks_up B bd ep = Some i \<and> (in_domain E k ds i \<or> no_domain E k i)) \<or>
    ep = EpWhoami \<and> p = whoami (Some auth)"
proof (cases ep)
  case (EpVerifyingKey i)
  then show ?thesis using assms lookup_readable by (fastforce simp: get_verifying_key_def)
next
  case EpVerify
  then show ?thesis
    using assms lookup_readable by (fastforce dest!: with_body_Inr simp: verify_signature_handler_def)
next
  case EpVerifyAssertion
  then show ?thesis
    using assms lookup_readable by (fastforce dest!: with_body_Inr simp: verify_assertion_def)
next
  case EpDecrypt
  then show ?thesis using assms gated_routes(9) by (cases "x_decrypt B bd") (auto simp: decrypt_data_def throw_def)
qed (use assms in \<open>auto dest!: with_body_Inr gated_routes [OF assms(1)] list_keys_in_domain [OF assms(1)] simp: throw_def global_routes
      global_Inr [OF assms(1)] ret_def\<close>)

lemma demo_reads:
  "\<exists>p. key_route toy_env toy_signer demo_extractors demo_auth [] (EpGetKey ''e'') (toy_keystore demo_store) = (Inr p, toy_keystore demo_store)"
  by (simp add: get_key_def authorize_domain_access_def demo_auth_def is_global_admin_def bnd_def on_err_def lift_def resolve_domain_for_key_def
      MAX_DEPTH_def numeral_eq_Suc ks_get_run ret_def toy_keystore_def toy_env_def demo_store_def InMemory_def mem_get_def toy_key_def)

theorem tenant_reads_witness:
  "\<exists>p. key_route toy_env toy_signer demo_extractors demo_auth [] (EpGetKey ''e'') (toy_keystore demo_store) = (Inr p, toy_keystore demo_store) \<and>
     in_domain toy_env (toy_keystore demo_store) [''d''] ''e''"
proof -
  obtain p where p: "key_route toy_env toy_signer demo_extractors demo_auth [] (EpGetKey ''e'') (toy_keystore demo_store) = (Inr p, toy_keystore demo_store)"
    using demo_reads by blast
  moreover have "au_allowed_domains demo_auth = Some [''d'']" by (simp add: demo_auth_def)
  ultimately show ?thesis using tenant_reads [of demo_auth "[''d'']" toy_env toy_signer demo_extractors "[]" "EpGetKey ''e''"] by force
qed

section \<open>What a scoped caller changes\<close>

lemma confined_mono: "confined J E D k k' \<Longrightarrow> D \<subseteq> D' \<Longrightarrow> confined J E D' k k'"
  by (auto simp: confined_def)

definition writable :: "('s, 'r) kenv \<Rightarrow> ('s, 'r) Keystore \<Rightarrow> string list \<Rightarrow> Endpoint \<Rightarrow> KeyId set" where
  "writable E k ds ep = {j. in_domain E k ds j} \<union> (if ep = EpGenerate then {hex_encode E (r_id (draws k (drawn k)))} else {})"

lemma contained_writable:
  assumes "contained J E ds t D k out" "\<And>i. t = Some i \<Longrightarrow> D \<subseteq> {i}"
  shows "confined J E (writable E k ds ep) k (snd out)"
proof (cases "storage (snd out) = storage k")
  case False
  then obtain i where i: "t = Some i" "in_domain E k ds i" "confined J E D k (snd out)" using assms(1) by (auto simp: contained_def)
  have "D \<subseteq> writable E k ds ep" using assms(2) [OF i(1)] i(2) by (auto simp: writable_def)
  with i(3) show ?thesis by (rule confined_mono)
qed (rule confined_same)

lemma with_body_confined: "(\<And>x. confined J E D k (snd (h x k))) \<Longrightarrow> confined J E D k (snd (with_body b h k))"
  by (cases b) (simp_all add: with_body_def bnd_def lift_def confined_def)

context storage_backend
begin

lemma route_confined:
  fixes E :: "('s, 'r) kenv"
  assumes E: "k_sb E = SB" and au: "au_allowed_domains auth = Some ds"
  shows "confined sinv E (writable E k ds ep) k (snd (key_route E S B auth bd ep k))"
proof -
  have store: "confined sinv E (writable E k ds ep) k (snd (m k))" if "evolves store_same m" for m :: "('s, 'r) handler" and ep
    using that by (intro confinedD confined_store)
  have gen: "confined sinv E (writable E k ds EpGenerate) k (snd (generate_key E auth req k))" for req
    using generate_contained [OF E au, of req k] confined_same confined_mono [of sinv E _ k _ "writable E k ds EpGenerate"]
    unfolding contained_def by (fastforce simp: writable_def)
  note gated = contained_writable [OF get_contained [OF E au]] contained_writable [OF activate_contained [OF E au]]
    contained_writable [OF rotate_contained [OF E au]] contained_writable [OF revoke_contained [OF E au]]
    contained_writable [OF destroy_contained [OF E au]] contained_writable [OF encrypt_contained [OF E au]]
    contained_writable [OF decrypt_contained [OF au]] contained_writable [OF sign_contained [OF au]]
    contained_writable [OF issue_contained [OF au]] contained_writable [OF global_contained [where D = "{}", OF au]]
  show ?thesis
    by (cases ep)
      (auto intro!: with_body_confined gen gated reading_routes_store [THEN store] store_basic(2,3) [THEN store] simp: global_routes split: prod.split)
qed

end

text \<open>C8: whatever a caller whose API key is confined to the domains \<open>ds\<close> asks of a route, every stored key that differs afterwards belongs
  to one of these domains, or is the new key of a generation; the keys of all other domains are as before.\<close>

theorem tenant_isolation:
  assumes "k_sb E = InMemory" "mem_sinv (storage k)" "au_allowed_domains auth = Some ds" "key_route E S B auth bd ep k = (r, k')"
  shows "mem_sinv (storage k') \<and> {j. view E k' j \<noteq> view E k j} \<subseteq> writable E k ds ep"
  using in_memory.route_confined [OF assms(1,3), of k ep S B bd] assms(2,4) by (auto simp: confined_def)

theorem tenant_isolation_witness:
  "mem_sinv demo_store \<and> {j. view toy_env (snd (key_route toy_env toy_signer demo_extractors demo_auth ''lost'' (EpRevoke ''d'') (toy_keystore demo_store))) j
      \<noteq> view toy_env (toy_keystore demo_store) j} \<subseteq> writable toy_env (toy_keystore demo_store) [''d''] (EpRevoke ''d'')"
proof -
  let ?r = "key_route toy_env toy_signer demo_extractors demo_auth ''lost'' (EpRevoke ''d'') (toy_keystore demo_store)"
  have "mem_sinv (storage (snd ?r)) \<and> {j. view toy_env (snd ?r) j \<noteq> view toy_env (toy_keystore demo_store) j} \<subseteq>
      writable toy_env (toy_keystore demo_store) [''d''] (EpRevoke ''d'')"
    by (rule tenant_isolation [OF _ _ _ prod.collapse [symmetric]]) (simp_all add: toy_env_def toy_keystore_def demo_sinv demo_auth_def)
  then show ?thesis using demo_sinv by blast
qed

section \<open>A failed decryption\<close>

lemma bnd_fst_cases:
  obtains (left) e where "fst (bnd m f k) = Inl e" "fst (m k) = Inl e" | (right) x k1 where "m k = (Inr x, k1)" "fst (bnd m f k) = fst (f x k1)"
  by (cases "m k"; cases "fst (m k)") (auto simp: bnd_def)

lemma on_err_Inl: "fst (on_err g m k) = Inl e \<Longrightarrow> \<exists>e'. e = g e'"
  by (auto simp: on_err_def split: prod.splits sum.splits)

lemma authorize_decrypt_denial:
  assumes "fst (on_err Reply (authorize_domain_access E auth DecryptOp (Some i)) k) = Inl e"
  shows "e = opaque_reply"
proof -
  obtain r where r: "resolve_domain_for_key E i k = (r, k)"
    using resolve_domain_pure [of E i k] by (cases "resolve_domain_for_key E i k") simp
  show ?thesis
    using assms r
    by (cases r) (auto simp: authorize_domain_access_def bnd_def on_err_def lift_def ret_def throw_def domain_denied_def opaque_reply_def
        split: if_splits option.splits)
qed

text \<open>C37: the decryption route tells a caller nothing about why it fails. Whatever the body, the caller, the stored keys and the state of
  the enforcer, it answers with the plaintext, or with the one answer 400 and the text ``operation failed'' (a panic in the arithmetic of
  dates apart).\<close>

theorem decrypt_route_opaque:
  "fst (decrypt_data E auth parsed k) \<in> {Inl opaque_reply, Inl Crashed} \<union> range (\<lambda>pt. Inr (reply 200 (PlaintextBody pt)))"
proof (cases parsed)
  case (Some req)
  let ?i = "eb_key_id (dr_blob req)"
  let ?dec = "\<lambda>authz. bnd (on_err decrypt_failed (decrypt_authorized E authz (dr_blob req) (as_bytes (dr_aad req)) (as_bytes (dr_context req))))
      (\<lambda>pt. ret (reply 200 (PlaintextBody pt)))"
  let ?enf = "\<lambda>dm. bnd (on_err (\<lambda>_. opaque_reply) (on_enforcer (\<lambda>r c. authorize_decrypt r c ?i dm))) ?dec"
  have dec: "fst (?dec authz k1) \<in> {Inl opaque_reply, Inl Crashed} \<union> range (\<lambda>pt. Inr (reply 200 (PlaintextBody pt)))" for authz k1
  proof (cases rule: bnd_fst_cases [of "on_err decrypt_failed (decrypt_authorized E authz (dr_blob req) (as_bytes (dr_aad req)) (as_bytes (dr_context req)))"
        "\<lambda>pt. ret (reply 200 (PlaintextBody pt))" k1])
    case (left e)
    then obtain e' where "e = decrypt_failed e'" using on_err_Inl [OF left(2)] by blast
    then show ?thesis using left by (cases e') auto
  qed (auto simp: ret_def)
  have enf: "fst (?enf dm k1) \<in> {Inl opaque_reply, Inl Crashed} \<union> range (\<lambda>pt. Inr (reply 200 (PlaintextBody pt)))" for dm k1
    by (cases rule: bnd_fst_cases [of "on_err (\<lambda>_. opaque_reply) (on_enforcer (\<lambda>r c. authorize_decrypt r c ?i dm))" ?dec k1])
      (use dec in \<open>auto dest: on_err_Inl\<close>)
  show ?thesis
    unfolding decrypt_data_def Some Let_def option.case
    by (cases rule: bnd_fst_cases [of "on_err Reply (authorize_domain_access E auth DecryptOp (Some ?i))" ?enf k])
      (use enf in \<open>auto dest: authorize_decrypt_denial\<close>)
qed (simp add: decrypt_data_def throw_def)

end
