(* ===== verification/File_Backend.thy ===== *)
theory File_Backend
  imports Storage
begin

text \<open>
  \<^verbatim>\<open>citadel-keystore/src/storage.rs\<close>: the file back end, one JSON file per key. The state is what the back end sees of its directory: the
  files by name, the outcomes of the next file operations, and the errors of reads. An outcome is a success or a fault with its text; a
  fault of a write leaves a part of the data in the file. The coding of metadata as JSON is a parameter. A key file is read through its
  name; a name that leaves the directory (an identifier with a slash) is a name like any other here, and the laws of the theory are
  about identifiers without a slash, as generated ones are. Modes and the repair of modes in \<^verbatim>\<open>FileBackend::new\<close> are not modelled.
\<close>

section \<open>The directory\<close>

record io_fault =
  f_text :: string
  f_written :: nat

record FileBackend =
  files :: "(string \<times> string) list"
  outcomes :: "io_fault option list"
  read_errors :: "(string \<times> string) list"
  dir_error :: "string option"

record meta_codec =
  to_string_pretty :: "KeyMetadata \<Rightarrow> string + string"
  from_str :: "string \<Rightarrow> string + KeyMetadata"

text \<open>The outcome of the next file operation; when the list is used up, operations succeed.\<close>

definition next_io :: "FileBackend \<Rightarrow> io_fault option \<times> FileBackend" where
  "next_io s = (case outcomes s of [] \<Rightarrow> (None, s) | r # rs \<Rightarrow> (r, s\<lparr> outcomes := rs \<rparr>))"

text \<open>A file operation without an effect of its own: it goes on, or stops with an error.\<close>

definition try_io :: "(string \<Rightarrow> string) \<Rightarrow> (FileBackend \<Rightarrow> FileBackend \<times> (KeystoreError + 'a)) \<Rightarrow> FileBackend \<Rightarrow> FileBackend \<times> (KeystoreError + 'a)" where
  "try_io msg continue s = (case next_io s of (Some f, s') \<Rightarrow> (s', Inl (StorageError (msg (f_text f)))) | (None, s') \<Rightarrow> continue s')"

section \<open>Paths\<close>

text \<open>\<^verbatim>\<open>Path::extension\<close> and \<^verbatim>\<open>Path::with_extension\<close> of a path that does not end with a slash: the extension is what follows the last dot
  of the last component, if something precedes the dot.\<close>

definition file_name :: "string \<Rightarrow> string" where
  "file_name p = rev (takeWhile (\<lambda>c. c \<noteq> CHR ''/'') (rev p))"

definition after_dot :: "string \<Rightarrow> string" where
  "after_dot n = rev (takeWhile (\<lambda>c. c \<noteq> CHR ''.'') (rev n))"

definition extension :: "string \<Rightarrow> string option" where
  "extension p = (let n = file_name p; e = after_dot n in if length e + 1 < length n then Some e else None)"

definition with_extension :: "string \<Rightarrow> string \<Rightarrow> string" where
  "with_extension p e = (case extension p of Some old \<Rightarrow> take (length p - length old) p @ e | None \<Rightarrow> p @ ''.'' @ e)"

definition key_path :: "KeyId \<Rightarrow> string" where "key_path i = i @ ''.json''"

section \<open>Operations\<close>

text \<open>The error of an operation on a name that is not in the directory.\<close>

definition not_found :: string where "not_found = ''No such file or directory (os error 2)''"

text \<open>\<^verbatim>\<open>write_restricted\<close>: opening creates or truncates the file; the writing may stop in the middle.\<close>

definition write_restricted :: "string \<Rightarrow> string \<Rightarrow> FileBackend \<Rightarrow> FileBackend \<times> (string + unit)" where
  "write_restricted path data s =
    (case next_io s of
       (Some f, s) \<Rightarrow> (s, Inl (f_text f))
     | (None, s) \<Rightarrow>
         (case next_io s of
            (Some f, s) \<Rightarrow> (s\<lparr> files := al_put path (take (f_written f) data) (files s) \<rparr>, Inl (f_text f))
          | (None, s) \<Rightarrow>
              let s = s\<lparr> files := al_put path data (files s) \<rparr> in
              (case next_io s of (Some f, s) \<Rightarrow> (s, Inl (f_text f)) | (None, s) \<Rightarrow> (s, Inr ()))))"

definition read_key_file :: "meta_codec \<Rightarrow> string \<Rightarrow> FileBackend \<Rightarrow> KeystoreError + KeyMetadata" where
  "read_key_file J path s =
    (case (map_of (read_errors s) path, map_of (files s) path) of
       (None, Some data) \<Rightarrow> map_err (\<lambda>e. StorageError (''parse: '' @ e)) (from_str J data)
     | (Some e, _) \<Rightarrow> Inl (StorageError (''read: '' @ e))
     | (None, None) \<Rightarrow> Inl (StorageError (''read: '' @ not_found)))"

definition file_get :: "meta_codec \<Rightarrow> KeyId \<Rightarrow> FileBackend \<Rightarrow> KeystoreError + KeyMetadata option" where
  "file_get J i s =
    (if map_of (files s) (key_path i) = None then Inr None
     else case read_key_file J (key_path i) s of Inl e \<Rightarrow> Inl e | Inr m \<Rightarrow> Inr (Some m))"

text \<open>The parent directory is opened and synchronised.\<close>

definition sync_dir :: "FileBackend \<Rightarrow> FileBackend \<times> (KeystoreError + unit)" where
  "sync_dir = try_io (\<lambda>e. ''open dir: '' @ e) (try_io (\<lambda>e. ''dir fsync: '' @ e) (\<lambda>s. (s, Inr ())))"

definition file_put :: "meta_codec \<Rightarrow> KeyMetadata \<Rightarrow> FileBackend \<Rightarrow> FileBackend \<times> (KeystoreError + unit)" where
  "file_put J meta = try_io (\<lambda>_. ''mutation lock poisoned'') (\<lambda>s.
    let path = key_path (km_id meta); tmp = with_extension path ''tmp'' in
    case to_string_pretty J meta of
      Inl e \<Rightarrow> (s, Inl (StorageError (''serialize: '' @ e)))
    | Inr json \<Rightarrow>
        (case write_restricted tmp json s of
           (s, Inl e) \<Rightarrow> (s, Inl (StorageError (''write: '' @ e)))
         | (s, Inr _) \<Rightarrow>
             try_io (\<lambda>e. ''rename: '' @ e)
               (\<lambda>s. case map_of (files s) tmp of
                  None \<Rightarrow> (s, Inl (StorageError (''rename: '' @ not_found)))
                | Some d \<Rightarrow> sync_dir (s\<lparr> files := al_put path d (al_del tmp (files s)) \<rparr>)) s))"

definition file_delete :: "KeyId \<Rightarrow> FileBackend \<Rightarrow> FileBackend \<times> (KeystoreError + unit)" where
  "file_delete i = try_io (\<lambda>_. ''mutation lock poisoned'') (\<lambda>s.
    let path = key_path i in
    if map_of (files s) path = None then (s, Inr ())
    else try_io (\<lambda>e. ''delete: '' @ e) (\<lambda>s.
      case map_of (files s) path of
        None \<Rightarrow> (s, Inl (StorageError (''delete: '' @ not_found)))
      | Some _ \<Rightarrow> (s\<lparr> files := al_del path (files s) \<rparr>, Inr ())) s)"

fun read_all :: "meta_codec \<Rightarrow> FileBackend \<Rightarrow> string list \<Rightarrow> KeystoreError + KeyMetadata list" where
  "read_all J s [] = Inr []"
| "read_all J s (path # paths) =
     (if extension path = Some ''json'' then
        and_then (read_key_file J path s) (\<lambda>m. and_then (read_all J s paths) (\<lambda>ms. Inr (m # ms)))
      else read_all J s paths)"

text \<open>\<^verbatim>\<open>read_dir\<close> yields the files of the directory itself; the first error ends the listing.\<close>

definition file_list :: "meta_codec \<Rightarrow> FileBackend \<Rightarrow> KeystoreError + KeyMetadata list" where
  "file_list J s =
    (case dir_error s of
       Some e \<Rightarrow> Inl (StorageError (''readdir: '' @ e))
     | None \<Rightarrow> read_all J s (filter (\<lambda>p. CHR ''/'' \<notin> set p) (map fst (files s))))"

definition file_list_by_state :: "meta_codec \<Rightarrow> KeyState \<Rightarrow> FileBackend \<Rightarrow> KeystoreError + KeyMetadata list" where
  "file_list_by_state J st s = and_then (file_list J s) (\<lambda>ms. Inr (filter (\<lambda>k. km_state k = st) ms))"

definition file_list_by_parent :: "meta_codec \<Rightarrow> KeyId \<Rightarrow> FileBackend \<Rightarrow> KeystoreError + KeyMetadata list" where
  "file_list_by_parent J p s = and_then (file_list J s) (\<lambda>ms. Inr (filter (\<lambda>k. parent_id k = Some p) ms))"

definition file_overwrite_key_file :: "KeyId \<Rightarrow> FileBackend \<Rightarrow> FileBackend \<times> (KeystoreError + unit)" where
  "file_overwrite_key_file i = try_io (\<lambda>_. ''mutation lock poisoned'') (\<lambda>s.
    let path = key_path i in
    case map_of (files s) path of
      None \<Rightarrow> (s, Inr ())
    | Some data \<Rightarrow>
        try_io (\<lambda>e. ''metadata: '' @ e) (\<lambda>s.
          if length data = 0 then (s, Inr ())
          else case write_restricted path (replicate (length data) CHR 0x00) s of
            (s, Inl e) \<Rightarrow> (s, Inl (StorageError (''overwrite: '' @ e)))
          | (s, Inr _) \<Rightarrow> sync_dir s) s)"

definition File :: "meta_codec \<Rightarrow> FileBackend StorageBackend" where
  "File J = \<lparr> sb_get = file_get J, sb_put = file_put J, sb_delete = file_delete, sb_list = file_list J,
     sb_list_by_state = file_list_by_state J, sb_list_by_parent = file_list_by_parent J,
     sb_overwrite_key_file = file_overwrite_key_file \<rparr>"

lemma File_simps [simp]: "sb_get (File J) = file_get J" "sb_put (File J) = file_put J" "sb_delete (File J) = file_delete"
    "sb_list (File J) = file_list J"
  by (simp_all add: File_def)

section \<open>Names of key files\<close>

definition plain :: "KeyId \<Rightarrow> bool" where
  "plain i \<longleftrightarrow> i \<noteq> [] \<and> CHR ''/'' \<notin> set i"

lemma file_name_plain: "CHR ''/'' \<notin> set p \<Longrightarrow> file_name p = p"
proof -
  assume "CHR ''/'' \<notin> set p"
  then have "takeWhile (\<lambda>c. c \<noteq> CHR ''/'') (rev p) = rev p" by (intro takeWhile_eq_all_conv [THEN iffD2]) auto
  then show ?thesis unfolding file_name_def by (metis rev_rev_ident)
qed

lemma after_dot_append: "CHR ''.'' \<notin> set e \<Longrightarrow> after_dot (i @ CHR ''.'' # e) = e"
proof -
  assume "CHR ''.'' \<notin> set e"
  then have "takeWhile (\<lambda>c. c \<noteq> CHR ''.'') (rev e @ CHR ''.'' # rev i) = rev e" by (subst takeWhile_append2) auto
  then show ?thesis by (simp add: after_dot_def)
qed

lemma key_path_extension: "plain i \<Longrightarrow> extension (key_path i) = Some ''json''"
  by (simp add: extension_def plain_def file_name_plain key_path_def after_dot_append Let_def)

lemma key_path_tmp: "plain i \<Longrightarrow> with_extension (key_path i) ''tmp'' = i @ ''.tmp''"
  by (simp add: with_extension_def key_path_extension) (simp add: key_path_def)

lemma key_path_inj [simp]: "key_path i = key_path j \<longleftrightarrow> i = j"
  by (simp add: key_path_def)

lemma tmp_not_key [simp]: "i @ ''.tmp'' \<noteq> key_path j" "key_path j \<noteq> i @ ''.tmp''"
proof -
  have "last (i @ ''.tmp'') \<noteq> last (key_path j)" by (simp add: key_path_def)
  then show "i @ ''.tmp'' \<noteq> key_path j" "key_path j \<noteq> i @ ''.tmp''" by metis+
qed

lemma json_file_key:
  assumes "extension p = Some ''json''" "CHR ''/'' \<notin> set p"
  shows "\<exists>i. plain i \<and> p = key_path i"
proof -
  define t d where td: "t = takeWhile (\<lambda>c. c \<noteq> CHR ''.'') (rev p)" "d = dropWhile (\<lambda>c. c \<noteq> CHR ''.'') (rev p)"
  have e: "rev t = ''json''" and len: "length t + 1 < length p"
    using assms by (simp_all add: extension_def file_name_plain after_dot_def Let_def td split: if_splits)
  have rp: "rev p = t @ d" by (simp add: td)
  have "length p = length t + length d" using arg_cong [OF rp, of length] by simp
  then have "d \<noteq> []" "tl d \<noteq> []" using len by (cases d; auto)+
  moreover have "hd d = CHR ''.''" using hd_dropWhile [of "\<lambda>c. c \<noteq> CHR ''.''" "rev p"] \<open>d \<noteq> []\<close> by (simp add: td)
  ultimately obtain xs where d: "d = CHR ''.'' # xs" "xs \<noteq> []" by (cases d) auto
  have t: "rev p = t @ CHR ''.'' # xs" "rev t = ''json''" using rp d(1) e by simp_all
  have "p = rev (t @ CHR ''.'' # xs)" using arg_cong [OF t(1), of rev] by (simp only: rev_rev_ident)
  then have "p = key_path (rev xs)" using t(2) by (simp add: key_path_def)
  then show ?thesis using assms(2) d(2) by (intro exI [of _ "rev xs"]) (auto simp: plain_def key_path_def)
qed

section \<open>Effects\<close>

text \<open>Metadata whose key material reads back from its text form; other material (a plaintext that looks like an encrypted one) would change
  its kind in the file.\<close>

definition storable :: "KeyMetadata \<Rightarrow> bool" where
  "storable m \<longleftrightarrow> list_all (\<lambda>v. deserialize_material (serialize_material (secret_key_material v)) = secret_key_material v) (versions m)"

text \<open>The laws of the coding: a text written for storable metadata is read back as this metadata, and zeros are no JSON text.\<close>

definition codec_ok :: "meta_codec \<Rightarrow> bool" where
  "codec_ok J \<longleftrightarrow> (\<forall>m t. storable m \<longrightarrow> to_string_pretty J m = Inr t \<longrightarrow> from_str J t = Inr m) \<and>
     (\<forall>n. \<exists>e. from_str J (replicate n CHR 0x00) = Inl e)"

definition fb_inv :: "meta_codec \<Rightarrow> FileBackend \<Rightarrow> bool" where
  "fb_inv J s \<longleftrightarrow> distinct (al_keys (files s)) \<and> read_errors s = [] \<and>
     (\<forall>i d m. map_of (files s) (key_path i) = Some d \<longrightarrow> from_str J d = Inr m \<longrightarrow> km_id m = i)"

text \<open>The directory with other outcomes ahead.\<close>

definition same_dir :: "FileBackend \<Rightarrow> FileBackend \<Rightarrow> bool" where
  "same_dir s s' \<longleftrightarrow> files s' = files s \<and> read_errors s' = read_errors s \<and> dir_error s' = dir_error s"

lemma next_io_dir: "next_io s = (r, s') \<Longrightarrow> same_dir s s'"
  by (auto simp: next_io_def same_dir_def split: list.splits)

lemma try_io_cases:
  assumes "try_io msg continue s = (s', r)"
  obtains e where "same_dir s s'" "r = Inl e" | s1 where "same_dir s s1" "continue s1 = (s', r)"
  using assms next_io_dir [of s] by (auto simp: try_io_def split: prod.splits option.splits)

lemma sync_dir_dir: "sync_dir s = (s', r) \<Longrightarrow> same_dir s s'"
  unfolding sync_dir_def by (erule try_io_cases; (erule try_io_cases)?; auto simp: same_dir_def)

lemma write_restricted_cases:
  assumes "write_restricted path data s = (s', r)"
  obtains (untouched) e where "same_dir s s'" "r = Inl e"
  | (partly) e n where "same_dir (s\<lparr> files := al_put path (take n data) (files s) \<rparr>) s'" "r = Inl e"
  | (written) "same_dir (s\<lparr> files := al_put path data (files s) \<rparr>) s'"
  using assms next_io_dir unfolding write_restricted_def Let_def
  by (auto simp: same_dir_def split: prod.splits option.splits)

text \<open>What a write leaves behind: nothing, something in the temporary file, or the new key file.\<close>

lemma file_put_cases:
  assumes "file_put J m s = (s', r)" "plain (km_id m)"
  obtains (failed) e where "same_dir s s'" "r = Inl e"
  | (temporary) e d where "same_dir (s\<lparr> files := al_put (km_id m @ ''.tmp'') d (files s) \<rparr>) s'" "r = Inl e"
  | (renamed) t where "to_string_pretty J m = Inr t"
      "same_dir (s\<lparr> files := al_put (key_path (km_id m)) t (al_del (km_id m @ ''.tmp'') (al_put (km_id m @ ''.tmp'') t (files s))) \<rparr>) s'"
proof -
  let ?tmp = "km_id m @ ''.tmp''"
  note tmp = key_path_tmp [OF assms(2)]
  from assms(1) show ?thesis
    unfolding file_put_def
  proof (cases rule: try_io_cases)
    case (2 s1)
    show ?thesis
    proof (cases "to_string_pretty J m")
      case (Inl e)
      then show ?thesis using 2 failed by (auto simp: same_dir_def)
    next
      case (Inr t)
      obtain s2 w where w: "write_restricted ?tmp t s1 = (s2, w)" by fastforce
      then show ?thesis
      proof (cases rule: write_restricted_cases)
        case (untouched e)
        then show ?thesis using 2 w Inr tmp failed by (auto simp: same_dir_def)
      next
        case (partly e n)
        then show ?thesis using 2 w Inr tmp temporary by (auto simp: same_dir_def)
      next
        case written
        show ?thesis
        proof (cases w)
          case (Inl e)
          then show ?thesis using 2 w \<open>to_string_pretty J m = Inr t\<close> tmp temporary written by (auto simp: same_dir_def)
        next
          case (Inr u)
          have "try_io ((@) ''rename: '') (\<lambda>s. case map_of (files s) ?tmp of
                None \<Rightarrow> (s, Inl (StorageError (''rename: '' @ not_found)))
              | Some d \<Rightarrow> sync_dir (s\<lparr> files := al_put (key_path (km_id m)) d (al_del ?tmp (files s)) \<rparr>)) s2 = (s', r)"
            using 2 w \<open>to_string_pretty J m = Inr t\<close> tmp Inr by (simp add: Let_def cong: option.case_cong)
          then show ?thesis
          proof (cases rule: try_io_cases)
            case (1 e)
            then show ?thesis using temporary written 2 by (auto simp: same_dir_def)
          next
            case (2 s3)
            then show ?thesis
              using renamed [OF \<open>to_string_pretty J m = Inr t\<close>] sync_dir_dir [of _ s' r] written \<open>same_dir s s1\<close>
              by (auto simp: same_dir_def)
          qed
        qed
      qed
    qed
  qed (auto intro: failed)
qed

lemma file_get_run: "read_errors s = [] \<Longrightarrow> file_get J i s =
    (case map_of (files s) (key_path i) of None \<Rightarrow> Inr None
     | Some d \<Rightarrow> (case from_str J d of Inr m \<Rightarrow> Inr (Some m) | Inl e \<Rightarrow> Inl (StorageError (''parse: '' @ e))))"
  by (simp add: file_get_def read_key_file_def split: option.split sum.split)

lemma same_dir_get: "same_dir s s' \<Longrightarrow> file_get J i s' = file_get J i s" "same_dir s s' \<Longrightarrow> fb_inv J s' = fb_inv J s"
  by (simp_all add: same_dir_def file_get_def read_key_file_def fb_inv_def)

lemma file_put_effect:
  assumes "codec_ok J" "fb_inv J s" "plain (km_id m)" "storable m" "file_put J m s = (s', r)"
  shows "fb_inv J s' \<and> (\<forall>i. i \<noteq> km_id m \<longrightarrow> file_get J i s' = file_get J i s) \<and>
    file_get J (km_id m) s' \<in> {file_get J (km_id m) s, Inr (Some m)} \<and> (r = Inr () \<longrightarrow> file_get J (km_id m) s' = Inr (Some m))"
  using assms(5,3)
proof (cases rule: file_put_cases)
  case (temporary e d)
  let ?s = "s\<lparr> files := al_put (km_id m @ ''.tmp'') d (files s) \<rparr>"
  have "fb_inv J ?s" "file_get J i ?s = file_get J i s" for i
    using assms(2) by (simp_all add: fb_inv_def file_get_run)
  then show ?thesis using temporary same_dir_get [of ?s s' J] by simp
next
  case (renamed t)
  let ?s = "s\<lparr> files := al_put (key_path (km_id m)) t (al_del (km_id m @ ''.tmp'') (al_put (km_id m @ ''.tmp'') t (files s))) \<rparr>"
  have f: "from_str J t = Inr m" using assms(1,4) renamed(1) by (simp add: codec_ok_def)
  then have "fb_inv J ?s" "file_get J i ?s = (if i = km_id m then Inr (Some m) else file_get J i s)" for i
    using assms(2) by (auto simp: fb_inv_def file_get_run)
  then show ?thesis using renamed same_dir_get [of ?s s' J] by simp
qed (use assms(2) same_dir_get [of s s' J] in simp)

lemma file_delete_cases:
  assumes "file_delete i s = (s', r)"
  obtains (failed) e where "same_dir s s'" "r = Inl e"
  | (absent) "same_dir s s'" "r = Inr ()" "map_of (files s) (key_path i) = None"
  | (deleted) "same_dir (s\<lparr> files := al_del (key_path i) (files s) \<rparr>) s'" "r = Inr ()"
  using assms unfolding file_delete_def
proof (cases rule: try_io_cases)
  case (2 s1)
  show ?thesis
  proof (cases "map_of (files s1) (key_path i)")
    case None
    then show ?thesis using 2 absent by (auto simp: same_dir_def)
  next
    case (Some d)
    then have "try_io ((@) ''delete: '') (\<lambda>s. case map_of (files s) (key_path i) of
        None \<Rightarrow> (s, Inl (StorageError (''delete: '' @ not_found)))
      | Some _ \<Rightarrow> (s\<lparr> files := al_del (key_path i) (files s) \<rparr>, Inr ())) s1 = (s', r)"
      using 2(2) by (simp add: Let_def)
    then show ?thesis
    proof (cases rule: try_io_cases)
      case (1 e)
      then show ?thesis using 2 failed by (auto simp: same_dir_def)
    next
      case two: (2 s2)
      then have "map_of (files s2) (key_path i) = Some d" using Some by (simp add: same_dir_def)
      then show ?thesis using two 2(1) deleted by (auto simp: same_dir_def)
    qed
  qed
qed (auto intro: failed)

lemma file_delete_effect:
  assumes "fb_inv J s" "file_delete i s = (s', r)"
  shows "fb_inv J s' \<and> (\<forall>j. j \<noteq> i \<longrightarrow> file_get J j s' = file_get J j s) \<and> (r = Inr () \<longrightarrow> file_get J i s' = Inr None) \<and>
    (r \<noteq> Inr () \<longrightarrow> file_get J i s' = file_get J i s)"
  using assms(2)
proof (cases rule: file_delete_cases)
  case absent
  then show ?thesis using assms(1) same_dir_get [of s s' J] by (simp add: file_get_def)
next
  case deleted
  let ?d = "s\<lparr> files := al_del (key_path i) (files s) \<rparr>"
  have d: "fb_inv J ?d" "file_get J j ?d = (if j = i then Inr None else file_get J j s)" for j
    using assms(1) by (auto simp: fb_inv_def file_get_run)
  then show ?thesis using deleted same_dir_get [of ?d s' J] by simp
qed (use assms(1) same_dir_get [of s s' J] in simp)

lemma read_all_set:
  "read_all J s ps = Inr ms \<Longrightarrow> set ms = {m. \<exists>p \<in> set ps. extension p = Some ''json'' \<and> read_key_file J p s = Inr m}"
  by (induction ps arbitrary: ms) (auto split: if_splits)

lemma file_list_set:
  assumes "file_list J s = Inr ms"
  shows "set ms = {m. \<exists>i. plain i \<and> file_get J i s = Inr (Some m)}"
proof -
  let ?ps = "filter (\<lambda>p. CHR ''/'' \<notin> set p) (map fst (files s))"
  have "read_all J s ?ps = Inr ms" using assms by (auto simp: file_list_def split: option.splits)
  note ms = read_all_set [OF this]
  have "(\<exists>p \<in> set ?ps. extension p = Some ''json'' \<and> read_key_file J p s = Inr m) \<longleftrightarrow>
      (\<exists>i. plain i \<and> file_get J i s = Inr (Some m))" for m
  proof
    assume "\<exists>p \<in> set ?ps. extension p = Some ''json'' \<and> read_key_file J p s = Inr m"
    then obtain p where p: "p \<in> fst ` set (files s)" "CHR ''/'' \<notin> set p" "extension p = Some ''json''" "read_key_file J p s = Inr m" by auto
    then obtain i where i: "plain i" "p = key_path i" using json_file_key by blast
    have "map_of (files s) p \<noteq> None" using p(1) by (simp add: map_of_eq_None_iff)
    then show "\<exists>i. plain i \<and> file_get J i s = Inr (Some m)" using i p(4) by (auto simp: file_get_def)
  next
    assume "\<exists>i. plain i \<and> file_get J i s = Inr (Some m)"
    then obtain i where i: "plain i" "file_get J i s = Inr (Some m)" by blast
    then have "map_of (files s) (key_path i) \<noteq> None" "read_key_file J (key_path i) s = Inr m"
      by (auto simp: file_get_def split: if_splits sum.splits)
    moreover from this(1) have "key_path i \<in> fst ` set (files s)" by (simp add: map_of_eq_None_iff)
    moreover have "CHR ''/'' \<notin> set (key_path i)" using i(1) by (simp add: plain_def key_path_def)
    ultimately show "\<exists>p \<in> set ?ps. extension p = Some ''json'' \<and> read_key_file J p s = Inr m"
      using key_path_extension [OF i(1)] by (intro bexI [of _ "key_path i"]) auto
  qed
  then show ?thesis using ms by auto
qed

section \<open>A store as a map\<close>

text \<open>The contract of a store of keys as a map from identifiers to metadata, and what a run of writes and deletions makes of it.\<close>

datatype store_cmd = PutKey KeyMetadata | DeleteKey KeyId

fun cmd_id :: "store_cmd \<Rightarrow> KeyId" where
  "cmd_id (PutKey m) = km_id m"
| "cmd_id (DeleteKey i) = i"

fun cmd_value :: "store_cmd \<Rightarrow> KeyMetadata option" where
  "cmd_value (PutKey m) = Some m"
| "cmd_value (DeleteKey i) = None"

fun admissible :: "store_cmd \<Rightarrow> bool" where
  "admissible (PutKey m) = (plain (km_id m) \<and> storable m)"
| "admissible (DeleteKey i) = plain i"

lemma admissible_plain: "admissible c \<Longrightarrow> plain (cmd_id c)"
  by (cases c) simp_all

fun store_exec :: "'s StorageBackend \<Rightarrow> store_cmd \<Rightarrow> 's \<Rightarrow> 's \<times> (KeystoreError + unit)" where
  "store_exec SB (PutKey m) s = sb_put SB m s"
| "store_exec SB (DeleteKey i) s = sb_delete SB i s"

fun store_run :: "'s StorageBackend \<Rightarrow> store_cmd list \<Rightarrow> 's \<Rightarrow> KeystoreError + 's" where
  "store_run SB [] s = Inr s"
| "store_run SB (c # cs) s = (case store_exec SB c s of (s', Inr _) \<Rightarrow> store_run SB cs s' | (s', Inl e) \<Rightarrow> Inl e)"

text \<open>The same, with the store that a failed command leaves behind.\<close>

fun store_until :: "'s StorageBackend \<Rightarrow> store_cmd list \<Rightarrow> 's \<Rightarrow> 's \<times> (KeystoreError + unit)" where
  "store_until SB [] s = (s, Inr ())"
| "store_until SB (c # cs) s = (case store_exec SB c s of (s', Inr _) \<Rightarrow> store_until SB cs s' | (s', Inl e) \<Rightarrow> (s', Inl e))"

definition map_run :: "store_cmd list \<Rightarrow> (KeyId \<rightharpoonup> KeyMetadata) \<Rightarrow> (KeyId \<rightharpoonup> KeyMetadata)" where
  "map_run cs M = fold (\<lambda>c M. M(cmd_id c := cmd_value c)) cs M"

locale key_map =
  fixes SB :: "'s StorageBackend"
    and inv :: "'s \<Rightarrow> bool"
    and valid :: "KeyId \<Rightarrow> bool"
  assumes exec_inv: "inv s \<Longrightarrow> admissible c \<Longrightarrow> store_exec SB c s = (s', r) \<Longrightarrow> inv s'"
    and exec_same: "inv s \<Longrightarrow> admissible c \<Longrightarrow> store_exec SB c s = (s', Inr ()) \<Longrightarrow> sb_get SB (cmd_id c) s' = Inr (cmd_value c)"
    and exec_other: "inv s \<Longrightarrow> admissible c \<Longrightarrow> store_exec SB c s = (s', r) \<Longrightarrow> i \<noteq> cmd_id c \<Longrightarrow> sb_get SB i s' = sb_get SB i s"
    and exec_atomic: "inv s \<Longrightarrow> admissible c \<Longrightarrow> store_exec SB c s = (s', Inl e) \<Longrightarrow>
      sb_get SB (cmd_id c) s' = sb_get SB (cmd_id c) s \<or> sb_get SB (cmd_id c) s' = Inr (cmd_value c)"
    and list_get: "inv s \<Longrightarrow> sb_list SB s = Inr ms \<Longrightarrow> set ms = {m. \<exists>i. valid i \<and> sb_get SB i s = Inr (Some m)}"
begin

text \<open>\<open>s\<close> represents the map \<open>M\<close> on valid identifiers.\<close>

definition represents :: "'s \<Rightarrow> (KeyId \<rightharpoonup> KeyMetadata) \<Rightarrow> bool" where
  "represents s M \<longleftrightarrow> (\<forall>i. valid i \<longrightarrow> sb_get SB i s = Inr (M i))"

lemma run_represents:
  "inv s \<Longrightarrow> represents s M \<Longrightarrow> list_all admissible cs \<Longrightarrow> store_run SB cs s = Inr s' \<Longrightarrow> inv s' \<and> represents s' (map_run cs M)"
proof (induction cs arbitrary: s M)
  case (Cons c cs)
  obtain s1 where e: "store_exec SB c s = (s1, Inr ())" and run: "store_run SB cs s1 = Inr s'"
    using Cons.prems(4) by (auto split: prod.splits sum.splits)
  have v: "admissible c" using Cons.prems(3) by simp
  have "represents s1 (M(cmd_id c := cmd_value c))"
    using exec_same [OF Cons.prems(1) v e] exec_other [OF Cons.prems(1) v e] Cons.prems(2) by (simp add: represents_def)
  from Cons.IH [OF exec_inv [OF Cons.prems(1) v e] this _ run] Cons.prems(3) show ?case by (simp add: map_run_def fun_upd_def)
qed (simp add: map_run_def)

lemma map_run_Cons: "map_run (c # cs) M = map_run cs (M(cmd_id c := cmd_value c))"
  by (simp add: map_run_def)

text \<open>A run that fails has carried out a prefix of its commands.\<close>

lemma until_represents:
  assumes "inv s" "represents s M" "list_all admissible cs" "store_until SB cs s = (s', r)"
  shows "\<exists>n \<le> length cs. inv s' \<and> represents s' (map_run (take n cs) M) \<and> (r = Inr () \<longrightarrow> n = length cs)"
  using assms
proof (induction cs arbitrary: s M)
  case Nil
  then show ?case by (simp add: map_run_def)
next
  case (Cons c cs)
  have v: "admissible c" using Cons.prems(3) by simp
  obtain s1 r1 where e: "store_exec SB c s = (s1, r1)" by (cases "store_exec SB c s")
  note inv = exec_inv [OF Cons.prems(1) v e]
  show ?case
  proof (cases r1)
    case (Inr u)
    then have "store_exec SB c s = (s1, Inr ())" using e by simp
    from exec_same [OF Cons.prems(1) v this] have "represents s1 (M(cmd_id c := cmd_value c))"
      using exec_other [OF Cons.prems(1) v e] Cons.prems(2)
      by (simp add: represents_def)
    moreover have "list_all admissible cs" "store_until SB cs s1 = (s', r)" using Cons.prems(3,4) e Inr by simp_all
    ultimately obtain n where "n \<le> length cs" "inv s'"
      "represents s' (map_run (take n cs) (M(cmd_id c := cmd_value c)))" "r = Inr () \<longrightarrow> n = length cs"
      using Cons.IH [OF inv] by blast
    then show ?thesis by (intro exI [of _ "Suc n"]) (simp add: map_run_Cons)
  next
    case (Inl f)
    then have s': "s' = s1" "r = Inl f" using Cons.prems(4) e by simp_all
    consider "sb_get SB (cmd_id c) s1 = sb_get SB (cmd_id c) s" | "sb_get SB (cmd_id c) s1 = Inr (cmd_value c)"
      using exec_atomic [OF Cons.prems(1) v e [unfolded Inl]] by blast
    then show ?thesis
    proof cases
      case 1
      then have "sb_get SB i s1 = sb_get SB i s" for i using exec_other [OF Cons.prems(1) v e] by (cases "i = cmd_id c") simp_all
      then have "represents s1 (map_run (take 0 (c # cs)) M)" using Cons.prems(2) by (simp add: represents_def map_run_def)
      then show ?thesis using inv s' by (intro exI [of _ 0]) simp
    next
      case 2
      then have "represents s1 (map_run (take 1 (c # cs)) M)"
        using exec_other [OF Cons.prems(1) v e] Cons.prems(2) by (simp add: represents_def map_run_def)
      then show ?thesis using inv s' by (intro exI [of _ 1]) simp
    qed
  qed
qed

lemma list_represents: "inv s \<Longrightarrow> represents s M \<Longrightarrow> sb_list SB s = Inr ms \<Longrightarrow> set ms = {m. \<exists>i. valid i \<and> M i = Some m}"
  using list_get [of s ms] by (auto simp: represents_def)

end

interpretation memory: key_map InMemory mem_sinv "\<lambda>_. True"
proof
  fix s s' :: InMemoryBackend and c r i ms
  assume inv: "mem_sinv s"
  show "set ms = {m. \<exists>i. True \<and> sb_get InMemory i s = Inr (Some m)}" if "sb_list InMemory s = Inr ms"
  proof -
    have "ms = map snd s" using that by (simp add: InMemory_def mem_list_def)
    then show ?thesis using mem_sinv_get [OF inv] by (force simp: InMemory_def mem_get_def)
  qed
  assume e: "store_exec InMemory c s = (s', r)"
  show "mem_sinv s'" using e inv
    by (cases c) (auto simp: InMemory_def mem_put_def mem_delete_def mem_sinv_def set_al_put al_del_def distinct_map_filter)
  show "i \<noteq> cmd_id c \<Longrightarrow> sb_get InMemory i s' = sb_get InMemory i s"
    using e by (cases c) (auto simp: InMemory_def mem_put_def mem_delete_def mem_get_def)
next
  fix s s' :: InMemoryBackend and c e
  assume "store_exec InMemory c s = (s', Inl e)"
  then show "sb_get InMemory (cmd_id c) s' = sb_get InMemory (cmd_id c) s \<or> sb_get InMemory (cmd_id c) s' = Inr (cmd_value c)"
    by (cases c) (auto simp: InMemory_def mem_put_def mem_delete_def)
next
  fix s s' :: InMemoryBackend and c
  assume "store_exec InMemory c s = (s', Inr ())"
  then show "sb_get InMemory (cmd_id c) s' = Inr (cmd_value c)"
    by (cases c) (auto simp: InMemory_def mem_put_def mem_delete_def mem_get_def)
qed

lemma file_key_map:
  assumes "codec_ok J"
  shows "key_map (File J) (fb_inv J) plain"
proof
  fix s s' c r i ms
  assume inv: "fb_inv J s"
  show "set ms = {m. \<exists>i. plain i \<and> sb_get (File J) i s = Inr (Some m)}" if "sb_list (File J) s = Inr ms"
    using that file_list_set [of J s ms] by (simp add: File_def)
  assume "admissible c" "store_exec (File J) c s = (s', r)"
  then have *: "fb_inv J s' \<and> (i \<noteq> cmd_id c \<longrightarrow> file_get J i s' = file_get J i s) \<and> (r = Inr () \<longrightarrow> file_get J (cmd_id c) s' = Inr (cmd_value c))"
  proof (cases c)
    case (PutKey m)
    then show ?thesis using file_put_effect [OF assms inv, of m s' r] \<open>admissible c\<close> \<open>store_exec (File J) c s = (s', r)\<close> by (simp add: File_def)
  next
    case (DeleteKey j)
    then show ?thesis using file_delete_effect [OF inv, of j s' r] \<open>store_exec (File J) c s = (s', r)\<close> by (simp add: File_def)
  qed
  then show "fb_inv J s'" "i \<noteq> cmd_id c \<Longrightarrow> sb_get (File J) i s' = sb_get (File J) i s" by (simp_all add: File_def)
next
  fix s s' c e
  assume "fb_inv J s" "admissible c" "store_exec (File J) c s = (s', Inl e)"
  then show "sb_get (File J) (cmd_id c) s' = sb_get (File J) (cmd_id c) s \<or> sb_get (File J) (cmd_id c) s' = Inr (cmd_value c)"
    using file_put_effect [OF assms, of s _ s' "Inl e"] file_delete_effect [of J s _ s' "Inl e"] by (cases c) (simp_all add: File_def)
next
  fix s s' c
  assume "fb_inv J s" "admissible c" "store_exec (File J) c s = (s', Inr ())"
  then show "sb_get (File J) (cmd_id c) s' = Inr (cmd_value c)"
    using file_put_effect [OF assms, of s _ s' "Inr ()"] file_delete_effect [of J s _ s' "Inr ()"] by (cases c) (simp_all add: File_def)
qed

section \<open>Properties\<close>

text \<open>The two stores hold the same keys.\<close>

definition agree :: "meta_codec \<Rightarrow> FileBackend \<Rightarrow> InMemoryBackend \<Rightarrow> bool" where
  "agree J s k \<longleftrightarrow> fb_inv J s \<and> mem_sinv k \<and> (\<forall>i. plain i \<longrightarrow> file_get J i s = Inr (map_of k i)) \<and> (\<forall>i \<in> set (al_keys k). plain i)"

lemma memory_run: "\<exists>k'. store_run InMemory cs k = Inr k' \<and> set (al_keys k') \<subseteq> set (al_keys k) \<union> set (map cmd_id cs)"
proof (induction cs arbitrary: k)
  case (Cons c cs)
  obtain k1 where e: "store_exec InMemory c k = (k1, Inr ())" "set (al_keys k1) \<subseteq> insert (cmd_id c) (set (al_keys k))"
  proof (cases c)
    case (PutKey m)
    then show ?thesis using that [of "al_put (km_id m) m k"] set_al_keys_put [of "km_id m" m k] by (simp add: InMemory_def mem_put_def)
  next
    case (DeleteKey i)
    then show ?thesis using that [of "al_del i k"] by (auto simp: InMemory_def mem_delete_def al_del_def)
  qed
  obtain k' where "store_run InMemory cs k1 = Inr k'" "set (al_keys k') \<subseteq> set (al_keys k1) \<union> set (map cmd_id cs)"
    using Cons.IH by blast
  then show ?case using e by auto
qed simp

lemma file_represents: "codec_ok J \<Longrightarrow> key_map.represents (File J) plain s M \<longleftrightarrow> (\<forall>i. plain i \<longrightarrow> file_get J i s = Inr (M i))"
  by (simp add: key_map.represents_def [OF file_key_map])

lemma memory_get: "sb_get InMemory i k = Inr (map_of k i)"
  by (simp add: InMemory_def mem_get_def)

lemma memory_represents: "memory.represents k M \<longleftrightarrow> map_of k = M"
  by (auto simp: memory.represents_def memory_get)

text \<open>C13: the file back end refines the in-memory one. From stores with the same keys, a run of writes and deletions that the file back end
  completes is completed by the in-memory back end too, and afterwards the stores hold the same keys again: every read returns the same
  metadata and a listing yields the same set of keys.\<close>

theorem file_backend_refines_memory:
  assumes "codec_ok J" "agree J s k" "list_all admissible cs" "store_run (File J) cs s = Inr s'"
  shows "\<exists>k'. store_run InMemory cs k = Inr k' \<and> agree J s' k' \<and> (\<forall>ms. file_list J s' = Inr ms \<longrightarrow> set ms = snd ` set k')"
proof -
  note fm = file_key_map [OF assms(1)]
  obtain k' where k': "store_run InMemory cs k = Inr k'" "set (al_keys k') \<subseteq> set (al_keys k) \<union> set (map cmd_id cs)"
    using memory_run by blast
  have start: "key_map.represents (File J) plain s (map_of k)" "memory.represents k (map_of k)"
    using assms(1,2) by (simp_all add: agree_def file_represents memory_represents)
  have f: "fb_inv J s' \<and> key_map.represents (File J) plain s' (map_run cs (map_of k))"
    using key_map.run_represents [OF fm _ start(1) assms(3,4)] assms(2) by (simp add: agree_def)
  have "mem_sinv k' \<and> memory.represents k' (map_run cs (map_of k))"
    using memory.run_represents [OF _ start(2) assms(3) k'(1)] assms(2) by (simp add: agree_def)
  then have m: "mem_sinv k'" "map_run cs (map_of k) = map_of k'"
    by (simp_all add: memory_represents)
  have new: "plain (cmd_id c)" if "c \<in> set cs" for c using that assms(3) admissible_plain by (auto simp: list_all_iff)
  have keys: "\<forall>i \<in> set (al_keys k'). plain i"
  proof
    fix i assume "i \<in> set (al_keys k')"
    with k'(2) have "i \<in> set (al_keys k) \<union> set (map cmd_id cs)" by (rule subsetD)
    then consider "i \<in> set (al_keys k)" | c where "c \<in> set cs" "i = cmd_id c" by auto
    then show "plain i"
    proof cases
      case 1
      then show ?thesis using assms(2) unfolding agree_def by blast
    qed (simp add: new)
  qed
  then have "agree J s' k'" using f m assms(1) by (simp add: agree_def file_represents)
  moreover have "set ms = snd ` set k'" if "file_list J s' = Inr ms" for ms
  proof -
    have "set ms = {m. \<exists>i. plain i \<and> map_of k' i = Some m}"
      using key_map.list_represents [OF fm, of s' "map_of k'" ms] f m that by simp
    also have "\<dots> = snd ` set k'" using mem_sinv_get [OF m(1)] keys by (auto simp: image_iff) (metis fst_conv snd_conv)+
    finally show ?thesis .
  qed
  ultimately show ?thesis using k'(1) by blast
qed

text \<open>C14: a write of a key is atomic, whatever file operation fails in its course: the other keys are as before, the key itself reads as before
  or as the new metadata, and it reads as the new metadata when the write reports success.\<close>

theorem file_put_atomic:
  assumes "codec_ok J" "fb_inv J s" "plain (km_id m)" "storable m" "file_put J m s = (s', r)"
  shows "fb_inv J s' \<and> (\<forall>i \<in> UNIV - {km_id m}. file_get J i s' = file_get J i s) \<and>
    file_get J (km_id m) s' \<in> (if r = Inr () then {Inr (Some m)} else {file_get J (km_id m) s, Inr (Some m)})"
  using file_put_effect [OF assms] by auto

text \<open>A medium without faults ahead, and metadata that can be encoded.\<close>

definition calm :: "FileBackend \<Rightarrow> bool" where
  "calm s \<longleftrightarrow> list_all (\<lambda>r. r = None) (outcomes s)"

fun encodable :: "meta_codec \<Rightarrow> store_cmd \<Rightarrow> bool" where
  "encodable J (PutKey m) = is_ok (to_string_pretty J m)"
| "encodable J (DeleteKey i) = True"

lemma calm_files [simp]: "calm (s\<lparr> files := f \<rparr>) = calm s"
  by (simp add: calm_def)

lemma calm_io:
  assumes "calm s"
  obtains s' where "next_io s = (None, s')" "calm s'" "files s' = files s"
  using assms by (cases "outcomes s") (auto simp: next_io_def calm_def)

lemma calm_try:
  assumes "calm s"
  obtains s' where "\<And>msg k. try_io msg k s = k s'" "calm s'" "files s' = files s"
  by (rule calm_io [OF assms]) (auto intro: that simp: try_io_def)

lemma calm_sync:
  assumes "calm s"
  shows "\<exists>s'. sync_dir s = (s', Inr ()) \<and> calm s'"
proof -
  obtain s1 where s1: "\<And>msg (k :: FileBackend \<Rightarrow> FileBackend \<times> (KeystoreError + unit)). try_io msg k s = k s1" "calm s1"
    using calm_try [OF assms] by metis
  obtain s2 where "\<And>msg (k :: FileBackend \<Rightarrow> FileBackend \<times> (KeystoreError + unit)). try_io msg k s1 = k s2" "calm s2"
    using calm_try [OF s1(2)] by metis
  with s1(1) show ?thesis by (simp add: sync_dir_def)
qed

lemma calm_write:
  assumes "calm s"
  shows "\<exists>s'. write_restricted path data s = (s', Inr ()) \<and> calm s' \<and> files s' = al_put path data (files s)"
proof -
  obtain s1 where s1: "next_io s = (None, s1)" "calm s1" "files s1 = files s" using calm_io [OF assms] by metis
  obtain s2 where s2: "next_io s1 = (None, s2)" "calm s2" "files s2 = files s1" using calm_io [OF s1(2)] by metis
  have "calm (s2\<lparr> files := al_put path data (files s2) \<rparr>)" using s2 by simp
  then obtain s3 where "next_io (s2\<lparr> files := al_put path data (files s2) \<rparr>) = (None, s3)" "calm s3"
    "files s3 = al_put path data (files s2)" by (rule calm_io) simp
  then show ?thesis using s1 s2 by (simp add: write_restricted_def Let_def)
qed

lemma calm_exec:
  assumes "calm s" "encodable J c"
  shows "\<exists>s'. store_exec (File J) c s = (s', Inr ()) \<and> calm s'"
proof -
  obtain s1 where s1: "\<And>msg (k :: FileBackend \<Rightarrow> FileBackend \<times> (KeystoreError + unit)). try_io msg k s = k s1" "calm s1"
    using calm_try [OF assms(1)] by metis
  show ?thesis
  proof (cases c)
    case (PutKey m)
    then obtain t where t: "to_string_pretty J m = Inr t" using assms(2) by (auto simp: is_ok_iff)
    let ?tmp = "with_extension (key_path (km_id m)) ''tmp''"
    obtain s2 where s2: "write_restricted ?tmp t s1 = (s2, Inr ())" "calm s2" "map_of (files s2) ?tmp = Some t"
      using calm_write [OF s1(2), of ?tmp t] by auto
    obtain s3 where s3: "\<And>msg (k :: FileBackend \<Rightarrow> FileBackend \<times> (KeystoreError + unit)). try_io msg k s2 = k s3" "calm s3" "files s3 = files s2"
      using calm_try [OF s2(2)] by metis
    show ?thesis
      using PutKey t s1 s2 s3 calm_sync [of "s3\<lparr> files := al_put (key_path (km_id m)) t (al_del ?tmp (files s3)) \<rparr>"]
      by (simp add: file_put_def Let_def)
  next
    case (DeleteKey i)
    obtain s2 where s2: "\<And>msg (k :: FileBackend \<Rightarrow> FileBackend \<times> (KeystoreError + unit)). try_io msg k s1 = k s2" "calm s2" "files s2 = files s1"
      using calm_try [OF s1(2)] by metis
    show ?thesis using DeleteKey s1 s2 by (cases "map_of (files s1) (key_path i)") (simp_all add: file_delete_def Let_def)
  qed
qed

lemma file_run_ok:
  assumes "calm s" "list_all (encodable J) cs"
  shows "(\<exists>s'. store_run (File J) cs s = Inr s') \<and> snd (store_until (File J) cs s) = Inr ()"
  using assms
proof (induction cs arbitrary: s)
  case (Cons c cs)
  obtain s1 where "store_exec (File J) c s = (s1, Inr ())" "calm s1"
    using calm_exec [of s J c] Cons.prems by auto
  then show ?case using Cons by simp
qed simp

text \<open>No command changes what the listing of the directory reports, and a listing of readable key files succeeds.\<close>

lemma exec_dir_error:
  assumes "store_exec (File J) c s = (s', r)" "admissible c"
  shows "dir_error s' = dir_error s"
proof (cases c)
  case (PutKey m)
  then have "file_put J m s = (s', r)" "plain (km_id m)" using assms by simp_all
  then show ?thesis by (cases rule: file_put_cases) (simp_all add: same_dir_def)
next
  case (DeleteKey i)
  then have "file_delete i s = (s', r)" using assms by simp
  then show ?thesis by (cases rule: file_delete_cases) (simp_all add: same_dir_def)
qed

lemma until_dir_error: "store_until (File J) cs s = (s', r) \<Longrightarrow> list_all admissible cs \<Longrightarrow> dir_error s' = dir_error s"
  by (induction cs arbitrary: s) (auto dest: exec_dir_error split: prod.splits sum.splits)

lemma read_all_ok:
  "\<forall>p \<in> set ps. extension p = Some ''json'' \<longrightarrow> is_ok (read_key_file J p s) \<Longrightarrow> \<exists>ms. read_all J s ps = Inr ms"
  by (induction ps) (auto simp: is_ok_iff)

lemma file_list_ok:
  assumes "dir_error s = None" "\<forall>i. plain i \<longrightarrow> file_get J i s = Inr (M i)"
  shows "\<exists>ms. file_list J s = Inr ms"
proof -
  have "is_ok (read_key_file J p s)" if p: "p \<in> set (filter (\<lambda>p. CHR ''/'' \<notin> set p) (map fst (files s)))" "extension p = Some ''json''" for p
  proof -
    obtain i where i: "plain i" "p = key_path i" using json_file_key [OF p(2)] p(1) by auto
    have "map_of (files s) p \<noteq> None" using p(1) by (auto simp: map_of_eq_None_iff)
    moreover have "file_get J i s = Inr (M i)" using assms(2) i(1) by blast
    ultimately show ?thesis using i(2) by (auto simp: file_get_def is_ok_iff split: if_splits sum.splits)
  qed
  then show ?thesis using read_all_ok [of _ J s] assms(1) by (simp add: file_list_def)
qed

text \<open>C39: a run of writes and deletions is carried out as a whole or up to a point. Start with a directory that reads as the map \<open>M\<close>. Whatever
  file operations fail, there is a number \<open>n\<close> such that the directory the run leaves behind reads, under every identifier, exactly as \<open>M\<close>
  after the first \<open>n\<close> commands; the run reports success only when these are all commands; a directory that can be
  listed lists exactly the keys of that map. And when no file operation fails and all metadata can be encoded, the run does report
  success, deletions of absent keys included.\<close>

theorem file_run_prefix:
  assumes "codec_ok J" "fb_inv J s" "list_all admissible cs" "store_until (File J) cs s = (s', r)"
    and "\<forall>i. plain i \<longrightarrow> file_get J i s = Inr (M i)"
  shows "\<exists>n \<le> length cs. (\<forall>i. plain i \<longrightarrow> file_get J i s' = Inr (map_run (take n cs) M i)) \<and>
      (r = Inr () \<longrightarrow> n = length cs) \<and>
      (calm s \<and> list_all (encodable J) cs \<longrightarrow> r = Inr ()) \<and>
      (dir_error s = None \<longrightarrow> (\<exists>ms. file_list J s' = Inr ms \<and> set ms = {m. \<exists>i. plain i \<and> map_run (take n cs) M i = Some m}))"
proof -
  note fm = file_key_map [OF assms(1)]
  have "key_map.represents (File J) plain s M" using assms(5) by (simp add: key_map.represents_def [OF fm])
  from key_map.until_represents [OF fm assms(2) this assms(3,4)] obtain n where n: "n \<le> length cs" "fb_inv J s'"
    "key_map.represents (File J) plain s' (map_run (take n cs) M)" "r = Inr () \<longrightarrow> n = length cs" by blast
  from n(3) have reads: "\<forall>i. plain i \<longrightarrow> file_get J i s' = Inr (map_run (take n cs) M i)"
    by (simp add: key_map.represents_def [OF fm])
  have "\<exists>ms. file_list J s' = Inr ms \<and> set ms = {m. \<exists>i. plain i \<and> map_run (take n cs) M i = Some m}" if "dir_error s = None"
    using file_list_ok [OF _ reads] file_list_set [of J s'] until_dir_error [OF assms(4,3)] that reads by fastforce
  moreover have "r = Inr ()" if "calm s" "list_all (encodable J) cs"
    using file_run_ok [OF that] assms(4) by simp
  ultimately show ?thesis using n reads by auto
qed

section \<open>A directory to try it on\<close>

definition demo_meta :: "KeyId \<Rightarrow> KeyMetadata" where
  "demo_meta i = \<lparr> km_id = i, km_name = i, key_type = DataEncrypting, km_state = Active, policy_id = None, parent_id = None,
     created_at = 0, updated_at = 0, activated_at = None, rotated_at = None, revoked_at = None, destroyed_at = None,
     versions = [], current_version = 1, usage_count = 0, tags = [] \<rparr>"

definition demo_codec :: meta_codec where
  "demo_codec = \<lparr> to_string_pretty = (\<lambda>m. if m = demo_meta (km_id m) then Inr (CHR ''{'' # km_id m) else Inl ''unsupported''),
     from_str = (\<lambda>t. case t of c # i \<Rightarrow> if c = CHR ''{'' then Inr (demo_meta i) else Inl ''expected value'' | [] \<Rightarrow> Inl ''EOF'') \<rparr>"

lemma demo_codec_ok: "codec_ok demo_codec"
proof -
  have "\<exists>e. from_str demo_codec (replicate n CHR 0x00) = Inl e" for n by (cases n) (simp_all add: demo_codec_def)
  then show ?thesis by (auto simp: codec_ok_def demo_codec_def split: if_splits)
qed

definition demo_dir :: "io_fault option list \<Rightarrow> FileBackend" where
  "demo_dir rs = \<lparr> files = [], outcomes = rs, read_errors = [], dir_error = None \<rparr>"

lemma demo_dir_inv: "fb_inv J (demo_dir rs)" "agree J (demo_dir rs) []"
  by (simp_all add: fb_inv_def agree_def demo_dir_def mem_sinv_def file_get_def)

theorem file_backend_refines_memory_witness:
  "\<exists>s' k'. store_run (File demo_codec) [PutKey (demo_meta ''a''), PutKey (demo_meta ''b''), DeleteKey ''a''] (demo_dir []) = Inr s' \<and>
     store_run InMemory [PutKey (demo_meta ''a''), PutKey (demo_meta ''b''), DeleteKey ''a''] [] = Inr k' \<and> agree demo_codec s' k'"
proof -
  let ?cs = "[PutKey (demo_meta ''a''), PutKey (demo_meta ''b''), DeleteKey ''a'']"
  obtain s' where "store_run (File demo_codec) ?cs (demo_dir []) = Inr s'"
    using file_run_ok [of "demo_dir []" demo_codec ?cs] by (auto simp: demo_dir_def demo_codec_def demo_meta_def calm_def)
  moreover have "list_all admissible ?cs" by (simp add: plain_def storable_def demo_meta_def)
  ultimately show ?thesis using file_backend_refines_memory [OF demo_codec_ok demo_dir_inv(2), of ?cs] by blast
qed

text \<open>The file system is full in the middle of the write of the temporary file.\<close>

theorem file_put_atomic_witness:
  "file_get demo_codec ''a'' (fst (file_put demo_codec (demo_meta ''a'') (demo_dir [None, None, Some \<lparr> f_text = ''ENOSPC'', f_written = 1 \<rparr>])))
     \<in> {Inr None, Inr (Some (demo_meta ''a''))}"
proof -
  let ?s = "demo_dir [None, None, Some \<lparr> f_text = ''ENOSPC'', f_written = 1 \<rparr>]"
  have "km_id (demo_meta ''a'') = ''a''" "plain ''a''" "storable (demo_meta ''a'')" "file_get demo_codec ''a'' ?s = Inr None"
    by (simp_all add: demo_meta_def plain_def storable_def file_get_def demo_dir_def)
  then show ?thesis
    using file_put_atomic [OF demo_codec_ok demo_dir_inv(1) _ _ prod.collapse [symmetric], of "demo_meta ''a''" "[None, None, Some \<lparr> f_text = ''ENOSPC'', f_written = 1 \<rparr>]"]
    by (auto split: if_splits)
qed

text \<open>A deletion of a key that is not there, then a write whose renaming fails; and the same commands on a medium without faults.\<close>

theorem file_run_prefix_witness:
  "\<exists>s' r n. store_until (File demo_codec) [DeleteKey ''b'', PutKey (demo_meta ''a'')]
       (demo_dir [None, None, None, None, None, Some \<lparr> f_text = ''EIO'', f_written = 0 \<rparr>]) = (s', r) \<and> n \<le> 2 \<and>
     file_get demo_codec ''a'' s' = Inr (map_run (take n [DeleteKey ''b'', PutKey (demo_meta ''a'')]) Map.empty ''a'') \<and>
     snd (store_until (File demo_codec) [DeleteKey ''b'', PutKey (demo_meta ''a'')] (demo_dir [])) = Inr ()"
proof -
  let ?cs = "[DeleteKey ''b'', PutKey (demo_meta ''a'')]"
  let ?fault = "[None, None, None, None, None, Some \<lparr> f_text = ''EIO'', f_written = 0 \<rparr>]"
  have adm: "list_all admissible ?cs" by (simp add: plain_def storable_def demo_meta_def)
  have g: "file_get demo_codec i (demo_dir rs) = Inr None" for i rs by (simp add: file_get_def demo_dir_def)
  obtain s' r where run: "store_until (File demo_codec) ?cs (demo_dir ?fault) = (s', r)" by fastforce
  have M: "\<forall>i. plain i \<longrightarrow> file_get demo_codec i (demo_dir rs) = Inr (Map.empty i)" for rs by (simp add: g)
  have p: "plain ''a''" by (simp add: plain_def)
  have calm: "calm (demo_dir [])" "list_all (encodable demo_codec) ?cs"
    by (simp_all add: calm_def demo_dir_def demo_codec_def demo_meta_def)
  note prefix = file_run_prefix [OF demo_codec_ok demo_dir_inv(1) adm _ M]
  obtain n where "n \<le> length ?cs" "\<forall>i. plain i \<longrightarrow> file_get demo_codec i s' = Inr (map_run (take n ?cs) Map.empty i)"
    using prefix [OF run] by blast
  then have n: "n \<le> 2" "file_get demo_codec ''a'' s' = Inr (map_run (take n ?cs) Map.empty ''a'')" using p by simp_all
  have "snd (store_until (File demo_codec) ?cs (demo_dir [])) = Inr ()"
    using prefix [OF prod.collapse [symmetric]] calm by blast
  with n run show ?thesis by blast
qed

end
