(* ===== verification/Backup.thy ===== *)
theory Backup
  imports Custody
begin

text \<open>
  \<^verbatim>\<open>citadel-keystore/src/backup.rs\<close>: encrypted backups of the key metadata, and \<^verbatim>\<open>migration.rs\<close>: the plan that moves flat keys
  under a hierarchy. The coding of the payload as JSON is a parameter. A byte slice in an error message is printed by \<open>be_debug\<close>.
\<close>

section \<open>Backups\<close>

definition BACKUP_MAGIC :: bytes where "BACKUP_MAGIC = as_bytes ''CTDLBAK''"
definition BACKUP_VERSION :: byte where "BACKUP_VERSION = 1"
definition HEADER_LEN :: nat where "HEADER_LEN = 7 + 1 + 8 + 12"

record BackupPayload =
  schema_version :: u32
  bp_created_at :: DateTime
  bp_keys :: "KeyMetadata list"
  key_count :: nat

record backup_env =
  be_crypto :: crypto
  be_to_vec :: "BackupPayload \<Rightarrow> string + bytes"
  be_from_slice :: "bytes \<Rightarrow> string + BackupPayload"
  be_hkdf_error :: string
  be_debug :: "bytes \<Rightarrow> string"

text \<open>The wrapping key of a backup made at a time; both directions derive it in the same way.\<close>

definition backup_key :: "backup_env \<Rightarrow> bytes \<Rightarrow> u64 \<Rightarrow> string + bytes" where
  "backup_key B mk unix =
    ok_or (hkdf_expand (be_crypto B) None mk (as_bytes ''citadel-backup-v1:'' @ u64_be unix) 32) (''HKDF expand: '' @ be_hkdf_error B)"

definition create_backup :: "backup_env \<Rightarrow> u64 \<Rightarrow> DateTime \<Rightarrow> bytes \<Rightarrow> KeyMetadata list \<Rightarrow> bytes \<Rightarrow> string + bytes" where
  "create_backup B now_unix now_utc nonce_bytes keys mk =
    (let payload = \<lparr> schema_version = 1, bp_created_at = now_utc, bp_keys = keys, key_count = length keys \<rparr> in
     and_then (map_err (\<lambda>e. ''serialize: '' @ e) (be_to_vec B payload)) (\<lambda>json.
     and_then (backup_key B mk now_unix) (\<lambda>wrap_key.
     and_then (ok_or (gcm_encrypt (be_crypto B) wrap_key nonce_bytes json (u64_be now_unix)) ''AES-256-GCM encryption failed'') (\<lambda>ciphertext.
     Inr (BACKUP_MAGIC @ [BACKUP_VERSION] @ u64_be now_unix @ nonce_bytes @ ciphertext)))))"

definition decrypt_backup :: "backup_env \<Rightarrow> bytes \<Rightarrow> bytes \<Rightarrow> string + BackupPayload" where
  "decrypt_backup B data mk =
    (if length data < HEADER_LEN + 16 then Inl ''backup file too short''
     else if take 7 data \<noteq> BACKUP_MAGIC then
       Inl (''invalid magic bytes; expected '' @ be_debug B BACKUP_MAGIC @ '', got '' @ be_debug B (take 7 data))
     else if data ! 7 \<noteq> BACKUP_VERSION then
       Inl (''unsupported backup version '' @ show_nat (unat (data ! 7)) @ ''; expected '' @ show_nat (unat BACKUP_VERSION))
     else
       let timestamp = be_u64 (take 8 (drop 8 data)); nonce_bytes = take 12 (drop 16 data); ciphertext = drop 28 data in
       and_then (backup_key B mk timestamp) (\<lambda>wrap_key.
       and_then (ok_or (gcm_decrypt (be_crypto B) wrap_key nonce_bytes ciphertext (u64_be timestamp))
         (''AES-256-GCM decryption failed '' @ em_dash @ '' wrong master key or corrupted backup'')) (\<lambda>plaintext.
       map_err (\<lambda>e. ''backup payload parse failed: '' @ e) (be_from_slice B plaintext))))"

definition verify_backup :: "backup_env \<Rightarrow> bytes \<Rightarrow> bytes \<Rightarrow> string + nat \<times> DateTime" where
  "verify_backup B data mk = and_then (decrypt_backup B data mk) (\<lambda>p. Inr (key_count p, bp_created_at p))"

definition restore_backup :: "backup_env \<Rightarrow> bytes \<Rightarrow> bytes \<Rightarrow> string + KeyMetadata list" where
  "restore_backup B data mk = and_then (decrypt_backup B data mk) (\<lambda>p. Inr (bp_keys p))"

text \<open>The forms that take the key from a provider file.\<close>

definition with_provider :: "host \<Rightarrow> string \<Rightarrow> (bytes \<Rightarrow> string + 'a) \<Rightarrow> string + 'a" where
  "with_provider h path f = and_then (map_err (\<lambda>e. ''root-key provider unavailable: '' @ e) (load_root_key h path)) f"

definition create_backup_with_provider ::
  "backup_env \<Rightarrow> host \<Rightarrow> u64 \<Rightarrow> DateTime \<Rightarrow> bytes \<Rightarrow> KeyMetadata list \<Rightarrow> string \<Rightarrow> string + bytes" where
  "create_backup_with_provider B h now_unix now_utc nonce_bytes keys path =
    with_provider h path (create_backup B now_unix now_utc nonce_bytes keys)"

definition verify_backup_with_provider :: "backup_env \<Rightarrow> host \<Rightarrow> bytes \<Rightarrow> string \<Rightarrow> string + nat \<times> DateTime" where
  "verify_backup_with_provider B h data path = with_provider h path (verify_backup B data)"

definition restore_backup_with_provider :: "backup_env \<Rightarrow> host \<Rightarrow> bytes \<Rightarrow> string \<Rightarrow> string + KeyMetadata list" where
  "restore_backup_with_provider B h data path = with_provider h path (restore_backup B data)"

section \<open>Migration to a hierarchy\<close>

record MigrationOptions =
  root_name :: string
  domain_name :: string
  kek_name :: string
  skip_already_wrapped :: bool
  skip_destroyed :: bool

definition MigrationOptions_default :: MigrationOptions where
  "MigrationOptions_default = \<lparr> root_name = ''default-root'', domain_name = ''default-domain'', kek_name = ''default-kek'',
     skip_already_wrapped = True, skip_destroyed = True \<rparr>"

record KeyToCreate =
  kc_name :: string
  kc_key_type :: string
  kc_parent_name :: "string option"
  kc_reason :: string

record KeyToRewrap =
  kw_key_id :: string
  kw_key_name :: string
  current_wrapping :: string
  target_parent_name :: string

record KeySkipped =
  ksk_key_id :: string
  ksk_key_name :: string
  ksk_reason :: string

record MigrationPlan =
  keys_to_create :: "KeyToCreate list"
  keys_to_rewrap :: "KeyToRewrap list"
  keys_skipped :: "KeySkipped list"
  generated_at :: DateTime

definition plan_is_empty :: "MigrationPlan \<Rightarrow> bool" where
  "plan_is_empty p \<longleftrightarrow> keys_to_create p = [] \<and> keys_to_rewrap p = []"

definition plan_summary :: "MigrationPlan \<Rightarrow> string" where
  "plan_summary p = ''Migration plan: '' @ show_nat (length (keys_to_create p)) @ '' key(s) to create, '' @
     show_nat (length (keys_to_rewrap p)) @ '' key(s) to rewrap, '' @ show_nat (length (keys_skipped p)) @ '' key(s) skipped''"

record MigrationReport =
  keys_created :: "string list"
  keys_rewrapped :: "string list"
  keys_failed :: "(string \<times> string) list"
  completed_at :: DateTime

definition report_summary :: "MigrationReport \<Rightarrow> string" where
  "report_summary r = ''Migration complete: '' @ show_nat (length (keys_created r)) @ '' created, '' @
     show_nat (length (keys_rewrapped r)) @ '' rewrapped, '' @ show_nat (length (keys_failed r)) @ '' failed''"

definition has_failures :: "MigrationReport \<Rightarrow> bool" where
  "has_failures r \<longleftrightarrow> keys_failed r \<noteq> []"

fun show_wrap_algorithm :: "WrapAlgorithm \<Rightarrow> string" where
  "show_wrap_algorithm Aes256GcmHkdfSha256 = ''AES-256-GCM+HKDF-SHA256''"
| "show_wrap_algorithm CitadelHybridV2 = ''X25519+ML-KEM-768+AES-256-GCM''"

text \<open>\<^verbatim>\<open>WrappingMode::summary\<close>: identifiers are ASCII, so the cut after eight bytes is one after eight characters.\<close>

fun wrapping_summary :: "WrappingMode \<Rightarrow> string" where
  "wrapping_summary ExternalMaster = ''external-master-key''"
| "wrapping_summary (WrappedByKey p v a) = ''key:'' @ take 8 p @ ''@v'' @ show_nat (unat v) @ ''('' @ show_wrap_algorithm a @ '')''"
| "wrapping_summary (HsmBacked p r) = ''hsm:'' @ p @ ''/'' @ r"

definition has_active :: "KeyType \<Rightarrow> string \<Rightarrow> KeyMetadata list \<Rightarrow> bool" where
  "has_active kt nm = list_ex (\<lambda>k. key_type k = kt \<and> km_state k = Active \<and> km_name k = nm)"

text \<open>One turn of the loop: the key is skipped, or to be rewrapped.\<close>

definition plan_key :: "MigrationOptions \<Rightarrow> KeyMetadata \<Rightarrow> KeySkipped + KeyToRewrap" where
  "plan_key opts key =
    (let skip = (\<lambda>reason. Inl \<lparr> ksk_key_id = km_id key, ksk_key_name = km_name key, ksk_reason = reason \<rparr>);
         wrapping = (case current_key_version key of Some kv \<Rightarrow> wrapping_summary (effective_wrapping_mode kv) | None \<Rightarrow> ''unknown'');
         is_already_wrapped_by_kek = Option.bind (current_key_version key) wrapping_key_id \<noteq> None in
     if skip_destroyed opts \<and> km_state key = Destroyed then skip (''Destroyed '' @ em_dash @ '' no key material to rewrap'')
     else if key_type key \<noteq> DataEncrypting then skip (''Not a DEK (type: '' @ show_key_type (key_type key) @ '')'')
     else if skip_already_wrapped opts \<and> is_already_wrapped_by_kek then skip (''Already wrapped by KEK ('' @ wrapping @ '')'')
     else if km_state key \<notin> {Active, Rotated} then
       skip (''State '' @ state_label (km_state key) @ '' '' @ em_dash @ '' not rewrapping inactive key'')
     else Inr \<lparr> kw_key_id = km_id key, kw_key_name = km_name key, current_wrapping = wrapping, target_parent_name = kek_name opts \<rparr>)"

definition plan_creations :: "KeyMetadata list \<Rightarrow> MigrationOptions \<Rightarrow> KeyToCreate list" where
  "plan_creations keys opts =
    (if has_active Root (root_name opts) keys then []
     else [\<lparr> kc_name = root_name opts, kc_key_type = ''Root'', kc_parent_name = None, kc_reason = ''No active Root key exists'' \<rparr>]) @
    (if has_active Domain (domain_name opts) keys then []
     else [\<lparr> kc_name = domain_name opts, kc_key_type = ''Domain'', kc_parent_name = Some (root_name opts),
             kc_reason = ''No active Domain KEK exists'' \<rparr>]) @
    (if has_active KeyEncrypting (kek_name opts) keys then []
     else [\<lparr> kc_name = kek_name opts, kc_key_type = ''KeyEncrypting'', kc_parent_name = Some (domain_name opts),
             kc_reason = ''No active KEK exists for DEK wrapping'' \<rparr>])"

definition plan_migration :: "DateTime \<Rightarrow> KeyMetadata list \<Rightarrow> MigrationOptions \<Rightarrow> MigrationPlan" where
  "plan_migration t keys opts =
    (let outcomes = map (plan_key opts) keys in
     \<lparr> keys_to_create = plan_creations keys opts,
       keys_to_rewrap = List.map_filter (\<lambda>r. case r of Inr w \<Rightarrow> Some w | Inl _ \<Rightarrow> None) outcomes,
       keys_skipped = List.map_filter (\<lambda>r. case r of Inl s \<Rightarrow> Some s | Inr _ \<Rightarrow> None) outcomes,
       generated_at = t \<rparr>)"

section \<open>Properties of backups\<close>

text \<open>The file that a payload text becomes.\<close>

definition seal_payload :: "backup_env \<Rightarrow> u64 \<Rightarrow> bytes \<Rightarrow> bytes \<Rightarrow> bytes \<Rightarrow> string + bytes" where
  "seal_payload B unix nonce_bytes json mk =
    and_then (backup_key B mk unix) (\<lambda>wrap_key.
    and_then (ok_or (gcm_encrypt (be_crypto B) wrap_key nonce_bytes json (u64_be unix)) ''AES-256-GCM encryption failed'') (\<lambda>ciphertext.
    Inr (BACKUP_MAGIC @ [BACKUP_VERSION] @ u64_be unix @ nonce_bytes @ ciphertext)))"

lemma create_backup_seals:
  "create_backup B unix t nonce_bytes keys mk = and_then (map_err (\<lambda>e. ''serialize: '' @ e)
     (be_to_vec B \<lparr> schema_version = 1, bp_created_at = t, bp_keys = keys, key_count = length keys \<rparr>)) (\<lambda>json. seal_payload B unix nonce_bytes json mk)"
  by (simp add: create_backup_def seal_payload_def Let_def)

lemma backup_split:
  assumes "28 \<le> length data" "take 7 data = BACKUP_MAGIC" "data ! 7 = BACKUP_VERSION"
  shows "data = BACKUP_MAGIC @ [BACKUP_VERSION] @ u64_be (be_u64 (take 8 (drop 8 data))) @ take 12 (drop 16 data) @ drop 28 data"
proof -
  have "drop 7 data = data ! 7 # drop 8 data" using assms(1) Cons_nth_drop_Suc [of 7 data] by simp
  moreover have "drop 8 data = take 8 (drop 8 data) @ drop 16 data" using append_take_drop_id [of 8 "drop 8 data"] by simp
  moreover have "drop 16 data = take 12 (drop 16 data) @ drop 28 data" using append_take_drop_id [of 12 "drop 16 data"] by simp
  ultimately have "data = take 7 data @ [data ! 7] @ take 8 (drop 8 data) @ take 12 (drop 16 data) @ drop 28 data"
    by (metis append_Cons append_Nil append_take_drop_id)
  moreover have "u64_be (be_u64 (take 8 (drop 8 data))) = take 8 (drop 8 data)" using assms(1) by (intro u64_be_be_u64) simp
  ultimately show ?thesis using assms(2,3) by simp
qed

lemma sealed_opens:
  assumes "crypto_ok (be_crypto B)" "length nonce_bytes = 12" "seal_payload B unix nonce_bytes json mk = Inr data"
  shows "decrypt_backup B data mk = map_err ((@) ''backup payload parse failed: '') (be_from_slice B json)"
proof -
  obtain k c where k: "backup_key B mk unix = Inr k" and c: "gcm_encrypt (be_crypto B) k nonce_bytes json (u64_be unix) = Some c"
      and data: "data = BACKUP_MAGIC @ [BACKUP_VERSION] @ u64_be unix @ nonce_bytes @ c"
    using assms(3) by (auto simp: seal_payload_def)
  have len: "length BACKUP_MAGIC = 7" by (simp add: BACKUP_MAGIC_def)
  show ?thesis
    using k gcm_decrypt_encrypt [OF assms(1) c] gcm_encrypt_length [OF assms(1) c] assms(2)
    by (simp add: decrypt_backup_def HEADER_LEN_def data len nth_append Let_def)
qed

text \<open>C38: exactly the sealed files open. A byte string is accepted as a backup under a master key, with a payload, if and only if sealing
  some text of this payload under this key at some time with some nonce yields this byte string.\<close>

theorem backup_accepts_iff:
  assumes "crypto_ok (be_crypto B)"
  shows "decrypt_backup B data mk = Inr p \<longleftrightarrow>
    (\<exists>unix nonce_bytes json. length nonce_bytes = 12 \<and> be_from_slice B json = Inr p \<and> seal_payload B unix nonce_bytes json mk = Inr data)"
proof
  assume d: "decrypt_backup B data mk = Inr p"
  let ?t = "be_u64 (take 8 (drop 8 data))" and ?n = "take 12 (drop 16 data)"
  have len: "44 \<le> length data" "take 7 data = BACKUP_MAGIC" "data ! 7 = BACKUP_VERSION"
    using d by (auto simp: decrypt_backup_def HEADER_LEN_def split: if_splits)
  from d obtain k json where k: "backup_key B mk ?t = Inr k" and json: "gcm_decrypt (be_crypto B) k ?n (drop 28 data) (u64_be ?t) = Some json"
      and p: "be_from_slice B json = Inr p"
    using len by (auto simp: decrypt_backup_def HEADER_LEN_def Let_def)
  have "seal_payload B ?t ?n json mk = Inr data"
    using k gcm_encrypt_decrypt [OF assms json] backup_split [of data] len by (simp add: seal_payload_def)
  moreover have "length ?n = 12" using len(1) by simp
  ultimately show "\<exists>unix nonce_bytes json. length nonce_bytes = 12 \<and> be_from_slice B json = Inr p \<and> seal_payload B unix nonce_bytes json mk = Inr data"
    using p by blast
next
  assume "\<exists>unix nonce_bytes json. length nonce_bytes = 12 \<and> be_from_slice B json = Inr p \<and> seal_payload B unix nonce_bytes json mk = Inr data"
  then show "decrypt_backup B data mk = Inr p" using sealed_opens [OF assms] by fastforce
qed

text \<open>A backup restores what it was made of. The file that \<open>create_backup\<close> writes for some keys yields exactly these keys and reports their
  number and the time, under the same master key, when the payload text reads back.\<close>

lemma backup_roundtrip:
  assumes "crypto_ok (be_crypto B)" "length nonce_bytes = 12" "create_backup B unix t nonce_bytes keys mk = Inr data"
    and "\<And>json. be_to_vec B \<lparr> schema_version = 1, bp_created_at = t, bp_keys = keys, key_count = length keys \<rparr> = Inr json \<Longrightarrow>
      be_from_slice B json = Inr \<lparr> schema_version = 1, bp_created_at = t, bp_keys = keys, key_count = length keys \<rparr>"
  shows "restore_backup B data mk = Inr keys \<and> verify_backup B data mk = Inr (length keys, t)"
proof -
  let ?p = "\<lparr> schema_version = 1, bp_created_at = t, bp_keys = keys, key_count = length keys \<rparr> :: BackupPayload"
  from assms(3) obtain json where j: "be_to_vec B ?p = Inr json" "seal_payload B unix nonce_bytes json mk = Inr data"
    by (auto simp: create_backup_seals)
  have "decrypt_backup B data mk = Inr ?p" using sealed_opens [OF assms(1,2) j(2)] assms(4) [OF j(1)] by simp
  then show ?thesis by (simp add: restore_backup_def verify_backup_def)
qed

definition demo_payload :: BackupPayload where
  "demo_payload = \<lparr> schema_version = 1, bp_created_at = 0, bp_keys = [toy_key ''k'' DataEncrypting Active None []], key_count = 1 \<rparr>"

definition demo_backup :: backup_env where
  "demo_backup = \<lparr> be_crypto = toy_crypto, be_to_vec = (\<lambda>_. Inr [1, 2]), be_from_slice = (\<lambda>_. Inr demo_payload), be_hkdf_error = [],
     be_debug = (\<lambda>_. []) \<rparr>"

lemma demo_seals: "\<exists>data. seal_payload demo_backup 7 (replicate 12 0) [1, 2] (replicate 32 0) = Inr data"
  using toy_crypto_ok by (simp add: seal_payload_def backup_key_def demo_backup_def toy_crypto_def)

theorem backup_accepts_iff_witness:
  "\<exists>data. decrypt_backup demo_backup data (replicate 32 0) = Inr demo_payload"
proof -
  obtain data where "seal_payload demo_backup 7 (replicate 12 0) [1, 2] (replicate 32 0) = Inr data" using demo_seals by blast
  moreover have "be_from_slice demo_backup [1, 2] = Inr demo_payload" "crypto_ok (be_crypto demo_backup)"
    by (simp_all add: demo_backup_def toy_crypto_ok)
  ultimately show ?thesis using backup_accepts_iff [of demo_backup data "replicate 32 0" demo_payload] by (metis length_replicate)
qed

lemma backup_roundtrip_witness:
  "\<exists>data. create_backup demo_backup 7 0 (replicate 12 0) [toy_key ''k'' DataEncrypting Active None []] (replicate 32 0) = Inr data \<and>
     restore_backup demo_backup data (replicate 32 0) = Inr [toy_key ''k'' DataEncrypting Active None []]"
proof -
  obtain data where d: "create_backup demo_backup 7 0 (replicate 12 0) [toy_key ''k'' DataEncrypting Active None []] (replicate 32 0) = Inr data"
    using demo_seals by (auto simp: create_backup_seals demo_backup_def)
  have "restore_backup demo_backup data (replicate 32 0) = Inr [toy_key ''k'' DataEncrypting Active None []]"
    by (rule backup_roundtrip [OF _ _ d, THEN conjunct1]) (simp_all add: demo_backup_def demo_payload_def toy_crypto_ok)
  with d show ?thesis by blast
qed

section \<open>Properties of the plan\<close>

definition to_rewrap :: "MigrationOptions \<Rightarrow> KeyMetadata \<Rightarrow> bool" where
  "to_rewrap opts key \<longleftrightarrow> key_type key = DataEncrypting \<and> km_state key \<in> {Active, Rotated} \<and>
     \<not> (skip_already_wrapped opts \<and> (\<exists>kv. current_key_version key = Some kv \<and> wrapping_key_id kv \<noteq> None))"

lemma plan_key_cases:
  "(\<exists>w. plan_key opts key = Inr w \<and> kw_key_id w = km_id key) \<and> to_rewrap opts key \<or>
   (\<exists>s. plan_key opts key = Inl s \<and> ksk_key_id s = km_id key) \<and> \<not> to_rewrap opts key"
  by (auto simp: plan_key_def to_rewrap_def Let_def bind_eq_Some_conv split: option.splits)

text \<open>The migration plan covers the keys: it rewraps exactly the active or rotated data keys that are not yet wrapped by a key (or all
  such keys, when asked to), in the order of the list, and skips all others.\<close>

lemma plan_migration_covers:
  "map kw_key_id (keys_to_rewrap (plan_migration t keys opts)) = map km_id (filter (to_rewrap opts) keys) \<and>
   map ksk_key_id (keys_skipped (plan_migration t keys opts)) = map km_id (filter (\<lambda>k. \<not> to_rewrap opts k) keys)"
proof (induction keys)
  case (Cons key keys)
  then show ?case
    using plan_key_cases [of opts key] by (auto simp: plan_migration_def Let_def List.map_filter_def)
qed (simp add: plan_migration_def List.map_filter_def)

end
