(* ===== verification/Audit_Witness.thy ===== *)
theory Audit_Witness
  imports Custody
begin

text \<open>
  \<^verbatim>\<open>citadel-keystore/src/audit_witness.rs\<close>: the witnesses at which heads of the audit chain are anchored. The receipts file is its text;
  every file operation has an outcome, and a fault of a write leaves a part of the line in the file. JSON, hexadecimal coding and the text
  of a time stamp are parameters. The message is that of the error type.
\<close>

section \<open>Witnesses\<close>

record WitnessReceipt =
  entry_number :: u64
  hash_hex :: string
  wr_timestamp :: string
  wr_witness_id :: string
  wr_proof :: string

record witness_env =
  we_hex :: "bytes \<Rightarrow> string"
  we_json :: "WitnessReceipt \<Rightarrow> string + string"
  we_parse :: "string \<Rightarrow> string + WitnessReceipt"
  we_rfc3339 :: "DateTime \<Rightarrow> string"
  we_not_found :: string

record FileWitness =
  receipts_path :: string
  receipts :: "string option"
  w_outcomes :: "(string \<times> nat) option list"

definition w_next :: "FileWitness \<Rightarrow> (string \<times> nat) option \<times> FileWitness" where
  "w_next s = (case w_outcomes s of [] \<Rightarrow> (None, s) | r # rs \<Rightarrow> (r, s\<lparr> w_outcomes := rs \<rparr>))"

definition append_text :: "string \<Rightarrow> FileWitness \<Rightarrow> FileWitness" where
  "append_text x s = s\<lparr> receipts := Some (case receipts s of Some c \<Rightarrow> c @ x | None \<Rightarrow> x) \<rparr>"

definition file_receipt :: "witness_env \<Rightarrow> DateTime \<Rightarrow> u64 \<Rightarrow> bytes \<Rightarrow> FileWitness \<Rightarrow> WitnessReceipt" where
  "file_receipt W t n hash s = \<lparr> entry_number = n, hash_hex = we_hex W hash, wr_timestamp = we_rfc3339 W t,
     wr_witness_id = ''file:'' @ receipts_path s, wr_proof = ''fsync-'' @ show_nat (unat n) \<rparr>"

definition file_publish_hash :: "witness_env \<Rightarrow> DateTime \<Rightarrow> u64 \<Rightarrow> bytes \<Rightarrow> FileWitness \<Rightarrow> FileWitness \<times> (string + WitnessReceipt)" where
  "file_publish_hash W t n hash s =
    (let receipt = file_receipt W t n hash s in
     case w_next s of
       (Some (e, _), s) \<Rightarrow> (s, Inl (''open receipts file: '' @ e))
     | (None, s) \<Rightarrow>
         let s = append_text [] s in
         (case we_json W receipt of
            Inl e \<Rightarrow> (s, Inl (''serialize receipt: '' @ e))
          | Inr json \<Rightarrow>
              let line = json @ [CHR 0x0A] in
              (case w_next s of
                 (Some (e, written), s) \<Rightarrow> (append_text (take written line) s, Inl (''write receipt: '' @ e))
               | (None, s) \<Rightarrow>
                   let s = append_text line s in
                   (case w_next s of
                      (Some (e, _), s) \<Rightarrow> (s, Inl (''fsync receipts: '' @ e))
                    | (None, s) \<Rightarrow> (s, Inr receipt)))))"

text \<open>\<^verbatim>\<open>BufRead::lines\<close>: the text after the last line feed is a line only when it is not empty; a carriage return before the line feed is
  dropped.\<close>

definition chomp :: "string \<Rightarrow> string" where
  "chomp l = (if l \<noteq> [] \<and> last l = CHR 0x0D then butlast l else l)"

fun text_lines :: "string \<Rightarrow> string \<Rightarrow> string list" where
  "text_lines acc [] = (if acc = [] then [] else [rev acc])"
| "text_lines acc (c # cs) = (if c = CHR 0x0A then chomp (rev acc) # text_lines [] cs else text_lines (c # acc) cs)"

fun find_receipt :: "witness_env \<Rightarrow> u64 \<Rightarrow> string list \<Rightarrow> string + WitnessReceipt" where
  "find_receipt W n [] = Inl (''receipt not found for entry '' @ show_nat (unat n))"
| "find_receipt W n (l # ls) =
     and_then (map_err (\<lambda>e. ''parse receipt: '' @ e) (we_parse W l)) (\<lambda>receipt.
     if entry_number receipt = n then Inr receipt else find_receipt W n ls)"

definition file_get_receipt :: "witness_env \<Rightarrow> u64 \<Rightarrow> FileWitness \<Rightarrow> string + WitnessReceipt" where
  "file_get_receipt W n s =
    (case receipts s of
       None \<Rightarrow> Inl (''open receipts file: '' @ we_not_found W)
     | Some c \<Rightarrow> find_receipt W n (text_lines [] c))"

definition file_verify_hash :: "witness_env \<Rightarrow> u64 \<Rightarrow> bytes \<Rightarrow> FileWitness \<Rightarrow> string + bool" where
  "file_verify_hash W n hash s = and_then (file_get_receipt W n s) (\<lambda>receipt. Inr (hash_hex receipt = we_hex W hash))"

definition noop_publish_hash :: "witness_env \<Rightarrow> DateTime \<Rightarrow> u64 \<Rightarrow> bytes \<Rightarrow> string + WitnessReceipt" where
  "noop_publish_hash W t n hash = Inr \<lparr> entry_number = n, hash_hex = we_hex W hash, wr_timestamp = we_rfc3339 W t,
     wr_witness_id = ''none'', wr_proof = ''disabled'' \<rparr>"

definition noop_verify_hash :: "u64 \<Rightarrow> bytes \<Rightarrow> string + bool" where "noop_verify_hash n hash = Inr True"

definition noop_get_receipt :: "u64 \<Rightarrow> string + WitnessReceipt" where "noop_get_receipt n = Inl ''witness disabled''"

text \<open>The witness that the environment asks for; \<open>create_dir\<close> is the outcome of creating the directory of the file.\<close>

datatype witness_kind = NoOpWitness | FileWitnessAt string

definition create_witness_from_env :: "(string \<Rightarrow> string option) \<Rightarrow> (string \<Rightarrow> string option) \<Rightarrow> string + witness_kind" where
  "create_witness_from_env env create_dir =
    (let witness_type = (case env ''CITADEL_AUDIT_WITNESS_TYPE'' of Some t \<Rightarrow> t | None \<Rightarrow> ''none'') in
     if witness_type = ''none'' \<or> witness_type = [] then Inr NoOpWitness
     else if witness_type = ''file'' then
       let path = (case env ''CITADEL_AUDIT_WITNESS_PATH'' of Some p \<Rightarrow> p | None \<Rightarrow> ''./citadel-data/audit-receipts.jsonl'') in
       (case Option.bind (path_parent path) create_dir of
          Some e \<Rightarrow> Inl (''create witness dir: '' @ e)
        | None \<Rightarrow> Inr (FileWitnessAt path))
     else Inl (''unknown witness type '' @ quoted witness_type @ '' (supported: none, file)''))"

section \<open>Anchors\<close>

text \<open>The laws of the parameters: hexadecimal coding is injective, and the text of a receipt is one line that reads back.\<close>

definition witness_ok :: "witness_env \<Rightarrow> bool" where
  "witness_ok W \<longleftrightarrow> inj (we_hex W) \<and> (\<forall>r j. we_json W r = Inr j \<longrightarrow> CHR 0x0A \<notin> set j \<and> chomp j = j \<and> we_parse W j = Inr r)"

definition content :: "FileWitness \<Rightarrow> string" where
  "content s = (case receipts s of Some c \<Rightarrow> c | None \<Rightarrow> [])"

definition complete :: "string \<Rightarrow> bool" where
  "complete c \<longleftrightarrow> c = [] \<or> last c = CHR 0x0A"

text \<open>A receipts file of complete lines that read back and none of which is for the entry \<open>n\<close>.\<close>

definition unanchored :: "witness_env \<Rightarrow> u64 \<Rightarrow> FileWitness \<Rightarrow> bool" where
  "unanchored W n s \<longleftrightarrow> complete (content s) \<and>
     list_all (\<lambda>l. case we_parse W l of Inr r \<Rightarrow> entry_number r \<noteq> n | Inl _ \<Rightarrow> False) (text_lines [] (content s))"

fun publish_all :: "witness_env \<Rightarrow> (DateTime \<times> u64 \<times> bytes) list \<Rightarrow> FileWitness \<Rightarrow> FileWitness" where
  "publish_all W [] s = s"
| "publish_all W ((t, n, h) # ps) s = publish_all W ps (fst (file_publish_hash W t n h s))"

lemma text_lines_split: "text_lines acc (c @ CHR 0x0A # x) = text_lines acc (c @ [CHR 0x0A]) @ text_lines [] x"
  by (induction acc c rule: text_lines.induct) auto

lemma text_lines_complete: "complete c \<Longrightarrow> text_lines [] (c @ x) = text_lines [] c @ text_lines [] x"
  by (cases c rule: rev_cases) (simp_all add: complete_def text_lines_split [of _ _ x])

lemma text_lines_line: "CHR 0x0A \<notin> set j \<Longrightarrow> text_lines acc (j @ [CHR 0x0A]) = [chomp (rev acc @ j)]"
  by (induction j arbitrary: acc) auto

lemma find_receipt_append: "find_receipt W n ls = Inr r \<Longrightarrow> find_receipt W n (ls @ ms) = Inr r"
  by (induction ls) (auto split: if_splits)

lemma find_receipt_skip:
  "list_all (\<lambda>l. case we_parse W l of Inr r \<Rightarrow> entry_number r \<noteq> n | Inl _ \<Rightarrow> False) ls \<Longrightarrow> find_receipt W n (ls @ ms) = find_receipt W n ms"
  by (induction ls) (auto split: sum.splits)

lemma content_simps: "content (append_text x s) = content s @ x" "\<exists>y. receipts (append_text x s) = Some y"
  by (simp_all add: content_def append_text_def split: option.split)

lemma w_next_fields: "w_next s = (r, s') \<Longrightarrow> receipts s' = receipts s \<and> content s' = content s \<and> receipts_path s' = receipts_path s"
  by (auto simp: w_next_def content_def split: list.splits)

lemma publish_result:
  "\<exists>x. content (fst (file_publish_hash W t n h s)) = content s @ x \<and>
     (\<forall>r. snd (file_publish_hash W t n h s) = Inr r \<longrightarrow>
        r = file_receipt W t n h s \<and> receipts (fst (file_publish_hash W t n h s)) \<noteq> None \<and> (\<exists>json. we_json W r = Inr json \<and> x = json @ [CHR 0x0A])) \<and>
     (receipts s \<noteq> None \<longrightarrow> receipts (fst (file_publish_hash W t n h s)) \<noteq> None)"
proof -
  let ?r = "file_receipt W t n h s"
  obtain r1 s1 where 1: "w_next s = (r1, s1)" by fastforce
  obtain r2 s2 where 2: "w_next (append_text [] s1) = (r2, s2)" by fastforce
  note f1 = w_next_fields [OF 1] and f2 = w_next_fields [OF 2]
  show ?thesis
  proof (cases r1)
    case (Some f)
    then show ?thesis using 1 f1 by (simp add: file_publish_hash_def Let_def split: prod.split)
  next
    case None
    show ?thesis
    proof (cases "we_json W ?r")
      case (Inl e)
      then show ?thesis using 1 None f1 by (simp add: file_publish_hash_def Let_def content_simps)
    next
      case (Inr json)
      let ?s = "append_text (json @ [CHR 0x0A]) s2"
      obtain r3 s3 where 3: "w_next ?s = (r3, s3)" by fastforce
      note f3 = w_next_fields [OF 3]
      have c: "content s2 = content s" using f1 f2 by (simp add: content_simps)
      show ?thesis
        using 1 2 3 None Inr f3 c by (cases r2; cases r3) (auto simp: file_publish_hash_def Let_def content_simps)
    qed
  qed
qed

lemma get_receipt_content: "receipts s \<noteq> None \<Longrightarrow> file_get_receipt W n s = find_receipt W n (text_lines [] (content s))"
  by (auto simp: file_get_receipt_def content_def)

lemma publish_all_appends:
  "\<exists>x. content (publish_all W ps s) = content s @ x \<and> (receipts s \<noteq> None \<longrightarrow> receipts (publish_all W ps s) \<noteq> None)"
proof (induction W ps s rule: publish_all.induct)
  case (2 W t n h ps s)
  let ?s = "fst (file_publish_hash W t n h s)"
  obtain x where x: "content ?s = content s @ x" "receipts s \<noteq> None \<longrightarrow> receipts ?s \<noteq> None" using publish_result [of W t n h s] by auto
  obtain y where "content (publish_all W ps ?s) = content ?s @ y" "receipts ?s \<noteq> None \<longrightarrow> receipts (publish_all W ps ?s) \<noteq> None"
    using "2.IH" by blast
  then show ?case using x by simp
qed simp

text \<open>An anchored hash stays anchored. Once the publication of a hash for an entry that had no receipt has succeeded, verification against
  the witness accepts this hash for the entry and no other, whatever is published later, for the same entry too, and whatever file
  operation then fails.\<close>

lemma witness_anchor_stable:
  assumes "witness_ok W" "unanchored W n s" "file_publish_hash W t n h s = (s1, Inr r)"
  shows "file_verify_hash W n h' (publish_all W ps s1) = Inr (h' = h)"
proof -
  obtain json where r: "r = file_receipt W t n h s" "receipts s1 \<noteq> None" "we_json W r = Inr json" "content s1 = content s @ json @ [CHR 0x0A]"
    using publish_result [of W t n h s] assms(3) by auto
  have j: "CHR 0x0A \<notin> set json" "chomp json = json" "we_parse W json = Inr r" using assms(1) r(3) by (auto simp: witness_ok_def)
  have e: "entry_number r = n" "hash_hex r = we_hex W h" by (simp_all add: r(1) file_receipt_def)
  have lines: "text_lines [] (content s1) = text_lines [] (content s) @ [json]"
    using text_lines_complete assms(2) text_lines_line [OF j(1), of "[]"] j(2) by (simp add: r(4) unanchored_def)
  have found: "find_receipt W n (text_lines [] (content s1)) = Inr r"
    using find_receipt_skip [where W = W and n = n and ls = "text_lines [] (content s)" and ms = "[json]"] assms(2) j(3) e(1) by (simp add: lines unanchored_def)
  obtain x where x: "content (publish_all W ps s1) = content s1 @ x" "receipts (publish_all W ps s1) \<noteq> None"
    using publish_all_appends [of W ps s1] r(2) by blast
  have "complete (content s1)" by (simp add: r(4) complete_def)
  then have "text_lines [] (content s1 @ x) = text_lines [] (content s1) @ text_lines [] x" by (rule text_lines_complete)
  then have "file_get_receipt W n (publish_all W ps s1) = Inr r"
    using get_receipt_content [OF x(2), where W = W and n = n] find_receipt_append [OF found] x(1) by simp
  moreover have "we_hex W h = we_hex W h' \<longleftrightarrow> h' = h" using assms(1) by (auto simp: witness_ok_def inj_def)
  ultimately show ?thesis by (simp add: file_verify_hash_def e(2))
qed

section \<open>A witness to try it on\<close>

definition demo_witness :: witness_env where
  "demo_witness = \<lparr> we_hex = toy_hex, we_json = (\<lambda>r. if wr_timestamp r = ''t'' \<and> wr_witness_id r = ''file:w'' \<and> wr_proof r = ''fsync-'' @ show_nat (Suc 0) \<and>
       entry_number r = 1 \<and> hash_hex r = toy_hex [5] then Inr ''a'' else Inl ''no''),
     we_parse = (\<lambda>l. if l = ''a'' then Inr \<lparr> entry_number = 1, hash_hex = toy_hex [5], wr_timestamp = ''t'', wr_witness_id = ''file:w'',
       wr_proof = ''fsync-'' @ show_nat (Suc 0) \<rparr> else Inl ''EOF''),
     we_rfc3339 = (\<lambda>_. ''t''), we_not_found = ''not found'' \<rparr>"

definition demo_receipts :: FileWitness where
  "demo_receipts = \<lparr> receipts_path = ''w'', receipts = None, w_outcomes = [] \<rparr>"

lemma demo_witness_ok: "witness_ok demo_witness"
proof -
  have "inj toy_hex" using toy_hex_ok by (intro inj_on_inverseI [of _ toy_unhex]) (simp add: hex_ok_def toy_env_def)
  then show ?thesis by (auto simp: witness_ok_def demo_witness_def chomp_def split: if_splits)
qed

lemma witness_anchor_stable_witness:
  "file_verify_hash demo_witness 1 [5] (publish_all demo_witness [(0, 1, [6])] (fst (file_publish_hash demo_witness 0 1 [5] demo_receipts))) = Inr True"
proof -
  obtain s1 r where "file_publish_hash demo_witness 0 1 [5] demo_receipts = (s1, Inr r)"
    by (simp add: file_publish_hash_def file_receipt_def demo_witness_def demo_receipts_def w_next_def append_text_def)
  moreover have "unanchored demo_witness 1 demo_receipts" by (simp add: unanchored_def complete_def content_def demo_receipts_def)
  ultimately show ?thesis using witness_anchor_stable [OF demo_witness_ok, of 1 demo_receipts 0 "[5]" s1 r "[5]" "[(0, 1, [6])]"] by simp
qed

end
