(* ===== verification/Ffi.thy ===== *)
theory Ffi
  imports Sdk
begin

text \<open>
  \<^verbatim>\<open>citadel-ffi/src/lib.rs\<close>: the C interface. Memory is explicit: \<open>cells\<close> are the bytes at each address,
  \<open>vars\<close> the caller's pointer- and \<^verbatim>\<open>usize\<close>-sized variables that the out-parameters point to (an
  address space of its own: a C variable is not inside a byte buffer), \<open>blocks\<close> what the process holds
  (a block is its address and size), \<open>allocations\<close> the registry of the library. Address 0 is the null
  pointer.

  The global allocator is the parameter \<open>A\<close>: from the blocks held it picks an address for a request of
  \<open>n\<close> bytes, or 0 when it has none. \<open>alloc_ok\<close> is its contract: a new block does not overlap one in
  use. \<open>dealloc\<close> with an address and layout that is not a block in use is undefined behaviour; the
  model records it in \<open>invalid_dealloc\<close>, and \<open>ffi_run_safe\<close> shows that no sequence of calls gets there.

  The 0xA3 and 0xA4 functions of the file have one text up to the key types and the engine; the text is
  \<open>keygen_body\<close>, \<open>seal_body\<close> and \<open>open_body\<close>, with these as arguments. The generator's draw of
  \<^verbatim>\<open>generate_keypair\<close> is \<open>None\<close> when it panics. Wiping of the transient copies on the stack
  (\<^verbatim>\<open>Zeroizing\<close>) and the poisoning of the registry's mutex, which the code ignores, have no counterpart.
\<close>

section \<open>Memory\<close>

type_synonym i32 = int

record ffi =
  cells :: "nat \<Rightarrow> byte"
  vars :: "nat \<Rightarrow> nat"
  blocks :: "(nat \<times> nat) list"
  allocations :: "nat \<rightharpoonup> nat"
  invalid_dealloc :: bool

type_synonym allocator = "(nat \<times> nat) list \<Rightarrow> nat \<Rightarrow> nat"

definition from_raw_parts :: "ffi \<Rightarrow> nat \<Rightarrow> nat \<Rightarrow> bytes" where
  "from_raw_parts s p n = map (cells s) [p ..< p + n]"

definition copy_bytes :: "bytes \<Rightarrow> nat \<Rightarrow> ffi \<Rightarrow> ffi" where
  "copy_bytes data p s =
     s\<lparr> cells := (\<lambda>a. if p \<le> a \<and> a < p + length data then data ! (a - p) else cells s a) \<rparr>"

definition set_var :: "nat \<Rightarrow> nat \<Rightarrow> ffi \<Rightarrow> ffi" where
  "set_var x v s = s\<lparr> vars := (vars s)(x := v) \<rparr>"

text \<open>\<^verbatim>\<open>Layout::array::<u8>\<close> refuses more than \<^verbatim>\<open>isize::MAX\<close> bytes.\<close>

definition layout_array :: "nat \<Rightarrow> nat option" where
  "layout_array n = (if n < 2 ^ 63 then Some n else None)"

definition dealloc :: "nat \<Rightarrow> nat \<Rightarrow> ffi \<Rightarrow> ffi" where
  "dealloc p n s =
    (if (p, n) \<in> set (blocks s) then s\<lparr> blocks := remove1 (p, n) (blocks s) \<rparr>
     else s\<lparr> invalid_dealloc := True \<rparr>)"

section \<open>Codes and the panic guard\<close>

definition CITADEL_OK :: i32 where "CITADEL_OK = 0"
definition CITADEL_ERR_NULL :: i32 where "CITADEL_ERR_NULL = 1"
definition CITADEL_ERR_SEAL :: i32 where "CITADEL_ERR_SEAL = 2"
definition CITADEL_ERR_OPEN :: i32 where "CITADEL_ERR_OPEN = 3"
definition CITADEL_ERR_KEY :: i32 where "CITADEL_ERR_KEY = 4"
definition CITADEL_ERR_ALLOC :: i32 where "CITADEL_ERR_ALLOC = 5"
definition CITADEL_ERR_PANIC :: i32 where "CITADEL_ERR_PANIC = 6"

lemmas ffi_codes = CITADEL_OK_def CITADEL_ERR_NULL_def CITADEL_ERR_SEAL_def CITADEL_ERR_OPEN_def
  CITADEL_ERR_KEY_def CITADEL_ERR_ALLOC_def CITADEL_ERR_PANIC_def

text \<open>A body returns \<open>None\<close> when it panics; what it wrote before stays written.\<close>

fun ffi_guard :: "i32 option \<times> ffi \<Rightarrow> i32 \<times> ffi" where
  "ffi_guard (Some rc, s) = (rc, s)"
| "ffi_guard (None, s) = (CITADEL_ERR_PANIC, s)"

section \<open>Output buffers\<close>

definition alloc_buf :: "allocator \<Rightarrow> nat \<Rightarrow> ffi \<Rightarrow> nat \<times> ffi" where
  "alloc_buf A sz s =
    (if sz = 0 then (1, s) else
     case layout_array sz of
       None \<Rightarrow> (0, s)
     | Some n \<Rightarrow>
        let p = A (blocks s) n in
        if p = 0 then (p, s) else
        (p, s\<lparr> blocks := (p, n) # blocks s, allocations := (allocations s)(p \<mapsto> sz) \<rparr>))"

definition write_output :: "allocator \<Rightarrow> bytes \<Rightarrow> nat \<Rightarrow> nat \<Rightarrow> ffi \<Rightarrow> i32 \<times> ffi" where
  "write_output A data out_ptr out_len s =
    (let len = length data; (buf, s) = alloc_buf A len s in
     if buf = 0 then (CITADEL_ERR_ALLOC, s) else
     (CITADEL_OK, set_var out_len len (set_var out_ptr buf (copy_bytes data buf s))))"

section \<open>Accessors\<close>

definition citadel_public_key_bytes :: nat where "citadel_public_key_bytes = KEM_PUBLIC_KEY_BYTES"
definition citadel_secret_key_bytes :: nat where "citadel_secret_key_bytes = KEM_SECRET_KEY_BYTES"

definition citadel_public_key_bytes_for_suite :: "byte \<Rightarrow> nat" where
  "citadel_public_key_bytes_for_suite suite =
    (if suite = 0xA3 then KEM_PUBLIC_KEY_BYTES
     else if suite = 0xA4 then P384_MLKEM1024_PUBLIC_KEY_BYTES else 0)"

definition citadel_secret_key_bytes_for_suite :: "byte \<Rightarrow> nat" where
  "citadel_secret_key_bytes_for_suite suite =
    (if suite = 0xA3 then KEM_SECRET_KEY_BYTES
     else if suite = 0xA4 then P384_MLKEM1024_SECRET_KEY_BYTES else 0)"

definition citadel_error_string :: "i32 \<Rightarrow> bytes" where
  "citadel_error_string code =
    as_bytes
     (if code = CITADEL_OK then ''ok''
      else if code = CITADEL_ERR_NULL then ''null pointer argument''
      else if code = CITADEL_ERR_SEAL then ''encryption failed''
      else if code = CITADEL_ERR_OPEN then ''decryption failed''
      else if code = CITADEL_ERR_KEY then ''invalid key''
      else if code = CITADEL_ERR_ALLOC then ''memory allocation failed''
      else if code = CITADEL_ERR_PANIC then ''internal panic caught at FFI boundary''
      else ''unknown error'') @ [0]"

section \<open>Key generation, sealing, opening\<close>

definition keygen_body ::
  "('r \<Rightarrow> 'pk \<times> 'sk) \<Rightarrow> ('pk \<Rightarrow> bytes) \<Rightarrow> ('sk \<Rightarrow> bytes) \<Rightarrow> allocator \<Rightarrow> 'r option \<Rightarrow>
   nat \<Rightarrow> nat \<Rightarrow> nat \<Rightarrow> nat \<Rightarrow> ffi \<Rightarrow> i32 option \<times> ffi" where
  "keygen_body gen pk_to_bytes sk_to_bytes A draw pk_out pk_len sk_out sk_len s =
    (if pk_out = 0 \<or> pk_len = 0 \<or> sk_out = 0 \<or> sk_len = 0 then (Some CITADEL_ERR_NULL, s) else
     let s = set_var sk_len 0 (set_var sk_out 0 (set_var pk_len 0 (set_var pk_out 0 s))) in
     case draw of
       None \<Rightarrow> (None, s)
     | Some r \<Rightarrow>
        let (pk, sk) = gen r;
            (rc, s) = write_output A (pk_to_bytes pk) pk_out pk_len s
        in if rc \<noteq> CITADEL_OK then (Some rc, s) else
           let (rc, s) = write_output A (sk_to_bytes sk) sk_out sk_len s in (Some rc, s))"

definition optional_slice :: "ffi \<Rightarrow> nat \<Rightarrow> nat \<Rightarrow> bytes" where
  "optional_slice s p n = (if p = 0 \<or> n = 0 then [] else from_raw_parts s p n)"

definition seal_body ::
  "(bytes \<Rightarrow> decryption_error + 'pk) \<Rightarrow> ('pk \<Rightarrow> bytes \<Rightarrow> bytes \<Rightarrow> bytes \<Rightarrow> encoding_error + bytes) \<Rightarrow> allocator \<Rightarrow>
   nat \<Rightarrow> nat \<Rightarrow> nat \<Rightarrow> nat \<Rightarrow> nat \<Rightarrow> nat \<Rightarrow> nat \<Rightarrow> nat \<Rightarrow> nat \<Rightarrow> nat \<Rightarrow> ffi \<Rightarrow> i32 option \<times> ffi" where
  "seal_body pk_from_bytes seal A pk_ptr pk_len pt_ptr pt_len aad_ptr aad_len ctx_ptr ctx_len ct_out ct_len_out s =
    (if pk_ptr = 0 \<or> pt_ptr = 0 \<or> ct_out = 0 \<or> ct_len_out = 0 then (Some CITADEL_ERR_NULL, s) else
     let s = set_var ct_len_out 0 (set_var ct_out 0 s) in
     case pk_from_bytes (from_raw_parts s pk_ptr pk_len) of
       Inl _ \<Rightarrow> (Some CITADEL_ERR_KEY, s)
     | Inr pk \<Rightarrow>
        (case seal pk (from_raw_parts s pt_ptr pt_len) (optional_slice s aad_ptr aad_len)
            (optional_slice s ctx_ptr ctx_len) of
           Inl _ \<Rightarrow> (Some CITADEL_ERR_SEAL, s)
         | Inr ciphertext \<Rightarrow>
            let (rc, s) = write_output A ciphertext ct_out ct_len_out s in (Some rc, s)))"

definition open_body ::
  "(bytes \<Rightarrow> decryption_error + 'sk) \<Rightarrow> ('sk \<Rightarrow> bytes \<Rightarrow> bytes \<Rightarrow> bytes \<Rightarrow> decryption_error + bytes) \<Rightarrow> allocator \<Rightarrow>
   nat \<Rightarrow> nat \<Rightarrow> nat \<Rightarrow> nat \<Rightarrow> nat \<Rightarrow> nat \<Rightarrow> nat \<Rightarrow> nat \<Rightarrow> nat \<Rightarrow> nat \<Rightarrow> ffi \<Rightarrow> i32 option \<times> ffi" where
  "open_body sk_from_bytes opener A sk_ptr sk_len ct_ptr ct_len aad_ptr aad_len ctx_ptr ctx_len pt_out pt_len_out s =
    (if sk_ptr = 0 \<or> ct_ptr = 0 \<or> pt_out = 0 \<or> pt_len_out = 0 then (Some CITADEL_ERR_NULL, s) else
     let s = set_var pt_len_out 0 (set_var pt_out 0 s) in
     case sk_from_bytes (from_raw_parts s sk_ptr sk_len) of
       Inl _ \<Rightarrow> (Some CITADEL_ERR_KEY, s)
     | Inr sk \<Rightarrow>
        (case opener sk (from_raw_parts s ct_ptr ct_len) (optional_slice s aad_ptr aad_len)
            (optional_slice s ctx_ptr ctx_len) of
           Inl _ \<Rightarrow> (Some CITADEL_ERR_OPEN, s)
         | Inr plaintext \<Rightarrow>
            let (rc, s) = write_output A plaintext pt_out pt_len_out s in (Some rc, s)))"

subsection \<open>Suite 0xA3\<close>

definition citadel_keygen where
  "citadel_keygen P A draw pk_out pk_len sk_out sk_len s =
     ffi_guard (keygen_body (hybrid_keygen P) PublicKey_to_bytes (SecretKey_to_bytes P) A draw
       pk_out pk_len sk_out sk_len s)"

definition citadel_seal where
  "citadel_seal X P A r rnd pk_ptr pk_len pt_ptr pt_len aad_ptr aad_len ctx_ptr ctx_len ct_out ct_len_out s =
     ffi_guard (seal_body (PublicKey_from_bytes P) (Citadel_seal X P r rnd) A
       pk_ptr pk_len pt_ptr pt_len aad_ptr aad_len ctx_ptr ctx_len ct_out ct_len_out s)"

definition citadel_open where
  "citadel_open X P A sk_ptr sk_len ct_ptr ct_len aad_ptr aad_len ctx_ptr ctx_len pt_out pt_len_out s =
     ffi_guard (open_body (SecretKey_from_bytes P) (Citadel_open X P) A
       sk_ptr sk_len ct_ptr ct_len aad_ptr aad_len ctx_ptr ctx_len pt_out pt_len_out s)"

subsection \<open>Suite 0xA4\<close>

definition citadel_p384_keygen where
  "citadel_p384_keygen P A draw pk_out pk_len sk_out sk_len s =
     ffi_guard (keygen_body (p384_keygen P) (PublicKey4_to_bytes P) (SecretKey4_to_bytes P) A draw
       pk_out pk_len sk_out sk_len s)"

definition citadel_p384_seal where
  "citadel_p384_seal X P A r rnd pk_ptr pk_len pt_ptr pt_len aad_ptr aad_len ctx_ptr ctx_len ct_out ct_len_out s =
     ffi_guard (seal_body (PublicKey4_from_bytes P) (CitadelP384_seal X P r rnd) A
       pk_ptr pk_len pt_ptr pt_len aad_ptr aad_len ctx_ptr ctx_len ct_out ct_len_out s)"

definition citadel_p384_open where
  "citadel_p384_open X P A sk_ptr sk_len ct_ptr ct_len aad_ptr aad_len ctx_ptr ctx_len pt_out pt_len_out s =
     ffi_guard (open_body (SecretKey4_from_bytes P) (CitadelP384_open X P) A
       sk_ptr sk_len ct_ptr ct_len aad_ptr aad_len ctx_ptr ctx_len pt_out pt_len_out s)"

section \<open>Releasing a buffer\<close>

text \<open>The length the caller passes is not used.\<close>

definition citadel_free :: "nat \<Rightarrow> nat \<Rightarrow> ffi \<Rightarrow> ffi" where
  "citadel_free ptr len s =
    (if ptr = 0 then s else
     case allocations s ptr of
       None \<Rightarrow> s
     | Some actual_len \<Rightarrow>
        let s = s\<lparr> allocations := (allocations s)(ptr := None) \<rparr> in
        if actual_len = 0 then s else
        let s = copy_bytes (replicate actual_len 0) ptr s in
        case layout_array actual_len of None \<Rightarrow> s | Some n \<Rightarrow> dealloc ptr n s)"

section \<open>Blocks, the registry and frames\<close>

definition apart :: "nat \<times> nat \<Rightarrow> nat \<times> nat \<Rightarrow> bool" where
  "apart x y \<longleftrightarrow> fst x + snd x \<le> fst y \<or> fst y + snd y \<le> fst x"

fun all_apart :: "(nat \<times> nat) list \<Rightarrow> bool" where
  "all_apart [] = True"
| "all_apart (x # xs) = (0 < snd x \<and> (\<forall>y \<in> set xs. apart x y) \<and> all_apart xs)"

definition alloc_ok :: "allocator \<Rightarrow> bool" where
  "alloc_ok A \<longleftrightarrow> (\<forall>bl n. A bl n \<noteq> 0 \<longrightarrow> (\<forall>b \<in> set bl. apart (A bl n, n) b))"

definition ffi_inv :: "ffi \<Rightarrow> bool" where
  "ffi_inv s \<longleftrightarrow> all_apart (blocks s) \<and> \<not> invalid_dealloc s \<and>
     (\<forall>p n. allocations s p = Some n \<longrightarrow> (p, n) \<in> set (blocks s) \<and> p \<noteq> 0 \<and> n < 2 ^ 63)"

text \<open>A call that does not release anything leaves every block in use with its contents.\<close>

definition in_use :: "ffi \<Rightarrow> nat \<Rightarrow> bool" where
  "in_use s a \<longleftrightarrow> (\<exists>b \<in> set (blocks s). fst b \<le> a \<and> a < fst b + snd b)"

definition extends :: "ffi \<Rightarrow> ffi \<Rightarrow> bool" where
  "extends s s' \<longleftrightarrow> set (blocks s) \<subseteq> set (blocks s') \<and> (\<forall>a. in_use s a \<longrightarrow> cells s' a = cells s a)"

definition held :: "ffi \<Rightarrow> nat \<Rightarrow> nat \<Rightarrow> bool" where
  "held s p n \<longleftrightarrow> n = 0 \<or> (\<exists>b \<in> set (blocks s). fst b \<le> p \<and> p + n \<le> fst b + snd b)"

lemma all_apart_remove1: "all_apart xs \<Longrightarrow> all_apart (remove1 x xs)"
  by (induction xs) (auto dest: notin_set_remove1 [rotated] intro: set_remove1_subset [THEN subsetD])

lemma all_apart_positive: "all_apart xs \<Longrightarrow> (p, n) \<in> set xs \<Longrightarrow> 0 < n"
  by (induction xs) auto

lemma set_remove1_all_apart: "all_apart xs \<Longrightarrow> set (remove1 x xs) = set xs - {x}"
proof -
  have "x \<notin> set xs" if "all_apart (x # xs)" for x :: "nat \<times> nat" and xs
    using that by (auto simp: apart_def)
  then have "distinct xs" if "all_apart xs" for xs using that by (induction xs) auto
  then show "all_apart xs \<Longrightarrow> set (remove1 x xs) = set xs - {x}" by simp
qed

lemma extends_refl [simp]: "extends s s"
  by (simp add: extends_def)

lemma in_use_mono: "set (blocks s) \<subseteq> set (blocks s') \<Longrightarrow> in_use s a \<Longrightarrow> in_use s' a"
  by (auto simp: in_use_def)

lemma extends_trans [trans]: "extends s t \<Longrightarrow> extends t u \<Longrightarrow> extends s u"
  by (auto simp: extends_def in_use_mono)

lemma extends_held: "extends s s' \<Longrightarrow> held s p n \<Longrightarrow> held s' p n"
  by (auto simp: extends_def held_def)

lemma extends_read: "extends s s' \<Longrightarrow> held s p n \<Longrightarrow> from_raw_parts s' p n = from_raw_parts s p n"
proof -
  assume e: "extends s s'" and h: "held s p n"
  have "in_use s a" if "p \<le> a" "a < p + n" for a using h that by (auto simp: held_def in_use_def intro: bexI [rotated])
  with e show ?thesis by (simp add: extends_def from_raw_parts_def)
qed

lemma extends_optional: "extends s s' \<Longrightarrow> p = 0 \<or> held s p n \<Longrightarrow> optional_slice s' p n = optional_slice s p n"
  by (auto simp: optional_slice_def extends_read)

lemma set_var_simps [simp]:
  "cells (set_var x v s) = cells s" "blocks (set_var x v s) = blocks s"
  "allocations (set_var x v s) = allocations s" "invalid_dealloc (set_var x v s) = invalid_dealloc s"
  "vars (set_var x v s) = (vars s)(x := v)"
  by (simp_all add: set_var_def)

lemma copy_bytes_simps [simp]:
  "vars (copy_bytes d p s) = vars s" "blocks (copy_bytes d p s) = blocks s"
  "allocations (copy_bytes d p s) = allocations s" "invalid_dealloc (copy_bytes d p s) = invalid_dealloc s"
  by (simp_all add: copy_bytes_def)

lemma from_raw_parts_set_var [simp]: "from_raw_parts (set_var x v s) p n = from_raw_parts s p n"
  by (simp add: from_raw_parts_def)

lemma optional_slice_set_var [simp]: "optional_slice (set_var x v s) p n = optional_slice s p n"
  by (simp add: optional_slice_def)

lemma inv_set_var [simp]: "ffi_inv (set_var x v s) = ffi_inv s"
  by (simp add: ffi_inv_def)

lemma extends_set_var [simp]: "extends s (set_var x v s') = extends s s'" "extends (set_var x v s) s' = extends s s'"
  by (simp_all add: extends_def in_use_def)

lemma held_set_var [simp]: "held (set_var x v s) p n = held s p n"
  by (simp add: held_def)

lemma length_from_raw_parts [simp]: "length (from_raw_parts s p n) = n"
  by (simp add: from_raw_parts_def)

lemma length_optional_slice: "n \<le> m \<Longrightarrow> length (optional_slice s p n) \<le> m"
  by (simp add: optional_slice_def)

lemma read_copied: "from_raw_parts (copy_bytes d p s) p (length d) = d"
  by (auto simp: from_raw_parts_def copy_bytes_def intro: nth_equalityI)

section \<open>What the calls keep\<close>

lemma write_output_keeps:
  assumes "alloc_ok A" "ffi_inv s"
  shows "ffi_inv (snd (write_output A d op ol s))" "extends s (snd (write_output A d op ol s))"
proof -
  have *: "\<forall>b \<in> set (blocks s). apart (A (blocks s) (length d), length d) b" if "A (blocks s) (length d) \<noteq> 0"
    using assms(1) that by (auto simp: alloc_ok_def)
  then have outside: "a < A (blocks s) (length d) \<or> A (blocks s) (length d) + length d \<le> a"
    if "A (blocks s) (length d) \<noteq> 0" "in_use s a" for a
    using that by (fastforce simp: in_use_def apart_def)
  from * have "allocations s (A (blocks s) (length d)) = None" if "A (blocks s) (length d) \<noteq> 0" "d \<noteq> []"
    using that assms(2) by (fastforce simp: ffi_inv_def apart_def dest: all_apart_positive)
  then show "ffi_inv (snd (write_output A d op ol s))"
    using assms(2) * by (auto simp: write_output_def alloc_buf_def layout_array_def Let_def ffi_inv_def)
  show "extends s (snd (write_output A d op ol s))"
    using outside by (auto simp: write_output_def alloc_buf_def layout_array_def Let_def extends_def copy_bytes_def)
      (metis not_le)
qed

lemma write_output_extends:
  "alloc_ok A \<Longrightarrow> ffi_inv s \<Longrightarrow> extends t s \<Longrightarrow> extends t (snd (write_output A d op ol s))"
  using extends_trans write_output_keeps(2) by blast

lemma keygen_body_keeps:
  assumes "alloc_ok A" "ffi_inv s"
  shows "ffi_inv (snd (keygen_body g pb sb A d po pl so sl s))" "extends s (snd (keygen_body g pb sb A d po pl so sl s))"
  using assms by (auto simp: keygen_body_def Let_def split_def intro!: write_output_keeps(1)
      write_output_extends split: option.split)

lemma seal_body_keeps:
  assumes "alloc_ok A" "ffi_inv s"
  shows "ffi_inv (snd (seal_body f g A a1 a2 a3 a4 a5 a6 a7 a8 o1 o2 s))"
    "extends s (snd (seal_body f g A a1 a2 a3 a4 a5 a6 a7 a8 o1 o2 s))"
  using assms by (auto simp: seal_body_def Let_def split_def intro!: write_output_keeps(1)
      write_output_extends split: sum.split)

lemma open_body_keeps:
  assumes "alloc_ok A" "ffi_inv s"
  shows "ffi_inv (snd (open_body f g A a1 a2 a3 a4 a5 a6 a7 a8 o1 o2 s))"
    "extends s (snd (open_body f g A a1 a2 a3 a4 a5 a6 a7 a8 o1 o2 s))"
  using assms by (auto simp: open_body_def Let_def split_def intro!: write_output_keeps(1)
      write_output_extends split: sum.split)

lemma snd_ffi_guard [simp]: "snd (ffi_guard r) = snd r"
  by (cases r rule: ffi_guard.cases) simp_all

lemma citadel_free_unknown: "ptr = 0 \<or> allocations s ptr = None \<Longrightarrow> citadel_free ptr len s = s"
  by (auto simp: citadel_free_def)

lemma citadel_free_known:
  assumes "ffi_inv s" "allocations s ptr = Some n"
  shows "citadel_free ptr len s =
    s\<lparr> allocations := (allocations s)(ptr := None), blocks := remove1 (ptr, n) (blocks s),
       cells := (\<lambda>a. if ptr \<le> a \<and> a < ptr + n then 0 else cells s a) \<rparr>"
proof -
  have "(ptr, n) \<in> set (blocks s)" "ptr \<noteq> 0" "n < 2 ^ 63" using assms by (auto simp: ffi_inv_def)
  moreover then have "0 < n" using assms(1) all_apart_positive by (auto simp: ffi_inv_def)
  ultimately show ?thesis
    using assms(2) by (intro ffi.equality)
      (auto simp: citadel_free_def layout_array_def dealloc_def copy_bytes_def Let_def fun_eq_iff)
qed

lemma citadel_free_keeps: "ffi_inv s \<Longrightarrow> ffi_inv (citadel_free ptr len s)"
  by (cases "ptr = 0 \<or> allocations s ptr = None")
    (auto simp: citadel_free_unknown citadel_free_known ffi_inv_def all_apart_remove1 set_remove1_all_apart
      split: if_splits)

section \<open>Runs of a process\<close>

text \<open>The steps of a process that links the library: its calls, with whatever arguments, and what the
  host does itself: it writes anywhere, obtains blocks from the allocator and returns those it obtained.\<close>

inductive ffi_step :: "crypto \<Rightarrow> prims \<Rightarrow> ffi \<Rightarrow> ffi \<Rightarrow> bool" for X P where
  keygen: "alloc_ok A \<Longrightarrow> ffi_step X P s (snd (citadel_keygen P A d po pl so sl s))"
| seal: "alloc_ok A \<Longrightarrow>
    ffi_step X P s (snd (citadel_seal X P A r rnd a1 a2 a3 a4 a5 a6 a7 a8 o1 o2 s))"
| opened: "alloc_ok A \<Longrightarrow> ffi_step X P s (snd (citadel_open X P A a1 a2 a3 a4 a5 a6 a7 a8 o1 o2 s))"
| p384_keygen: "alloc_ok A \<Longrightarrow> ffi_step X P s (snd (citadel_p384_keygen P A d po pl so sl s))"
| p384_seal: "alloc_ok A \<Longrightarrow>
    ffi_step X P s (snd (citadel_p384_seal X P A r rnd a1 a2 a3 a4 a5 a6 a7 a8 o1 o2 s))"
| p384_opened: "alloc_ok A \<Longrightarrow>
    ffi_step X P s (snd (citadel_p384_open X P A a1 a2 a3 a4 a5 a6 a7 a8 o1 o2 s))"
| freed: "ffi_step X P s (citadel_free ptr len s)"
| host_write: "ffi_step X P s (copy_bytes d p s)"
| host_set: "ffi_step X P s (set_var x v s)"
| host_alloc: "alloc_ok A \<Longrightarrow> A (blocks s) n \<noteq> 0 \<Longrightarrow> 0 < n \<Longrightarrow>
    ffi_step X P s (s\<lparr> blocks := (A (blocks s) n, n) # blocks s \<rparr>)"
| host_free: "(p, n) \<in> set (blocks s) \<Longrightarrow> allocations s p = None \<Longrightarrow> ffi_step X P s (dealloc p n s)"

lemmas ffi_api_defs = citadel_keygen_def citadel_seal_def citadel_open_def citadel_p384_keygen_def
  citadel_p384_seal_def citadel_p384_open_def

lemma ffi_step_keeps: "ffi_step X P s s' \<Longrightarrow> ffi_inv s \<Longrightarrow> ffi_inv s'"
proof (induction rule: ffi_step.induct)
  case (host_alloc A s n)
  then show ?case by (auto simp: ffi_inv_def alloc_ok_def)
next
  case (host_free p n s)
  then show ?case
    by (auto simp: ffi_inv_def dealloc_def all_apart_remove1 set_remove1_all_apart)
next
  case (host_write s d p)
  then show ?case by (simp add: ffi_inv_def)
qed (simp_all add: ffi_api_defs keygen_body_keeps seal_body_keeps open_body_keeps citadel_free_keeps)

lemma ffi_run_keeps: "(ffi_step X P)\<^sup>*\<^sup>* s s' \<Longrightarrow> ffi_inv s \<Longrightarrow> ffi_inv s'"
  by (induction rule: rtranclp_induct) (auto intro: ffi_step_keeps)

section \<open>What the calls return\<close>

text \<open>With memory left, a result is handed over in a buffer of its own.\<close>

lemma write_output_ok:
  assumes A: "alloc_ok A" "\<And>bl n. A bl n \<noteq> 0" and "length d < 2 ^ 63" "op \<noteq> ol" "ffi_inv s"
  obtains s' where "write_output A d op ol s = (CITADEL_OK, s')" "extends s s'" "ffi_inv s'"
    "from_raw_parts s' (vars s' op) (vars s' ol) = d" "held s' (vars s' op) (vars s' ol)" "vars s' op \<noteq> 0"
    "\<And>x. x \<noteq> op \<Longrightarrow> x \<noteq> ol \<Longrightarrow> vars s' x = vars s x"
proof
  let ?r = "write_output A d op ol s"
  show "?r = (CITADEL_OK, snd ?r)" "from_raw_parts (snd ?r) (vars (snd ?r) op) (vars (snd ?r) ol) = d"
    "held (snd ?r) (vars (snd ?r) op) (vars (snd ?r) ol)" "vars (snd ?r) op \<noteq> 0"
    using A(2) [of "blocks s" "length d"] assms(3,4) read_copied [of "[]" 1 s]
    by (cases "d = []"; simp add: write_output_def alloc_buf_def layout_array_def Let_def read_copied held_def)+
  show "vars (snd ?r) x = vars s x" if "x \<noteq> op" "x \<noteq> ol" for x
    using that by (auto simp: write_output_def alloc_buf_def layout_array_def Let_def)
qed (use write_output_keeps [OF A(1) assms(5)] in auto)

lemma keygen_body_ok:
  assumes A: "alloc_ok A" "\<And>bl n. A bl n \<noteq> 0" and "ffi_inv s" and d: "distinct [0, po, pl, so, sl]"
    and g: "g r = (pk, sk)" and "length (pb pk) < 2 ^ 63" "length (sb sk) < 2 ^ 63"
  obtains s' where "ffi_guard (keygen_body g pb sb A (Some r) po pl so sl s) = (CITADEL_OK, s')"
    "extends s s'" "ffi_inv s'"
    "from_raw_parts s' (vars s' po) (vars s' pl) = pb pk" "held s' (vars s' po) (vars s' pl)" "vars s' po \<noteq> 0"
    "from_raw_parts s' (vars s' so) (vars s' sl) = sb sk" "held s' (vars s' so) (vars s' sl)" "vars s' so \<noteq> 0"
proof -
  let ?s = "set_var sl 0 (set_var so 0 (set_var pl 0 (set_var po 0 s)))"
  obtain s1 where 1: "write_output A (pb pk) po pl ?s = (CITADEL_OK, s1)" "extends s s1" "ffi_inv s1"
    "from_raw_parts s1 (vars s1 po) (vars s1 pl) = pb pk" "held s1 (vars s1 po) (vars s1 pl)" "vars s1 po \<noteq> 0"
    using write_output_ok [OF A assms(6), of po pl ?s] assms(3) d by auto
  obtain s2 where 2: "write_output A (sb sk) so sl s1 = (CITADEL_OK, s2)" "extends s1 s2" "ffi_inv s2"
    "from_raw_parts s2 (vars s2 so) (vars s2 sl) = sb sk" "held s2 (vars s2 so) (vars s2 sl)" "vars s2 so \<noteq> 0"
    "\<And>x. x \<noteq> so \<Longrightarrow> x \<noteq> sl \<Longrightarrow> vars s2 x = vars s1 x"
    using write_output_ok [OF A assms(7) _ 1(3), of so sl] d by auto
  have v: "vars s2 po = vars s1 po" "vars s2 pl = vars s1 pl" using d by (auto intro: 2(7))
  have "ffi_guard (keygen_body g pb sb A (Some r) po pl so sl s) = (CITADEL_OK, s2)"
    using d by (auto simp: keygen_body_def g 1(1) 2(1))
  then show thesis
    using that [of s2] 1(4-6) 2(2-6) extends_trans [OF 1(2) 2(2)] extends_held [OF 2(2) 1(5)]
      extends_read [OF 2(2) 1(5)] by (simp add: v)
qed

lemma seal_body_ok:
  assumes A: "alloc_ok A" "\<And>bl n. A bl n \<noteq> 0" and "ffi_inv s" and d: "distinct [0, outp, outl]"
    and p: "pkp \<noteq> 0" "ptp \<noteq> 0" and "f (from_raw_parts s pkp pkl) = Inr pk"
    and "g pk (from_raw_parts s ptp ptl) (optional_slice s ap al) (optional_slice s cp cl) = Inr ct" "length ct < 2 ^ 63"
  obtains s' where "ffi_guard (seal_body f g A pkp pkl ptp ptl ap al cp cl outp outl s) = (CITADEL_OK, s')"
    "extends s s'" "ffi_inv s'" "from_raw_parts s' (vars s' outp) (vars s' outl) = ct"
    "held s' (vars s' outp) (vars s' outl)" "vars s' outp \<noteq> 0"
    "\<And>x. x \<noteq> outp \<Longrightarrow> x \<noteq> outl \<Longrightarrow> vars s' x = vars s x"
proof -
  let ?s = "set_var outl 0 (set_var outp 0 s)"
  obtain s' where s': "write_output A ct outp outl ?s = (CITADEL_OK, s')" "extends s s'" "ffi_inv s'"
    "from_raw_parts s' (vars s' outp) (vars s' outl) = ct" "held s' (vars s' outp) (vars s' outl)" "vars s' outp \<noteq> 0"
    "\<And>x. x \<noteq> outp \<Longrightarrow> x \<noteq> outl \<Longrightarrow> vars s' x = vars s x"
    using write_output_ok [OF A assms(9), of outp outl ?s] assms(3) d by auto
  have "ffi_guard (seal_body f g A pkp pkl ptp ptl ap al cp cl outp outl s) = (CITADEL_OK, s')"
    using assms(7,8) d p by (auto simp: seal_body_def s'(1))
  with that s' show thesis by blast
qed

lemma open_body_ok:
  assumes A: "alloc_ok A" "\<And>bl n. A bl n \<noteq> 0" and "ffi_inv s" and d: "distinct [0, outp, outl]"
    and p: "skp \<noteq> 0" "ctp \<noteq> 0" and "f (from_raw_parts s skp skl) = Inr sk"
    and "g sk (from_raw_parts s ctp ctl) (optional_slice s ap al) (optional_slice s cp cl) = Inr pt" "length pt < 2 ^ 63"
  obtains s' where "ffi_guard (open_body f g A skp skl ctp ctl ap al cp cl outp outl s) = (CITADEL_OK, s')"
    "from_raw_parts s' (vars s' outp) (vars s' outl) = pt"
proof -
  let ?s = "set_var outl 0 (set_var outp 0 s)"
  obtain s' where s': "write_output A pt outp outl ?s = (CITADEL_OK, s')"
    "from_raw_parts s' (vars s' outp) (vars s' outl) = pt"
    using write_output_ok [OF A assms(9), of outp outl ?s] assms(3) d by auto
  have "ffi_guard (open_body f g A skp skl ctp ctl ap al cp cl outp outl s) = (CITADEL_OK, s')"
    using assms(7,8) d p by (auto simp: open_body_def s'(1))
  with that s'(2) show thesis by blast
qed

text \<open>The documented contract of a failed call: with a null argument nothing changes; with another error the
  outputs are null and 0 and no memory is written or kept.\<close>

lemma write_output_failed:
  "write_output A d op ol s = (rc, s') \<Longrightarrow> rc = CITADEL_OK \<or> rc = CITADEL_ERR_ALLOC \<and> s' = s"
  by (auto simp: write_output_def alloc_buf_def layout_array_def Let_def split: if_splits)

lemma seal_body_failed:
  assumes "ffi_guard (seal_body f g A a1 a2 a3 a4 a5 a6 a7 a8 o1 o2 s) = (rc, s')" "rc \<noteq> CITADEL_OK"
  shows "s' = (if rc = CITADEL_ERR_NULL then s else set_var o2 0 (set_var o1 0 s))"
  using assms by (auto simp: seal_body_def Let_def split_def ffi_codes
      dest!: write_output_failed split: if_splits sum.splits)

lemma open_body_failed:
  assumes "ffi_guard (open_body f g A a1 a2 a3 a4 a5 a6 a7 a8 o1 o2 s) = (rc, s')" "rc \<noteq> CITADEL_OK"
  shows "s' = (if rc = CITADEL_ERR_NULL then s else set_var o2 0 (set_var o1 0 s))"
  using assms by (auto simp: open_body_def Let_def split_def ffi_codes
      dest!: write_output_failed split: if_splits sum.splits)

lemma Citadel_seal_size:
  assumes "crypto_ok X" "prims_ok P" "length nonce = 12"
    and s: "Citadel_seal X P r (Some nonce) (SecretKey_public_key P sk) pt aad ctx = Inr ct"
  shows "length ct < 2 ^ 63"
proof -
  let ?K = "HybridX25519MlKem768Provider P"
  have "v2_open X ?K sk ct aad ctx = Inr pt"
    using s assms(3) by (intro v2_open_seal [OF HybridX25519MlKem768Provider_ok [OF assms(2)] assms(1), of "Some nonce" r])
      (simp_all add: Citadel_seal_def engine_encrypt_def HybridX25519MlKem768Provider_def)
  then obtain p where "v2_layout ct p" by (auto simp: v2_open_def v2_decode_iff)
  then show ?thesis using suite_fits [of "p_suite p"] by (auto simp: v2_layout_def wire_consts)
qed

lemma hybrid_keygen_eq: "hybrid_keygen P (x, d) =
    (SecretKey_public_key P \<lparr> sk_x25519 = x, sk_mlkem = mlkem768_generate P d \<rparr>,
     \<lparr> sk_x25519 = x, sk_mlkem = mlkem768_generate P d \<rparr>)"
  by (simp add: hybrid_keygen_def SecretKey_public_key_def SecretKey_from_parts_mlkem_def Let_def)

lemma hybrid_key_bytes:
  assumes "prims_ok P" "length x = 32" "hybrid_keygen P (x, d) = (pk, sk)"
  shows "PublicKey_from_bytes P (PublicKey_to_bytes pk) = Inr pk" "length (PublicKey_to_bytes pk) = 1216"
    "SecretKey_from_bytes P (SecretKey_to_bytes P sk) = Inr sk" "length (SecretKey_to_bytes P sk) = 2432"
    "pk = SecretKey_public_key P sk"
  using assms
  by (auto simp: hybrid_keygen_eq prims_ok_def PublicKey_from_bytes_def PublicKey_to_bytes_def SecretKey_public_key_def
      PublicKey_from_parts_mlkem_def SecretKey_from_bytes_def SecretKey_to_bytes_def to_array_def wire_consts Let_def)

section \<open>An allocator and a process\<close>

definition bump :: allocator where
  "bump bl n = 2 + sum_list (map (\<lambda>b. fst b + snd b) bl)"

definition demo_process :: ffi where
  "demo_process = \<lparr> cells = (\<lambda>a. word_of_nat a), vars = (\<lambda>_. 0), blocks = [(100, 16)], allocations = Map.empty,
     invalid_dealloc = False \<rparr>"

lemma bump_ok: "alloc_ok bump"
  by (auto simp: alloc_ok_def apart_def bump_def dest!: split_list)

lemma bump_succeeds: "bump bl n \<noteq> 0"
  by (simp add: bump_def)

section \<open>Properties\<close>

text \<open>C15: the C interface round-trips through raw memory. In a process whose allocator keeps its contract
  and has memory left, with 0xA3 key generation that drew its randomness and inputs within the limits
  that lie in memory the process holds, \<open>citadel_keygen\<close>, then \<open>citadel_seal\<close> with the buffer of the
  public key, then \<open>citadel_open\<close> with the buffers of the secret key and the ciphertext all return
  \<open>CITADEL_OK\<close>, and the last output buffer holds the plaintext.\<close>

theorem ffi_seal_open:
  assumes ok: "crypto_ok X" "prims_ok P" and A: "alloc_ok A" "\<And>bl n. A bl n \<noteq> 0"
    and inv: "ffi_inv s" and len: "length x = 32" "length nonce = 12"
    and e: "hybrid_encapsulate P (fst (hybrid_keygen P (x, d))) r = Inr (ss, kem_ct)"
    and pt: "pt_ptr \<noteq> 0" "held s pt_ptr pt_len" "pt_len \<le> MAX_PLAINTEXT_LEN"
    and aad: "aad_ptr = 0 \<or> held s aad_ptr aad_len" "aad_len \<le> MAX_AAD_LEN"
    and ctx: "ctx_ptr = 0 \<or> held s ctx_ptr ctx_len" "ctx_len \<le> MAX_CONTEXT_LEN"
    and dist: "distinct [0, pk_out, pk_len, sk_out, sk_len, ct_out, ct_len, pt_out, pt_len_out]"
    and 1: "citadel_keygen P A (Some (x, d)) pk_out pk_len sk_out sk_len s = (rc1, s1)"
    and 2: "citadel_seal X P A r (Some nonce) (vars s1 pk_out) (vars s1 pk_len) pt_ptr pt_len
       aad_ptr aad_len ctx_ptr ctx_len ct_out ct_len s1 = (rc2, s2)"
    and 3: "citadel_open X P A (vars s2 sk_out) (vars s2 sk_len) (vars s2 ct_out) (vars s2 ct_len)
       aad_ptr aad_len ctx_ptr ctx_len pt_out pt_len_out s2 = (rc3, s3)"
  shows "rc1 = CITADEL_OK \<and> rc2 = CITADEL_OK \<and> rc3 = CITADEL_OK \<and>
    from_raw_parts s3 (vars s3 pt_out) (vars s3 pt_len_out) = from_raw_parts s pt_ptr pt_len"
proof -
  let ?pt = "from_raw_parts s pt_ptr pt_len" and ?aad = "optional_slice s aad_ptr aad_len"
  let ?ctx = "optional_slice s ctx_ptr ctx_len"
  obtain pk sk where g: "hybrid_keygen P (x, d) = (pk, sk)" by fastforce
  note keys = hybrid_key_bytes [OF ok(2) len(1) g]
  have k: "rc1 = CITADEL_OK" "extends s s1" "ffi_inv s1" "vars s1 pk_out \<noteq> 0" "vars s1 sk_out \<noteq> 0"
    "from_raw_parts s1 (vars s1 pk_out) (vars s1 pk_len) = PublicKey_to_bytes pk"
    "held s1 (vars s1 sk_out) (vars s1 sk_len)"
    "from_raw_parts s1 (vars s1 sk_out) (vars s1 sk_len) = SecretKey_to_bytes P sk"
    using keygen_body_ok [where g = "hybrid_keygen P" and r = "(x, d)" and po = pk_out and pl = pk_len and so = sk_out
        and sl = sk_len and pb = PublicKey_to_bytes and sb = "SecretKey_to_bytes P", OF A inv _ g]
      keys dist 1 by (auto simp: citadel_keygen_def)
  note same = extends_read [OF k(2)] extends_optional [OF k(2)]
  obtain ct where ct: "Citadel_seal X P r (Some nonce) pk ?pt ?aad ?ctx = Inr ct"
    using Citadel_seal_total [OF ok len(2), of ?pt ?aad ?ctx sk r ss kem_ct] e pt aad ctx g keys(5)
    by (auto simp: length_optional_slice)
  have c: "rc2 = CITADEL_OK" "extends s1 s2" "ffi_inv s2" "vars s2 ct_out \<noteq> 0"
    "from_raw_parts s2 (vars s2 ct_out) (vars s2 ct_len) = ct"
    and v: "vars s2 sk_out = vars s1 sk_out" "vars s2 sk_len = vars s1 sk_len"
    using seal_body_ok [where f = "PublicKey_from_bytes P" and g = "Citadel_seal X P r (Some nonce)" and pkl = "vars s1 pk_len"
        and ptl = pt_len and ap = aad_ptr and al = aad_len and cp = ctx_ptr and cl = ctx_len and outp = ct_out
        and outl = ct_len and ct = ct and pk = pk, OF A k(3) _ k(4) pt(1)]
      keys dist 2 ct Citadel_seal_size [OF ok len(2)] pt(2) aad(1) ctx(1) k(6)
    by (auto simp: citadel_seal_def same)
  have "Citadel_open X P sk ct ?aad ?ctx = Inr ?pt"
    using Citadel_open_seal [OF ok len(2)] ct keys(5) by blast
  then have "rc3 = CITADEL_OK" "from_raw_parts s3 (vars s3 pt_out) (vars s3 pt_len_out) = ?pt"
    using open_body_ok [where f = "SecretKey_from_bytes P" and g = "Citadel_open X P" and skp = "vars s2 sk_out"
        and skl = "vars s2 sk_len" and ctl = "vars s2 ct_len" and ap = aad_ptr and al = aad_len and cp = ctx_ptr
        and cl = ctx_len and outp = pt_out and outl = pt_len_out and pt = ?pt and sk = sk, OF A c(3) _ _ c(4)]
      keys dist 3 pt(2,3) aad(1) ctx(1) k(5,7,8) c(5) extends_read [OF c(2) k(7)]
      extends_optional [OF extends_trans [OF k(2) c(2)]]
    by (auto simp: citadel_open_def v wire_consts)
  with k(1) c(1) show ?thesis by blast
qed

theorem ffi_seal_open_witness:
  "case citadel_keygen toy_prims bump (Some (replicate 32 1, [])) 1 2 3 4 demo_process of (rc1, s1) \<Rightarrow>
   case citadel_seal toy_crypto toy_prims bump toy_rand (Some (replicate 12 5)) (vars s1 1) (vars s1 2) 100 3 103 2 0 7
     5 6 s1 of (rc2, s2) \<Rightarrow>
   case citadel_open toy_crypto toy_prims bump (vars s2 3) (vars s2 4) (vars s2 5) (vars s2 6) 103 2 0 7 7 8 s2 of
     (rc3, s3) \<Rightarrow>
       rc1 = CITADEL_OK \<and> rc2 = CITADEL_OK \<and> rc3 = CITADEL_OK \<and> from_raw_parts s3 (vars s3 7) (vars s3 8) = [100, 101, 102]"
proof -
  obtain ss k where e: "hybrid_encapsulate toy_prims (fst (hybrid_keygen toy_prims (replicate 32 1, []))) toy_rand = Inr (ss, k)"
    using toy_encapsulate [of "fst (hybrid_keygen toy_prims (replicate 32 1, []))"]
    by (auto simp: toy_kem_def HybridX25519MlKem768Provider_def)
  have r: "from_raw_parts demo_process 100 3 = [100, 101, 102]"
    by (simp add: from_raw_parts_def demo_process_def upt_rec)
  have "rc1 = CITADEL_OK \<and> rc2 = CITADEL_OK \<and> rc3 = CITADEL_OK \<and>
      from_raw_parts s3 (vars s3 7) (vars s3 8) = [100, 101, 102]"
    if "citadel_keygen toy_prims bump (Some (replicate 32 1, [])) 1 2 3 4 demo_process = (rc1, s1)"
      "citadel_seal toy_crypto toy_prims bump toy_rand (Some (replicate 12 5)) (vars s1 1) (vars s1 2) 100 3 103 2 0 7
         5 6 s1 = (rc2, s2)"
      "citadel_open toy_crypto toy_prims bump (vars s2 3) (vars s2 4) (vars s2 5) (vars s2 6) 103 2 0 7 7 8 s2 = (rc3, s3)"
    for rc1 s1 rc2 s2 rc3 s3
    unfolding r [symmetric]
    by (rule ffi_seal_open [OF toy_crypto_ok toy_prims_ok bump_ok bump_succeeds _ _ _ e _ _ _ _ _ _ _ _ that])
      (simp_all add: ffi_inv_def demo_process_def held_def wire_consts)
  then show ?thesis by (auto split: prod.split)
qed

text \<open>C27: no use of the C interface releases memory it must not. From a process start with an empty
  registry, whatever calls follow, with whatever pointers and lengths (null, stale, foreign and repeated
  ones included), interleaved with whatever the host writes, allocates and returns itself: the library
  never deallocates an address and size that are not a block in use, every registered buffer is a block in
  use of exactly the registered size, and no two blocks overlap.\<close>

theorem ffi_run_safe:
  assumes "(ffi_step X P)\<^sup>*\<^sup>* s s'" and "all_apart (blocks s)" "allocations s = Map.empty" "\<not> invalid_dealloc s"
  shows "\<not> invalid_dealloc s' \<and> all_apart (blocks s') \<and>
    (\<forall>p n. allocations s' p = Some n \<longrightarrow> (p, n) \<in> set (blocks s'))"
  using ffi_run_keeps [OF assms(1)] assms(2-4) by (simp add: ffi_inv_def)

theorem ffi_run_safe_witness:
  "let s1 = snd (citadel_keygen toy_prims bump (Some (replicate 32 1, [])) 1 2 3 4 demo_process);
       s2 = citadel_free (vars s1 3) 7 s1;
       s3 = citadel_free (vars s1 3) 2432 s2;
       s4 = citadel_free 100 16 s3
   in \<not> invalid_dealloc s4 \<and> all_apart (blocks s4)"
proof -
  let ?F = "ffi_step toy_crypto toy_prims"
  have "?F\<^sup>*\<^sup>* demo_process (citadel_free a1 l1 (citadel_free a2 l2 (citadel_free a3 l3
     (snd (citadel_keygen toy_prims bump d 1 2 3 4 demo_process)))))" for a1 l1 a2 l2 a3 l3 d
    by (meson ffi_step.intros(1,7) bump_ok rtranclp.rtrancl_into_rtrancl rtranclp.rtrancl_refl)
  from ffi_run_safe [OF this] show ?thesis
    by (simp add: Let_def demo_process_def)
qed

end
