(* ===== verification/Doctor.thy ===== *)
theory Doctor
  imports Custody Hierarchy Backup
begin

text \<open>
  \<^verbatim>\<open>citadel-keystore/src/doctor.rs\<close>: the deployment diagnostics. What the checks read of the process is
  the record \<open>doctor_env\<close>: environment variables, the hex decoder, the result of \<^verbatim>\<open>stat\<close> on the key
  directory, whether \<^verbatim>\<open>src\<close> is a directory, and the clock readings of each key. \<open>evaluate\<close> of a policy
  can panic, and then the whole run does.

  \<open>doctor_sound\<close> says what a report without failures guarantees, \<open>doctor_clean_iff\<close> when a report
  says nothing but \<^verbatim>\<open>PASS\<close>.
\<close>

section \<open>Checks and reports\<close>

datatype CheckStatus = Pass | Warn | Fail

fun show_check_status :: "CheckStatus \<Rightarrow> string" where
  "show_check_status Pass = ''PASS''"
| "show_check_status Warn = ''WARN''"
| "show_check_status Fail = ''FAIL''"

record DoctorCheck =
  dc_name :: string
  dc_description :: string
  dc_status :: CheckStatus
  dc_detail :: string
  dc_remediation :: "string option"

definition dc_pass :: "string \<Rightarrow> string \<Rightarrow> string \<Rightarrow> DoctorCheck" where
  "dc_pass name description d =
    \<lparr> dc_name = name, dc_description = description, dc_status = Pass, dc_detail = d, dc_remediation = None \<rparr>"

definition dc_warn :: "string \<Rightarrow> string \<Rightarrow> string \<Rightarrow> string \<Rightarrow> DoctorCheck" where
  "dc_warn name description d r =
    \<lparr> dc_name = name, dc_description = description, dc_status = Warn, dc_detail = d, dc_remediation = Some r \<rparr>"

definition dc_fail :: "string \<Rightarrow> string \<Rightarrow> string \<Rightarrow> string \<Rightarrow> DoctorCheck" where
  "dc_fail name description d r =
    \<lparr> dc_name = name, dc_description = description, dc_status = Fail, dc_detail = d, dc_remediation = Some r \<rparr>"

type_synonym DoctorReport = "DoctorCheck list"

definition report_has_failures :: "DoctorReport \<Rightarrow> bool" where
  "report_has_failures report = list_ex (\<lambda>c. dc_status c = Fail) report"

definition report_has_warnings :: "DoctorReport \<Rightarrow> bool" where
  "report_has_warnings report = list_ex (\<lambda>c. dc_status c = Warn) report"

definition report_counts :: "DoctorReport \<Rightarrow> nat \<times> nat \<times> nat" where
  "report_counts report =
    (length (filter (\<lambda>c. dc_status c = Pass) report), length (filter (\<lambda>c. dc_status c = Warn) report),
     length (filter (\<lambda>c. dc_status c = Fail) report))"

definition exit_code :: "DoctorReport \<Rightarrow> int" where
  "exit_code report = (if report_has_failures report then 1 else if report_has_warnings report then 2 else 0)"

section \<open>The process\<close>

datatype stat_result = Stat_not_found | Stat_error string | Stat_mode u32

record doctor_env =
  d_var :: "string \<Rightarrow> string option"
  d_unhex :: "string \<Rightarrow> string + bytes"
  d_stat :: "string \<Rightarrow> stat_result"
  d_src_is_dir :: bool
  d_eval_clock :: "nat \<Rightarrow> DateTime \<times> DateTime"
  d_age_clock :: "nat \<Rightarrow> DateTime"

section \<open>Environment checks\<close>

definition check_master_key_present :: "bool \<Rightarrow> DoctorCheck" where
  "check_master_key_present has_master_key =
    (let nm = ''master-key-present''; desc = ''CITADEL_MASTER_KEY environment variable is set'' in
     if has_master_key then dc_pass nm desc ''Master key loaded successfully''
     else dc_fail nm desc ''CITADEL_MASTER_KEY is not set''
       (''Generate a key: openssl rand -hex 32 '' @ right_arrow @ '' export CITADEL_MASTER_KEY=<hex>''))"

definition check_master_key_valid :: "doctor_env \<Rightarrow> DoctorCheck" where
  "check_master_key_valid D =
    (let nm = ''master-key-valid''; desc = ''CITADEL_MASTER_KEY decodes to exactly 32 bytes'' in
     case d_var D ''CITADEL_MASTER_KEY'' of
       None \<Rightarrow> dc_fail nm desc ''CITADEL_MASTER_KEY is not set'' ''Set CITADEL_MASTER_KEY to a 64-char hex string''
     | Some val \<Rightarrow>
        (case d_unhex D (str_trim val) of
           Inr bs \<Rightarrow>
             if length bs = 32 then dc_pass nm desc ''Master key is 32 bytes (256 bits)''
             else dc_fail nm desc (''Decoded to '' @ show_nat (length bs) @ '' bytes, expected 32'')
               ''Generate a valid 32-byte key: openssl rand -hex 32''
         | Inl e \<Rightarrow> dc_fail nm desc (''Hex decode failed: '' @ e)
             ''Ensure CITADEL_MASTER_KEY contains only hex characters (0-9, a-f)''))"

definition check_plaintext_mode_disabled :: "doctor_env \<Rightarrow> DoctorCheck" where
  "check_plaintext_mode_disabled D =
    (let nm = ''plaintext-mode-disabled''; desc = ''Plaintext key storage is disabled'';
         plaintext_allowed = (d_var D ''CITADEL_ALLOW_PLAINTEXT_KEYS'' = Some ''1'');
         is_dev = (d_var D ''CITADEL_ENV'' = Some ''development'');
         master_key_set = (d_var D ''CITADEL_MASTER_KEY'' \<noteq> None)
     in if \<not> plaintext_allowed \<and> master_key_set then
          dc_pass nm desc ''CITADEL_ALLOW_PLAINTEXT_KEYS is not set; CITADEL_MASTER_KEY is present''
        else if plaintext_allowed \<and> is_dev then
          dc_warn nm desc ''CITADEL_ALLOW_PLAINTEXT_KEYS=1 with CITADEL_ENV=development: dev mode active''
            ''Do not use CITADEL_ALLOW_PLAINTEXT_KEYS=1 in production''
        else if plaintext_allowed then
          dc_fail nm desc ''CITADEL_ALLOW_PLAINTEXT_KEYS=1 without CITADEL_ENV=development''
            ''Remove CITADEL_ALLOW_PLAINTEXT_KEYS from production environment''
        else dc_fail nm desc ''CITADEL_MASTER_KEY is not set; keys would be stored as plaintext''
            ''Set CITADEL_MASTER_KEY to a 64-char hex string'')"

definition check_storage_permissions :: "doctor_env \<Rightarrow> string \<Rightarrow> DoctorCheck" where
  "check_storage_permissions D data_dir =
    (let nm = ''storage-permissions''; desc = ''Key storage directory has owner-only permissions (0700)'';
         keys_dir = data_dir @ ''/keys''
     in case d_stat D keys_dir of
          Stat_not_found \<Rightarrow> dc_warn nm desc (''Directory '' @ quoted keys_dir @ '' does not exist yet'')
            ''The directory will be created on first key generation''
        | Stat_error e \<Rightarrow> dc_fail nm desc (''Cannot stat '' @ quoted keys_dir @ '': '' @ e)
            ''Ensure the data directory is accessible''
        | Stat_mode m \<Rightarrow>
            let mode = unat m mod 512 in
            if mode = 448 then dc_pass nm desc (quoted keys_dir @ '' has mode '' @ show_oct4 mode)
            else dc_fail nm desc (quoted keys_dir @ '' has mode '' @ show_oct4 mode @ '' (expected 0700)'')
              (''Run: chmod 700 '' @ quoted keys_dir))"

definition check_no_orphaned_src :: "doctor_env \<Rightarrow> DoctorCheck" where
  "check_no_orphaned_src D =
    (let nm = ''no-orphaned-src'';
         desc = ''Orphaned root src/ directory (pre-V1 code with known defects) is absent''
     in if d_src_is_dir D then
          dc_warn nm desc (''Found src/ at workspace root '' @ em_dash @ '' contains deprecated code with crypto defects'')
            ''Run: git rm -r src/''
        else dc_pass nm desc ''src/ directory not present at workspace root'')"

definition check_replay_store_backend :: "string \<Rightarrow> DoctorCheck" where
  "check_replay_store_backend actual_backend =
    (let nm = ''replay-store-type''; desc = ''Replay store backend (P066/P085)'' in
     if actual_backend = ''redis'' then
       dc_pass nm desc (''RedisReplayStore active '' @ em_dash @ '' distributed, restart-safe, fail-closed'')
     else if actual_backend = ''file'' then
       dc_pass nm desc (''FileReplayStore active '' @ em_dash @ '' single-instance, restart-safe'')
     else dc_warn nm desc
       (''MemoryReplayStore is active (backend='' @ quoted actual_backend @ '') '' @ em_dash @
        '' not restart-safe, not distributed across instances. Replay events from before a restart or from other instances will NOT be caught.'')
       ''Set CITADEL_REPLAY_STORE=file (single node) or =redis (multi-node) and restart the server. MemoryReplayStore is acceptable for development only.'')"

section \<open>Key checks\<close>

definition version_is_plaintext :: "KeyVersion \<Rightarrow> bool" where
  "version_is_plaintext kv = (case secret_key_material kv of Plaintext _ \<Rightarrow> True | _ \<Rightarrow> False)"

definition stored_plaintext :: "KeyMetadata \<Rightarrow> bool" where
  "stored_plaintext k = (case current_key_version k of Some v \<Rightarrow> version_is_plaintext v | None \<Rightarrow> False)"

definition check_no_plaintext_keys :: "KeyMetadata list \<Rightarrow> DoctorCheck" where
  "check_no_plaintext_keys keys =
    (let nm = ''no-plaintext-keys''; desc = ''No keys are stored in plaintext'';
         plaintext = map km_name (filter stored_plaintext keys)
     in if plaintext = [] then dc_pass nm desc ''All keys use AES-GCM or Citadel-envelope wrapping''
        else dc_warn nm desc
          (show_nat (length plaintext) @ '' key(s) stored as plaintext: '' @ join '', '' plaintext)
          (''Run '' @ quoted ''citadel key rewrap --all'' @ '' or rotate each key to re-encrypt under CITADEL_MASTER_KEY''))"

definition check_wrapping_graph :: "KeyMetadata list \<Rightarrow> DoctorCheck" where
  "check_wrapping_graph keys =
    (let nm = ''wrapping-graph-valid''; desc = ''Key wrapping graph has no cycles or invalid hierarchy directions'';
         violations = validate_wrapping_graph keys
     in if violations = [] then dc_pass nm desc (''Graph of '' @ show_nat (length keys) @ '' keys is valid'')
        else let cycles = filter (\<lambda>v. v_kind v = Cycle) violations in
          \<lparr> dc_name = nm, dc_description = desc, dc_status = (if cycles \<noteq> [] then Fail else Warn),
            dc_detail = show_nat (length violations) @ '' violation(s): '' @ join ''; '' (map v_detail violations),
            dc_remediation = Some (''Run '' @ quoted ''citadel migrate hierarchy'' @ '' to restructure or '' @
              quoted ''citadel key rewrap'' @ '' to fix individual keys'') \<rparr>)"

definition orphaned :: "KeyMetadata list \<Rightarrow> KeyMetadata \<Rightarrow> bool" where
  "orphaned keys k = (case parent_id k of Some pid \<Rightarrow> pid \<notin> set (map km_id keys) | None \<Rightarrow> False)"

definition check_no_orphaned_keys :: "KeyMetadata list \<Rightarrow> DoctorCheck" where
  "check_no_orphaned_keys keys =
    (let nm = ''no-orphaned-keys''; desc = ''All keys with parent_id references have accessible parents'';
         orphans = map km_name (filter (orphaned keys) keys)
     in if orphans = [] then dc_pass nm desc ''No orphaned child keys found''
        else dc_warn nm desc
          (show_nat (length orphans) @ '' key(s) reference missing parents: '' @ join '', '' orphans)
          (''Run '' @ quoted ''citadel key inspect <id>'' @ '' to examine orphaned keys''))"

text \<open>\<open>policy_map\<close> is collected from the list, so a later policy with the same id wins; the \<open>i\<close>-th key has its
  own pair of clock readings.\<close>

fun overdue_keys ::
  "(nat \<Rightarrow> DateTime \<times> DateTime) \<Rightarrow> (string \<times> KeyPolicy) list \<Rightarrow> nat \<Rightarrow> KeyMetadata list \<Rightarrow> panic + string list" where
  "overdue_keys clk ps i [] = Inr []"
| "overdue_keys clk ps i (key # keys) =
    (if km_state key \<noteq> Active then overdue_keys clk ps (Suc i) keys else
     case Option.bind (policy_id key) (map_of (rev ps)) of
       None \<Rightarrow> overdue_keys clk ps (Suc i) keys
     | Some policy \<Rightarrow>
        and_then (evaluate policy key (fst (clk i)) (snd (clk i))) (\<lambda>verdict.
        and_then (overdue_keys clk ps (Suc i) keys) (\<lambda>rest.
        Inr (if needs_rotation verdict then (km_name key @ '' ('' @ km_id key @ '')'') # rest else rest))))"

definition check_no_expired_keys :: "doctor_env \<Rightarrow> KeyMetadata list \<Rightarrow> (string \<times> KeyPolicy) list \<Rightarrow> panic + DoctorCheck" where
  "check_no_expired_keys D keys ps =
    and_then (overdue_keys (d_eval_clock D) ps 0 keys) (\<lambda>overdue.
    let nm = ''rotation-current''; desc = ''No active keys are overdue for rotation'' in
    Inr (if overdue = [] then dc_pass nm desc ''All active keys are within policy rotation windows''
         else dc_warn nm desc (show_nat (length overdue) @ '' key(s) need rotation: '' @ join '', '' overdue)
           (''Run '' @ quoted ''citadel key rotate <id>'' @ '' for each overdue key, or enable auto_rotate in policy'')))"

definition stale_pending :: "doctor_env \<Rightarrow> nat \<times> KeyMetadata \<Rightarrow> bool" where
  "stale_pending D ik =
     (km_state (snd ik) = Pending \<and> num_hours (d_age_clock D (fst ik) - created_at (snd ik)) > 24)"

definition check_no_stale_pending_keys :: "doctor_env \<Rightarrow> KeyMetadata list \<Rightarrow> DoctorCheck" where
  "check_no_stale_pending_keys D keys =
    (let nm = ''no-stale-pending''; desc = ''No keys have been in PENDING state for more than 24 hours'';
         stale = map (\<lambda>ik. km_name (snd ik)) (filter (stale_pending D) (enumerate 0 keys))
     in if stale = [] then dc_pass nm desc ''All pending keys are recently created''
        else dc_warn nm desc (show_nat (length stale) @ '' stale pending key(s): '' @ join '', '' stale)
          (''Activate or destroy stale pending keys: '' @ quoted ''citadel key activate <id>''))"

definition some_active :: "KeyType \<Rightarrow> KeyMetadata list \<Rightarrow> bool" where
  "some_active t keys = list_ex (\<lambda>k. key_type k = t \<and> km_state k = Active) keys"

definition check_hierarchy_exists :: "KeyMetadata list \<Rightarrow> DoctorCheck" where
  "check_hierarchy_exists keys =
    (let nm = ''hierarchy-exists''; desc = ''Root, Domain, and at least one KEK exist and are active'';
         has_active_root = some_active Root keys;
         has_active_domain = some_active Domain keys;
         has_active_kek = some_active KeyEncrypting keys
     in if keys = [] then
          dc_warn nm desc (''No keys found '' @ em_dash @ '' fresh installation'')
            (''Run '' @ quoted ''citadel migrate hierarchy'' @ '' to initialize the key hierarchy'')
        else if has_active_root \<and> has_active_domain \<and> has_active_kek then
          dc_pass nm desc ''Root, Domain, and KEK present and active''
        else if \<not> has_active_root then
          dc_warn nm desc ''No active Root key found''
            (''Run '' @ quoted ''citadel migrate hierarchy'' @ '' to create the default hierarchy'')
        else if \<not> has_active_domain then
          dc_warn nm desc ''Root exists but no active Domain found''
            (''Run '' @ quoted ''citadel key generate --type domain --parent <root-id>'' @ '' to create Domain key'')
        else
          dc_warn nm desc ''Root and Domain exist but no active KEK found''
            (''Run '' @ quoted ''citadel key generate --type kek --parent <domain-id>'' @ '' to create KEK under Domain''))"

definition check_destroyed_keys_info :: "KeyMetadata list \<Rightarrow> DoctorCheck" where
  "check_destroyed_keys_info keys =
    (let nm = ''destroyed-keys-info''; desc = ''Destroyed key count (informational)'';
         destroyed = filter (\<lambda>k. km_state k = Destroyed) keys
     in if destroyed = [] then dc_pass nm desc ''No destroyed keys on record''
        else dc_pass nm desc
          (show_nat (length destroyed) @ '' destroyed key record(s) present (expected '' @ em_dash @ '' audit trail)''))"

text \<open>The walk up the chain of \<^verbatim>\<open>parent_id\<close> looks at six ancestors at most.\<close>

function dead_ancestor :: "(KeyId \<times> KeyMetadata) list \<Rightarrow> KeyId option \<Rightarrow> nat \<Rightarrow> KeyMetadata option" where
  "dead_ancestor ids current_id level =
    (case current_id of
       None \<Rightarrow> None
     | Some pid \<Rightarrow>
        if Suc level > 6 then None else
        (case map_of ids pid of
           None \<Rightarrow> None
         | Some parent \<Rightarrow>
            if km_state parent \<in> {Revoked, Destroyed} then Some parent
            else dead_ancestor ids (parent_id parent) (Suc level)))"
  by pat_completeness auto
termination by (relation "measure (\<lambda>(_, _, level). 6 - level)") auto

declare dead_ancestor.simps [simp del]

definition active_under_revoked :: "(KeyId \<times> KeyMetadata) list \<Rightarrow> KeyMetadata \<Rightarrow> string list" where
  "active_under_revoked ids key =
    (if km_state key \<notin> {Active, Rotated} then [] else
     case dead_ancestor ids (parent_id key) 0 of
       None \<Rightarrow> []
     | Some parent \<Rightarrow> [quoted (km_name key) @ '' ('' @ km_id key @ '') is Active/Rotated but ancestor '' @
         quoted (km_name parent) @ '' is '' @ state_label (km_state parent)])"

definition check_no_active_children_under_revoked :: "KeyMetadata list \<Rightarrow> DoctorCheck" where
  "check_no_active_children_under_revoked keys =
    (let nm = ''no-active-children-under-revoked''; desc = ''Active keys under revoked ancestor (P064)'';
         violations = concat (map (active_under_revoked (by_id keys)) keys)
     in if violations = [] then dc_pass nm desc ''No Active/Rotated keys have a Revoked/Destroyed ancestor''
        else dc_fail nm desc
          (show_nat (length violations) @ '' key(s) are Active/Rotated but have a Revoked/Destroyed ancestor: '' @
            join ''; '' violations)
          ''Run `revoke_cascade()` on the revoked parent to Suspend all descendants, then `rewrap()` + `activate()` each under a healthy parent.'')"

section \<open>The run\<close>

definition run_all_checks ::
  "doctor_env \<Rightarrow> string \<Rightarrow> bool \<Rightarrow> KeyMetadata list \<Rightarrow> (string \<times> KeyPolicy) list \<Rightarrow> string \<Rightarrow> panic + DoctorReport" where
  "run_all_checks D data_dir has_master_key keys ps actual_replay_backend =
    and_then (check_no_expired_keys D keys ps) (\<lambda>rotation_current.
    Inr [check_master_key_present has_master_key, check_master_key_valid D, check_plaintext_mode_disabled D,
      check_storage_permissions D data_dir, check_no_plaintext_keys keys, check_wrapping_graph keys,
      check_no_orphaned_keys keys, rotation_current, check_no_stale_pending_keys D keys,
      check_hierarchy_exists keys, check_no_orphaned_src D, check_destroyed_keys_info keys,
      check_no_active_children_under_revoked keys, check_replay_store_backend actual_replay_backend])"

section \<open>What a report says\<close>

text \<open>The \<open>n\<close>-th ancestor above a parent reference.\<close>

fun nth_ancestor :: "(KeyId \<times> KeyMetadata) list \<Rightarrow> KeyId option \<Rightarrow> nat \<Rightarrow> KeyMetadata option" where
  "nth_ancestor ids pid 0 = Option.bind pid (map_of ids)"
| "nth_ancestor ids pid (Suc n) = Option.bind (Option.bind pid (map_of ids)) (\<lambda>p. nth_ancestor ids (parent_id p) n)"

lemma dead_ancestor_None_iff:
  "dead_ancestor ids pid level = None \<longleftrightarrow>
   (\<forall>n a. n + level < 6 \<longrightarrow> nth_ancestor ids pid n = Some a \<longrightarrow> km_state a \<notin> {Revoked, Destroyed})"
proof (induction ids pid level rule: dead_ancestor.induct)
  case (1 ids pid level)
  have split: "(\<forall>n. P n) \<longleftrightarrow> P 0 \<and> (\<forall>n. P (Suc n))" for P :: "nat \<Rightarrow> bool" by (metis not0_implies_Suc)
  show ?case
  proof (cases "Option.bind pid (map_of ids)")
    case None
    then have "nth_ancestor ids pid n = None" for n by (cases n) auto
    with None show ?thesis by (auto simp: dead_ancestor.simps [of ids pid] split: option.splits)
  next
    case (Some p)
    then obtain x where x: "pid = Some x" "map_of ids x = Some p" by (auto simp: bind_eq_Some_conv)
    have step: "dead_ancestor ids (Some x) level = (if Suc level > 6 then None
        else if km_state p \<in> {Revoked, Destroyed} then Some p else dead_ancestor ids (parent_id p) (Suc level))"
      using x(2) by (simp add: dead_ancestor.simps [of ids "Some x"])
    show ?thesis
      using 1 [OF x(1) _ x(2)] x by (subst split) (auto simp: step split: if_splits)
  qed
qed

lemmas doctor_status = dc_pass_def dc_warn_def dc_fail_def Let_def

lemma graph_check_status:
  "dc_status (check_wrapping_graph keys) = Fail \<longleftrightarrow> has_cycle_violation (validate_wrapping_graph keys)"
  by (auto simp: check_wrapping_graph_def doctor_status has_cycle_violation_def filter_empty_conv list_ex_iff)

lemma revoked_check_status:
  "dc_status (check_no_active_children_under_revoked keys) = Fail \<longleftrightarrow>
   (\<exists>k \<in> set keys. km_state k \<in> {Active, Rotated} \<and> dead_ancestor (by_id keys) (parent_id k) 0 \<noteq> None)"
proof -
  have "active_under_revoked ids k = [] \<longleftrightarrow> \<not> (km_state k \<in> {Active, Rotated} \<and> dead_ancestor ids (parent_id k) 0 \<noteq> None)"
    for ids k by (auto simp: active_under_revoked_def split: option.split)
  then show ?thesis by (simp add: check_no_active_children_under_revoked_def doctor_status)
qed

text \<open>A report without failures guarantees: the master key is loaded and is 32 bytes of hex, plaintext storage
  is at most enabled in development, every wrapping chain ends, and no active or rotated key has a revoked or
  destroyed key among its six nearest ancestors.\<close>

lemma doctor_sound:
  assumes "run_all_checks D dir has_master_key keys ps backend = Inr report" "exit_code report \<noteq> 1"
  shows "has_master_key"
    and "\<exists>v bs. d_var D ''CITADEL_MASTER_KEY'' = Some v \<and> d_unhex D (str_trim v) = Inr bs \<and> length bs = 32"
    and "d_var D ''CITADEL_ALLOW_PLAINTEXT_KEYS'' = Some ''1'' \<Longrightarrow> d_var D ''CITADEL_ENV'' = Some ''development''"
    and "k \<in> set keys \<Longrightarrow> grounded (by_id keys) (km_id k)"
    and "k \<in> set keys \<Longrightarrow> km_state k \<in> {Active, Rotated} \<Longrightarrow> n < 6 \<Longrightarrow>
      nth_ancestor (by_id keys) (parent_id k) n = Some a \<Longrightarrow> km_state a \<notin> {Revoked, Destroyed}"
proof -
  from assms have f: "dc_status (check_master_key_present has_master_key) \<noteq> Fail"
    "dc_status (check_master_key_valid D) \<noteq> Fail" "dc_status (check_plaintext_mode_disabled D) \<noteq> Fail"
    "\<not> has_cycle_violation (validate_wrapping_graph keys)"
    "\<not> (\<exists>k \<in> set keys. km_state k \<in> {Active, Rotated} \<and> dead_ancestor (by_id keys) (parent_id k) 0 \<noteq> None)"
    unfolding graph_check_status [symmetric] revoked_check_status [symmetric]
    by (auto simp: run_all_checks_def exit_code_def report_has_failures_def split: if_splits)
  show has_master_key using f(1) by (auto simp: check_master_key_present_def doctor_status split: if_splits)
  show "\<exists>v bs. d_var D ''CITADEL_MASTER_KEY'' = Some v \<and> d_unhex D (str_trim v) = Inr bs \<and> length bs = 32"
    using f(2) by (auto simp: check_master_key_valid_def doctor_status split: option.splits sum.splits if_splits)
  show "d_var D ''CITADEL_ENV'' = Some ''development''" if "d_var D ''CITADEL_ALLOW_PLAINTEXT_KEYS'' = Some ''1''"
    using f(3) that by (auto simp: check_plaintext_mode_disabled_def doctor_status split: if_splits)
  show "grounded (by_id keys) (km_id k)" if "k \<in> set keys"
    using f(4) that by (simp add: validate_wrapping_graph_def Let_def cycle_loop_iff concat_check_no_cycle)
  show "km_state a \<notin> {Revoked, Destroyed}" if "k \<in> set keys" "km_state k \<in> {Active, Rotated}" "n < 6"
    "nth_ancestor (by_id keys) (parent_id k) n = Some a"
    using f(5) that dead_ancestor_None_iff [of "by_id keys" "parent_id k" 0] by auto
qed

lemma doctor_clean_iff: "exit_code report = 0 \<longleftrightarrow> report_counts report = (length report, 0, 0)"
proof
  assume "exit_code report = 0"
  then have "\<forall>c \<in> set report. dc_status c = Pass"
    by (auto simp: exit_code_def report_has_failures_def report_has_warnings_def list_ex_iff split: if_splits)
      (metis CheckStatus.exhaust)
  then show "report_counts report = (length report, 0, 0)" by (auto simp: report_counts_def filter_empty_conv)
next
  assume "report_counts report = (length report, 0, 0)"
  then show "exit_code report = 0"
    by (auto simp: report_counts_def exit_code_def report_has_failures_def report_has_warnings_def list_ex_iff filter_empty_conv)
qed

end
