(* ===== verification/Key_Graph.thy ===== *)
theory Key_Graph
  imports Hierarchy Backup
begin

text \<open>
  \<^verbatim>\<open>citadel-keystore/src/graph.rs\<close>: the forest of keys along \<^verbatim>\<open>parent_id\<close> and its rendering. \<open>build_node\<close>
  ends because the path of ids above a node grows inside the finite set of ids. \<open>graph_shows_iff\<close> says
  which keys the forest shows: exactly those whose parent chain ends. A key on or below a cycle of parent
  references is not shown at all, so the marker \<^verbatim>\<open>(CYCLE DETECTED)\<close> is never rendered. In \<open>render_node\<close>
  the first eight bytes of an id are a string, as they are for the hexadecimal ids the keystore makes.
\<close>

section \<open>Building\<close>

datatype GraphNode = GraphNode (gn_id: KeyId) (gn_name: string) (gn_key_type: string) (gn_state: KeyState)
  (gn_current_version: u32) (gn_version_count: nat) (gn_wrapping_summary: string) (gn_children: "GraphNode list")

record KeyGraph =
  kg_roots :: "GraphNode list"
  kg_total_keys :: nat

function build_node :: "(KeyId \<times> KeyMetadata) list \<Rightarrow> KeyId list \<Rightarrow> KeyMetadata \<Rightarrow> GraphNode" where
  "build_node ids seen meta =
    (if km_id meta \<in> set seen then
       GraphNode (km_id meta) (km_name meta @ '' (CYCLE DETECTED)'') (show_key_type (key_type meta)) (km_state meta)
         (current_version meta) (length (versions meta)) ''CYCLE'' []
     else
       let summary = (case current_key_version meta of
             Some kv \<Rightarrow> wrapping_summary (effective_wrapping_mode kv) | None \<Rightarrow> ''unknown'');
           children = map (build_node ids (km_id meta # seen))
             (filter (\<lambda>k. parent_id k = Some (km_id meta)) (map snd ids))
       in GraphNode (km_id meta) (km_name meta) (show_key_type (key_type meta)) (km_state meta)
            (current_version meta) (length (versions meta)) summary children)"
  by pat_completeness auto
termination
proof (relation "measure (\<lambda>(ids, seen, meta). card (insert (km_id meta) (km_id ` snd ` set ids) - set seen))")
  fix ids :: "(KeyId \<times> KeyMetadata) list" and seen and meta k :: KeyMetadata
  assume "km_id meta \<notin> set seen" "k \<in> set (filter (\<lambda>k. parent_id k = Some (km_id meta)) (map snd ids))"
  then have "insert (km_id k) (km_id ` snd ` set ids) - set (km_id meta # seen) \<subset> insert (km_id meta) (km_id ` snd ` set ids) - set seen"
    by auto
  then show "((ids, km_id meta # seen, k), ids, seen, meta)
      \<in> measure (\<lambda>(ids, seen, meta). card (insert (km_id meta) (km_id ` snd ` set ids) - set seen))"
    by (simp add: psubset_card_mono)
qed simp

declare build_node.simps [simp del]

definition is_top :: "(KeyId \<times> KeyMetadata) list \<Rightarrow> KeyMetadata \<Rightarrow> bool" where
  "is_top ids k = (case parent_id k of Some pid \<Rightarrow> map_of ids pid = None | None \<Rightarrow> True)"

definition KeyGraph_build :: "KeyMetadata list \<Rightarrow> KeyGraph" where
  "KeyGraph_build keys =
    (let ids = by_id keys; root_keys = filter (is_top ids) keys in
     \<lparr> kg_roots = map (build_node ids []) root_keys, kg_total_keys = length keys \<rparr>)"

section \<open>Rendering\<close>

definition box_last :: string where
  "box_last = [CHR 0xE2, CHR 0x94, CHR 0x94, CHR 0xE2, CHR 0x94, CHR 0x80, CHR 0xE2, CHR 0x94, CHR 0x80] @ '' ''"
definition box_tee :: string where
  "box_tee = [CHR 0xE2, CHR 0x94, CHR 0x9C, CHR 0xE2, CHR 0x94, CHR 0x80, CHR 0xE2, CHR 0x94, CHR 0x80] @ '' ''"
definition box_bar :: string where "box_bar = [CHR 0xE2, CHR 0x94, CHR 0x82]"

fun render_node :: "string \<Rightarrow> bool \<Rightarrow> GraphNode \<Rightarrow> string"
  and render_children :: "string \<Rightarrow> GraphNode list \<Rightarrow> string" where
  "render_node prefix is_last (GraphNode i nm kt st ver cnt wrapping children) =
    (let connector = (if is_last then box_last else box_tee);
         short_id = take 8 i;
         ver_str = (if cnt > 1 then ''v'' @ show_nat (unat ver) @ '' ('' @ show_nat cnt @ '' vers)'' else ''v'' @ show_nat (unat ver));
         child_prefix = (if is_last then prefix @ ''    '' else prefix @ box_bar @ ''   '')
     in prefix @ connector @ kt @ ''/'' @ nm @ '' '' @ ver_str @ '' ['' @ state_label st @ ''] '' @ em_dash @ '' '' @
        wrapping @ [CHR 0x0A] @ child_prefix @ ''    id: '' @ short_id @ [CHR 0x0A] @ render_children child_prefix children)"
| "render_children prefix [] = []"
| "render_children prefix (c # cs) = render_node prefix (cs = []) c @ render_children prefix cs"

definition KeyGraph_render :: "KeyGraph \<Rightarrow> string" where
  "KeyGraph_render g =
    (if kg_roots g = [] then ''(no keys)'' @ [CHR 0x0A] else render_children [] (kg_roots g))"

definition KeyGraph_summary :: "KeyGraph \<Rightarrow> string" where
  "KeyGraph_summary g = show_nat (kg_total_keys g) @ '' total keys, '' @ show_nat (length (kg_roots g)) @ '' root(s)''"

section \<open>Chains of parents\<close>

fun up_chain :: "(KeyId \<times> KeyMetadata) list \<Rightarrow> KeyId list \<Rightarrow> bool" where
  "up_chain ids [] = False"
| "up_chain ids [x] = (case map_of ids x of Some m \<Rightarrow> is_top ids m | None \<Rightarrow> False)"
| "up_chain ids (x # y # l) =
    ((case map_of ids x of Some m \<Rightarrow> parent_id m = Some y | None \<Rightarrow> False) \<and> up_chain ids (y # l))"

lemma up_chain_member: "up_chain ids (x # l) \<Longrightarrow> \<exists>m. map_of ids x = Some m"
  by (cases l) (auto split: option.splits)

lemma up_chain_unique: "up_chain ids (x # l) \<Longrightarrow> up_chain ids (x # l') \<Longrightarrow> l = l'"
proof (induction l arbitrary: x l')
  case Nil
  then show ?case
    by (cases l') (auto simp: is_top_def split: option.splits dest: up_chain_member)
next
  case (Cons y l)
  then show ?case
    by (cases l') (auto simp: is_top_def split: option.splits dest: up_chain_member)
qed

lemma up_chain_suffix: "up_chain ids (xs @ ys) \<Longrightarrow> ys \<noteq> [] \<Longrightarrow> up_chain ids ys"
  by (induction ids xs rule: up_chain.induct) (auto simp: neq_Nil_conv)

lemma up_chain_no_repeat: "up_chain ids (x # l) \<Longrightarrow> x \<notin> set l"
proof
  assume u: "up_chain ids (x # l)" and "x \<in> set l"
  then obtain a b where l: "l = a @ x # b" by (meson split_list)
  with u have "up_chain ids (x # b)" using up_chain_suffix [of ids "x # a" "x # b"] by simp
  with u have "l = b" by (rule up_chain_unique)
  with l show False by simp
qed

section \<open>What the forest shows\<close>

fun gn_nodes :: "GraphNode \<Rightarrow> GraphNode set" where
  "gn_nodes (GraphNode i nm kt st ver cnt w cs) = insert (GraphNode i nm kt st ver cnt w cs) (\<Union>c \<in> set cs. gn_nodes c)"

lemma nodes_refl [simp]: "n \<in> gn_nodes n"
  by (cases n) simp

lemma nodes_child: "n \<in> gn_nodes m \<Longrightarrow> c \<in> set (gn_children n) \<Longrightarrow> c \<in> gn_nodes m"
proof (induction m)
  case (GraphNode i nm kt st ver cnt w cs)
  then show ?case by (cases n) (auto; force)
qed

lemma build_node_fields:
  assumes "km_id m \<notin> set seen"
  shows "gn_id (build_node ids seen m) = km_id m" "gn_name (build_node ids seen m) = km_name m"
    "gn_children (build_node ids seen m) = map (build_node ids (km_id m # seen))
      (filter (\<lambda>k. parent_id k = Some (km_id m)) (map snd ids))"
  using assms by (simp_all add: build_node.simps [of ids seen])

lemma build_node_sound:
  assumes "\<And>k. k \<in> snd ` set ids \<Longrightarrow> map_of ids (km_id k) = Some k"
  shows "map_of ids (km_id m) = Some m \<Longrightarrow> up_chain ids (km_id m # seen) \<Longrightarrow> n \<in> gn_nodes (build_node ids seen m) \<Longrightarrow>
    \<exists>k l. map_of ids (gn_id n) = Some k \<and> gn_name n = km_name k \<and> up_chain ids (gn_id n # l)"
  using assms
proof (induction ids seen m rule: build_node.induct)
  case (1 ids seen m)
  note new = up_chain_no_repeat [OF 1(3)]
  have "n = build_node ids seen m \<or> (\<exists>c \<in> set (gn_children (build_node ids seen m)). n \<in> gn_nodes c)"
    using 1(4) by (cases "build_node ids seen m") auto
  then show ?case
  proof
    assume "n = build_node ids seen m"
    with 1(2,3) new show ?thesis by (auto simp: build_node_fields)
  next
    assume "\<exists>c \<in> set (gn_children (build_node ids seen m)). n \<in> gn_nodes c"
    then obtain k where k: "k \<in> snd ` set ids" "parent_id k = Some (km_id m)"
      and n: "n \<in> gn_nodes (build_node ids (km_id m # seen) k)"
      by (auto simp: build_node_fields [OF new] rev_image_eqI)
    from k(1) have look: "map_of ids (km_id k) = Some k" by (rule 1(5))
    with 1(3) k(2) have "up_chain ids (km_id k # km_id m # seen)" by simp
    then show ?thesis using 1(1) [OF new refl _ look _ n 1(5)] k by auto
  qed
qed

lemma build_node_complete:
  assumes V: "\<And>x m. map_of ids x = Some m \<Longrightarrow> km_id m = x"
  shows "up_chain ids (x # l) \<Longrightarrow> map_of ids x = Some m \<Longrightarrow>
    \<exists>r. map_of ids (km_id r) = Some r \<and> is_top ids r \<and> build_node ids l m \<in> gn_nodes (build_node ids [] r)"
proof (induction l arbitrary: x m)
  case Nil
  then show ?case using V by (intro exI [of _ m]) auto
next
  case (Cons y l)
  then obtain p where p: "map_of ids y = Some p" "parent_id m = Some y" and u: "up_chain ids (y # l)"
    using up_chain_member by fastforce
  from Cons.IH [OF u p(1)] obtain r where r: "map_of ids (km_id r) = Some r" "is_top ids r"
    "build_node ids l p \<in> gn_nodes (build_node ids [] r)" by blast
  have "km_id p = y" using V p(1) by blast
  moreover have "m \<in> snd ` set ids" using Cons.prems(2) by (auto dest: map_of_SomeD intro: rev_image_eqI)
  ultimately have "build_node ids (y # l) m \<in> set (gn_children (build_node ids l p))"
    using up_chain_no_repeat [OF u] p(2) by (auto simp: build_node_fields)
  with r show ?case using nodes_child by blast
qed

lemma by_id_distinct: "distinct (al_keys (by_id keys))"
proof -
  have "distinct (al_keys m0) \<Longrightarrow> distinct (al_keys (fold (\<lambda>k m. al_put (km_id k) k m) keys m0))" for m0
    by (induction keys arbitrary: m0) auto
  then show ?thesis by (simp add: by_id_def)
qed

text \<open>A node of the forest is a stored key under its own name, and the keys shown are exactly those whose chain
  of parents ends.\<close>

lemma graph_shows_iff:
  assumes "distinct (map km_id keys)"
  shows "(\<exists>r \<in> set (kg_roots (KeyGraph_build keys)). \<exists>n \<in> gn_nodes r. gn_id n = x) \<longleftrightarrow> (\<exists>l. up_chain (by_id keys) (x # l))"
    and "r \<in> set (kg_roots (KeyGraph_build keys)) \<Longrightarrow> n \<in> gn_nodes r \<Longrightarrow>
      \<exists>k \<in> set keys. gn_id n = km_id k \<and> gn_name n = km_name k"
proof -
  let ?ids = "by_id keys"
  have U: "map_of ?ids (km_id k) = Some k" if "k \<in> snd ` set ?ids" for k
    using that by_id_distinct [of keys] by_id_member [of keys] by (auto simp: map_of_eq_Some_iff)
  have V: "km_id m = z" if "map_of ?ids z = Some m" for z m using by_id_member that by blast
  have tops: "r \<in> set (kg_roots (KeyGraph_build keys)) \<longleftrightarrow>
      (\<exists>k. map_of ?ids (km_id k) = Some k \<and> is_top ?ids k \<and> r = build_node ?ids [] k)" for r
    using by_id_lookup [OF assms] by_id_member [of keys] by (auto simp: KeyGraph_build_def Let_def)
  have sound: "\<exists>k l. map_of ?ids (gn_id n) = Some k \<and> gn_name n = km_name k \<and> up_chain ?ids (gn_id n # l)"
    if r: "r \<in> set (kg_roots (KeyGraph_build keys))" "n \<in> gn_nodes r" for r n
    using r build_node_sound [OF U, of _ "[]" n] unfolding tops by fastforce
  then show "r \<in> set (kg_roots (KeyGraph_build keys)) \<Longrightarrow> n \<in> gn_nodes r \<Longrightarrow>
      \<exists>k \<in> set keys. gn_id n = km_id k \<and> gn_name n = km_name k"
    using by_id_member by metis
  have "\<exists>r \<in> set (kg_roots (KeyGraph_build keys)). \<exists>n \<in> gn_nodes r. gn_id n = x" if u: "up_chain ?ids (x # l)" for l
  proof -
    obtain m where m: "map_of ?ids x = Some m" using up_chain_member [OF u] by blast
    obtain r where "map_of ?ids (km_id r) = Some r" "is_top ?ids r" "build_node ?ids l m \<in> gn_nodes (build_node ?ids [] r)"
      using build_node_complete [OF V u m] by blast
    moreover have "gn_id (build_node ?ids l m) = x"
      using up_chain_no_repeat [OF u] V [OF m] by (simp add: build_node_fields)
    ultimately show ?thesis using tops [of "build_node ?ids [] r"] by blast
  qed
  with sound show "(\<exists>r \<in> set (kg_roots (KeyGraph_build keys)). \<exists>n \<in> gn_nodes r. gn_id n = x) \<longleftrightarrow>
      (\<exists>l. up_chain ?ids (x # l))" by blast
qed

end
