(* ===== verification/Startup.thy ===== *)
theory Startup
  imports Api_Keys
begin

text \<open>
  The start-up of the server in \<^verbatim>\<open>citadel-api/src/main.rs\<close>: the preflight gate \<^verbatim>\<open>create_keystore\<close>, which builds the keystore from
  the environment, and the bootstrap of the API keys. \<^verbatim>\<open>std::process::exit(1)\<close> is \<open>Exit\<close>, a failed \<^verbatim>\<open>expect\<close> or
  \<^verbatim>\<open>assert\<close> is \<open>Panicked\<close>; the messages on standard error are left out. The replay store behind the trait object is one of
  \<open>AnyReplay\<close>. What start-up meets outside is the record \<open>boot\<close>: the result of opening the key directory, the
  replay file, the answer of the Redis server to \<^verbatim>\<open>PING\<close>, whether Redis support is compiled in.

  \<open>startup_fails_closed\<close>: outside development mode the server does not come up with keys in plaintext or with a
  replay store that forgets.
\<close>

section \<open>The preflight gate\<close>

datatype startup_halt = Exit | Panicked

datatype AnyReplay = MemoryStore MemoryReplayStore | FileStore FileReplayStore | RedisStore RedisReplayStore

text \<open>The trait object dispatches on the store inside; \<open>RR\<close> are the operations of the Redis store.\<close>

fun any_claim where
  "any_claim J RR clk key ttl (MemoryStore m) = (case mem_claim clk key ttl m of (m', r) \<Rightarrow> (MemoryStore m', r))"
| "any_claim J RR clk key ttl (FileStore f) = (case file_claim J clk key ttl f of (f', r) \<Rightarrow> (FileStore f', r))"
| "any_claim J RR clk key ttl (RedisStore s) = (case rs_claim RR clk key ttl s of (s', r) \<Rightarrow> (RedisStore s', r))"

fun any_release where
  "any_release J RR clk key (MemoryStore m) = (case mem_release clk key m of (m', r) \<Rightarrow> (MemoryStore m', r))"
| "any_release J RR clk key (FileStore f) = (case file_release J clk key f of (f', r) \<Rightarrow> (FileStore f', r))"
| "any_release J RR clk key (RedisStore s) = (case rs_release RR clk key s of (s', r) \<Rightarrow> (RedisStore s', r))"

fun any_entry_count where
  "any_entry_count RR (MemoryStore m) = mem_entry_count m"
| "any_entry_count RR (FileStore f) = file_entry_count f"
| "any_entry_count RR (RedisStore s) = rs_entry_count RR s"

definition AnyStore :: "json_codec \<Rightarrow> RedisReplayStore ReplayStore \<Rightarrow> AnyReplay ReplayStore" where
  "AnyStore J RR = \<lparr> rs_claim = any_claim J RR, rs_release = any_release J RR, rs_entry_count = any_entry_count RR \<rparr>"

record 's boot =
  b_storage :: "string + 's"
  b_replay_read_error :: "string option"
  b_replay_disk :: disk
  b_replay_json :: json_codec
  b_redis_ping :: "string \<Rightarrow> string + unit"
  b_redis_backend :: bool
  b_enforce :: "string option"

definition redis_from_env :: "(string \<Rightarrow> string option) \<Rightarrow> (string \<Rightarrow> string + unit) \<Rightarrow> bool \<Rightarrow> ReplayError + RedisReplayStore" where
  "redis_from_env var ping fail_closed =
    (case var ''CITADEL_REDIS_URL'' of
       None \<Rightarrow> Inl (ReplayError ''CITADEL_REDIS_URL not set; required for Redis replay store'')
     | Some url \<Rightarrow>
        let prefix = (case var ''CITADEL_REDIS_PREFIX'' of Some p \<Rightarrow> p | None \<Rightarrow> ''citadel:replay:'') in
        and_then (map_err (\<lambda>e. ReplayError (''Redis startup validation failed for '' @ quoted url @ '': '' @ e @ '' '' @ em_dash @
            '' fix CITADEL_REDIS_URL or ensure Redis is running'')) (ping url)) (\<lambda>_.
        Inr \<lparr> key_prefix = prefix, rr_fail_closed = fail_closed \<rparr>))"

definition preflight_master_key :: "api_env \<Rightarrow> startup_halt + unit" where
  "preflight_master_key A =
    (case var_of A ''CITADEL_MASTER_KEY'' of
       Some val \<Rightarrow>
        (case ae_hex_decode A (str_trim val) of
           Inl _ \<Rightarrow> Inl Exit
         | Inr bytes \<Rightarrow> if length bytes \<noteq> 32 then Inl Exit else Inr ())
     | None \<Rightarrow>
        if var_of A ''CITADEL_ALLOW_PLAINTEXT_KEYS'' \<noteq> Some ''1'' then Inl Exit
        else if var_of A ''CITADEL_ENV'' \<noteq> Some ''development'' then Inl Exit
        else Inr ())"

text \<open>\<open>None\<close> leaves the memory store of the constructor in place.\<close>

definition select_replay_store :: "api_env \<Rightarrow> 's boot \<Rightarrow> (nat \<Rightarrow> nat) \<Rightarrow> string \<Rightarrow> startup_halt + AnyReplay option" where
  "select_replay_store A B clk data_dir =
    (let replay_ttl = from_secs 86400 in
     case var_of A ''CITADEL_REPLAY_STORE'' of
       Some v \<Rightarrow>
         if v = ''file'' then
           let path = (case var_of A ''CITADEL_REPLAY_STORE_PATH'' of Some p \<Rightarrow> p | None \<Rightarrow> data_dir @ ''/replay.json'') in
           (case FileReplayStore_new (b_replay_json B) clk path replay_ttl True (b_replay_read_error B) (b_replay_disk B) of
              Inr store \<Rightarrow> Inr (Some (FileStore store)) | Inl _ \<Rightarrow> Inl Exit)
         else if v = ''redis'' then
           if \<not> b_redis_backend B then Inl Exit
           else (case redis_from_env (var_of A) (b_redis_ping B) True of
              Inr store \<Rightarrow> Inr (Some (RedisStore store)) | Inl _ \<Rightarrow> Inl Exit)
         else Inl Exit
     | None \<Rightarrow> if var_of A ''CITADEL_ENV'' \<noteq> Some ''development'' then Inl Exit else Inr None)"

definition open_keystore ::
  "api_env \<Rightarrow> ('s, AnyReplay) kenv \<Rightarrow> 's \<Rightarrow> LocalPilotConfig option \<Rightarrow> (nat \<Rightarrow> nat) \<Rightarrow> (nat \<Rightarrow> rnd) \<Rightarrow> startup_halt + ('s, AnyReplay) Keystore" where
  "open_keystore A E st pilot_config clk rand =
    (let rc = MemoryStore MemoryReplayStore_with_defaults in
     case pilot_config of
       Some config \<Rightarrow>
         and_then (map_err (\<lambda>_. Exit) (Provider_open (ae_host A) (root_key_file config))) (\<lambda>provider.
         map_err (\<lambda>_. Exit) (with_root_key_provider E st [] ''linux-file-v1'' (load_root_key (ae_host A) provider) rc clk rand))
     | None \<Rightarrow> Inr (Keystore_new E st [] rc clk rand))"

definition create_keystore ::
  "api_env \<Rightarrow> ('s, AnyReplay) kenv \<Rightarrow> 's boot \<Rightarrow> string \<Rightarrow> (nat \<Rightarrow> nat) \<Rightarrow> (nat \<Rightarrow> rnd) \<Rightarrow> startup_halt + ('s, AnyReplay) Keystore" where
  "create_keystore A E B data_dir clk rand =
    (let local_pilot = (var_of A ''CITADEL_PROFILE'' = Some ''local-pilot'') in
     and_then (if local_pilot then map_err (\<lambda>_. Exit) (and_then (validate_pairs (ae_vars A)) (\<lambda>c. Inr (Some c))) else Inr None) (\<lambda>pilot_config.
     and_then (if \<not> local_pilot then preflight_master_key A else Inr ()) (\<lambda>_.
     and_then (map_err (\<lambda>_. Panicked) (b_storage B)) (\<lambda>st.
     and_then (open_keystore A E st pilot_config clk rand) (\<lambda>ks.
     and_then (select_replay_store A B clk data_dir) (\<lambda>replay.
     let install = (case replay of Some rc \<Rightarrow> set_replay_store rc | None \<Rightarrow> ret ());
         (_ :: unit + unit, ks) = bnd install (\<lambda>_. bnd (register_policy (default_dek (b_enforce B))) (\<lambda>_.
            register_policy (default_kek (b_enforce B)))) ks
     in Inr ks))))))"

section \<open>API keys\<close>

definition resolve_bootstrap_hash :: "api_env \<Rightarrow> startup_halt + bytes option" where
  "resolve_bootstrap_hash A =
    (case var_of A ''CITADEL_API_KEY_HASH'' of
       Some v \<Rightarrow>
        let hex_hash = str_trim v in
        if hex_hash = [] then Inr None
        else if length hex_hash \<noteq> 64 then Inl Exit
        else (case ae_hex_decode A hex_hash of Inr h \<Rightarrow> Inr (Some h) | Inl _ \<Rightarrow> Inl Exit)
     | None \<Rightarrow>
        (case var_of A ''CITADEL_API_KEY'' of
           Some v \<Rightarrow>
            let pt = str_trim v in
            if pt = [] then Inr None
            else and_then (map_err (\<lambda>_. Panicked) (hash_api_key A pt)) (\<lambda>h. Inr (Some h))
         | None \<Rightarrow> Inr None))"

definition bootstrap_api_keys ::
  "api_env \<Rightarrow> DateTime \<Rightarrow> string \<Rightarrow> file_read \<Rightarrow> disk \<Rightarrow> (startup_halt + ApiKeyStore \<times> string) \<times> disk" where
  "bootstrap_api_keys A t data_dir f d =
    (let path = data_dir @ ''/api-keys.json'' in
     case ApiKeyStore_load A f of
       None \<Rightarrow> (Inl Exit, d)
     | Some store \<Rightarrow>
        if store \<noteq> [] then
          if list_ex (\<lambda>k. allowed_domains k = None \<and> Admin \<notin> set (ake_scopes k)) store then (Inl Exit, d)
          else (Inr (store, path), d)
        else
          (case resolve_bootstrap_hash A of
             Inl h \<Rightarrow> (Inl h, d)
           | Inr None \<Rightarrow> (Inr (store, path), d)
           | Inr (Some hash_bytes) \<Rightarrow>
              let entry = \<lparr> ake_id = ''ck_bootstrap'', ake_name = ''bootstrap-admin'', key_hash = ae_hex_encode A hash_bytes,
                    ake_scopes = [Admin], ake_created_at = ae_rfc3339 A t, active = True, last_used = None,
                    allowed_domains = None \<rparr>;
                  store = add_key entry store;
                  (_, d) = ApiKeyStore_save A path store d
              in (Inr (store, path), d)))"

section \<open>A start-up\<close>

definition demo_vars :: "(string \<times> string) list" where
  "demo_vars = [(''CITADEL_MASTER_KEY'', concat (replicate 32 ''a0'')), (''CITADEL_REPLAY_STORE'', ''file'')]"

definition demo_boot_env :: "(InMemoryBackend, AnyReplay) kenv" where
  "demo_boot_env =
    \<lparr> k_sb = InMemory, k_rs = AnyStore toy_json \<lparr> rs_claim = \<lambda>_ _ _ s. (s, Inl (ReplayError ''no server'')),
        rs_release = \<lambda>_ _ s. (s, Inl (ReplayError ''no server'')), rs_entry_count = \<lambda>_. 0 \<rparr>,
      k_crypto = toy_crypto, k_prims = toy_prims, k_mldsa = toy_mldsa,
      hex_encode = toy_hex, hex_decode = (\<lambda>s. Inr (toy_unhex s)), hkdf_error = ''invalid length'',
      env_var = var_of (demo_api\<lparr> ae_vars := demo_vars \<rparr>), k_powf = (\<lambda>_ _. 1) \<rparr>"

definition demo_boot :: "InMemoryBackend boot" where
  "demo_boot = \<lparr> b_storage = Inr [], b_replay_read_error = None, b_replay_disk = \<lparr> contents = None, io_results = [] \<rparr>,
     b_replay_json = toy_json, b_redis_ping = (\<lambda>_. Inl ''no server''), b_redis_backend = False, b_enforce = None \<rparr>"

section \<open>Lemmas\<close>

lemma fails_closed_stores:
  assumes "select_replay_store A B clk dir = Inr replay" "var_of A ''CITADEL_ENV'' \<noteq> Some ''development''"
  shows "(\<exists>f. replay = Some (FileStore f) \<and> fr_fail_closed f) \<or> (\<exists>r. replay = Some (RedisStore r) \<and> rr_fail_closed r)"
  using assms
  by (auto simp: select_replay_store_def Let_def FileReplayStore_new_def redis_from_env_def split: option.splits if_splits sum.splits)

lemma new_keystore_master_key:
  "master_key (Keystore_new E st sink rc clk rand) = load_master_key_from_env E"
  "master_key (with_master_key E st sink mk rc clk rand) = Some mk"
  by (simp_all add: Keystore_new_def with_master_key_def base_keystore_def audit_plaintext_mode_if_active_def audit_event_def
      bnd_def ret_def modify_def now_def split: if_splits sum.split)

lemma opened_master_key:
  assumes "open_keystore A E st pilot_config clk rand = Inr ks" "env_var E = var_of A" "hex_decode E = ae_hex_decode A"
    and "pilot_config = None \<Longrightarrow> preflight_master_key A = Inr ()" "var_of A ''CITADEL_ENV'' \<noteq> Some ''development''"
  shows "\<exists>mk. master_key ks = Some mk \<and> length mk = 32"
proof (cases pilot_config)
  case None
  with assms show ?thesis
    by (auto simp: open_keystore_def Let_def new_keystore_master_key load_master_key_from_env_def preflight_master_key_def
        split: option.splits sum.splits if_splits)
next
  case (Some config)
  then obtain mk where "load_root_key (ae_host A) (root_key_file config) = Inr mk"
    "ks = (with_master_key E st [] mk (MemoryStore MemoryReplayStore_with_defaults) clk rand)\<lparr> root_key_provider_name := Some ''linux-file-v1'' \<rparr>"
    using assms(1) by (auto simp: open_keystore_def Provider_open_def Let_def with_root_key_provider_def split: sum.splits)
  then show ?thesis by (auto simp: new_keystore_master_key load_root_key_iff custody_file_def)
qed

lemma register_policy_keeps:
  "master_key (snd (register_policy p k)) = master_key k" "replay_cache (snd (register_policy p k)) = replay_cache k"
  by (simp_all add: register_policy_def audit_event_def bnd_def now_def modify_def)

lemma bnd_register_keeps:
  "(\<And>x. master_key (snd (f x (snd (m k)))) = master_key (snd (m k))) \<Longrightarrow> master_key (snd (bnd m f k)) = master_key (snd (m k))"
  "(\<And>x. replay_cache (snd (f x (snd (m k)))) = replay_cache (snd (m k))) \<Longrightarrow> replay_cache (snd (bnd m f k)) = replay_cache (snd (m k))"
  by (cases "m k"; auto simp: bnd_def split: sum.split)+

lemma create_keystore_parts:
  assumes "create_keystore A E B dir clk rand = Inr ks"
  obtains pilot_config st ks1 replay where "open_keystore A E st pilot_config clk rand = Inr ks1"
    "pilot_config = None \<Longrightarrow> preflight_master_key A = Inr ()" "select_replay_store A B clk dir = Inr replay"
    "master_key ks = master_key ks1" "replay_cache ks = (case replay of Some rc \<Rightarrow> rc | None \<Rightarrow> replay_cache ks1)"
proof -
  from assms obtain pilot_config st ks1 replay where p: "open_keystore A E st pilot_config clk rand = Inr ks1"
    "pilot_config = None \<Longrightarrow> preflight_master_key A = Inr ()" "select_replay_store A B clk dir = Inr replay"
    and k: "ks = snd (bnd (case replay of Some rc \<Rightarrow> set_replay_store rc | None \<Rightarrow> ret ())
       (\<lambda>_. bnd (register_policy (default_dek (b_enforce B))) (\<lambda>_. register_policy (default_kek (b_enforce B)))) ks1 :: (unit + unit) \<times> _)"
    by (auto simp: create_keystore_def Let_def split_def split: if_splits)
  have "master_key ks = master_key ks1" "replay_cache ks = (case replay of Some rc \<Rightarrow> rc | None \<Rightarrow> replay_cache ks1)"
    unfolding k by (simp_all add: bnd_register_keeps register_policy_keeps set_replay_store_def modify_def ret_def split: option.split)
  with p that show thesis by blast
qed

text \<open>A key without domains is an administrator in every table of API keys the server starts with.\<close>

lemma bootstrap_keys_scoped:
  assumes "bootstrap_api_keys A t dir f d = (Inr (store, path), d')" "k \<in> set store" "allowed_domains k = None"
  shows "Admin \<in> set (ake_scopes k)"
  using assms by (auto simp: bootstrap_api_keys_def add_key_def Let_def list_ex_iff split: option.splits if_splits sum.splits prod.splits)

section \<open>Properties\<close>

text \<open>C22: the server fails closed at start-up. When \<open>create_keystore\<close> returns and \<^verbatim>\<open>CITADEL_ENV\<close> is not \<^verbatim>\<open>development\<close>, the keystore
  has a master key of 32 bytes, from the environment or from the root key file, and its replay store is the file or the Redis store
  with failures treated as replays, never the memory store.\<close>

theorem startup_fails_closed:
  assumes "create_keystore A E B dir clk rand = Inr ks" "var_of A ''CITADEL_ENV'' \<noteq> Some ''development''"
    and "env_var E = var_of A" "hex_decode E = ae_hex_decode A"
  shows "(\<exists>mk. master_key ks = Some mk \<and> length mk = 32) \<and>
    (case replay_cache ks of MemoryStore _ \<Rightarrow> False | FileStore f \<Rightarrow> fr_fail_closed f | RedisStore r \<Rightarrow> rr_fail_closed r)"
proof -
  obtain pilot_config st ks1 replay where p: "open_keystore A E st pilot_config clk rand = Inr ks1"
    "pilot_config = None \<Longrightarrow> preflight_master_key A = Inr ()" "select_replay_store A B clk dir = Inr replay"
    "master_key ks = master_key ks1" "replay_cache ks = (case replay of Some rc \<Rightarrow> rc | None \<Rightarrow> replay_cache ks1)"
    using create_keystore_parts [OF assms(1)] by metis
  show ?thesis
    using opened_master_key [OF p(1) assms(3,4) p(2) assms(2)] fails_closed_stores [OF p(3) assms(2)] p(4,5) by auto
qed

theorem startup_fails_closed_witness:
  "\<exists>ks. create_keystore (demo_api\<lparr> ae_vars := demo_vars \<rparr>) demo_boot_env demo_boot ''/d'' (\<lambda>n. n) toy_rnd = Inr ks \<and>
    (\<exists>mk. master_key ks = Some mk \<and> length mk = 32) \<and>
    (case replay_cache ks of MemoryStore _ \<Rightarrow> False | FileStore f \<Rightarrow> fr_fail_closed f | RedisStore r \<Rightarrow> rr_fail_closed r)"
proof -
  let ?A = "demo_api\<lparr> ae_vars := demo_vars \<rparr>"
  have v: "var_of ?A ''CITADEL_PROFILE'' = None" "var_of ?A ''CITADEL_MASTER_KEY'' = Some (concat (replicate 32 ''a0''))"
    "var_of ?A ''CITADEL_REPLAY_STORE'' = Some ''file''" "var_of ?A ''CITADEL_REPLAY_STORE_PATH'' = None"
    "var_of ?A ''CITADEL_ENV'' = None"
    by (simp_all add: var_of_def demo_vars_def)
  have t: "length (toy_unhex (str_trim (concat (replicate 32 ''a0'')))) = 32" by code_simp
  obtain ks where ks: "create_keystore ?A demo_boot_env demo_boot ''/d'' (\<lambda>n. n) toy_rnd = Inr ks"
    using t by (simp add: create_keystore_def preflight_master_key_def select_replay_store_def open_keystore_def v Let_def split_def
        demo_boot_def FileReplayStore_new_def) (simp add: demo_api_def)
  moreover have "env_var demo_boot_env = var_of ?A" "hex_decode demo_boot_env = ae_hex_decode ?A"
    by (simp_all add: demo_boot_env_def demo_api_def)
  ultimately show ?thesis using startup_fails_closed [OF ks] v(5) by auto
qed

end
