(* ===== verification/Spec2Isabelle.thy ===== *)
theory Spec2Isabelle
  imports Sdk Stream_V2 Stream_V3 Hierarchy Threat State_Enforcer Replay_Store Audit_Chain Keystore_Run Signer
    Custody Rate_Limit Api_Isolation File_Backend Backup Audit_Witness Ffi Doctor Key_Graph Startup
begin

text \<open>
  A verification of Citadel, a post-quantum hybrid encryption and key-management system written in Rust.

  \<^bold>\<open>The program.\<close> \<^verbatim>\<open>citadel-envelope\<close> seals messages and streams to a public key of a hybrid KEM
  (X25519+ML-KEM-768 or P-384+ML-KEM-1024) with AES-256-GCM. \<^verbatim>\<open>citadel-core\<close> issues one-shot authorization
  contexts. \<^verbatim>\<open>citadel-keystore\<close> keeps keys in a hierarchy (Root, Domain, KEK, DEK), wraps secret keys under
  their parents, runs their life cycle, encrypts and decrypts with replay protection, adapts policies to a
  threat level, writes an audit chain and makes backups. \<^verbatim>\<open>citadel-signer\<close> signs assertions with ML-DSA-65.
  \<^verbatim>\<open>citadel-api\<close> is the HTTP server over all of it, with API keys confined to domains, and \<^verbatim>\<open>citadel-ffi\<close> the C
  interface of the envelope. A request passes the rate limiter and the authentication of the server, the
  domain check of its handler, the state enforcer, and reaches the keystore with a context that is valid
  once; the keystore uses a storage back end, a replay store, the audit chain and the envelope.

  \<^bold>\<open>Conventions.\<close> Integers are words of their width and wrap as in a release build (a debug build panics instead); \<^verbatim>\<open>usize\<close>, \<^verbatim>\<open>Duration\<close> and \<^verbatim>\<open>Instant\<close> are naturals (the
  latter in nanoseconds), \<^verbatim>\<open>DateTime\<close> an integer number of nanoseconds, \<^verbatim>\<open>f64\<close> a rational rounded after each
  operation. \<^verbatim>\<open>Result\<close> is a sum; a \<^verbatim>\<open>HashMap\<close> whose iteration order matters is an association list. An
  operation on a shared object passes its state; the operations of the keystore are functions \<open>kop\<close> from
  the state to a result and a new state, composed by \<open>bnd\<close>, so every early return is a branch. Clock readings
  and random draws are streams in the state or arguments. Log output is left out.

  \<^bold>\<open>Code outside the repository\<close> is a parameter, and what is used of it a named hypothesis: \<open>crypto_ok\<close> (SHA,
  HKDF, HMAC, AES-GCM: lengths, and decryption inverts encryption on exactly its outputs), \<open>prims_ok\<close> (the
  two curves and ML-KEM; an idealisation in that ML-KEM decapsulates every ciphertext it made, where the standard allows a
  failure with negligible probability), \<open>hex_ok\<close>, \<open>json_ok\<close>, \<open>codec_ok\<close> (hex and JSON round trips), \<open>redis_ok\<close>,
  \<open>mldsa_ok\<close>, \<open>signer_ok\<close>, \<open>witness_ok\<close>, \<open>alloc_ok\<close> (the allocator). Each is met by a concrete
  instance in the theory that states it (\<open>toy_crypto\<close>, \<open>toy_prims\<close>, \<open>bump\<close> and so on), which the
  witnesses use. No hypothesis says that a hash has no collisions or a ciphertext no forgery: a property that rests on it
  names, as its other case, the two inputs at hand that would collide or the ciphertext at hand that would be a forgery.

  \<^bold>\<open>The envelope\<close> (\<^verbatim>\<open>citadel-envelope/src\<close>).
  \<^item> \<open>Citadel_Prelude\<close>: types, results, big-endian integers, association lists, the locale \<open>codec\<close>.
  \<^item> \<open>Crypto_Ext\<close>: the primitives as parameters; \<^verbatim>\<open>aead.rs\<close> and the default back end of \<^verbatim>\<open>backend.rs\<close>.
  \<^item> \<open>Kem\<close>: \<^verbatim>\<open>kem.rs\<close>, \<^verbatim>\<open>kem_p384.rs\<close> and the \<^verbatim>\<open>KemProvider\<close> trait; both suites decapsulate what they encapsulate.
  \<^item> \<open>Wire\<close>: \<^verbatim>\<open>wire.rs\<close>; the v1 codec is a bijection on what it accepts (an interpretation of \<open>codec\<close>).
  \<^item> \<open>Wire_V2\<close>: \<^verbatim>\<open>wire_v2.rs\<close>, \<^verbatim>\<open>kdf.rs\<close>, the engine of \<^verbatim>\<open>envelope.rs\<close>; the decoder accepts exactly the canonical layout, and opening
    accepts exactly what sealing builds, for one associated data and context unless the envelope itself is a forgery or the two
    contexts collide.
  \<^item> \<open>Sdk\<close>: \<^verbatim>\<open>sdk.rs\<close>, \<^verbatim>\<open>aad.rs\<close>: engines, builders, inspection; round trips and isolation of the suites.
  \<^item> \<open>Stream_V2\<close>, \<open>Stream_V3\<close>: \<^verbatim>\<open>stream.rs\<close>, \<^verbatim>\<open>stream_v3.rs\<close>; a decryptor accepts exactly the chunks of an encryptor in its
    state, so reordered, truncated or spliced streams are refused.
  \<^item> \<open>Ffi\<close>: \<^verbatim>\<open>citadel-ffi/src/lib.rs\<close> over an explicit memory; the round trip through raw buffers, and that no sequence
    of calls deallocates what was not allocated with that size.

  \<^bold>\<open>The keystore\<close> (\<^verbatim>\<open>citadel-keystore/src\<close>, \<^verbatim>\<open>citadel-core/src\<close>, \<^verbatim>\<open>citadel-signer/src\<close>).
  \<^item> \<open>Key_Types\<close> (\<^verbatim>\<open>types.rs\<close>), \<open>Policy\<close> (\<^verbatim>\<open>policy.rs\<close>), \<open>F64\<close> (double arithmetic), \<open>Threat\<close> (\<^verbatim>\<open>threat.rs\<close>): life-cycle
    table, verdicts of a policy and when it panics, the reachable states of the assessor, and that a higher
    level never loosens a policy.
  \<^item> \<open>Hierarchy\<close> (\<^verbatim>\<open>hierarchy.rs\<close>): a graph that validates is a hierarchy, and a cycle is reported exactly when there is one.
    \<open>Key_Graph\<close> (\<^verbatim>\<open>graph.rs\<close>) and \<open>Doctor\<close> (\<^verbatim>\<open>doctor.rs\<close>) use it: which keys the forest shows, and what a report without
    failures guarantees.
  \<^item> \<open>Storage\<close> (\<^verbatim>\<open>error.rs\<close>, \<^verbatim>\<open>storage.rs\<close>): the contract of a back end, locale \<open>storage_backend\<close>, interpreted by the in-memory
    one. \<open>File_Backend\<close>: the file back end with a fault at any file operation; its writes are atomic, it
    refines the in-memory back end (locale \<open>key_map\<close>), and a run leaves the state after a prefix of its commands, after all of them
    when nothing fails.
  \<^item> \<open>Replay_Store\<close> (\<^verbatim>\<open>replay_store.rs\<close>, \<^verbatim>\<open>sharded_replay_cache.rs\<close>): the memory, file, Redis and sharded stores; the locale
    \<open>replay_store\<close>, interpreted by the memory, file and sharded ones, says a claim has one winner; claims
    survive a restart.
  \<^item> \<open>State_Enforcer\<close> (\<^verbatim>\<open>state_enforcer.rs\<close>): a context that validates was granted by this enforcer for a live key, its token was drawn less
    than a minute ago and its age is within the configured lifetime and skew; revocation is final.
  \<^item> \<open>Audit_Chain\<close> (\<^verbatim>\<open>audit.rs\<close>), \<open>Audit_Witness\<close> (\<^verbatim>\<open>audit_witness.rs\<close>): two recorded logs with one head hash are the same log, or their
    last differing entries collide; anchors are stable.
  \<^item> \<open>Keystore_Wrap\<close>, \<open>Keystore_Life\<close>, \<open>Keystore_Ops\<close>, \<open>Keystore_Sign\<close>: \<^verbatim>\<open>keystore.rs\<close> in four parts (wrapping; generation, rotation, revocation and the rest of the life cycle;
    encryption and decryption; signing and construction).
    \<open>Keystore_Cascade\<close>: the cascade of a revocation ends and leaves no usable child of what it suspended.
    \<open>Keystore_Crypt\<close>: round trip, one decryption per ciphertext, uniform errors, gating by one-shot
    contexts. \<open>Keystore_Run\<close>: along every run of operations a key moves along the life-cycle table only.
  \<^item> \<open>Signer\<close>: \<^verbatim>\<open>dsa.rs\<close> and \<^verbatim>\<open>assertion.rs\<close>; the signing input determines every field of an assertion but the signature.
  \<^item> \<open>Custody\<close> (\<^verbatim>\<open>root_key_provider.rs\<close> and the master-key checks of the server): exactly which files load as root key.
    \<open>Backup\<close> (\<^verbatim>\<open>backup.rs\<close>, \<^verbatim>\<open>migration.rs\<close>): which byte strings restore, and that a plan covers every key.

  \<^bold>\<open>The server\<close> (\<^verbatim>\<open>citadel-api/src/main.rs\<close>).
  \<^item> \<open>Api_Keys\<close>: scopes, the store of API keys and its administration; a scoped administrator cannot widen authority.
  \<^item> \<open>Rate_Limit\<close>: the token buckets in double arithmetic and their cleanup, with a bound on what they admit in any window of time.
  \<^item> \<open>Startup\<close>: the preflight gate and the bootstrap of API keys; outside development the server does not come up with
    keys in plaintext or with a replay store that forgets.
  \<^item> \<open>Api_Routes\<close>: the handlers and their dispatch. \<open>Api_Guard\<close>: nothing protected happens without an active
    API key of the right scope. \<open>Api_Isolation\<close>: a caller confined to domains changes keys of these
    domains only and reads these and, on the routes for public key material, keys without a domain; decryption answers with the
    plaintext or one fixed error.

  This theory adds what spans formats.

  \<^bold>\<open>Loops and fuel.\<close> All definitions are total and executable. \<open>revoke_cascade\<close> has a fuel argument, since its
  work list can grow; \<open>revoke_cascade_terminates\<close> shows that two more than the number of stored keys is
  enough. The searches along parent chains end by a measure (the ids not yet on the path) or by the depth
  limit of the code.

  \<^bold>\<open>Not modelled.\<close> The AWS-LC back end (calls into that library, behind a feature); the deprecated caches of
  \<^verbatim>\<open>replay.rs\<close>; command-line tools, binaries, fuzz targets and bindings (argument parsing and output around modelled operations); of the server the static pages, health and metrics, the
  timing equalization of decryption, and of the start-up \<^verbatim>\<open>main\<close>, \<^verbatim>\<open>seed_demo_keys\<close> and \<^verbatim>\<open>build_app\<close> apart from its router; \<^verbatim>\<open>FileBackend::new\<close>; the sinks of the audit log other than the chain.
  Concurrency is modelled as far as operations are atomic steps: a run is an interleaving of whole calls,
  which a lock guarantees for the enforcer, the replay stores, the audit chain and each bucket of the limiter, and which the code does not
  guarantee for two keystore calls on one key (both read, then both write). The limiter reads the clock before it takes a lock; its bound is
  for checks that are carried out in the order of their readings. Side channels are outside.
\<close>

section \<open>Properties that span components\<close>

text \<open>C23: the four ciphertext formats are disjoint. No byte string is accepted by two of the v1
  decoder, the legacy v2 stream header decoder, the CTD2 decoder and the V3 stream header parser, so
  a dispatcher cannot confuse one format with another.\<close>

theorem formats_disjoint:
  "(if is_ok (decode_wire bs) then 1 else 0) + (if is_ok (decode_stream_header bs) then 1 else 0) +
   (if is_ok (v2_decode bs) then 1 else 0) + (if is_ok (v3_from_header X P sk bs ctx) then 1 else 0) \<le> (1 :: nat)"
proof -
  have v1: "take 1 bs = [1]" if "is_ok (decode_wire bs)"
    using that by (auto simp: is_ok_iff decode_wire_eq_Inr) (cases bs; auto)
  have st: "take 1 bs = [2]" if "is_ok (decode_stream_header bs)"
    using that by (cases bs) (auto simp: is_ok_iff decode_stream_header_def Let_def wire_consts)
  have v2: "take 4 bs = [67, 84, 68, 50]" if "is_ok (v2_decode bs)"
    using that by (auto simp: is_ok_iff v2_decode_iff starts_with_def MAGIC_eq numeral_eq_Suc dest!: v2_layout_magic)
  have v3: "take 4 bs = [67, 84, 68, 76]" if "is_ok (v3_from_header X P sk bs ctx)"
    using that by (auto simp: is_ok_iff v3_from_header_def STREAM_V3_MAGIC_eq)
  have t: "take 1 bs = [b]" if "take 4 bs = b # xs" for b xs using that by (cases bs) auto
  show ?thesis using v1 st v2 v3 t [of 67 "[84, 68, 50]"] t [of 67 "[84, 68, 76]"] by auto
qed

end
